(* ===== verification/Prelude.thy ===== *)
theory Prelude
  imports Main "HOL-Library.AList"
begin

text \<open>
  Shared vocabulary of the development.

  \<^item> Results of fallible code: \<open>'e + 'a\<close>, with \<open>Inl\<close> for a thrown error, and the
    sequencing operator \<open>rbind\<close> (an \<open>await\<close> whose rejection propagates).
  \<^item> JavaScript's insertion-ordered \<open>Map\<close>: an association list read with \<open>map_of\<close>, written
    with \<open>AList.update\<close> (an existing key keeps its position) and \<open>AList.delete\<close>.
  \<^item> A SQL table: the list of its rows, with the statements the repositories issue
    (\<open>UPDATE .. WHERE .. RETURNING\<close>, \<open>INSERT .. ON CONFLICT\<close>, a lookup by primary key).
    One statement is one atomic step of the model, as it is in the database.
  \<^item> The string methods the sources use, on character lists.

  The facts below are the automation the components share: \<open>table_simps\<close> for the table
  statements, \<open>js_simps\<close> for the rest.
\<close>

named_theorems table_simps \<open>facts about the SQL statements of the model\<close>
named_theorems js_simps \<open>facts about the JavaScript library functions of the model\<close>

section \<open>Results\<close>

definition rbind :: "'e + 'a \<Rightarrow> ('a \<Rightarrow> 'e + 'b) \<Rightarrow> 'e + 'b" where
  "rbind r f = (case r of Inl e \<Rightarrow> Inl e | Inr a \<Rightarrow> f a)"

lemma rbind_simps [simp]: "rbind (Inl e) f = Inl e" "rbind (Inr a) f = f a"
  by (simp_all add: rbind_def)

lemma rbind_Inr_iff: "rbind r f = Inr b \<longleftrightarrow> (\<exists>a. r = Inr a \<and> f a = Inr b)"
  by (cases r) auto

lemma rbind_Inl_iff: "rbind r f = Inl e \<longleftrightarrow> r = Inl e \<or> (\<exists>a. r = Inr a \<and> f a = Inl e)"
  by (cases r) auto

section \<open>JavaScript maps\<close>

type_synonym ('k, 'v) js_map = "('k \<times> 'v) list"

abbreviation js_get :: "('k, 'v) js_map \<Rightarrow> 'k \<Rightarrow> 'v option" where
  "js_get m k \<equiv> map_of m k"

abbreviation js_set :: "'k \<Rightarrow> 'v \<Rightarrow> ('k, 'v) js_map \<Rightarrow> ('k, 'v) js_map" where
  "js_set k v m \<equiv> AList.update k v m"

abbreviation js_del :: "'k \<Rightarrow> ('k, 'v) js_map \<Rightarrow> ('k, 'v) js_map" where
  "js_del k m \<equiv> AList.delete k m"

abbreviation js_has :: "('k, 'v) js_map \<Rightarrow> 'k \<Rightarrow> bool" where
  "js_has m k \<equiv> map_of m k \<noteq> None"

definition js_map_ok :: "('k, 'v) js_map \<Rightarrow> bool" where
  "js_map_ok m \<longleftrightarrow> distinct (map fst m)"

lemma js_get_set [js_simps]: "js_get (js_set k v m) k' = (if k' = k then Some v else js_get m k')"
  by (simp add: update_conv')

lemma js_get_del [js_simps]: "js_get (js_del k m) k' = (if k' = k then None else js_get m k')"
  by (simp add: delete_conv')

lemma js_map_ok_empty [js_simps]: "js_map_ok []"
  by (simp add: js_map_ok_def)

lemma js_map_ok_set [js_simps]: "js_map_ok m \<Longrightarrow> js_map_ok (js_set k v m)"
  by (simp add: js_map_ok_def distinct_update)

lemma js_map_ok_del [js_simps]: "js_map_ok m \<Longrightarrow> js_map_ok (js_del k m)"
  by (simp add: js_map_ok_def distinct_delete)

lemma js_get_filter [js_simps]:
  assumes "js_map_ok m"
  shows "js_get (filter P m) k = (case js_get m k of None \<Rightarrow> None | Some v \<Rightarrow> if P (k, v) then Some v else None)"
  using assms
proof (induction m)
  case Nil
  then show ?case by simp
next
  case (Cons kv m)
  obtain a b where kv: "kv = (a, b)" by fastforce
  have no: "map_of m a = None" and ok: "js_map_ok m"
    using Cons.prems by (auto simp: js_map_ok_def kv map_of_eq_None_iff)
  have "map_of (filter P m) a = None"
    using no by (force simp: map_of_eq_None_iff)
  with Cons.IH [OF ok] no show ?case by (auto simp: kv split: option.splits)
qed

lemma js_map_ok_filter [js_simps]: "js_map_ok m \<Longrightarrow> js_map_ok (filter P m)"
  by (auto simp: js_map_ok_def distinct_map inj_on_def)

section \<open>SQL tables\<close>

text \<open>\<open>UPDATE t SET .. WHERE p\<close>, the rows \<open>RETURNING\<close> gives back, and a lookup by key.\<close>

definition sql_update :: "('r \<Rightarrow> bool) \<Rightarrow> ('r \<Rightarrow> 'r) \<Rightarrow> 'r list \<Rightarrow> 'r list" where
  "sql_update p f t = map (\<lambda>r. if p r then f r else r) t"

definition sql_returning :: "('r \<Rightarrow> bool) \<Rightarrow> ('r \<Rightarrow> 'r) \<Rightarrow> 'r list \<Rightarrow> 'r list" where
  "sql_returning p f t = map f (filter p t)"

definition row_of :: "('r \<Rightarrow> 'k) \<Rightarrow> 'k \<Rightarrow> 'r list \<Rightarrow> 'r option" where
  "row_of key k t = find (\<lambda>r. key r = k) t"

text \<open>\<open>INSERT .. ON CONFLICT (key) DO UPDATE\<close>: a new row, or the old one changed by \<open>f\<close>.\<close>

definition sql_upsert :: "('r \<Rightarrow> 'k) \<Rightarrow> 'r \<Rightarrow> ('r \<Rightarrow> 'r) \<Rightarrow> 'r list \<Rightarrow> 'r list" where
  "sql_upsert key new f t =
     (if row_of key (key new) t = None then t @ [new]
      else sql_update (\<lambda>r. key r = key new) f t)"

text \<open>The primary-key constraint.\<close>

definition keys_ok :: "('r \<Rightarrow> 'k) \<Rightarrow> 'r list \<Rightarrow> bool" where
  "keys_ok key t \<longleftrightarrow> distinct (map key t)"

lemma row_of_simps [simp]:
  "row_of key k [] = None"
  "row_of key k (r # t) = (if key r = k then Some r else row_of key k t)"
  by (simp_all add: row_of_def)

lemma row_of_key: "row_of key k t = Some r \<Longrightarrow> key r = k \<and> r \<in> set t"
  by (auto simp: row_of_def find_Some_iff)

lemma row_of_None_iff: "row_of key k t = None \<longleftrightarrow> k \<notin> key ` set t"
  by (auto simp: row_of_def find_None_iff)

lemma row_of_append: "row_of key k (t @ u) = (case row_of key k t of None \<Rightarrow> row_of key k u | Some r \<Rightarrow> Some r)"
  by (induction t) auto

lemma row_of_sql_update [table_simps]:
  assumes "\<And>r. key (f r) = key r"
  shows "row_of key k (sql_update p f t) = map_option (\<lambda>r. if p r then f r else r) (row_of key k t)"
  by (induction t) (auto simp: sql_update_def assms)

lemma keys_sql_update [table_simps]:
  assumes "\<And>r. key (f r) = key r"
  shows "keys_ok key (sql_update p f t) = keys_ok key t"
proof -
  have "map key (sql_update p f t) = map key t"
    by (simp add: sql_update_def assms)
  then show ?thesis by (simp add: keys_ok_def)
qed

lemma row_of_mem: "keys_ok key t \<Longrightarrow> r \<in> set t \<Longrightarrow> row_of key (key r) t = Some r"
  by (induction t) (auto simp: keys_ok_def)

lemma filter_by_key:
  assumes "keys_ok key t"
  shows "filter (\<lambda>r. key r = k \<and> q r) t =
           (case row_of key k t of None \<Rightarrow> [] | Some r \<Rightarrow> if q r then [r] else [])"
  using assms
proof (induction t)
  case Nil
  then show ?case by simp
next
  case (Cons r t)
  have "filter (\<lambda>r'. key r' = key r \<and> q r') t = []"
    using Cons.prems by (auto simp: keys_ok_def filter_empty_conv image_iff)
  with Cons show ?case by (auto simp: keys_ok_def)
qed

lemma row_of_sql_upsert [table_simps]:
  assumes "\<And>r. key (f r) = key r"
  shows "row_of key k (sql_upsert key new f t) =
     (if k = key new then Some (case row_of key k t of None \<Rightarrow> new | Some r \<Rightarrow> f r)
      else row_of key k t)"
proof (cases "row_of key (key new) t")
  case None
  then show ?thesis
    by (auto simp: sql_upsert_def row_of_append split: option.splits)
next
  case (Some r)
  then show ?thesis
    by (auto simp: sql_upsert_def row_of_sql_update assms
        dest: row_of_key split: option.splits intro!: option.map_ident_strong)
qed

lemma keys_sql_upsert [table_simps]:
  assumes "\<And>r. key (f r) = key r" and "keys_ok key t"
  shows "keys_ok key (sql_upsert key new f t)"
proof (cases "row_of key (key new) t")
  case None
  with assms(2) show ?thesis
    by (auto simp: sql_upsert_def keys_ok_def row_of_None_iff)
next
  case (Some r)
  with assms show ?thesis
    by (simp add: sql_upsert_def keys_sql_update)
qed

text \<open>\<open>new Map(xs.map((x) => [key(x), f(x)]))\<close>: the last entry of a key wins.\<close>

lemma js_get_fold_set [js_simps]:
  "js_get (fold (\<lambda>x m. js_set (key x) (f x) m) xs m) k =
     (case row_of key k (rev xs) of None \<Rightarrow> js_get m k | Some x \<Rightarrow> Some (f x))"
  by (induction xs arbitrary: m) (auto simp: row_of_append js_get_set split: option.splits)

lemma row_of_rev:
  assumes "keys_ok key t"
  shows "row_of key k (rev t) = row_of key k t"
proof (cases "row_of key k t")
  case None
  then show ?thesis by (metis row_of_None_iff set_rev)
next
  case (Some r)
  with assms row_of_key [OF Some] row_of_mem [of key "rev t" r] show ?thesis
    by (simp add: keys_ok_def rev_map [symmetric])
qed

text \<open>A map from the keys of rows to the rows, as \<open>new Map(rows.map(..))\<close> builds it.\<close>

lemma js_get_fold_map:
  assumes "distinct (map key xs)"
  shows "js_get (fold (\<lambda>s m. js_set (key s) (g s) m) xs []) n = map_option g (row_of key n xs)"
proof -
  have "js_get (fold (\<lambda>s m. js_set (key s) (g s) m) xs m) n = (case row_of key n xs of Some s \<Rightarrow> Some (g s) | None \<Rightarrow> js_get m n)" for m
    using assms
  proof (induction xs arbitrary: m)
    case (Cons s xs)
    then have "row_of key (key s) xs = None" by (simp add: row_of_None_iff)
    with Cons show ?case by (auto simp: js_get_set split: option.splits)
  qed simp
  then show ?thesis by (simp split: option.splits)
qed

lemma js_get_fold_rows: "distinct (map key xs) \<Longrightarrow> js_get (fold (\<lambda>s m. js_set (key s) s m) xs []) n = row_of key n xs"
  by (simp add: js_get_fold_map [where g = "\<lambda>s. s"] option.map_ident)

section \<open>Strings\<close>

definition starts_with :: "string \<Rightarrow> string \<Rightarrow> bool" where
  "starts_with p s \<longleftrightarrow> take (length p) s = p"

definition ends_with :: "string \<Rightarrow> string \<Rightarrow> bool" where
  "ends_with p s \<longleftrightarrow> starts_with (rev p) (rev s)"

text \<open>JavaScript white space within the code's character range (\<open>trim\<close>, \<open>\s\<close>).\<close>

definition is_space :: "char \<Rightarrow> bool" where
  "is_space c \<longleftrightarrow> c \<in> set [CHR '' '', CHR 0x09, CHR 0x0A, CHR 0x0B, CHR 0x0C, CHR 0x0D, CHR 0xA0]"

definition js_trim :: "string \<Rightarrow> string" where
  "js_trim s = rev (dropWhile is_space (rev (dropWhile is_space s)))"

definition is_digit :: "char \<Rightarrow> bool" where
  "is_digit c \<longleftrightarrow> c \<in> set ''0123456789''"

text \<open>\<open>s.split(c)\<close> for a one-character separator.\<close>

fun js_split :: "char \<Rightarrow> string \<Rightarrow> string list" where
  "js_split c [] = [[]]"
| "js_split c (x # xs) =
     (if x = c then [] # js_split c xs
      else (case js_split c xs of [] \<Rightarrow> [[x]] | w # ws \<Rightarrow> (x # w) # ws))"

text \<open>\<open>ws.join(sep)\<close>.\<close>

fun js_join :: "string \<Rightarrow> string list \<Rightarrow> string" where
  "js_join sep [] = []"
| "js_join sep [w] = w"
| "js_join sep (w # ws) = w @ sep @ js_join sep ws"

text \<open>\<open>s.includes(p)\<close>.\<close>

fun js_includes :: "string \<Rightarrow> string \<Rightarrow> bool" where
  "js_includes p [] \<longleftrightarrow> p = []"
| "js_includes p (x # xs) \<longleftrightarrow> starts_with p (x # xs) \<or> js_includes p xs"

text \<open>The letters that the code compares without case are ASCII; \<open>Number(s)\<close> for a string of digits.\<close>

definition is_upper :: "char \<Rightarrow> bool" where
  "is_upper c \<longleftrightarrow> c \<in> set ''ABCDEFGHIJKLMNOPQRSTUVWXYZ''"

definition read_nat :: "string \<Rightarrow> nat" where
  "read_nat s = foldl (\<lambda>n c. 10 * n + (of_char c - 48)) 0 s"

definition is_lower :: "char \<Rightarrow> bool" where
  "is_lower c \<longleftrightarrow> c \<in> set ''abcdefghijklmnopqrstuvwxyz''"

definition lower_char :: "char \<Rightarrow> char" where
  "lower_char c = (if is_upper c then ''abcdefghijklmnopqrstuvwxyz'' ! (of_char c - 65) else c)"

definition lower :: "string \<Rightarrow> string" where
  "lower s = map lower_char s"

text \<open>A nullable string is truthy when it is present and not empty.\<close>

definition truthy :: "string option \<Rightarrow> bool" where
  "truthy v \<longleftrightarrow> v \<noteq> None \<and> v \<noteq> Some []"

lemma truthy_simps [simp]: "\<not> truthy None" "truthy (Some s) \<longleftrightarrow> s \<noteq> []"
  by (simp_all add: truthy_def)

lemma starts_with_append [js_simps]: "starts_with p (p @ s)"
  by (simp add: starts_with_def)

lemma starts_with_iff: "starts_with p s \<longleftrightarrow> (\<exists>t. s = p @ t)"
  by (auto simp: starts_with_def) (metis append_take_drop_id)

lemma ends_with_iff: "ends_with p s \<longleftrightarrow> (\<exists>t. s = t @ p)"
proof -
  have "rev s = rev p @ t \<longleftrightarrow> s = rev t @ p" for t
    by (metis rev_append rev_rev_ident)
  then show ?thesis
    by (auto simp: ends_with_def starts_with_iff) (metis rev_rev_ident)
qed

lemma js_split_ne [simp]: "js_split c s \<noteq> []"
  by (cases "(c, s)" rule: js_split.cases) (auto split: list.splits)

section \<open>Numbers as text\<close>

text \<open>\<open>String(n)\<close> for an integer.\<close>

fun show_nat :: "nat \<Rightarrow> string" where
  "show_nat n = (if n < 10 then [''0123456789'' ! n] else show_nat (n div 10) @ [''0123456789'' ! (n mod 10)])"

declare show_nat.simps [simp del]

definition show_int :: "int \<Rightarrow> string" where
  "show_int i = (if i < 0 then CHR ''-'' # show_nat (nat (- i)) else show_nat (nat i))"

end
