(* ===== verification/Deploy_Queue.thy ===== *)
theory Deploy_Queue
  imports Prelude
begin

text \<open>
  \<open>DeployQueue\<close> of \<open>src/src/pipeline/deploy-queue.ts\<close>: a single-slot queue in front of the deploy
  agent. An \<open>acquire\<close> call returns a release closure at once when the slot is free and otherwise
  waits on a promise; a release hands the slot to the first waiter; a 30 minute watchdog and a
  check at the next \<open>acquire\<close> recover from a job that never releases.

  Calls of \<open>acquire\<close> are numbered. A waiter whose promise was resolved runs its continuation
  later (a microtask), so being woken and holding the slot are different states and other calls
  can come in between: \<open>q_woken\<close> holds the resolved promises, \<open>q_holders\<close> the calls whose release
  closure is out and not yet invoked. The two logs \<open>q_arrived\<close> and \<open>q_granted\<close> record the order
  of calls and of grants.

  Shown: as long as no job outlives the 30 minutes, at most one call holds or is about to hold
  the slot, and grants come in the order of the calls. The recovery path breaks this: it clears
  \<open>running\<close> and wakes a waiter, and nothing sets \<open>running\<close> again for that waiter, so the next call
  is let in beside it.
\<close>

section \<open>State and methods\<close>

definition STALE_JOB_MS :: int where
  "STALE_JOB_MS = 30 * 60 * 1000"

record deploy_queue =
  q_queue :: "nat list"
  q_running :: bool
  q_acquiredAt :: "int option"
  q_watchdog :: "int option"
  q_woken :: "nat list"
  q_holders :: "nat list"
  q_arrived :: "nat list"
  q_granted :: "(nat \<times> int) list"

definition new_queue :: deploy_queue where
  "new_queue = \<lparr>q_queue = [], q_running = False, q_acquiredAt = None, q_watchdog = None,
     q_woken = [], q_holders = [], q_arrived = [], q_granted = []\<rparr>"

definition clearWatchdog :: "deploy_queue \<Rightarrow> deploy_queue" where
  "clearWatchdog d = d\<lparr>q_watchdog := None\<rparr>"

definition startWatchdog :: "int \<Rightarrow> deploy_queue \<Rightarrow> deploy_queue" where
  "startWatchdog now d = (clearWatchdog d)\<lparr>q_watchdog := Some (now + STALE_JOB_MS)\<rparr>"

definition forceReleaseCurrent :: "deploy_queue \<Rightarrow> deploy_queue" where
  "forceReleaseCurrent d =
     (let d1 = (clearWatchdog d)\<lparr>q_running := False, q_acquiredAt := None\<rparr>
      in case q_queue d1 of
           [] \<Rightarrow> d1
         | n # ns \<Rightarrow> d1\<lparr>q_queue := ns, q_woken := q_woken d1 @ [n]\<rparr>)"

definition createRelease :: "nat \<Rightarrow> int \<Rightarrow> deploy_queue \<Rightarrow> deploy_queue" where
  "createRelease i now d =
     (let d1 = startWatchdog now d
      in d1\<lparr>q_holders := q_holders d1 @ [i], q_granted := q_granted d1 @ [(i, now)]\<rparr>)"

definition is_stale :: "int \<Rightarrow> deploy_queue \<Rightarrow> bool" where
  "is_stale now d \<longleftrightarrow> q_running d \<and>
     (case q_acquiredAt d of None \<Rightarrow> False | Some t \<Rightarrow> STALE_JOB_MS < now - t)"

text \<open>The part of \<open>acquire\<close> up to its return or its \<open>await\<close>.\<close>

definition acquire :: "nat \<Rightarrow> int \<Rightarrow> deploy_queue \<Rightarrow> deploy_queue" where
  "acquire i now d =
     (let d0 = d\<lparr>q_arrived := q_arrived d @ [i]\<rparr>;
          d1 = (if is_stale now d0 then forceReleaseCurrent d0 else d0)
      in if \<not> q_running d1
         then createRelease i now (d1\<lparr>q_running := True, q_acquiredAt := Some now\<rparr>)
         else d1\<lparr>q_queue := q_queue d1 @ [i]\<rparr>)"

text \<open>The continuation of a waiting \<open>acquire\<close> after its promise resolved.\<close>

definition resume :: "nat \<Rightarrow> int \<Rightarrow> deploy_queue \<Rightarrow> deploy_queue" where
  "resume i now d =
     createRelease i now (d\<lparr>q_woken := remove1 i (q_woken d), q_acquiredAt := Some now\<rparr>)"

text \<open>The release closure of call \<open>i\<close>: a second invocation does nothing.\<close>

definition release :: "nat \<Rightarrow> deploy_queue \<Rightarrow> deploy_queue" where
  "release i d =
     (if i \<notin> set (q_holders d) then d
      else let d1 = clearWatchdog (d\<lparr>q_holders := remove1 i (q_holders d)\<rparr>)
           in case q_queue d1 of
                [] \<Rightarrow> d1\<lparr>q_running := False, q_acquiredAt := None\<rparr>
              | n # ns \<Rightarrow> d1\<lparr>q_queue := ns, q_woken := q_woken d1 @ [n]\<rparr>)"

text \<open>The watchdog's timer callback.\<close>

definition watchdog_fires :: "deploy_queue \<Rightarrow> deploy_queue" where
  "watchdog_fires d = (if q_running d then forceReleaseCurrent d else d)"

definition getQueueLength :: "deploy_queue \<Rightarrow> nat" where
  "getQueueLength d = length (q_queue d)"

definition isRunning :: "deploy_queue \<Rightarrow> bool" where
  "isRunning d = q_running d"

definition getPosition :: "deploy_queue \<Rightarrow> int" where
  "getPosition d = (if q_running d then int (length (q_queue d)) else -1)"

section \<open>Runs\<close>

datatype queue_event = Acquire nat int | Resume nat int | Release nat | Watchdog int

inductive queue_step :: "deploy_queue \<Rightarrow> queue_event \<Rightarrow> deploy_queue \<Rightarrow> bool" where
  acquire: "i \<notin> set (q_arrived d) \<Longrightarrow> queue_step d (Acquire i now) (acquire i now d)"
| resume: "i \<in> set (q_woken d) \<Longrightarrow> queue_step d (Resume i now) (resume i now d)"
| release: "queue_step d (Release i) (release i d)"
| watchdog: "q_watchdog d = Some t \<Longrightarrow> t \<le> now \<Longrightarrow> queue_step d (Watchdog now) (watchdog_fires d)"

inductive queue_reachable :: "deploy_queue \<Rightarrow> bool" where
  start: "queue_reachable new_queue"
| step: "queue_reachable d \<Longrightarrow> queue_step d e d' \<Longrightarrow> queue_reachable d'"

text \<open>A step in which no running job has exceeded its 30 minutes.\<close>

fun timely :: "deploy_queue \<Rightarrow> queue_event \<Rightarrow> bool" where
  "timely d (Acquire i now) \<longleftrightarrow> \<not> is_stale now d"
| "timely d (Watchdog now) \<longleftrightarrow> False"
| "timely d _ \<longleftrightarrow> True"

inductive timely_reachable :: "deploy_queue \<Rightarrow> bool" where
  start: "timely_reachable new_queue"
| step: "timely_reachable d \<Longrightarrow> queue_step d e d' \<Longrightarrow> timely d e \<Longrightarrow> timely_reachable d'"

inductive_cases acquire_stepE: "queue_step d (Acquire i now) d'"
inductive_cases resume_stepE: "queue_step d (Resume i now) d'"
inductive_cases release_stepE: "queue_step d (Release i) d'"

definition queue_inv :: "deploy_queue \<Rightarrow> bool" where
  "queue_inv d \<longleftrightarrow>
     length (q_holders d) + length (q_woken d) = (if q_running d then 1 else 0) \<and>
     (\<not> q_running d \<longrightarrow> q_queue d = []) \<and>
     map fst (q_granted d) @ q_woken d @ q_queue d = q_arrived d"

lemmas queue_defs = acquire_def resume_def release_def createRelease_def startWatchdog_def
  clearWatchdog_def forceReleaseCurrent_def Let_def

lemma queue_inv_acquire: "queue_inv d \<Longrightarrow> \<not> is_stale now d \<Longrightarrow> queue_inv (acquire i now d)"
  by (auto simp: queue_inv_def queue_defs is_stale_def)

lemma single_woken:
  assumes "queue_inv d" and "i \<in> set (q_woken d)"
  shows "q_woken d = [i]" and "q_holders d = []" and "q_running d"
  using assms by (cases "q_woken d"; auto simp: queue_inv_def split: if_splits)+

lemma single_holder:
  assumes "queue_inv d" and "i \<in> set (q_holders d)"
  shows "q_holders d = [i]" and "q_woken d = []" and "q_running d"
  using assms by (cases "q_holders d"; auto simp: queue_inv_def split: if_splits)+

lemma queue_inv_resume:
  assumes "queue_inv d" and "i \<in> set (q_woken d)"
  shows "queue_inv (resume i now d)"
  using assms(1) by (simp add: single_woken [OF assms] queue_inv_def queue_defs)

lemma queue_inv_release:
  assumes "queue_inv d"
  shows "queue_inv (release i d)"
proof (cases "i \<in> set (q_holders d)")
  case True
  show ?thesis
    using assms by (cases "q_queue d") (simp_all add: single_holder [OF assms True] queue_inv_def queue_defs)
next
  case False
  with assms show ?thesis by (simp add: release_def)
qed

lemma timely_reachable_inv: "timely_reachable d \<Longrightarrow> queue_inv d"
proof (induction rule: timely_reachable.induct)
  case start
  show ?case by (simp add: queue_inv_def new_queue_def)
next
  case (step d e d')
  then show ?case
    by (cases e) (auto elim!: acquire_stepE resume_stepE release_stepE
        intro: queue_inv_acquire queue_inv_resume queue_inv_release)
qed

section \<open>Properties\<close>

text \<open>
  C29. One job at a time, first come first served. In every run in which no job outlives the
  30 minute limit, at most one \<open>acquire\<close> call holds the slot or has been woken to take it, the
  \<open>running\<close> flag says whether there is one, nobody waits for a free slot, and the calls granted
  so far, the woken one and the waiting ones are, in this order, exactly the calls made.
\<close>

theorem deploy_queue_fifo_exclusion:
  assumes "timely_reachable d"
  shows "length (q_holders d) + length (q_woken d) = (if isRunning d then 1 else 0) \<and>
     (\<not> isRunning d \<longrightarrow> getQueueLength d = 0) \<and>
     map fst (q_granted d) @ q_woken d @ q_queue d = q_arrived d"
  using timely_reachable_inv [OF assms] by (simp add: queue_inv_def isRunning_def getQueueLength_def)

definition queue_example :: deploy_queue where
  "queue_example = acquire 1 7 (acquire 0 5 new_queue)"

lemma queue_example_reachable: "timely_reachable queue_example"
proof -
  have "timely_reachable (acquire 0 5 new_queue)"
    by (rule timely_reachable.step [OF timely_reachable.start queue_step.acquire])
      (simp_all add: new_queue_def is_stale_def)
  then show ?thesis unfolding queue_example_def
    by (rule timely_reachable.step [OF _ queue_step.acquire])
      (simp_all add: new_queue_def queue_defs is_stale_def STALE_JOB_MS_def)
qed

theorem deploy_queue_fifo_exclusion_witness:
  "timely_reachable queue_example \<and> q_holders queue_example = [0] \<and> q_queue queue_example = [1] \<and>
   map fst (q_granted queue_example) @ q_woken queue_example @ q_queue queue_example = q_arrived queue_example"
  using deploy_queue_fifo_exclusion [OF queue_example_reachable] queue_example_reachable
  by (simp add: queue_example_def new_queue_def queue_defs is_stale_def STALE_JOB_MS_def)

text \<open>
  Hand-over. When the holder of the slot releases it while others wait, the first waiter is
  woken, and once its continuation ran it is the only holder; invoking the same release closure
  again changes nothing.
\<close>

theorem deploy_queue_handover:
  assumes "timely_reachable d" and "i \<in> set (q_holders d)" and "q_queue d = n # ns"
  shows "q_woken (release i d) = [n] \<and> q_queue (release i d) = ns \<and>
     q_holders (resume n now (release i d)) = [n] \<and> isRunning (resume n now (release i d)) \<and>
     release i (release i d) = release i d"
  using assms(2,3)
  by (simp add: single_holder [OF timely_reachable_inv [OF assms(1)] assms(2)] queue_defs isRunning_def)

theorem deploy_queue_handover_witness:
  "timely_reachable queue_example \<and> q_holders (resume 1 9 (release 0 queue_example)) = [1]"
  using deploy_queue_handover [OF queue_example_reachable, of 0 1 "[]" 9] queue_example_reachable
  by (simp add: queue_example_def new_queue_def queue_defs is_stale_def STALE_JOB_MS_def)

text \<open>
  The stale-job recovery does not keep jobs apart. There is a run in which job 0 outlives the
  limit while job 1 waits; the watchdog frees the slot and wakes job 1, which then holds it while
  \<open>isRunning\<close> is false, and a third \<open>acquire\<close> one millisecond later is granted at once. Jobs 1 and
  2 then hold the slot together, both well within their 30 minutes.
\<close>

theorem deploy_queue_watchdog_double_grant:
  "\<exists>d d'. queue_reachable d \<and> q_holders d = [0, 1] \<and> \<not> isRunning d \<and>
     queue_step d (Acquire 2 1800006) d' \<and> {1, 2} \<subseteq> set (q_holders d') \<and>
     {(1, 1800005), (2, 1800006)} \<subseteq> set (q_granted d')"
proof -
  let ?d0 = "queue_example" let ?d1 = "watchdog_fires ?d0" let ?d2 = "resume 1 1800005 ?d1"
  note ev = queue_example_def watchdog_fires_def new_queue_def queue_defs is_stale_def STALE_JOB_MS_def
  have "queue_reachable (acquire 0 5 new_queue)"
    by (rule queue_reachable.step [OF queue_reachable.start queue_step.acquire]) (simp add: new_queue_def)
  then have "queue_reachable ?d0" unfolding queue_example_def
    by (rule queue_reachable.step [OF _ queue_step.acquire]) (simp add: ev)
  moreover have "queue_step ?d0 (Watchdog 1800005) ?d1"
    by (rule queue_step.watchdog [of _ 1800005]) (simp_all add: ev)
  ultimately have "queue_reachable ?d1" by (rule queue_reachable.step)
  moreover have "queue_step ?d1 (Resume 1 1800005) ?d2"
    by (rule queue_step.resume) (simp add: ev)
  ultimately have "queue_reachable ?d2" by (rule queue_reachable.step)
  moreover have "queue_step ?d2 (Acquire 2 1800006) (acquire 2 1800006 ?d2)"
    by (rule queue_step.acquire) (simp add: ev)
  ultimately show ?thesis
    by (intro exI [of _ ?d2] exI [of _ "acquire 2 1800006 ?d2"]) (simp add: ev isRunning_def)
qed

end
