(* ===== verification/Topology.thy ===== *)
theory Topology
  imports Prelude "HOL-Library.List_Lexorder" "HOL-Library.Char_ord"
begin

text \<open>
  \<open>buildTopology\<close> and \<open>validateTopology\<close> of \<open>DeployOrchestrator\<close>
  (\<open>src/src/pipeline/orchestrator.ts\<close>): the deployment order of a multi-service project by
  Kahn's algorithm, layer by layer, and the checks on ports and references.

  The algorithm is modelled as written: the in-degree and adjacency maps, the inner loops that
  decrement degrees and collect the next layer, the sort by declaration order, the count of
  visited services. The loop is a \<^theory_text>\<open>function\<close> whose termination measure is the sum of the
  positive in-degrees. Shown: a returned order contains every service exactly once and puts
  every dependency in an earlier layer, and the cycle error is thrown exactly for cyclic
  dependency graphs.
\<close>

section \<open>Data\<close>

record service_node =
  n_name :: string
  n_dockerfile :: "string option"
  n_composePath :: "string option"
  n_dependsOn :: "string list"
  n_port :: "int option"
  n_envVars :: "(string, string) js_map option"

record service_topology =
  t_services :: "service_node list"
  t_executionOrder :: "string list list"
  t_repoUrl :: string
  t_branch :: "string option"
  t_clonePath :: string
  t_commitSha :: string

section \<open>Kahn's algorithm\<close>

fun find_duplicate :: "string list \<Rightarrow> service_node list \<Rightarrow> string option" where
  "find_duplicate nameSet [] = None"
| "find_duplicate nameSet (s # ss) =
     (if n_name s \<in> set nameSet then Some (n_name s) else find_duplicate (n_name s # nameSet) ss)"

definition missingDependencies :: "service_node list \<Rightarrow> string list" where
  "missingDependencies svs =
     concat (map (\<lambda>s. map (\<lambda>d. n_name s @ '' -> '' @ d)
       (filter (\<lambda>d. d \<notin> set (map n_name svs)) (n_dependsOn s))) svs)"

definition inDegrees :: "service_node list \<Rightarrow> (string, int) js_map" where
  "inDegrees svs = fold (\<lambda>s m. js_set (n_name s) (int (length (n_dependsOn s))) m) svs []"

definition push_dependent :: "string \<Rightarrow> string \<Rightarrow> (string, string list) js_map \<Rightarrow> (string, string list) js_map" where
  "push_dependent name dependency m =
     (case js_get m dependency of None \<Rightarrow> m | Some dependents \<Rightarrow> js_set dependency (dependents @ [name]) m)"

definition adjacency :: "service_node list \<Rightarrow> (string, string list) js_map" where
  "adjacency svs =
     fold (\<lambda>s m. fold (push_dependent (n_name s)) (n_dependsOn s) m) svs
       (fold (\<lambda>s m. js_set (n_name s) [] m) svs [])"

definition orderIndex :: "service_node list \<Rightarrow> (string, nat) js_map" where
  "orderIndex svs = fold (\<lambda>(i, s) m. js_set (n_name s) i m) (zip [0..<length svs] svs) []"

definition degree :: "(string, int) js_map \<Rightarrow> string \<Rightarrow> int" where
  "degree m n = (case js_get m n of Some k \<Rightarrow> k | None \<Rightarrow> 0)"

text \<open>The body of the inner loops: one dependent of one service of the current layer.\<close>

definition relax :: "string \<Rightarrow> (string, int) js_map \<times> string list \<Rightarrow> (string, int) js_map \<times> string list" where
  "relax dependent st =
     (let nextInDegree = degree (fst st) dependent - 1
      in (js_set dependent nextInDegree (fst st),
          if nextInDegree = 0 then snd st @ [dependent] else snd st))"

definition by_index :: "(string, nat) js_map \<Rightarrow> string \<Rightarrow> nat" where
  "by_index m n = (case js_get m n of Some i \<Rightarrow> i | None \<Rightarrow> 0)"

definition next_layer :: "(string, string list) js_map \<Rightarrow> string list \<Rightarrow> (string, int) js_map
    \<Rightarrow> (string, int) js_map \<times> string list" where
  "next_layer adj layer deg =
     fold relax (concat (map (\<lambda>n. case js_get adj n of Some ds \<Rightarrow> ds | None \<Rightarrow> []) layer)) (deg, [])"

text \<open>The sum of the positive in-degrees drops whenever a service enters the next layer.\<close>

definition degree_sum :: "(string, int) js_map \<Rightarrow> nat" where
  "degree_sum m = sum_list (map (\<lambda>(_, k). nat k) m)"

lemma degree_sum_set:
  "degree_sum (js_set n v m) + nat (degree m n) = degree_sum m + nat v"
  by (induction m) (auto simp: degree_sum_def degree_def)

lemma relax_sum:
  "degree_sum (fst (relax n st)) + length (snd (relax n st)) \<le> degree_sum (fst st) + length (snd st)"
  using degree_sum_set [of n "degree (fst st) n - 1" "fst st"]
  by (auto simp: relax_def Let_def)

lemma fold_relax_sum:
  "degree_sum (fst (fold relax es st)) + length (snd (fold relax es st)) \<le> degree_sum (fst st) + length (snd st)"
proof (induction es arbitrary: st)
  case Nil
  show ?case by simp
next
  case (Cons e es)
  show ?case using Cons.IH [of "relax e st"] relax_sum [of e st] by simp
qed

lemma next_layer_sum:
  assumes "next_layer adj layer deg = (deg', nextLayer)"
  shows "degree_sum deg' + length nextLayer \<le> degree_sum deg"
  using fold_relax_sum [of "concat (map (\<lambda>n. case js_get adj n of Some ds \<Rightarrow> ds | None \<Rightarrow> []) layer)" "(deg, [])"]
    assms by (simp add: next_layer_def)

function kahn_loop :: "(string, string list) js_map \<Rightarrow> (string, nat) js_map \<Rightarrow> string list
    \<Rightarrow> (string, int) js_map \<Rightarrow> string list list \<times> nat" where
  "kahn_loop adj idx currentLayer deg =
     (if currentLayer = [] then ([], 0)
      else let (deg', nextLayer) = next_layer adj currentLayer deg;
               (executionOrder, visitedCount) = kahn_loop adj idx (sort_key (by_index idx) nextLayer) deg'
           in (currentLayer # executionOrder, length currentLayer + visitedCount))"
  by pat_completeness auto
termination
proof (relation "measure (\<lambda>(adj, idx, layer, deg). degree_sum deg + (if layer = [] then 0 else 1))", goal_cases)
  case 1
  show ?case by simp
next
  case (2 adj idx layer deg x deg' nextLayer)
  have "degree_sum deg' + length nextLayer \<le> degree_sum deg"
    using next_layer_sum [of adj layer deg deg' nextLayer] 2 by simp
  with 2 show ?case by (cases nextLayer) auto
qed

declare kahn_loop.simps [simp del]

definition buildTopology ::
  "service_node list \<Rightarrow> string \<Rightarrow> string \<Rightarrow> string \<Rightarrow> string option \<Rightarrow> string + service_topology" where
  "buildTopology svs repoUrl clonePath commitSha branch =
     (case find_duplicate [] svs of
        Some n \<Rightarrow> Inl (''Duplicate service name: '' @ n)
      | None \<Rightarrow>
          if missingDependencies svs \<noteq> []
          then Inl (''Missing dependency references: '' @ js_join '', '' (sort (missingDependencies svs)))
          else
            let idx = orderIndex svs;
                layer = sort_key (by_index idx) (map n_name (filter (\<lambda>s. degree (inDegrees svs) (n_name s) = 0) svs));
                (executionOrder, visitedCount) = kahn_loop (adjacency svs) idx layer (inDegrees svs)
            in if visitedCount \<noteq> length svs
               then Inl ''Circular dependency detected in service topology''
               else Inr \<lparr>t_services = svs, t_executionOrder = executionOrder, t_repoUrl = repoUrl,
                      t_branch = branch, t_clonePath = clonePath, t_commitSha = commitSha\<rparr>)"

section \<open>Validation\<close>

definition port_errors ::
  "int list \<Rightarrow> service_node \<Rightarrow> (int, string) js_map \<Rightarrow> string list \<times> (int, string) js_map" where
  "port_errors usedPorts s seenPorts =
     (case n_port s of
        None \<Rightarrow> ([], seenPorts)
      | Some port \<Rightarrow>
          let (es, seen') =
            (case js_get seenPorts port of
               Some conflictingService \<Rightarrow>
                 ([''Port conflict in topology: '' @ n_name s @ '' and '' @ conflictingService @
                    '' both request '' @ show_int port], seenPorts)
             | None \<Rightarrow> ([], js_set port (n_name s) seenPorts))
          in (es @ (if port \<in> set usedPorts
                    then [''Port conflict with existing services: '' @ n_name s @
                          '' requests in-use port '' @ show_int port]
                    else []), seen'))"

fun validate_services ::
  "int list \<Rightarrow> string list \<Rightarrow> (int, string) js_map \<Rightarrow> service_node list \<Rightarrow> string list" where
  "validate_services usedPorts names seenPorts [] = []"
| "validate_services usedPorts names seenPorts (s # ss) =
     (let missing = map (\<lambda>d. ''Missing dependency: '' @ n_name s @ '' depends on unknown service '' @ d)
                      (filter (\<lambda>d. d \<notin> set names) (n_dependsOn s));
          (es, seen') = port_errors usedPorts s seenPorts
      in missing @ es @ validate_services usedPorts names seen' ss)"

definition validateTopology :: "service_topology \<Rightarrow> int list \<Rightarrow> bool \<times> string list" where
  "validateTopology topology usedPorts =
     (if t_services topology = []
      then (False, [''Topology is empty: at least one service is required''])
      else let errors = validate_services usedPorts (map n_name (t_services topology)) [] (t_services topology)
           in (errors = [], errors))"

section \<open>The maps\<close>

text \<open>The dependencies of a service by name, and the dependency graph (dependency, dependent).\<close>

definition deps_of :: "service_node list \<Rightarrow> string \<Rightarrow> string list" where
  "deps_of svs n = (case row_of n_name n svs of Some s \<Rightarrow> n_dependsOn s | None \<Rightarrow> [])"

definition dep_rel :: "service_node list \<Rightarrow> (string \<times> string) set" where
  "dep_rel svs = {(d, n). d \<in> set (deps_of svs n)}"

definition names :: "service_node list \<Rightarrow> string set" where
  "names svs = n_name ` set svs"

definition well_named :: "service_node list \<Rightarrow> bool" where
  "well_named svs \<longleftrightarrow> keys_ok n_name svs \<and> (\<forall>n. set (deps_of svs n) \<subseteq> names svs)"

lemma deps_of_mem: "keys_ok n_name svs \<Longrightarrow> s \<in> set svs \<Longrightarrow> deps_of svs (n_name s) = n_dependsOn s"
  by (simp add: deps_of_def row_of_mem)

lemma deps_of_outside: "n \<notin> names svs \<Longrightarrow> deps_of svs n = []"
  using row_of_None_iff [of n_name n svs] by (simp add: deps_of_def names_def)

lemma deps_of_iff:
  assumes "keys_ok n_name svs"
  shows "(\<exists>s \<in> set svs. n_name s = n \<and> d \<in> set (n_dependsOn s)) \<longleftrightarrow> d \<in> set (deps_of svs n)"
proof
  assume "\<exists>s \<in> set svs. n_name s = n \<and> d \<in> set (n_dependsOn s)"
  then show "d \<in> set (deps_of svs n)" using deps_of_mem [OF assms] by auto
next
  assume "d \<in> set (deps_of svs n)"
  then show "\<exists>s \<in> set svs. n_name s = n \<and> d \<in> set (n_dependsOn s)"
    using row_of_key [of n_name n svs] by (cases "row_of n_name n svs") (auto simp: deps_of_def)
qed

lemma find_duplicate_None: "find_duplicate seen svs = None \<longleftrightarrow> keys_ok n_name svs \<and> names svs \<inter> set seen = {}"
  by (induction svs arbitrary: seen) (auto simp: keys_ok_def names_def)

lemma missing_empty:
  assumes "keys_ok n_name svs"
  shows "missingDependencies svs = [] \<longleftrightarrow> (\<forall>n. set (deps_of svs n) \<subseteq> names svs)"
proof
  assume "missingDependencies svs = []"
  then have "set (n_dependsOn s) \<subseteq> names svs" if "s \<in> set svs" for s
    using that by (auto simp: missingDependencies_def names_def filter_empty_conv)
  then have "set (deps_of svs n) \<subseteq> names svs" for n
    using row_of_key [of n_name n svs] by (cases "row_of n_name n svs") (auto simp: deps_of_def)
  then show "\<forall>n. set (deps_of svs n) \<subseteq> names svs" ..
next
  assume "\<forall>n. set (deps_of svs n) \<subseteq> names svs"
  then have "set (n_dependsOn s) \<subseteq> names svs" if "s \<in> set svs" for s
    using that deps_of_mem [OF assms that] by metis
  then show "missingDependencies svs = []"
    by (fastforce simp: missingDependencies_def names_def filter_empty_conv)
qed

lemma fold_set_lookup:
  assumes "distinct (map f xs)"
  shows "js_get (fold (\<lambda>x m. js_set (f x) (g x) m) xs m0) k =
     (case row_of f k xs of Some x \<Rightarrow> Some (g x) | None \<Rightarrow> js_get m0 k)"
  using assms
proof (induction xs arbitrary: m0)
  case Nil
  then show ?case by simp
next
  case (Cons x xs)
  then show ?case
    by (auto simp: js_simps row_of_None_iff [symmetric] split: option.splits)
qed

lemma degree_inDegrees:
  assumes "keys_ok n_name svs"
  shows "degree (inDegrees svs) n = int (length (deps_of svs n))"
  using fold_set_lookup [of n_name svs "\<lambda>s. int (length (n_dependsOn s))" "[]" n] assms
  by (auto simp: degree_def inDegrees_def deps_of_def keys_ok_def split: option.splits)

lemma push_dependents_count:
  assumes "js_get m n = Some ds"
  shows "\<exists>ds'. js_get (fold (push_dependent x) es m) n = Some ds' \<and>
     count_list ds' y = count_list ds y + (if y = x then count_list es n else 0)"
  using assms
proof (induction es arbitrary: m ds)
  case Nil
  then show ?case by simp
next
  case (Cons e es)
  have "js_get (push_dependent x e m) n = Some (if e = n then ds @ [x] else ds)"
    using Cons.prems by (auto simp: push_dependent_def js_simps split: option.splits)
  from Cons.IH [OF this] show ?case by auto
qed

lemma adjacency_fold_count:
  assumes "js_get m n = Some ds"
  shows "\<exists>ds'. js_get (fold (\<lambda>s m. fold (push_dependent (n_name s)) (n_dependsOn s) m) xs m) n = Some ds' \<and>
     count_list ds' y = count_list ds y + sum_list (map (\<lambda>s. if n_name s = y then count_list (n_dependsOn s) n else 0) xs)"
  using assms
proof (induction xs arbitrary: m ds)
  case Nil
  then show ?case by simp
next
  case (Cons s xs)
  obtain ds1 where 1: "js_get (fold (push_dependent (n_name s)) (n_dependsOn s) m) n = Some ds1"
    "count_list ds1 y = count_list ds y + (if y = n_name s then count_list (n_dependsOn s) n else 0)"
    using push_dependents_count [OF Cons.prems] by blast
  from Cons.IH [OF 1(1)] 1(2) show ?case by auto
qed

lemma sum_by_name:
  assumes "keys_ok n_name xs"
  shows "sum_list (map (\<lambda>s. if n_name s = y then count_list (n_dependsOn s) n else 0) xs) = count_list (deps_of xs y) n"
  using assms
proof (induction xs)
  case Nil
  then show ?case by (simp add: deps_of_def)
next
  case (Cons s xs)
  have "n_name t \<noteq> n_name s" if "t \<in> set xs" for t
    using Cons.prems that by (metis image_eqI keys_ok_def distinct.simps(2) list.simps(9) set_map)
  then have "sum_list (map (\<lambda>t. if n_name t = n_name s then count_list (n_dependsOn t) n else 0) xs)
      = sum_list (map (\<lambda>_. 0) xs)"
    by (intro arg_cong [where f = sum_list] map_cong) auto
  moreover have "row_of n_name (n_name s) xs = None" "keys_ok n_name xs"
    using Cons.prems by (auto simp: keys_ok_def row_of_None_iff)
  ultimately show ?case
    using Cons.IH by (cases "n_name s = y") (auto simp: deps_of_def)
qed

lemma adjacency_count:
  assumes "keys_ok n_name svs" and "n \<in> names svs"
  shows "\<exists>ds. js_get (adjacency svs) n = Some ds \<and> count_list ds y = count_list (deps_of svs y) n"
proof -
  obtain s where "row_of n_name n svs = Some s"
    using assms(2) row_of_None_iff [of n_name n svs] by (auto simp: names_def)
  then have "js_get (fold (\<lambda>s m. js_set (n_name s) [] m) svs []) n = Some ([] :: string list)"
    using fold_set_lookup [of n_name svs "\<lambda>s. []" "[]" n] assms(1) by (simp add: keys_ok_def)
  from adjacency_fold_count [OF this, of svs y] show ?thesis
    using sum_by_name [OF assms(1)] by (simp add: adjacency_def)
qed

section \<open>One layer\<close>

lemma fold_relax:
  "\<exists>ns. snd (fold relax es (m, nx)) = nx @ ns \<and> distinct ns \<and>
     set ns = {n. 0 < degree m n \<and> degree m n \<le> int (count_list es n)} \<and>
     (\<forall>n. degree (fst (fold relax es (m, nx))) n = degree m n - int (count_list es n))"
proof (induction es arbitrary: m nx)
  case Nil
  show ?case by auto
next
  case (Cons e es)
  let ?m = "js_set e (degree m e - 1) m" and ?nx = "if degree m e = 1 then nx @ [e] else nx"
  have deg: "degree (js_set e v m) n = (if n = e then v else degree m n)" for v n
    by (simp add: degree_def js_simps)
  have step: "fold relax (e # es) (m, nx) = fold relax es (?m, ?nx)"
    by (simp add: relax_def Let_def)
  obtain ns where ns: "snd (fold relax es (?m, ?nx)) = ?nx @ ns" "distinct ns"
    "set ns = {n. 0 < degree ?m n \<and> degree ?m n \<le> int (count_list es n)}"
    "\<forall>n. degree (fst (fold relax es (?m, ?nx))) n = degree ?m n - int (count_list es n)"
    using Cons.IH by blast
  let ?ns = "if degree m e = 1 then e # ns else ns"
  have "snd (fold relax (e # es) (m, nx)) = nx @ ?ns" unfolding step ns(1) by simp
  moreover have "distinct ?ns" using ns(2,3) by (auto simp: deg)
  moreover have "n \<in> set ?ns \<longleftrightarrow> 0 < degree m n \<and> degree m n \<le> int (count_list (e # es) n)" for n
    by (cases "n = e"; cases "degree m e = 1") (auto simp: ns(3) deg)
  then have "set ?ns = {n. 0 < degree m n \<and> degree m n \<le> int (count_list (e # es) n)}" by blast
  moreover have "\<forall>n. degree (fst (fold relax (e # es) (m, nx))) n = degree m n - int (count_list (e # es) n)"
    unfolding step using ns(4) by (auto simp: deg)
  ultimately show ?case by (intro exI [of _ ?ns] conjI)
qed

text \<open>The loop invariant: \<open>D\<close> is the set of services in the layers emitted so far.\<close>

definition open_deps :: "service_node list \<Rightarrow> string set \<Rightarrow> string \<Rightarrow> string list" where
  "open_deps svs D n = filter (\<lambda>d. d \<notin> D) (deps_of svs n)"

definition kahn_inv :: "service_node list \<Rightarrow> string set \<Rightarrow> string list \<Rightarrow> (string, int) js_map \<Rightarrow> bool" where
  "kahn_inv svs D layer deg \<longleftrightarrow> distinct layer \<and> D \<subseteq> names svs \<and>
     (\<forall>n \<in> D. open_deps svs D n = []) \<and>
     set layer = {n \<in> names svs - D. open_deps svs D n = []} \<and>
     (\<forall>n. degree deg n = int (length (open_deps svs D n)))"

lemma layer_edges_count:
  assumes "keys_ok n_name svs" and "distinct layer" and "set layer \<subseteq> names svs"
  shows "count_list (concat (map (\<lambda>n. case js_get (adjacency svs) n of Some ds \<Rightarrow> ds | None \<Rightarrow> []) layer)) y
     = length (filter (\<lambda>d. d \<in> set layer) (deps_of svs y))"
  using assms(2,3)
proof (induction layer)
  case Nil
  show ?case by simp
next
  case (Cons n layer)
  obtain ds where ds: "js_get (adjacency svs) n = Some ds" "count_list ds y = count_list (deps_of svs y) n"
    using adjacency_count [OF assms(1)] Cons.prems by fastforce
  have split: "length (filter (\<lambda>d. d \<in> set (n # layer)) xs) =
      count_list xs n + length (filter (\<lambda>d. d \<in> set layer) xs)" for xs
    using Cons.prems(1) by (induction xs) auto
  show ?case using Cons ds unfolding split by simp
qed

lemma open_deps_split:
  "length (open_deps svs D n) = length (filter (\<lambda>d. d \<in> L) (open_deps svs D n)) + length (open_deps svs (D \<union> L) n)"
proof -
  have "open_deps svs (D \<union> L) n = filter (\<lambda>d. d \<notin> L) (open_deps svs D n)"
    by (auto simp: open_deps_def intro: filter_cong)
  then show ?thesis
    using sum_length_filter_compl [of "\<lambda>d. d \<in> L" "open_deps svs D n"] by simp
qed

lemma kahn_inv_step:
  assumes "well_named svs" and "kahn_inv svs D layer deg"
    and "next_layer (adjacency svs) layer deg = (deg', nx)"
  shows "kahn_inv svs (D \<union> set layer) (sort_key f nx) deg'"
proof -
  let ?es = "concat (map (\<lambda>n. case js_get (adjacency svs) n of Some ds \<Rightarrow> ds | None \<Rightarrow> []) layer)"
  let ?D = "D \<union> set layer"
  have inv: "distinct layer" "D \<subseteq> names svs" "\<forall>n \<in> D. open_deps svs D n = []"
    "set layer = {n \<in> names svs - D. open_deps svs D n = []}"
    "\<And>n. degree deg n = int (length (open_deps svs D n))"
    using assms(2) by (auto simp: kahn_inv_def)
  have "filter (\<lambda>d. d \<in> set layer) (deps_of svs y) = filter (\<lambda>d. d \<in> set layer) (open_deps svs D y)" for y
    using inv(4) by (auto simp: open_deps_def intro: filter_cong)
  then have cnt: "count_list ?es y = length (filter (\<lambda>d. d \<in> set layer) (open_deps svs D y))" for y
    using layer_edges_count [OF _ inv(1), of svs y] assms(1) inv(4) by (auto simp: well_named_def)
  have nx: "distinct nx" "set nx = {n. 0 < degree deg n \<and> degree deg n \<le> int (count_list ?es n)}"
    and deg': "degree deg' n = degree deg n - int (count_list ?es n)" for n
    using fold_relax [of ?es deg "[]"] assms(3) by (auto simp: next_layer_def)
  have od: "degree deg' n = int (length (open_deps svs ?D n))" for n
    using open_deps_split [of svs D n "set layer"] by (simp add: deg' inv(5) cnt)
  have "n \<in> set nx \<longleftrightarrow> n \<in> names svs - ?D \<and> open_deps svs ?D n = []" for n
  proof -
    have "n \<in> set nx \<longleftrightarrow> open_deps svs D n \<noteq> [] \<and> open_deps svs ?D n = []"
      using open_deps_split [of svs D n "set layer"] by (simp add: nx(2) inv(5) cnt)
    also have "\<dots> \<longleftrightarrow> n \<in> names svs - ?D \<and> open_deps svs ?D n = []"
      using inv(3,4) deps_of_outside [of n svs] by (auto simp: open_deps_def)
    finally show ?thesis .
  qed
  moreover have "open_deps svs ?D n = []" if "n \<in> ?D" for n
    using that inv(3,4) by (auto simp: open_deps_def filter_empty_conv)
  ultimately show ?thesis
    using inv nx(1) od by (auto simp: kahn_inv_def)
qed

section \<open>The whole loop\<close>

text \<open>Every service of a layer depends only on \<open>D\<close> and the layers before it.\<close>

fun layered :: "service_node list \<Rightarrow> string set \<Rightarrow> string list list \<Rightarrow> bool" where
  "layered svs D [] \<longleftrightarrow> True"
| "layered svs D (L # Ls) \<longleftrightarrow> (\<forall>n \<in> set L. set (deps_of svs n) \<subseteq> D) \<and> layered svs (D \<union> set L) Ls"

lemma kahn_loop_correct:
  assumes "well_named svs" and "kahn_inv svs D layer deg"
    and "kahn_loop (adjacency svs) idx layer deg = (order, n)"
  shows "n = length (concat order) \<and> distinct (concat order) \<and> set (concat order) \<subseteq> names svs - D \<and>
     layered svs D order \<and>
     (\<forall>m \<in> names svs - (D \<union> set (concat order)). \<exists>d \<in> set (deps_of svs m). d \<notin> D \<union> set (concat order))"
  using assms(2,3)
proof (induction "adjacency svs" idx layer deg arbitrary: D order n rule: kahn_loop.induct)
  case (1 idx layer deg)
  note inv = "1.prems"(1) [unfolded kahn_inv_def]
  show ?case
  proof (cases "layer = []")
    case True
    then have "order = []" "n = 0" using "1.prems"(2) by (simp_all add: kahn_loop.simps)
    with inv True show ?thesis by (fastforce simp: open_deps_def filter_empty_conv)
  next
    case False
    obtain deg' nx where nl: "next_layer (adjacency svs) layer deg = (deg', nx)" by fastforce
    obtain order' n' where rec: "kahn_loop (adjacency svs) idx (sort_key (by_index idx) nx) deg' = (order', n')"
      by fastforce
    have res: "order = layer # order'" "n = length layer + n'"
      using "1.prems"(2) False by (simp_all add: kahn_loop.simps [of _ _ layer] nl rec)
    have "kahn_inv svs (D \<union> set layer) (sort_key (by_index idx) nx) deg'"
      using assms(1) "1.prems"(1) nl by (rule kahn_inv_step)
    from "1.hyps" [OF False nl [symmetric] refl this rec]
    have IH: "n' = length (concat order')" "distinct (concat order')"
      "set (concat order') \<subseteq> names svs - (D \<union> set layer)" "layered svs (D \<union> set layer) order'"
      "\<forall>m \<in> names svs - (D \<union> set layer \<union> set (concat order')).
         \<exists>d \<in> set (deps_of svs m). d \<notin> D \<union> set layer \<union> set (concat order')"
      by blast+
    have "\<forall>m \<in> set layer. set (deps_of svs m) \<subseteq> D"
      using inv by (auto simp: open_deps_def filter_empty_conv)
    with IH inv show ?thesis by (auto simp: res)
  qed
qed

lemma layered_acyclic_rank:
  assumes "layered svs D order" and "i < length order" and "n \<in> set (order ! i)" and "d \<in> set (deps_of svs n)"
  shows "d \<in> D \<or> (\<exists>j < i. d \<in> set (order ! j))"
  using assms
proof (induction order arbitrary: D i)
  case Nil
  then show ?case by simp
next
  case (Cons L order)
  show ?case
  proof (cases i)
    case 0
    with Cons.prems show ?thesis by auto
  next
    case (Suc k)
    with Cons.prems have "d \<in> D \<union> set L \<or> (\<exists>j < k. d \<in> set (order ! j))"
      using Cons.IH [of "D \<union> set L" k] by simp
    then show ?thesis using Suc by (auto intro: exI [of _ 0] exI [of _ "Suc _"])
  qed
qed

lemma layered_acyclic:
  assumes "layered svs {} order" and "distinct (concat order)" and "\<forall>n. deps_of svs n \<noteq> [] \<longrightarrow> n \<in> set (concat order)"
  shows "acyclic (dep_rel svs)"
proof -
  define rank where "rank n = (LEAST i. i < length order \<and> n \<in> set (order ! i))" for n
  have "rank d < rank n" if "(d, n) \<in> dep_rel svs" for d n
  proof -
    have dn: "d \<in> set (deps_of svs n)" using that by (simp add: dep_rel_def)
    then have "n \<in> set (concat order)" using assms(3) by (cases "deps_of svs n") auto
    then obtain L where "L \<in> set order" "n \<in> set L" by auto
    then obtain i where i: "i < length order \<and> n \<in> set (order ! i)" by (auto simp: in_set_conv_nth [of L])
    then have r: "rank n < length order \<and> n \<in> set (order ! rank n)"
      unfolding rank_def by (rule LeastI)
    then obtain j where "j < rank n" "d \<in> set (order ! j)"
      using layered_acyclic_rank [OF assms(1) _ _ dn, of "rank n"] by auto
    moreover from this r have "rank d \<le> j" unfolding rank_def [of d] by (intro Least_le) simp
    ultimately show ?thesis by simp
  qed
  then have "dep_rel svs \<subseteq> measure rank" by auto
  then show ?thesis by (metis wf_acyclic wf_measure wf_subset)
qed

lemma stuck_set_cyclic:
  assumes "finite R" and "N \<noteq> {}" and "\<forall>n \<in> N. \<exists>d \<in> N. (d, n) \<in> R"
  shows "\<not> acyclic R"
proof
  assume "acyclic R"
  with assms(1) have "wf R" by (rule finite_acyclic_wf)
  then obtain z where "z \<in> N" "\<forall>y. (y, z) \<in> R \<longrightarrow> y \<notin> N"
    using assms(2) by (metis all_not_in_conv wf_eq_minimal)
  with assms(3) show False by blast
qed

lemma finite_dep_rel: "finite (dep_rel svs)"
proof -
  have "dep_rel svs \<subseteq> (\<Union>s \<in> set svs. set (n_dependsOn s) \<times> {n_name s})"
  proof
    fix e assume "e \<in> dep_rel svs"
    then obtain d n where e: "e = (d, n)" "d \<in> set (deps_of svs n)" by (auto simp: dep_rel_def)
    then show "e \<in> (\<Union>s \<in> set svs. set (n_dependsOn s) \<times> {n_name s})"
      using row_of_key [of n_name n svs] by (cases "row_of n_name n svs") (auto simp: deps_of_def)
  qed
  then show ?thesis by (rule finite_subset) auto
qed

definition first_layer :: "service_node list \<Rightarrow> string list" where
  "first_layer svs = sort_key (by_index (orderIndex svs))
     (map n_name (filter (\<lambda>s. degree (inDegrees svs) (n_name s) = 0) svs))"

lemma kahn_inv_start:
  assumes "well_named svs"
  shows "kahn_inv svs {} (first_layer svs) (inDegrees svs)"
  using assms
  by (auto simp: kahn_inv_def first_layer_def open_deps_def degree_inDegrees well_named_def names_def
      keys_ok_def distinct_map_filter)

lemma buildTopology_cases:
  "buildTopology svs repo path sha br =
     (if \<not> keys_ok n_name svs then Inl (''Duplicate service name: '' @ the (find_duplicate [] svs))
      else if \<not> well_named svs
      then Inl (''Missing dependency references: '' @ js_join '', '' (sort (missingDependencies svs)))
      else (case kahn_loop (adjacency svs) (orderIndex svs) (first_layer svs) (inDegrees svs) of
              (order, n) \<Rightarrow> if n \<noteq> length svs then Inl ''Circular dependency detected in service topology''
                 else Inr \<lparr>t_services = svs, t_executionOrder = order, t_repoUrl = repo,
                      t_branch = br, t_clonePath = path, t_commitSha = sha\<rparr>))"
proof (cases "find_duplicate [] svs")
  case None
  then have "keys_ok n_name svs" by (simp add: find_duplicate_None)
  with None show ?thesis
    using missing_empty [of svs] by (auto simp: buildTopology_def well_named_def first_layer_def Let_def)
next
  case (Some n)
  then have "\<not> keys_ok n_name svs" using find_duplicate_None [of "[]" svs] by auto
  with Some show ?thesis by (simp add: buildTopology_def)
qed

lemma kahn_complete_iff:
  assumes "well_named svs"
    and "kahn_loop (adjacency svs) (orderIndex svs) (first_layer svs) (inDegrees svs) = (order, n)"
  shows "n = length svs \<longleftrightarrow> acyclic (dep_rel svs)"
    and "n = length svs \<Longrightarrow> distinct (concat order) \<and> set (concat order) = names svs \<and> layered svs {} order"
proof -
  note K = kahn_loop_correct [OF assms(1) kahn_inv_start [OF assms(1)] assms(2)]
  have card: "card (names svs) = length svs"
    using assms(1) distinct_card [of "map n_name svs"] by (simp add: well_named_def keys_ok_def names_def)
  have fin: "finite (names svs)" by (simp add: names_def)
  have eq: "n = length svs \<longleftrightarrow> set (concat order) = names svs"
  proof
    assume "n = length svs"
    with K card have "card (set (concat order)) = card (names svs)" using distinct_card [of "concat order"] by simp
    then show "set (concat order) = names svs" using K card_subset_eq [OF fin, of "set (concat order)"] by simp
  next
    assume "set (concat order) = names svs"
    with K card show "n = length svs" using distinct_card [of "concat order"] by simp
  qed
  then show "n = length svs \<Longrightarrow> distinct (concat order) \<and> set (concat order) = names svs \<and> layered svs {} order"
    using K by blast
  show "n = length svs \<longleftrightarrow> acyclic (dep_rel svs)"
  proof
    assume "n = length svs"
    with eq have "set (concat order) = names svs" by simp
    then have "\<forall>n. deps_of svs n \<noteq> [] \<longrightarrow> n \<in> set (concat order)"
      using deps_of_outside by metis
    with K show "acyclic (dep_rel svs)" using layered_acyclic by blast
  next
    assume acyc: "acyclic (dep_rel svs)"
    let ?N = "names svs - set (concat order)"
    have stuck: "\<forall>m \<in> ?N. \<exists>d \<in> ?N. (d, m) \<in> dep_rel svs"
    proof
      fix m assume "m \<in> ?N"
      moreover have "\<forall>m \<in> ?N. \<exists>d \<in> set (deps_of svs m). d \<notin> set (concat order)"
        using K by (simp del: set_concat)
      ultimately obtain d where "d \<in> set (deps_of svs m)" "d \<notin> set (concat order)" by blast
      moreover have "set (deps_of svs m) \<subseteq> names svs" using assms(1) by (simp add: well_named_def)
      ultimately show "\<exists>d \<in> ?N. (d, m) \<in> dep_rel svs" unfolding dep_rel_def by blast
    qed
    have "?N = {}" using stuck_set_cyclic [OF finite_dep_rel _ stuck] acyc by metis
    then have "set (concat order) = names svs" using K by simp
    with eq show "n = length svs" by simp
  qed
qed

lemma buildTopology_layered:
  assumes "buildTopology svs repo path sha br = Inr topo"
  shows "well_named svs \<and> t_services topo = svs \<and> distinct (concat (t_executionOrder topo)) \<and>
     set (concat (t_executionOrder topo)) = names svs \<and>
     (\<forall>i < length (t_executionOrder topo). \<forall>s \<in> set svs. n_name s \<in> set (t_executionOrder topo ! i) \<longrightarrow>
        (\<forall>d \<in> set (n_dependsOn s). \<exists>j < i. d \<in> set (t_executionOrder topo ! j)))"
proof -
  have wn: "well_named svs" and
    loop: "kahn_loop (adjacency svs) (orderIndex svs) (first_layer svs) (inDegrees svs)
       = (t_executionOrder topo, length svs)" and sv: "t_services topo = svs"
    using assms by (auto simp: buildTopology_cases split: if_splits prod.splits)
  have K: "distinct (concat (t_executionOrder topo))" "set (concat (t_executionOrder topo)) = names svs"
    "layered svs {} (t_executionOrder topo)"
    using kahn_complete_iff(2) [OF wn loop] by auto
  have "\<exists>j < i. d \<in> set (t_executionOrder topo ! j)"
    if "i < length (t_executionOrder topo)" "s \<in> set svs" "n_name s \<in> set (t_executionOrder topo ! i)"
      "d \<in> set (n_dependsOn s)" for i s d
    using layered_acyclic_rank [OF K(3) that(1,3), of d] that(2,4) deps_of_mem [of svs s] wn
    by (simp add: well_named_def)
  with K sv wn show ?thesis by simp
qed

lemma buildTopology_circular_iff:
  assumes "distinct (map n_name svs)"
    and "\<forall>s \<in> set svs. set (n_dependsOn s) \<subseteq> set (map n_name svs)"
  shows "(buildTopology svs repo path sha br = Inl ''Circular dependency detected in service topology''
       \<longleftrightarrow> \<not> acyclic {(d, n). \<exists>s \<in> set svs. n_name s = n \<and> d \<in> set (n_dependsOn s)}) \<and>
     ((\<exists>topo. buildTopology svs repo path sha br = Inr topo)
       \<longleftrightarrow> acyclic {(d, n). \<exists>s \<in> set svs. n_name s = n \<and> d \<in> set (n_dependsOn s)})"
proof -
  have keys: "keys_ok n_name svs" using assms(1) by (simp add: keys_ok_def)
  have "set (deps_of svs n) \<subseteq> names svs" for n
    using assms(2) row_of_key [of n_name n svs] by (cases "row_of n_name n svs") (auto simp: deps_of_def names_def)
  with keys have wn: "well_named svs" by (simp add: well_named_def)
  have rel: "{(d, n). \<exists>s \<in> set svs. n_name s = n \<and> d \<in> set (n_dependsOn s)} = dep_rel svs"
    by (simp add: dep_rel_def deps_of_iff [OF keys])
  obtain order n where loop:
    "kahn_loop (adjacency svs) (orderIndex svs) (first_layer svs) (inDegrees svs) = (order, n)" by fastforce
  show ?thesis
    using kahn_complete_iff(1) [OF wn loop] keys wn
    by (auto simp: buildTopology_cases loop rel)
qed

section \<open>Properties\<close>

text \<open>
  C9. The execution order is a topological order. When \<open>buildTopology\<close> returns, the layers of its
  execution order contain every service exactly once, and every dependency of a service in a
  layer is in an earlier layer.
\<close>

theorem buildTopology_order_correct:
  assumes "buildTopology svs repo path sha br = Inr topo"
  shows "distinct (concat (t_executionOrder topo)) \<and>
     set (concat (t_executionOrder topo)) = set (map n_name svs) \<and> t_services topo = svs \<and>
     (\<forall>i < length (t_executionOrder topo). \<forall>s \<in> set svs. n_name s \<in> set (t_executionOrder topo ! i) \<longrightarrow>
        (\<forall>d \<in> set (n_dependsOn s). \<exists>j < i. d \<in> set (t_executionOrder topo ! j)))"
  using buildTopology_layered [OF assms] by (simp add: names_def)

definition node :: "string \<Rightarrow> string list \<Rightarrow> int option \<Rightarrow> service_node" where
  "node n deps p = \<lparr>n_name = n, n_dockerfile = None, n_composePath = None, n_dependsOn = deps,
     n_port = p, n_envVars = None\<rparr>"

definition web_app :: "service_node list" where
  "web_app = [node ''web'' [''api''] (Some 80), node ''api'' [''db'', ''cache''] None,
     node ''db'' [] None, node ''cache'' [] None]"

definition web_topology :: service_topology where
  "web_topology = \<lparr>t_services = web_app, t_executionOrder = [[''db'', ''cache''], [''api''], [''web'']],
     t_repoUrl = ''r'', t_branch = None, t_clonePath = ''c'', t_commitSha = ''s''\<rparr>"

lemma buildTopology_web_app: "buildTopology web_app ''r'' ''c'' ''s'' None = Inr web_topology"
  by (simp add: web_topology_def web_app_def node_def buildTopology_def missingDependencies_def orderIndex_def
      upt_rec adjacency_def push_dependent_def inDegrees_def degree_def by_index_def kahn_loop.simps
      next_layer_def relax_def Let_def)

theorem buildTopology_order_correct_witness:
  "distinct (concat (t_executionOrder web_topology)) \<and>
   set (concat (t_executionOrder web_topology)) = set (map n_name web_app)"
  using buildTopology_order_correct [OF buildTopology_web_app] by blast

text \<open>
  C28. Cycles are exactly what is rejected. For services with distinct names and only known
  dependencies, \<open>buildTopology\<close> throws its circular-dependency error when the dependency relation
  has a cycle, and returns a topology when it has none.
\<close>

theorem buildTopology_detects_cycles:
  assumes "distinct (map n_name svs)"
    and "\<forall>s \<in> set svs. set (n_dependsOn s) \<subseteq> set (map n_name svs)"
  shows "(buildTopology svs repo path sha br = Inl ''Circular dependency detected in service topology''
       \<longleftrightarrow> \<not> acyclic {(d, n). \<exists>s \<in> set svs. n_name s = n \<and> d \<in> set (n_dependsOn s)}) \<and>
     ((\<exists>topo. buildTopology svs repo path sha br = Inr topo)
       \<longleftrightarrow> acyclic {(d, n). \<exists>s \<in> set svs. n_name s = n \<and> d \<in> set (n_dependsOn s)})"
  using buildTopology_circular_iff [OF assms] .

theorem buildTopology_detects_cycles_witness:
  "buildTopology [node ''a'' [''b''] None, node ''b'' [''a''] None] ''r'' ''c'' ''s'' None
     = Inl ''Circular dependency detected in service topology'' \<and>
   \<not> acyclic {(d, n). \<exists>s \<in> set [node ''a'' [''b''] None, node ''b'' [''a''] None].
       n_name s = n \<and> d \<in> set (n_dependsOn s)}"
proof -
  let ?svs = "[node ''a'' [''b''] None, node ''b'' [''a''] None]"
  have "buildTopology ?svs ''r'' ''c'' ''s'' None = Inl ''Circular dependency detected in service topology''"
    by (simp add: node_def buildTopology_def missingDependencies_def orderIndex_def upt_rec inDegrees_def
        degree_def kahn_loop.simps Let_def)
  with buildTopology_detects_cycles [of ?svs "''r''" "''c''" "''s''" None] show ?thesis
    by (simp add: node_def)
qed

lemma validate_services_iff:
  "validate_services used nms seen ss = [] \<longleftrightarrow>
     (\<forall>s \<in> set ss. set (n_dependsOn s) \<subseteq> set nms) \<and>
     distinct (List.map_filter n_port ss) \<and>
     (\<forall>p \<in> set (List.map_filter n_port ss). p \<notin> set used \<and> js_get seen p = None)"
proof (induction ss arbitrary: seen)
  case Nil
  show ?case by simp
next
  case (Cons s ss)
  have miss: "filter (\<lambda>d. d \<notin> set nms) (n_dependsOn s) = [] \<longleftrightarrow> set (n_dependsOn s) \<subseteq> set nms"
    by (auto simp: filter_empty_conv)
  show ?case
  proof (cases "n_port s")
    case None
    then show ?thesis using miss by (simp add: port_errors_def Cons.IH map_filter_simps)
  next
    case (Some p)
    show ?thesis
    proof (cases "js_get seen p")
      case None
      have "(\<forall>q \<in> set qs. q \<notin> set used \<and> js_get (js_set p (n_name s) seen) q = None) \<longleftrightarrow>
          p \<notin> set qs \<and> (\<forall>q \<in> set qs. q \<notin> set used \<and> js_get seen q = None)" for qs
        using None by (auto simp: js_simps)
      with Some None show ?thesis
        using miss by (auto simp: port_errors_def Cons.IH map_filter_simps)
    next
      case (Some c)
      with \<open>n_port s = Some p\<close> show ?thesis by (auto simp: port_errors_def map_filter_simps)
    qed
  qed
qed

text \<open>
  \<open>validateTopology\<close> accepts a topology exactly when it has a service, every dependency names a
  service of the topology, no two services request the same port, and no requested port is
  already in use; an accepted topology has no error message.
\<close>

theorem validateTopology_iff:
  "fst (validateTopology topo used) \<longleftrightarrow>
     t_services topo \<noteq> [] \<and>
     (\<forall>s \<in> set (t_services topo). set (n_dependsOn s) \<subseteq> set (map n_name (t_services topo))) \<and>
     distinct (List.map_filter n_port (t_services topo)) \<and>
     set (List.map_filter n_port (t_services topo)) \<inter> set used = {}"
  by (auto simp: validateTopology_def Let_def validate_services_iff)

theorem validateTopology_iff_witness:
  "fst (validateTopology web_topology [443]) \<and> \<not> fst (validateTopology web_topology [443, 80])"
  unfolding validateTopology_iff
  by (simp add: web_topology_def web_app_def node_def map_filter_simps)

end
