(* ===== verification/Orchestrator.thy ===== *)
theory Orchestrator
  imports Topology
begin

text \<open>
  \<open>executeOrdered\<close> of \<open>DeployOrchestrator\<close> (\<open>src/src/pipeline/orchestrator.ts\<close>): deploy the layers
  of a topology in order, stop at the first layer with a failure, roll the deployed services
  back in reverse order and report one status per service.

  The pipeline the orchestrator drives (\<open>deployService\<close>, \<open>waitForHealthy\<close>, \<open>rollbackService\<close>) is an
  argument: a record of what each call does. A call of \<open>deployService\<close> or \<open>waitForHealthy\<close> may also
  reject, which makes \<open>executeOrdered\<close> reject (\<open>Inl\<close>). The calls made are returned as a trace; the
  calls of one layer, which \<open>Promise.all\<close> starts in the layer's order, are listed in that order.
  Wall-clock durations and the emitted progress events are not part of the model.

  Shown: a service is deployed only after all its dependencies were; success means every
  service is deployed and nothing was rolled back; on failure exactly the deployed services are
  rolled back, newest first, and the reported status tells what the rollback did.
\<close>

section \<open>Data\<close>

datatype svc_status = SDeployed | SFailed | SRolledBack | SSkipped | SRollbackSkipped
  | SRollbackFailedDueToPolicy | SRollbackFailed

record svc_result =
  r_name :: string
  r_status :: svc_status
  r_projectId :: "string option"
  r_url :: "string option"
  r_error :: "string option"

record deployment =
  d_success :: bool
  d_projectId :: "string option"
  d_url :: "string option"
  d_error :: "string option"

record health =
  h_healthy :: bool
  h_error :: "string option"

text \<open>A rollback that throws: a policy error (archived, recovering, breaker open) or another.\<close>

datatype rollback_error = PolicyError string | OtherError string

record executed_service =
  e_name :: string
  e_projectId :: "string option"
  e_url :: "string option"

record pipeline =
  deployService :: "service_node \<Rightarrow> service_topology \<Rightarrow> string + deployment"
  waitForHealthy :: "(service_node \<Rightarrow> deployment \<Rightarrow> string + health) option"
  rollbackService :: "executed_service \<Rightarrow> rollback_error option"

datatype call = CDeploy string | CHealth string | CRollback string

section \<open>One service\<close>

definition failed_result :: "string \<Rightarrow> string \<Rightarrow> deployment \<Rightarrow> svc_result" where
  "failed_result name err d =
     \<lparr>r_name = name, r_status = SFailed, r_projectId = d_projectId d, r_url = d_url d, r_error = Some err\<rparr>"

definition deployed_result :: "string \<Rightarrow> deployment \<Rightarrow> svc_result" where
  "deployed_result name d =
     \<lparr>r_name = name, r_status = SDeployed, r_projectId = d_projectId d, r_url = d_url d, r_error = None\<rparr>"

definition or_default :: "string option \<Rightarrow> string \<Rightarrow> string" where
  "or_default v dflt = (case v of Some x \<Rightarrow> x | None \<Rightarrow> dflt)"

text \<open>The body of the \<open>group.map\<close> callback: the calls made and the result or the rejection.\<close>

definition run_service :: "pipeline \<Rightarrow> service_topology \<Rightarrow> string \<Rightarrow> call list \<times> (string + svc_result)" where
  "run_service pl topo serviceName =
     (case row_of n_name serviceName (rev (t_services topo)) of
        None \<Rightarrow> ([], Inr \<lparr>r_name = serviceName, r_status = SFailed, r_projectId = None, r_url = None,
                    r_error = Some (''Service not found in topology: '' @ serviceName)\<rparr>)
      | Some service \<Rightarrow>
          (case deployService pl service topo of
             Inl e \<Rightarrow> ([CDeploy serviceName], Inl e)
           | Inr dep \<Rightarrow>
               if \<not> d_success dep
               then ([CDeploy serviceName],
                     Inr (failed_result (n_name service) (or_default (d_error dep) ''Service deployment failed'') dep))
               else (case waitForHealthy pl of
                       None \<Rightarrow> ([CDeploy serviceName], Inr (deployed_result (n_name service) dep))
                     | Some wait \<Rightarrow>
                         ([CDeploy serviceName, CHealth serviceName],
                          case wait service dep of
                            Inl e \<Rightarrow> Inl e
                          | Inr h \<Rightarrow>
                              if h_healthy h then Inr (deployed_result (n_name service) dep)
                              else Inr (failed_result (n_name service) (or_default (h_error h) ''Health check failed'') dep)))))"

section \<open>Layers\<close>

text \<open>\<open>Promise.all\<close>: the results in order, or a rejection.\<close>

fun all_results :: "(string + svc_result) list \<Rightarrow> string + svc_result list" where
  "all_results [] = Inr []"
| "all_results (Inl e # rs) = Inl e"
| "all_results (Inr r # rs) = rbind (all_results rs) (\<lambda>xs. Inr (r # xs))"

definition executed_of :: "svc_result list \<Rightarrow> executed_service list" where
  "executed_of rs = map (\<lambda>r. \<lparr>e_name = r_name r, e_projectId = r_projectId r, e_url = r_url r\<rparr>)
     (filter (\<lambda>r. r_status r = SDeployed) rs)"

record layers_result =
  lr_statuses :: "svc_result list"
  lr_executed :: "executed_service list"
  lr_failed :: "string option"

fun run_layers :: "pipeline \<Rightarrow> service_topology \<Rightarrow> string list list \<Rightarrow> svc_result list
    \<Rightarrow> executed_service list \<Rightarrow> call list \<times> (string + layers_result)" where
  "run_layers pl topo [] statuses executed =
     ([], Inr \<lparr>lr_statuses = statuses, lr_executed = executed, lr_failed = None\<rparr>)"
| "run_layers pl topo (grp # grps) statuses executed =
     (let calls = concat (map (\<lambda>n. fst (run_service pl topo n)) grp)
      in case all_results (map (\<lambda>n. snd (run_service pl topo n)) grp) of
           Inl e \<Rightarrow> (calls, Inl e)
         | Inr rs \<Rightarrow>
             (let statuses' = statuses @ rs; executed' = executed @ executed_of rs
              in case find (\<lambda>r. r_status r = SFailed) rs of
                   Some failed \<Rightarrow>
                     (calls, Inr \<lparr>lr_statuses = statuses', lr_executed = executed', lr_failed = Some (r_name failed)\<rparr>)
                 | None \<Rightarrow>
                     (let (calls', res) = run_layers pl topo grps statuses' executed'
                      in (calls @ calls', res))))"

section \<open>Rollback\<close>

datatype rollback_outcome = ORolledBack | OPolicy string | OFailed string

definition rollback_one :: "pipeline \<Rightarrow> executed_service \<Rightarrow> rollback_outcome" where
  "rollback_one pl e =
     (case rollbackService pl e of
        None \<Rightarrow> ORolledBack | Some (PolicyError r) \<Rightarrow> OPolicy r | Some (OtherError r) \<Rightarrow> OFailed r)"

definition rollback_all :: "pipeline \<Rightarrow> executed_service list \<Rightarrow> call list \<times> (string, rollback_outcome) js_map" where
  "rollback_all pl executed =
     (map (\<lambda>e. CRollback (e_name e)) (rev executed),
      fold (\<lambda>e m. js_set (e_name e) (rollback_one pl e) m) (rev executed) [])"

definition with_note :: "string option \<Rightarrow> string \<Rightarrow> string option" where
  "with_note err note = Some (if truthy err then the err @ ''; '' @ note else note)"

definition final_status :: "(string, rollback_outcome) js_map \<Rightarrow> (string, svc_result) js_map
    \<Rightarrow> service_node \<Rightarrow> svc_result" where
  "final_status outcomes statusByName service =
     (case js_get statusByName (n_name service) of
        None \<Rightarrow> \<lparr>r_name = n_name service, r_status = SRollbackSkipped, r_projectId = None, r_url = None, r_error = None\<rparr>
      | Some current \<Rightarrow>
          if r_status current = SDeployed
          then (case js_get outcomes (n_name service) of
                  None \<Rightarrow> current\<lparr>r_status := SRollbackSkipped,
                            r_error := with_note (r_error current) ''rollback was not attempted''\<rparr>
                | Some ORolledBack \<Rightarrow> current\<lparr>r_status := SRolledBack\<rparr>
                | Some (OPolicy reason) \<Rightarrow> current\<lparr>r_status := SRollbackFailedDueToPolicy,
                            r_error := with_note (r_error current) (''rollback blocked: '' @ reason)\<rparr>
                | Some (OFailed reason) \<Rightarrow> current\<lparr>r_status := SRollbackFailed,
                            r_error := with_note (r_error current) (''rollback failed: '' @ reason)\<rparr>)
          else current)"

section \<open>The executor\<close>

record orchestration_result =
  o_success :: bool
  o_services :: "svc_result list"

definition executeOrdered :: "service_topology \<Rightarrow> pipeline \<Rightarrow> call list \<times> (string + orchestration_result)" where
  "executeOrdered topo pl =
     (if t_services topo = []
      then ([], Inr \<lparr>o_success = False, o_services =
             [\<lparr>r_name = ''topology'', r_status = SFailed, r_projectId = None, r_url = None,
               r_error = Some ''Topology is empty: at least one service is required''\<rparr>]\<rparr>)
      else case run_layers pl topo (t_executionOrder topo) [] [] of
        (calls, Inl e) \<Rightarrow> (calls, Inl e)
      | (calls, Inr lr) \<Rightarrow>
          if truthy (lr_failed lr)
          then let (rcalls, outcomes) = rollback_all pl (lr_executed lr);
                   statusByName = fold (\<lambda>r m. js_set (r_name r) r m) (lr_statuses lr) []
               in (calls @ rcalls, Inr \<lparr>o_success = False,
                     o_services = map (final_status outcomes statusByName) (t_services topo)\<rparr>)
          else (calls, Inr \<lparr>o_success = True, o_services =
                  map (\<lambda>service. case find (\<lambda>r. r_name r = n_name service) (lr_statuses lr) of
                         None \<Rightarrow> \<lparr>r_name = n_name service, r_status = SSkipped, r_projectId = None,
                                   r_url = None, r_error = None\<rparr>
                       | Some status \<Rightarrow> status) (t_services topo)\<rparr>))"

section \<open>What a run does\<close>

abbreviation calls_of :: "pipeline \<Rightarrow> service_topology \<Rightarrow> string \<Rightarrow> call list" where
  "calls_of pl topo n \<equiv> fst (run_service pl topo n)"

definition result_of :: "pipeline \<Rightarrow> service_topology \<Rightarrow> string \<Rightarrow> svc_result" where
  "result_of pl topo n = projr (snd (run_service pl topo n))"

definition returns :: "pipeline \<Rightarrow> service_topology \<Rightarrow> string \<Rightarrow> bool" where
  "returns pl topo n \<longleftrightarrow> \<not> isl (snd (run_service pl topo n))"

text \<open>The deployment of the service and, if there is one, its health check succeed.\<close>

definition deploys :: "pipeline \<Rightarrow> service_topology \<Rightarrow> string \<Rightarrow> bool" where
  "deploys pl topo n \<longleftrightarrow> returns pl topo n \<and> r_status (result_of pl topo n) = SDeployed"

lemma run_service_result:
  assumes "returns pl topo n"
  shows "r_name (result_of pl topo n) = n \<and> r_status (result_of pl topo n) \<in> {SDeployed, SFailed}"
  using assms row_of_key [of n_name n "rev (t_services topo)"]
  by (auto simp: run_service_def returns_def result_of_def failed_result_def deployed_result_def
      split: option.splits sum.splits if_splits)

lemma run_service_calls: "CDeploy m \<in> set (calls_of pl topo n) \<Longrightarrow> m = n"
  by (auto simp: run_service_def split: option.splits sum.splits if_splits)

lemma run_service_known:
  assumes "s \<in> set (t_services topo)"
  shows "\<exists>rest. calls_of pl topo (n_name s) = CDeploy (n_name s) # rest \<and> CDeploy (n_name s) \<notin> set rest"
proof -
  obtain s' where "row_of n_name (n_name s) (rev (t_services topo)) = Some s'"
    using assms row_of_None_iff [of n_name "n_name s" "rev (t_services topo)"] by auto
  then show ?thesis by (auto simp: run_service_def split: option.splits sum.splits)
qed

lemma run_service_calls_known: "n \<in> n_name ` set (t_services topo) \<Longrightarrow> CDeploy n \<in> set (calls_of pl topo n)"
  using run_service_known [of _ topo pl] by (metis imageE list.set_intros(1))

lemma in_concat_take: "x \<in> set (concat (take k xss)) \<longleftrightarrow> (\<exists>i < k. i < length xss \<and> x \<in> set (xss ! i))"
  by (auto simp: set_conv_nth [of "take k xss"])

lemma no_rollback_calls: "CRollback m \<notin> set (calls_of pl topo n)"
  by (auto simp: run_service_def split: option.splits sum.splits if_splits)

lemma all_results_Inr: "all_results xs = Inr rs \<longleftrightarrow> list_all (\<lambda>x. \<not> isl x) xs \<and> rs = map projr xs"
  by (induction xs arbitrary: rs rule: all_results.induct) (auto simp: rbind_Inr_iff)

text \<open>
  Where a run over the layers stops: after \<open>k\<close> layers, of which all but the last were deployed
  completely. The result is a rejection, a failure in the last of them, or the end of the list.
\<close>

lemma run_layers_stops:
  assumes "run_layers pl topo ls sts ex = (calls, res)"
  shows "\<exists>k \<le> length ls. calls = concat (map (calls_of pl topo) (concat (take k ls))) \<and>
     (\<forall>m \<in> set (concat (take (k - 1) ls)). deploys pl topo m) \<and>
     (\<forall>lr. res = Inr lr \<longrightarrow>
        (\<forall>m \<in> set (concat (take k ls)). returns pl topo m) \<and>
        lr_statuses lr = sts @ map (result_of pl topo) (concat (take k ls)) \<and>
        lr_executed lr = ex @ executed_of (map (result_of pl topo) (concat (take k ls))) \<and>
        (case lr_failed lr of
           None \<Rightarrow> k = length ls \<and> (\<forall>m \<in> set (concat ls). deploys pl topo m)
         | Some f \<Rightarrow> f \<in> set (concat (take k ls)) \<and> \<not> deploys pl topo f))"
  using assms
proof (induction ls arbitrary: sts ex calls res)
  case Nil
  then show ?case by (auto simp: executed_of_def)
next
  case (Cons L ls)
  let ?rs = "map (result_of pl topo) L"
  show ?case
  proof (cases "list_all (\<lambda>x. \<not> isl x) (map (\<lambda>n. snd (run_service pl topo n)) L)")
    case False
    then obtain e where "all_results (map (\<lambda>n. snd (run_service pl topo n)) L) = Inl e"
      using all_results_Inr by (cases "all_results (map (\<lambda>n. snd (run_service pl topo n)) L)") auto
    with Cons.prems show ?thesis by (intro exI [of _ 1]) (auto simp: Let_def)
  next
    case True
    then have all: "all_results (map (\<lambda>n. snd (run_service pl topo n)) L) = Inr ?rs"
      by (simp add: all_results_Inr result_of_def [abs_def] comp_def)
    have ret: "\<forall>m \<in> set L. returns pl topo m" using True by (auto simp: list_all_iff returns_def)
    show ?thesis
    proof (cases "find (\<lambda>r. r_status r = SFailed) ?rs")
      case (Some r)
      then obtain m where "m \<in> set L" "r = result_of pl topo m" "r_status r = SFailed"
        by (auto simp: find_Some_iff) (metis nth_mem)
      then have "r_name r \<in> set L \<and> \<not> deploys pl topo (r_name r)"
        using run_service_result ret by (auto simp: deploys_def)
      with Cons.prems all Some ret show ?thesis
        by (intro exI [of _ 1]) (auto simp: Let_def executed_of_def)
    next
      case None
      then have good: "\<forall>m \<in> set L. deploys pl topo m"
        using ret run_service_result by (fastforce simp: find_None_iff deploys_def)
      obtain calls' res' where rec: "run_layers pl topo ls (sts @ ?rs) (ex @ executed_of ?rs) = (calls', res')"
        by fastforce
      have eq: "calls = concat (map (calls_of pl topo) L) @ calls'" "res = res'"
        using Cons.prems all None rec by (auto simp: Let_def)
      obtain k where k: "k \<le> length ls" "calls' = concat (map (calls_of pl topo) (concat (take k ls)))"
        "\<forall>m \<in> set (concat (take (k - 1) ls)). deploys pl topo m"
        "\<forall>lr. res' = Inr lr \<longrightarrow>
          (\<forall>m \<in> set (concat (take k ls)). returns pl topo m) \<and>
          lr_statuses lr = (sts @ ?rs) @ map (result_of pl topo) (concat (take k ls)) \<and>
          lr_executed lr = (ex @ executed_of ?rs) @ executed_of (map (result_of pl topo) (concat (take k ls))) \<and>
          (case lr_failed lr of
             None \<Rightarrow> k = length ls \<and> (\<forall>m \<in> set (concat ls). deploys pl topo m)
           | Some f \<Rightarrow> f \<in> set (concat (take k ls)) \<and> \<not> deploys pl topo f)"
        using Cons.IH [OF rec] by blast
      have "take (Suc k - 1) (L # ls) = (if k = 0 then [] else L # take (k - 1) ls)"
        by (cases k) auto
      with k eq ret good show ?thesis
        by (intro exI [of _ "Suc k"]) (auto simp: executed_of_def split: option.splits)
    qed
  qed
qed


lemma executeOrdered_stops:
  assumes "executeOrdered topo pl = (calls, res)"
  shows "\<exists>k rcalls. k \<le> length (t_executionOrder topo) \<and>
     calls = concat (map (calls_of pl topo) (concat (take k (t_executionOrder topo)))) @ rcalls \<and>
     (\<forall>m \<in> set (concat (take (k - 1) (t_executionOrder topo))). deploys pl topo m) \<and>
     (\<forall>c \<in> set rcalls. \<exists>n. c = CRollback n)"
proof (cases "t_services topo = []")
  case True
  with assms show ?thesis by (intro exI [of _ 0]) (auto simp: executeOrdered_def)
next
  case False
  obtain cs r where run: "run_layers pl topo (t_executionOrder topo) [] [] = (cs, r)" by fastforce
  obtain rcalls where "calls = cs @ rcalls" "\<forall>c \<in> set rcalls. \<exists>n. c = CRollback n"
    using assms False run
    by (auto simp: executeOrdered_def rollback_all_def Let_def split: sum.splits if_splits)
  with run_layers_stops [OF run] show ?thesis by blast
qed

text \<open>The record that \<open>executed\<close> keeps of a deployed service.\<close>

definition executed_entry :: "pipeline \<Rightarrow> service_topology \<Rightarrow> string \<Rightarrow> executed_service" where
  "executed_entry pl topo n =
     (let r = result_of pl topo n in \<lparr>e_name = n, e_projectId = r_projectId r, e_url = r_url r\<rparr>)"

lemma executed_of_results:
  assumes "\<forall>m \<in> set ns. returns pl topo m"
  shows "executed_of (map (result_of pl topo) ns) = map (executed_entry pl topo) (filter (deploys pl topo) ns)"
  using assms run_service_result [of pl topo]
  by (induction ns) (auto simp: executed_of_def executed_entry_def deploys_def Let_def)

lemma row_of_results:
  assumes "\<forall>m \<in> set ns. returns pl topo m"
  shows "row_of r_name n (map (result_of pl topo) ns) = (if n \<in> set ns then Some (result_of pl topo n) else None)"
  using assms run_service_result [of pl topo] by (induction ns) auto

lemma row_of_entries:
  "row_of e_name n (map (executed_entry pl topo) ns) = (if n \<in> set ns then Some (executed_entry pl topo n) else None)"
  by (induction ns) (auto simp: executed_entry_def Let_def)

text \<open>What \<open>executeOrdered\<close> reports of a service when the run has failed after attempting \<open>att\<close>.\<close>

definition reported :: "pipeline \<Rightarrow> service_topology \<Rightarrow> string list \<Rightarrow> string \<Rightarrow> svc_status" where
  "reported pl topo att n =
     (if n \<notin> set att then SRollbackSkipped
      else if \<not> deploys pl topo n then SFailed
      else (case rollbackService pl (executed_entry pl topo n) of
              None \<Rightarrow> SRolledBack
            | Some (PolicyError _) \<Rightarrow> SRollbackFailedDueToPolicy
            | Some (OtherError _) \<Rightarrow> SRollbackFailed))"

lemma final_status_reported:
  assumes "\<forall>m \<in> set att. returns pl topo m"
  shows "r_name (final_status (snd (rollback_all pl (map (executed_entry pl topo) (filter (deploys pl topo) att))))
              (fold (\<lambda>r m. js_set (r_name r) r m) (map (result_of pl topo) att) []) s) = n_name s \<and>
         r_status (final_status (snd (rollback_all pl (map (executed_entry pl topo) (filter (deploys pl topo) att))))
              (fold (\<lambda>r m. js_set (r_name r) r m) (map (result_of pl topo) att) []) s) = reported pl topo att (n_name s)"
proof -
  have st: "js_get (fold (\<lambda>r m. js_set (r_name r) r m) (map (result_of pl topo) att) []) n =
      (if n \<in> set att then Some (result_of pl topo n) else None)" for n
    using assms row_of_results [of "rev att" pl topo n] by (simp add: js_get_fold_set rev_map)
  have oc: "js_get (snd (rollback_all pl (map (executed_entry pl topo) (filter (deploys pl topo) att)))) n =
      (if n \<in> set att \<and> deploys pl topo n then Some (rollback_one pl (executed_entry pl topo n)) else None)" for n
    using row_of_entries [of n pl topo "filter (deploys pl topo) att"]
    by (simp add: rollback_all_def js_get_fold_set)
  show ?thesis
  proof (cases "n_name s \<in> set att")
    case True
    with assms run_service_result [of pl topo "n_name s"] show ?thesis
      unfolding final_status_def st oc
      by (auto simp: reported_def deploys_def rollback_one_def split: option.splits rollback_error.splits)
  next
    case False
    then show ?thesis unfolding final_status_def st oc by (simp add: reported_def)
  qed
qed

section \<open>Properties\<close>

text \<open>
  C18. Dependencies first. In a run over a topology that \<open>buildTopology\<close> returned, whatever the
  pipeline does, a service is deployed only after each of its dependencies was deployed and,
  where there is a health check, found healthy; and it is deployed once only.
\<close>

theorem executeOrdered_dependencies_first:
  assumes "buildTopology svs repo path sha br = Inr topo" and "executeOrdered topo pl = (calls, res)"
    and "s \<in> set svs" and "d \<in> set (n_dependsOn s)" and "CDeploy (n_name s) \<in> set calls"
  shows "deploys pl topo d \<and> (\<exists>xs ys. calls = xs @ CDeploy (n_name s) # ys \<and> CDeploy d \<in> set xs \<and>
     CDeploy (n_name s) \<notin> set xs \<and> CDeploy (n_name s) \<notin> set ys)"
proof -
  let ?ls = "t_executionOrder topo" and ?n = "n_name s"
  have topo: "t_services topo = svs" "distinct (concat ?ls)" "names svs = set (concat ?ls)"
    and dep: "\<And>i. i < length ?ls \<Longrightarrow> ?n \<in> set (?ls ! i) \<Longrightarrow> \<exists>j < i. d \<in> set (?ls ! j)"
    using buildTopology_layered [OF assms(1)] assms(3,4) by blast+
  obtain k rcalls where k: "k \<le> length ?ls" "calls = concat (map (calls_of pl topo) (concat (take k ?ls))) @ rcalls"
    "\<forall>m \<in> set (concat (take (k - 1) ?ls)). deploys pl topo m" "\<forall>c \<in> set rcalls. \<exists>n. c = CRollback n"
    using executeOrdered_stops [OF assms(2)] by blast
  have "?n \<in> set (concat (take k ?ls))" using assms(5) k(2,4) run_service_calls by fastforce
  then obtain i where i: "i < k" "?n \<in> set (?ls ! i)" unfolding in_concat_take by blast
  then obtain j where j: "j < i" "d \<in> set (?ls ! j)" using dep k(1) by (meson less_le_trans)
  have in_take: "d \<in> set (concat (take m ?ls))" if "j < m" "m \<le> length ?ls" for m
    unfolding in_concat_take using that j by (auto intro!: exI [of _ j])
  obtain us vs where split: "?ls ! i = us @ ?n # vs" using i(2) by (meson split_list)
  let ?A = "concat (take i ?ls) @ us" and ?B = "vs @ concat (drop (Suc i) (take k ?ls))"
  have "take k ?ls = take i ?ls @ ?ls ! i # drop (Suc i) (take k ?ls)"
    using i(1) k(1) id_take_nth_drop [of i "take k ?ls"] by (simp add: min_def)
  from arg_cong [OF this, of concat] have AB: "concat (take k ?ls) = ?A @ ?n # ?B" using split by simp
  have "distinct (concat (take k ?ls))"
    using topo(2) by (metis append_take_drop_id concat_append distinct_append)
  then have notin: "?n \<notin> set ?A" "?n \<notin> set ?B" unfolding AB by auto
  obtain rest where rest: "calls_of pl topo ?n = CDeploy ?n # rest" "CDeploy ?n \<notin> set rest"
    using run_service_known [of s topo pl] assms(3) topo(1) by auto
  let ?X = "concat (map (calls_of pl topo) ?A)" and ?Y = "rest @ concat (map (calls_of pl topo) ?B) @ rcalls"
  have "calls = ?X @ CDeploy ?n # ?Y" unfolding k(2) AB using rest(1) by simp
  moreover have "CDeploy ?n \<notin> set ?X" "CDeploy ?n \<notin> set ?Y"
    using notin rest(2) k(4) run_service_calls [of ?n pl topo] by (auto 4 3)
  moreover have "d \<in> n_name ` set (t_services topo)"
    using in_take [of k] i(1) j(1) k(1) topo by (auto simp: names_def dest: in_set_takeD)
  then have "CDeploy d \<in> set ?X"
    using in_take [of i] i(1) j(1) k(1) run_service_calls_known [of d topo pl] by auto
  moreover have "deploys pl topo d"
  proof -
    have "j < k - 1" "k - 1 \<le> length ?ls" using i(1) j(1) k(1) by simp_all
    then show ?thesis using in_take [of "k - 1"] k(3) by blast
  qed
  ultimately show ?thesis by blast
qed

text \<open>
  The runs of the witnesses: the topology of \<open>Topology\<close> with a pipeline in which every call succeeds, one in
  which the deployment of the service named \<open>api\<close> fails and the rollback of \<open>db\<close> is blocked.
\<close>

definition ok_deployment :: deployment where
  "ok_deployment = \<lparr>d_success = True, d_projectId = None, d_url = None, d_error = None\<rparr>"

definition smooth :: pipeline where
  "smooth = \<lparr>deployService = (\<lambda>s t. Inr ok_deployment), waitForHealthy = None, rollbackService = (\<lambda>e. None)\<rparr>"

definition bumpy :: pipeline where
  "bumpy = \<lparr>deployService = (\<lambda>s t. Inr (ok_deployment\<lparr>d_success := n_name s \<noteq> ''api''\<rparr>)),
     waitForHealthy = Some (\<lambda>s d. Inr \<lparr>h_healthy = True, h_error = None\<rparr>),
     rollbackService = (\<lambda>e. if e_name e = ''db'' then Some (PolicyError ''archived'') else None)\<rparr>"

lemmas run_simps = executeOrdered_def run_service_def rollback_all_def rollback_one_def executed_of_def
  failed_result_def deployed_result_def final_status_def or_default_def web_topology_def web_app_def node_def
  smooth_def bumpy_def ok_deployment_def Let_def

theorem executeOrdered_dependencies_first_witness:
  "deploys smooth web_topology ''db'' \<and> CDeploy ''api'' \<in> set (fst (executeOrdered web_topology smooth))"
proof -
  have calls: "fst (executeOrdered web_topology smooth) = [CDeploy ''db'', CDeploy ''cache'', CDeploy ''api'', CDeploy ''web'']"
    by (simp add: run_simps)
  have "deploys smooth web_topology ''db''"
    using executeOrdered_dependencies_first [OF buildTopology_web_app surjective_pairing,
        of "node ''api'' [''db'', ''cache''] None" "''db''" smooth]
    by (simp add: calls) (simp add: web_app_def node_def)
  with calls show ?thesis by simp
qed

text \<open>
  Success is honest. A run that returns reports success exactly when there is a service and
  every service was deployed and, where there is a health check, found healthy; it then reports
  every service, in the order given, as deployed, and has rolled nothing back. (Service names
  are not empty.)
\<close>

theorem executeOrdered_success:
  assumes "buildTopology svs repo path sha br = Inr topo" and "[] \<notin> n_name ` set svs"
    and "executeOrdered topo pl = (calls, Inr res)"
  shows "(o_success res \<longleftrightarrow> svs \<noteq> [] \<and> (\<forall>s \<in> set svs. deploys pl topo (n_name s))) \<and>
     (o_success res \<longrightarrow>
        map (\<lambda>r. (r_name r, r_status r)) (o_services res) = map (\<lambda>s. (n_name s, SDeployed)) svs \<and>
        (\<forall>n. CRollback n \<notin> set calls))"
proof (cases "svs = []")
  case True
  with assms(3) buildTopology_layered [OF assms(1)] show ?thesis by (auto simp: executeOrdered_def)
next
  case False
  let ?ls = "t_executionOrder topo"
  have topo: "t_services topo = svs" "names svs = set (concat ?ls)"
    using buildTopology_layered [OF assms(1)] by auto
  obtain cs lr where run: "run_layers pl topo ?ls [] [] = (cs, Inr lr)"
    using assms(3) False topo(1) by (auto simp: executeOrdered_def split: sum.splits prod.splits)
  show ?thesis
  proof (cases "lr_failed lr")
    case None
    then have all: "\<forall>m \<in> set (concat ?ls). deploys pl topo m" "\<forall>m \<in> set (concat ?ls). returns pl topo m"
      and sts: "lr_statuses lr = map (result_of pl topo) (concat ?ls)"
      and cs: "cs = concat (map (calls_of pl topo) (concat ?ls))"
      using run_layers_stops [OF run] by auto
    have mem: "n_name s \<in> set (concat ?ls)" if "s \<in> set svs" for s
      using that topo(2) by (metis image_eqI list.set_map names_def)
    then have "find (\<lambda>r. r_name r = n_name s) (lr_statuses lr) = Some (result_of pl topo (n_name s))" if "s \<in> set svs" for s
      using row_of_results [OF all(2), of "n_name s"] that unfolding sts row_of_def by simp
    moreover have "r_name (result_of pl topo (n_name s)) = n_name s \<and> r_status (result_of pl topo (n_name s)) = SDeployed \<and> deploys pl topo (n_name s)"
      if "s \<in> set svs" for s
      using bspec [OF all(1) mem [OF that]] run_service_result [of pl topo "n_name s"] by (simp add: deploys_def)
    ultimately show ?thesis
      using assms(3) False topo(1) run None no_rollback_calls [of _ pl topo]
      by (auto simp: executeOrdered_def cs)
  next
    case (Some f)
    then have f: "f \<in> set (concat ?ls)" "\<not> deploys pl topo f"
      using run_layers_stops [OF run] by (auto dest: in_set_takeD)
    then have "f \<in> n_name ` set svs" using topo(2) by (simp add: names_def)
    then have "\<exists>s \<in> set svs. n_name s = f" "f \<noteq> []" using assms(2) by force+
    with f(2) Some run assms(3) False topo(1) show ?thesis
      by (auto simp: executeOrdered_def Let_def split: prod.splits)
  qed
qed

theorem executeOrdered_success_witness:
  "\<exists>calls res. executeOrdered web_topology smooth = (calls, Inr res) \<and> o_success res \<and>
     map (\<lambda>r. (r_name r, r_status r)) (o_services res) = map (\<lambda>s. (n_name s, SDeployed)) web_app"
proof -
  have ne: "[] \<notin> n_name ` set web_app" by (simp add: web_app_def node_def)
  obtain calls res where run: "executeOrdered web_topology smooth = (calls, Inr res)" "o_success res"
    by (simp add: run_simps)
  with executeOrdered_success [OF buildTopology_web_app ne run(1)] show ?thesis by blast
qed

text \<open>
  Failure is undone and reported as it was. A run over a topology that returns without success
  stopped at a layer with a failure, all earlier layers being deployed. It then asked for the
  rollback of exactly the services it had deployed, the most recent first, and reports each
  service by what happened to it: not attempted, failed, rolled back, or left deployed because the
  rollback was blocked by a policy or failed.
\<close>

theorem executeOrdered_failure:
  assumes "buildTopology svs repo path sha br = Inr topo" and "svs \<noteq> []"
    and "executeOrdered topo pl = (calls, Inr res)" and "\<not> o_success res"
  shows "\<exists>k att. k \<le> length (t_executionOrder topo) \<and> att = concat (take k (t_executionOrder topo)) \<and>
     (\<exists>f \<in> set att. \<not> deploys pl topo f) \<and>
     (\<forall>n \<in> set (concat (take (k - 1) (t_executionOrder topo))). deploys pl topo n) \<and>
     calls = concat (map (calls_of pl topo) att) @ map CRollback (rev (filter (deploys pl topo) att)) \<and>
     map (\<lambda>r. (r_name r, r_status r)) (o_services res) = map (\<lambda>s. (n_name s, reported pl topo att (n_name s))) svs"
proof -
  let ?ls = "t_executionOrder topo"
  have topo: "t_services topo = svs" using buildTopology_layered [OF assms(1)] by auto
  obtain cs lr where run: "run_layers pl topo ?ls [] [] = (cs, Inr lr)" "truthy (lr_failed lr)"
    using assms(2,3,4) topo by (auto simp: executeOrdered_def split: sum.splits prod.splits if_splits)
  obtain f where f: "lr_failed lr = Some f" using run(2) by (cases "lr_failed lr") auto
  obtain k where k: "k \<le> length ?ls" "cs = concat (map (calls_of pl topo) (concat (take k ?ls)))"
    "\<forall>m \<in> set (concat (take (k - 1) ?ls)). deploys pl topo m" "\<forall>m \<in> set (concat (take k ?ls)). returns pl topo m"
    "lr_statuses lr = map (result_of pl topo) (concat (take k ?ls))"
    "lr_executed lr = executed_of (map (result_of pl topo) (concat (take k ?ls)))"
    "f \<in> set (concat (take k ?ls))" "\<not> deploys pl topo f"
    using run_layers_stops [OF run(1)] f by fastforce
  let ?att = "concat (take k ?ls)"
  have ex: "lr_executed lr = map (executed_entry pl topo) (filter (deploys pl topo) ?att)"
    using k(4,6) executed_of_results by metis
  have en: "e_name (executed_entry pl topo n) = n" for n by (simp add: executed_entry_def Let_def)
  have "calls = cs @ map CRollback (rev (filter (deploys pl topo) ?att))"
    "o_services res = map (final_status (snd (rollback_all pl (lr_executed lr)))
       (fold (\<lambda>r m. js_set (r_name r) r m) (lr_statuses lr) [])) svs"
    using assms(2,3) run topo
    by (auto simp: executeOrdered_def rollback_all_def Let_def ex en comp_def rev_map)
  moreover have "map (\<lambda>r. (r_name r, r_status r)) (map (final_status (snd (rollback_all pl (lr_executed lr)))
       (fold (\<lambda>r m. js_set (r_name r) r m) (lr_statuses lr) [])) svs)
     = map (\<lambda>s. (n_name s, reported pl topo ?att (n_name s))) svs"
    using final_status_reported [OF k(4)] unfolding ex k(5) by simp
  ultimately show ?thesis
    using k(1,2,3,7,8) by (intro exI [of _ k] exI [of _ ?att]) auto
qed

theorem executeOrdered_failure_witness:
  "\<exists>calls res. executeOrdered web_topology bumpy = (calls, Inr res) \<and> \<not> o_success res \<and>
     map r_status (o_services res) = [SRollbackSkipped, SFailed, SRollbackFailedDueToPolicy, SRolledBack] \<and>
     (\<exists>att. calls = concat (map (calls_of bumpy web_topology) att)
        @ map CRollback (rev (filter (deploys bumpy web_topology) att)))"
proof -
  have ne: "web_app \<noteq> []" by (simp add: web_app_def)
  obtain calls res where run: "executeOrdered web_topology bumpy = (calls, Inr res)" "\<not> o_success res"
    "map r_status (o_services res) = [SRollbackSkipped, SFailed, SRollbackFailedDueToPolicy, SRolledBack]"
    by (simp add: run_simps)
  show ?thesis
    using executeOrdered_failure [OF buildTopology_web_app ne run(1,2)] run
    by (elim exE conjE) (intro exI conjI, assumption+)
qed

end
