(* ===== verification/Monorepo_Deps.thy ===== *)
theory Monorepo_Deps
  imports Topology
begin

text \<open>
  Dependencies between the services of a monorepo (\<open>src/src/pipeline/deploy/monorepo-deps.ts\<close>): a service depends
  on the siblings whose container names occur in its environment; if that is circular, all dependencies
  are dropped. The search for references to containers outside of the monorepo only feeds a log message and is left out.

  Shown: the depth-first search finds a cycle exactly when there is one, and the services that come out of the detection always have a topology.
\<close>

section \<open>The search for a cycle\<close>

definition serviceMap :: "service_node list \<Rightarrow> (string, service_node) js_map" where
  "serviceMap svs = fold (\<lambda>s m. js_set (n_name s) s m) svs []"

text \<open>The dependencies that the search follows.\<close>

definition known_deps :: "(string, service_node) js_map \<Rightarrow> string \<Rightarrow> string list" where
  "known_deps m n = (case js_get m n of None \<Rightarrow> [] | Some s \<Rightarrow> filter (js_has m) (n_dependsOn s))"

text \<open>
  \<open>dfs\<close> on each of a list of names until one finds a cycle: the body of \<open>dfs\<close> is the second equation, its loop over the dependencies the recursive call
  in the condition. \<open>visited\<close> and \<open>inStack\<close> are threaded.
\<close>

function dfs :: "(string, service_node) js_map \<Rightarrow> string list \<Rightarrow> string list \<Rightarrow> string list \<Rightarrow> bool \<times> string list \<times> string list" where
  "dfs m [] visited inStack = (False, visited, inStack)"
| "dfs m (n # ns) visited inStack =
     (if n \<in> set inStack then (True, visited, inStack)
      else if n \<in> set visited then dfs m ns visited inStack
      else let (found, visited', inStack') = dfs m (known_deps m n) (n # visited) (n # inStack)
           in if found then (True, visited', inStack') else dfs m ns visited' (remove1 n inStack'))"
  by pat_completeness auto

lemma dfs_visited_grows:
  assumes "dfs_dom (m, ns, visited, inStack)"
  shows "set visited \<subseteq> set (fst (snd (dfs m ns visited inStack)))"
  using assms
proof (induction rule: dfs.pinduct)
  case (2 m n ns visited inStack)
  consider "n \<in> set inStack" | "n \<notin> set inStack" "n \<in> set visited" | "n \<notin> set inStack" "n \<notin> set visited" by blast
  then show ?case
  proof cases
    case 3
    obtain b v st where inner: "dfs m (known_deps m n) (n # visited) (n # inStack) = (b, v, st)" by (metis prod_cases3)
    have v: "set visited \<subseteq> set v" using 2(3) [OF 3] inner by simp
    show ?thesis
    proof (cases b)
      case False
      show ?thesis using v 2(4) [OF 3 inner [symmetric] refl refl False] 3 False
        by (auto simp: dfs.psimps(2) [OF 2(1)] inner)
    qed (use v 3 inner in \<open>simp add: dfs.psimps(2) [OF 2(1)]\<close>)
  qed (use 2 in \<open>simp_all add: dfs.psimps\<close>)
qed (simp add: dfs.psimps)

definition unvisited :: "(string, service_node) js_map \<Rightarrow> string list \<Rightarrow> nat" where
  "unvisited m visited = card (set (map fst m) - set visited)"

lemma unvisited_mono: "set v \<subseteq> set v' \<Longrightarrow> unvisited m v' \<le> unvisited m v"
  unfolding unvisited_def by (rule card_mono) auto

lemma unvisited_less: "n \<notin> set v \<Longrightarrow> js_has m n \<Longrightarrow> unvisited m (n # v) < unvisited m v"
  unfolding unvisited_def by (rule psubset_card_mono) (auto simp: map_of_eq_None_iff)

termination dfs
proof (relation "measures [\<lambda>(m, ns, v, st). unvisited m v, \<lambda>(m, ns, v, st). length ns]", goal_cases)
  case (3 m n ns visited inStack)
  then show ?case
    using unvisited_less [of n visited m] unvisited_mono [of visited "n # visited" m]
    by (cases "js_get m n") (auto simp: known_deps_def order_le_less)
next
  case (4 m n ns visited inStack x found y visited' inStack')
  have "set visited \<subseteq> set visited'" using dfs_visited_grows [OF 4(7)] by (simp flip: 4(3,4,5))
  then show ?case using unvisited_mono [of visited visited' m] by auto
qed auto

declare dfs.simps(2) [simp del]

definition hasCircularDependency :: "service_node list \<Rightarrow> bool" where
  "hasCircularDependency svs = fst (dfs (serviceMap svs) (map n_name svs) [] [])"

section \<open>Detection\<close>

definition olContainerName :: "string \<Rightarrow> string \<Rightarrow> string" where
  "olContainerName parentNormalized name = ''ol-'' @ parentNormalized @ ''-'' @ name"

definition containerToService :: "string \<Rightarrow> service_node list \<Rightarrow> (string, string) js_map" where
  "containerToService parentName svs =
     (let parentNormalized = map (\<lambda>c. if c = CHR ''/'' then CHR ''-'' else c) parentName
      in fold (\<lambda>s m. js_set (olContainerName parentNormalized (n_name s)) (n_name s) m) svs [])"

definition referenced :: "(string, string) js_map \<Rightarrow> string \<Rightarrow> string list \<Rightarrow> string list" where
  "referenced containers self values =
     fold (\<lambda>value deps. fold (\<lambda>(container, sibling) deps.
         if sibling = self then deps
         else if js_includes container value then List.insert sibling deps else deps) containers deps) values []"

definition detectMonorepoDependencies :: "service_node list \<Rightarrow> string \<Rightarrow> (string \<Rightarrow> (string, string) js_map) \<Rightarrow> service_node list" where
  "detectMonorepoDependencies svs parentName getEnvVarsForService =
     (let containers = containerToService parentName svs;
          svs' = map (\<lambda>s. s\<lparr>n_dependsOn := referenced containers (n_name s) (map snd (getEnvVarsForService (n_name s)))\<rparr>) svs
      in if hasCircularDependency svs' then map (\<lambda>s. s\<lparr>n_dependsOn := []\<rparr>) svs' else svs')"

section \<open>Correctness of the search\<close>

text \<open>The edges that the search can follow.\<close>

definition edges :: "(string, service_node) js_map \<Rightarrow> (string \<times> string) set" where
  "edges m = {(n, d). d \<in> set (known_deps m n)}"

text \<open>What holds of a finished part of the graph: it is closed and without a cycle.\<close>

definition finished :: "(string, service_node) js_map \<Rightarrow> string set \<Rightarrow> bool" where
  "finished m F \<longleftrightarrow> edges m `` F \<subseteq> F \<and> (\<forall>x \<in> F. (x, x) \<notin> (edges m)\<^sup>+)"

lemma closed_trancl: "R `` F \<subseteq> F \<Longrightarrow> x \<in> F \<Longrightarrow> (x, y) \<in> R\<^sup>* \<Longrightarrow> y \<in> F"
  by (rotate_tac 2, induction rule: rtrancl_induct) auto

lemma dfs_stack: "dfs m ns visited inStack = (False, v', st') \<Longrightarrow> st' = inStack"
proof (induction m ns visited inStack arbitrary: v' st' rule: dfs.induct)
  case (2 m n ns visited inStack)
  have ni: "n \<notin> set inStack" using 2(4) by (auto simp: dfs.simps(2))
  show ?case
  proof (cases "n \<in> set visited")
    case True
    with 2(1) [OF ni True] 2(4) ni show ?thesis by (auto simp: dfs.simps(2))
  next
    case False
    obtain b v st where inner: "dfs m (known_deps m n) (n # visited) (n # inStack) = (b, v, st)" by (metis prod_cases3)
    then have b: "\<not> b" and rest: "dfs m ns v (remove1 n st) = (False, v', st')"
      using 2(4) ni False by (auto simp: dfs.simps(2) split: if_splits)
    have "st = n # inStack" using 2(2) [OF ni False] inner b by simp
    then show ?thesis using 2(3) [OF ni False inner [symmetric] refl refl b] rest by simp
  qed
qed simp

lemma finished_insert:
  assumes "finished m F" and "n \<notin> F" and "set (known_deps m n) \<subseteq> F"
  shows "finished m (insert n F)"
proof -
  have "(n, n) \<notin> (edges m)\<^sup>+"
  proof
    assume "(n, n) \<in> (edges m)\<^sup>+"
    then obtain y where "(n, y) \<in> edges m" "(y, n) \<in> (edges m)\<^sup>*" by (meson tranclD)
    then have "n \<in> F" using closed_trancl [of "edges m" F y n] assms(1,3) by (auto simp: edges_def finished_def)
    with assms(2) show False by simp
  qed
  with assms show ?thesis by (auto simp: finished_def edges_def)
qed

lemma dfs_False:
  assumes "dfs m ns visited inStack = (False, v', st')" and "set inStack \<subseteq> set visited" and "finished m (set visited - set inStack)"
    and "distinct inStack"
  shows "st' = inStack \<and> set visited \<subseteq> set v' \<and> set ns \<subseteq> set v' - set inStack \<and> finished m (set v' - set inStack)"
  using assms
proof (induction m ns visited inStack arbitrary: v' st' rule: dfs.induct)
  case (2 m n ns visited inStack)
  have ni: "n \<notin> set inStack" using 2(4) by (auto simp: dfs.simps(2))
  show ?case
  proof (cases "n \<in> set visited")
    case True
    with 2(1) [OF ni True, of v' st'] 2(4-) ni show ?thesis by (auto simp: dfs.simps(2))
  next
    case False
    obtain b v st where inner: "dfs m (known_deps m n) (n # visited) (n # inStack) = (b, v, st)" by (metis prod_cases3)
    have b: "\<not> b" and rest: "dfs m ns v (remove1 n st) = (False, v', st')"
      using 2(4) ni False inner by (auto simp: dfs.simps(2) split: if_splits)
    have eqF: "set (n # visited) - set (n # inStack) = set visited - set inStack" using False by auto
    have "st = n # inStack \<and> set (n # visited) \<subseteq> set v \<and> set (known_deps m n) \<subseteq> set v - set (n # inStack) \<and> finished m (set v - set (n # inStack))"
      by (rule 2(2) [OF ni False]) (use inner b 2(5-) ni eqF in auto)
    then have st: "remove1 n st = inStack" and v: "set (n # visited) \<subseteq> set v" and kd: "set (known_deps m n) \<subseteq> set v - set (n # inStack)"
      and fin: "finished m (set v - set (n # inStack))" by auto
    have F: "insert n (set v - set (n # inStack)) = set v - set inStack" using v ni by auto
    have "finished m (set v - set inStack)" using finished_insert [OF fin _ kd] F by simp
    then have "st' = inStack \<and> set v \<subseteq> set v' \<and> set ns \<subseteq> set v' - set inStack \<and> finished m (set v' - set inStack)"
      using 2(3) [OF ni False inner [symmetric] refl refl b, of v' st'] rest st v 2(5,7) by auto
    with v ni show ?thesis by auto
  qed
qed (auto simp: finished_def)

text \<open>The stack is a path, newest node first.\<close>

fun stack_path :: "(string \<times> string) set \<Rightarrow> string list \<Rightarrow> bool" where
  "stack_path R (x # y # st) \<longleftrightarrow> (y, x) \<in> R \<and> stack_path R (y # st)"
| "stack_path R _ \<longleftrightarrow> True"

lemma stack_path_reaches: "stack_path R (x # st) \<Longrightarrow> n \<in> set (x # st) \<Longrightarrow> (n, x) \<in> R\<^sup>*"
proof (induction st arbitrary: x)
  case (Cons y st)
  then show ?case by (cases "n = x") (auto intro: rtrancl.rtrancl_into_rtrancl)
qed simp

lemma dfs_True:
  assumes "dfs m ns visited inStack = (True, s')" and "stack_path (edges m) inStack"
    and "inStack = [] \<or> set ns \<subseteq> edges m `` {hd inStack}"
  shows "\<exists>x. (x, x) \<in> (edges m)\<^sup>+"
  using assms
proof (induction m ns visited inStack arbitrary: s' rule: dfs.induct)
  case (2 m n ns visited inStack)
  show ?case
  proof (cases "n \<in> set inStack")
    case True
    then obtain x st where st: "inStack = x # st" by (cases inStack) auto
    have "(n, x) \<in> (edges m)\<^sup>*" using stack_path_reaches [of "edges m" x st n] 2(5) True st by simp
    moreover have "(x, n) \<in> edges m" using 2(6) st by auto
    ultimately show ?thesis by (meson rtrancl_into_trancl2)
  next
    case ni: False
    show ?thesis
    proof (cases "n \<in> set visited")
      case True
      with 2(1) [OF ni True] 2(4-) ni show ?thesis by (auto simp: dfs.simps(2))
    next
      case False
      obtain b v st where inner: "dfs m (known_deps m n) (n # visited) (n # inStack) = (b, v, st)" by (metis prod_cases3)
      show ?thesis
      proof (cases b)
        case True
        have "stack_path (edges m) (n # inStack)" using 2(5,6) by (cases inStack) auto
        then show ?thesis using 2(2) [OF ni False, of "(v, st)"] inner True by (auto simp: edges_def)
      next
        case nb: False
        with inner have "st = n # inStack" using dfs_stack [of m "known_deps m n"] by simp
        then have "dfs m ns v inStack = (True, s')" using 2(4) ni False inner nb by (simp add: dfs.simps(2))
        with \<open>st = n # inStack\<close> 2(3) [OF ni False inner [symmetric] refl refl nb] 2(5,6) show ?thesis by auto
      qed
    qed
  qed
qed simp

lemma js_has_serviceMap_aux: "js_has (fold (\<lambda>s m. js_set (n_name s) s m) svs m) n \<longleftrightarrow> js_has m n \<or> n \<in> n_name ` set svs"
  by (induction svs arbitrary: m) (auto simp: js_get_set)

lemma js_has_serviceMap: "js_has (serviceMap svs) n \<longleftrightarrow> n \<in> n_name ` set svs"
  using js_has_serviceMap_aux [of svs "[]" n] by (simp add: serviceMap_def)

lemma hasCircularDependency_iff: "hasCircularDependency svs \<longleftrightarrow> \<not> acyclic (edges (serviceMap svs))"
proof -
  let ?m = "serviceMap svs"
  obtain b v st where d: "dfs ?m (map n_name svs) [] [] = (b, v, st)" by (metis prod_cases3)
  show ?thesis
  proof (cases b)
    case True
    then show ?thesis using dfs_True [of ?m "map n_name svs" "[]" "[]" "(v, st)"] d by (auto simp: hasCircularDependency_def acyclic_def)
  next
    case False
    have v: "set (map n_name svs) \<subseteq> set v" "finished ?m (set v)"
      using dfs_False [of ?m "map n_name svs" "[]" "[]" v st] d False by (auto simp: finished_def)
    have "(x, x) \<notin> (edges ?m)\<^sup>+" for x
    proof
      assume cycle: "(x, x) \<in> (edges ?m)\<^sup>+"
      then obtain y where "(x, y) \<in> edges ?m" by (meson tranclD)
      then have "js_has ?m x" by (cases "js_get ?m x") (auto simp: edges_def known_deps_def)
      then have "x \<in> n_name ` set svs" unfolding js_has_serviceMap .
      then have "x \<in> set v" using v(1) by (simp add: subset_iff)
      then show False using v(2) cycle by (simp add: finished_def)
    qed
    then have "acyclic (edges ?m)" by (simp add: acyclic_def)
    with d False show ?thesis by (simp add: hasCircularDependency_def)
  qed
qed

section \<open>What is detected\<close>

text \<open>The siblings that the environment of a service refers to.\<close>

definition refers_to :: "service_node list \<Rightarrow> string \<Rightarrow> (string \<Rightarrow> (string, string) js_map) \<Rightarrow> string \<Rightarrow> string set" where
  "refers_to svs parentName env n =
     {d \<in> n_name ` set svs. d \<noteq> n \<and> (\<exists>v \<in> snd ` set (env n).
        js_includes (olContainerName (map (\<lambda>c. if c = CHR ''/'' then CHR ''-'' else c) parentName) d) v)}"

lemma js_get_fold_names:
  assumes "inj f"
  shows "js_get (fold (\<lambda>s m. js_set (f (n_name s)) (n_name s) m) svs m) c = Some d \<longleftrightarrow>
     (if c \<in> f ` n_name ` set svs then c = f d else js_get m c = Some d)"
  using assms by (induction svs arbitrary: m) (auto simp: js_get_set inj_eq)

lemma js_map_ok_fold: "js_map_ok m \<Longrightarrow> js_map_ok (fold (\<lambda>s m. js_set (f s) (g s) m) svs m)"
  by (induction svs arbitrary: m) (auto simp: js_map_ok_set)

lemma set_containerToService:
  "(c, d) \<in> set (containerToService parentName svs) \<longleftrightarrow> d \<in> n_name ` set svs \<and>
     c = olContainerName (map (\<lambda>c. if c = CHR ''/'' then CHR ''-'' else c) parentName) d"
proof -
  let ?f = "olContainerName (map (\<lambda>c. if c = CHR ''/'' then CHR ''-'' else c) parentName)"
  let ?m = "containerToService parentName svs"
  have inj: "inj ?f" by (auto simp: inj_on_def olContainerName_def)
  have "js_map_ok ?m" unfolding containerToService_def Let_def by (rule js_map_ok_fold) (simp add: js_map_ok_def)
  then have "(c, d) \<in> set ?m \<longleftrightarrow> js_get ?m c = Some d" by (auto simp: js_map_ok_def dest: map_of_SomeD)
  also have "\<dots> \<longleftrightarrow> c \<in> ?f ` n_name ` set svs \<and> c = ?f d"
    using js_get_fold_names [OF inj, of svs "[]" c d] by (simp add: containerToService_def)
  finally show ?thesis using inj by (auto simp: inj_eq)
qed

lemma set_referenced:
  "set (referenced cs self vs) = {d. \<exists>c v. (c, d) \<in> set cs \<and> v \<in> set vs \<and> d \<noteq> self \<and> js_includes c v}"
proof -
  let ?step = "\<lambda>value. fold (\<lambda>(container, sibling) deps. if sibling = self then deps
      else if js_includes container value then List.insert sibling deps else deps)"
  have inner: "set (?step v cs deps) = set deps \<union> {d. \<exists>c. (c, d) \<in> set cs \<and> d \<noteq> self \<and> js_includes c v}" for v cs deps
    by (induction cs arbitrary: deps) (auto split: if_splits)
  have "set (fold (\<lambda>v deps. ?step v cs deps) vs deps) = set deps \<union> {d. \<exists>c v. (c, d) \<in> set cs \<and> v \<in> set vs \<and> d \<noteq> self \<and> js_includes c v}" for deps
    by (induction vs arbitrary: deps) (auto simp: inner)
  then show ?thesis by (simp add: referenced_def)
qed

lemma set_referenced_containers:
  "set (referenced (containerToService parentName svs) n (map snd (env n))) = refers_to svs parentName env n"
  by (auto simp: set_referenced set_containerToService refers_to_def)

lemma get_serviceMap: "distinct (map n_name svs) \<Longrightarrow> js_get (serviceMap svs) n = row_of n_name n svs"
  by (simp add: serviceMap_def js_get_fold_rows)

lemma edges_eq_dep_rel:
  assumes "distinct (map n_name svs)" and "\<forall>s \<in> set svs. set (n_dependsOn s) \<subseteq> set (map n_name svs)"
  shows "(edges (serviceMap svs))\<inverse> = {(d, n). \<exists>s \<in> set svs. n_name s = n \<and> d \<in> set (n_dependsOn s)}"
proof -
  have "d \<in> set (known_deps (serviceMap svs) n) \<longleftrightarrow> (\<exists>s \<in> set svs. n_name s = n \<and> d \<in> set (n_dependsOn s))" for n d
  proof (cases "row_of n_name n svs")
    case None
    then show ?thesis using row_of_None_iff [of n_name n svs] by (simp add: known_deps_def get_serviceMap [OF assms(1)]) blast
  next
    case (Some s)
    have s: "s \<in> set svs" "n_name s = n" using row_of_key [OF Some] by auto
    have "s' = s" if h: "s' \<in> set svs" "n_name s' = n" for s'
      using row_of_mem [of n_name svs s'] h Some assms(1) by (simp add: keys_ok_def)
    then have "(\<exists>s \<in> set svs. n_name s = n \<and> d \<in> set (n_dependsOn s)) \<longleftrightarrow> d \<in> set (n_dependsOn s)" using s by blast
    moreover have "set (known_deps (serviceMap svs) n) = set (n_dependsOn s)"
      using assms(2) s(1) unfolding known_deps_def get_serviceMap [OF assms(1), of n] Some by (auto simp only: option.case set_filter js_has_serviceMap set_map)
    ultimately show ?thesis by simp
  qed
  then show ?thesis by (auto simp: edges_def)
qed

section \<open>Property\<close>

text \<open>
  C40. Detected dependencies can always be deployed in order. For services with distinct names the result has a topology; if the
  references between siblings have no cycle, the dependencies are exactly these references, and
  if they have one, there are no dependencies.
\<close>

theorem detected_dependencies_have_topology:
  assumes "distinct (map n_name svs)"
  shows "(\<exists>topo. buildTopology (detectMonorepoDependencies svs parent env) repo path sha br = Inr topo) \<and>
    map n_name (detectMonorepoDependencies svs parent env) = map n_name svs \<and>
    (let refs = {(d, n). n \<in> set (map n_name svs) \<and> d \<in> refers_to svs parent env n}
     in \<forall>s \<in> set (detectMonorepoDependencies svs parent env).
          set (n_dependsOn s) = (if acyclic refs then refers_to svs parent env (n_name s) else {}))"
proof -
  define svs' where "svs' = map (\<lambda>s. s\<lparr>n_dependsOn := referenced (containerToService parent svs) (n_name s) (map snd (env (n_name s)))\<rparr>) svs"
  define out where "out = detectMonorepoDependencies svs parent env"
  have out: "out = (if hasCircularDependency svs' then map (\<lambda>s. s\<lparr>n_dependsOn := []\<rparr>) svs' else svs')"
    by (simp add: out_def svs'_def detectMonorepoDependencies_def Let_def)
  have nm: "map n_name svs' = map n_name svs" "map n_name out = map n_name svs" by (simp_all add: svs'_def out o_def)
  have dep: "set (n_dependsOn s) = refers_to svs parent env (n_name s)" if "s \<in> set svs'" for s
    using that by (auto simp: svs'_def set_referenced_containers)
  have known': "\<forall>s \<in> set svs'. set (n_dependsOn s) \<subseteq> set (map n_name svs')"
    using dep unfolding nm(1) by (auto simp: refers_to_def)
  have known: "\<forall>s \<in> set out. set (n_dependsOn s) \<subseteq> set (map n_name out)"
    using known' nm by (auto simp: out split: if_splits)
  have refs: "{(d, n). \<exists>s \<in> set svs'. n_name s = n \<and> d \<in> set (n_dependsOn s)} =
      {(d, n). n \<in> set (map n_name svs) \<and> d \<in> refers_to svs parent env n}"
    using dep unfolding nm(1) [symmetric] by (auto simp del: map_map)
  have circ: "hasCircularDependency svs' \<longleftrightarrow> \<not> acyclic {(d, n). n \<in> set (map n_name svs) \<and> d \<in> refers_to svs parent env n}"
  proof -
    have "distinct (map n_name svs')" using nm(1) assms by simp
    from edges_eq_dep_rel [OF this known'] have "acyclic (edges (serviceMap svs')) = acyclic ({(d, n). \<exists>s \<in> set svs'. n_name s = n \<and> d \<in> set (n_dependsOn s)})"
      using acyclic_converse [of "edges (serviceMap svs')"] by simp
    then show ?thesis unfolding refs hasCircularDependency_iff by simp
  qed
  have "acyclic {(d, n). \<exists>s \<in> set out. n_name s = n \<and> d \<in> set (n_dependsOn s)}"
    using circ refs by (cases "hasCircularDependency svs'") (auto simp: out acyclic_def)
  then have "\<exists>topo. buildTopology out repo path sha br = Inr topo"
    using buildTopology_circular_iff [OF _ known] nm(2) assms by simp
  moreover have "\<forall>s \<in> set out. set (n_dependsOn s) =
      (if acyclic {(d, n). n \<in> set (map n_name svs) \<and> d \<in> refers_to svs parent env n} then refers_to svs parent env (n_name s) else {})"
    using circ dep by (auto simp: out)
  ultimately show ?thesis using nm(2) by (simp add: out_def Let_def)
qed

definition mono_env :: "string \<Rightarrow> (string, string) js_map" where
  "mono_env n = (if n = ''web'' then [(''API_URL'', ''http://ol-shop-api:3000'')] else [])"

lemma mono_detected:
  "detectMonorepoDependencies [node ''web'' [] None, node ''api'' [] None] ''shop'' mono_env = [node ''web'' [''api''] None, node ''api'' [] None]"
  by (simp add: detectMonorepoDependencies_def containerToService_def referenced_def olContainerName_def mono_env_def node_def Let_def
      hasCircularDependency_def serviceMap_def dfs.simps known_deps_def starts_with_def)

theorem detected_dependencies_have_topology_witness:
  "\<exists>topo. buildTopology [node ''web'' [''api''] None, node ''api'' [] None] ''r'' ''c'' ''s'' None = Inr topo"
  using detected_dependencies_have_topology [of "[node ''web'' [] None, node ''api'' [] None]" "''shop''" mono_env "''r''" "''c''" "''s''" None]
  unfolding mono_detected by (simp add: node_def)

end
