(* ===== verification/Json.thy ===== *)
theory Json
  imports Prelude
begin

text \<open>
  JSON values, as \<open>JSON.parse\<close> returns them, and the reads that the sources make of them. An object is the
  list of its members in order; a stored text is represented by what \<open>JSON.parse\<close> makes of it.
  Numbers are the integers, which is what the modelled code stores and reads.
\<close>

datatype json = JNull | JBool bool | JNum int | JStr string | JArr "json list" | JObj "(string \<times> json) list"

text \<open>The text of a stored value: not JSON (\<open>JSON.parse\<close> throws) or the text of a JSON value.\<close>

datatype stored_text = Not_json | Json json

type_synonym json_record = "(string, json) js_map"

text \<open>\<open>typeof v === 'object'\<close> for a value that is not null and not an array.\<close>

fun as_record :: "json \<Rightarrow> json_record option" where
  "as_record (JObj ms) = Some ms"
| "as_record _ = None"

text \<open>A member that is a string.\<close>

definition str_member :: "json_record \<Rightarrow> string \<Rightarrow> string option" where
  "str_member r k = (case js_get r k of Some (JStr s) \<Rightarrow> Some s | _ \<Rightarrow> None)"

lemma str_member_Nil [simp]: "str_member [] k = None"
  by (simp add: str_member_def)

lemma str_member_Cons [simp]:
  "str_member ((k', v) # r) k = (if k = k' then (case v of JStr s \<Rightarrow> Some s | _ \<Rightarrow> None) else str_member r k)"
  by (simp add: str_member_def)

end
