(* ===== verification/Compose_Spec.thy ===== *)
theory Compose_Spec
  imports Json
begin

text \<open>
  Compose files (\<open>src/src/pipeline/compose.ts\<close>): the services that are read from the merged documents, and the values
  in them (ports, references to environment variables).

  The YAML parser is outside; a document is the JSON value it gives, where a value tagged
  \<open>!reset\<close> is the marker object that the tag's resolver builds. Numbers are integers. Left out of a service are
  \<open>memoryLimitBytes\<close> and the retries of the health check, which are floating-point numbers.

  Shown: escaping dollars and interpolating gives the text back;
  container ports are unique.
\<close>

section \<open>Services\<close>

datatype compose_condition = Service_started | Service_healthy | Service_completed_successfully

datatype compose_build = Build_path string | Build_spec string "string option"

datatype compose_environment = Env_map "(string, string) js_map" | Env_list "string list"

datatype compose_command = Cmd_string string | Cmd_list "string list"

record compose_env_file =
  ef_path :: string
  ef_required :: bool

record compose_healthcheck =
  hc_test :: compose_command
  hc_interval :: "string option"
  hc_timeout :: "string option"
  hc_start_period :: "string option"

record compose_service =
  cs_name :: string
  cs_image :: "string option"
  cs_build :: "compose_build option"
  cs_ports :: "string list option"
  cs_expose :: "string list option"
  cs_profiles :: "string list option"
  cs_environment :: "compose_environment option"
  cs_envFile :: "compose_env_file list option"
  cs_dependsOn :: "string list option"
  cs_conditions :: "(string, compose_condition) js_map option"
  cs_volumes :: "string list option"
  cs_command :: "compose_command option"
  cs_entrypoint :: "compose_command option"
  cs_restart :: "string option"
  cs_healthcheck :: "compose_healthcheck option"

definition empty_service :: "string \<Rightarrow> compose_service" where
  "empty_service name = \<lparr>cs_name = name, cs_image = None, cs_build = None, cs_ports = None, cs_expose = None, cs_profiles = None,
     cs_environment = None, cs_envFile = None, cs_dependsOn = None, cs_conditions = None, cs_volumes = None, cs_command = None,
     cs_entrypoint = None, cs_restart = None, cs_healthcheck = None\<rparr>"

section \<open>Merging documents\<close>

definition isComposeResetValue :: "json \<Rightarrow> bool" where
  "isComposeResetValue v = (case v of JObj ms \<Rightarrow> js_get ms ''__openlanderComposeReset'' = Some (JBool True) | _ \<Rightarrow> False)"

text \<open>The resolvers of the tag always set a value.\<close>

definition reset_value :: "json \<Rightarrow> json" where
  "reset_value v = (case v of JObj ms \<Rightarrow> (case js_get ms ''value'' of Some x \<Rightarrow> x | None \<Rightarrow> JNull) | _ \<Rightarrow> JNull)"

text \<open>\<open>===\<close>: scalars are equal by value; two objects or arrays of the documents are never the same one.\<close>

fun scalar :: "json \<Rightarrow> bool" where
  "scalar (JArr _) = False"
| "scalar (JObj _) = False"
| "scalar _ = True"

text \<open>The elements that occur first: \<open>findIndex\<close> gives their own index.\<close>

fun dedup_values :: "json list \<Rightarrow> json list \<Rightarrow> json list" where
  "dedup_values seen [] = []"
| "dedup_values seen (v # vs) =
     (if scalar v \<and> v \<in> set seen then dedup_values seen vs else v # dedup_values (v # seen) vs)"

definition replaced_list :: "string list \<Rightarrow> bool" where
  "replaced_list path \<longleftrightarrow>
     (path \<noteq> [] \<and> last path \<in> {''command'', ''entrypoint''}) \<or>
     js_join ''.'' (drop (length path - 2) path) = ''healthcheck.test''"

text \<open>A missing base (\<open>undefined\<close>) is \<open>None\<close>.\<close>

fun mergeComposeValues :: "json option \<Rightarrow> json \<Rightarrow> string list \<Rightarrow> json" where
  "mergeComposeValues base overlay path =
     (if isComposeResetValue overlay then reset_value overlay
      else case (base, overlay) of
             (Some (JArr bs), JArr vs) \<Rightarrow>
               if replaced_list path then overlay else JArr (dedup_values [] (bs @ vs))
           | (Some (JObj bm), JObj om) \<Rightarrow>
               JObj (fold (\<lambda>(k, v) merged. js_set k (mergeComposeValues (js_get merged k) v (path @ [k])) merged) om bm)
           | _ \<Rightarrow> overlay)"

declare mergeComposeValues.simps [simp del]

section \<open>Reading a service\<close>

text \<open>\<open>String(v)\<close>; in the text of an array \<open>null\<close> is empty.\<close>

fun js_string :: "json \<Rightarrow> string" where
  "js_string JNull = ''null''"
| "js_string (JBool b) = (if b then ''true'' else ''false'')"
| "js_string (JNum i) = show_int i"
| "js_string (JStr s) = s"
| "js_string (JArr vs) = js_join '','' (map (\<lambda>v. case v of JNull \<Rightarrow> [] | _ \<Rightarrow> js_string v) vs)"
| "js_string (JObj _) = ''[object Object]''"

definition as_string :: "json option \<Rightarrow> string option" where
  "as_string v = (case v of Some (JStr s) \<Rightarrow> Some s | _ \<Rightarrow> None)"

definition as_array :: "json option \<Rightarrow> json list option" where
  "as_array v = (case v of Some (JArr vs) \<Rightarrow> Some vs | _ \<Rightarrow> None)"

definition as_object :: "json option \<Rightarrow> json_record option" where
  "as_object v = Option.bind v as_record"

definition parse_build :: "json option \<Rightarrow> compose_build option" where
  "parse_build v =
     (case as_string v of
        Some s \<Rightarrow> Some (Build_path s)
      | None \<Rightarrow> Option.bind (as_object v) (\<lambda>b. map_option (\<lambda>c. Build_spec c (str_member b ''dockerfile'')) (str_member b ''context'')))"

definition parse_environment :: "json option \<Rightarrow> compose_environment option" where
  "parse_environment v =
     (case as_array v of
        Some items \<Rightarrow> Some (Env_list (map js_string items))
      | None \<Rightarrow> map_option (\<lambda>e. Env_map (map (\<lambda>(k, x). (k, case x of JNull \<Rightarrow> [] | _ \<Rightarrow> js_string x)) e)) (as_object v))"

definition parse_condition :: "json \<Rightarrow> compose_condition option" where
  "parse_condition config =
     (case Option.bind (as_record config) (\<lambda>c. str_member c ''condition'') of
        None \<Rightarrow> None
      | Some c \<Rightarrow> if c = ''service_started'' then Some Service_started
          else if c = ''service_healthy'' then Some Service_healthy
          else if c = ''service_completed_successfully'' then Some Service_completed_successfully else None)"

definition parse_depends_on :: "json option \<Rightarrow> string list option \<times> (string, compose_condition) js_map option" where
  "parse_depends_on v =
     (case as_array v of
        Some items \<Rightarrow> (Some (map js_string items), None)
      | None \<Rightarrow>
          (case as_object v of
             None \<Rightarrow> (None, None)
           | Some d \<Rightarrow>
               let conditions = List.map_filter (\<lambda>(k, c). map_option (Pair k) (parse_condition c)) d
               in (Some (map fst d), if conditions = [] then None else Some conditions)))"

definition parse_command :: "json option \<Rightarrow> compose_command option" where
  "parse_command v =
     (case as_string v of Some s \<Rightarrow> Some (Cmd_string s) | None \<Rightarrow> map_option (\<lambda>items. Cmd_list (map js_string items)) (as_array v))"

text \<open>\<open>if (test)\<close>: an empty string is no test, an empty list is one.\<close>

definition parse_healthcheck :: "json option \<Rightarrow> compose_healthcheck option" where
  "parse_healthcheck v =
     Option.bind (as_object v) (\<lambda>h.
       Option.bind (parse_command (js_get h ''test'')) (\<lambda>test.
         if test = Cmd_string [] then None
         else Some \<lparr>hc_test = test, hc_interval = str_member h ''interval'', hc_timeout = str_member h ''timeout'',
           hc_start_period = str_member h ''start_period''\<rparr>))"

definition parse_env_file_item :: "json \<Rightarrow> compose_env_file option" where
  "parse_env_file_item entry =
     (case entry of
        JStr s \<Rightarrow> Some \<lparr>ef_path = s, ef_required = True\<rparr>
      | JObj item \<Rightarrow> map_option (\<lambda>p. \<lparr>ef_path = p, ef_required = (case js_get item ''required'' of Some (JBool b) \<Rightarrow> b | _ \<Rightarrow> True)\<rparr>)
          (str_member item ''path'')
      | _ \<Rightarrow> None)"

definition parse_env_file :: "json option \<Rightarrow> compose_env_file list option" where
  "parse_env_file v =
     (case v of
        Some (JArr entries) \<Rightarrow> Some (List.map_filter parse_env_file_item entries)
      | Some entry \<Rightarrow> map_option (\<lambda>e. [e]) (parse_env_file_item entry)
      | None \<Rightarrow> None)"

definition parse_profiles :: "json option \<Rightarrow> string list option" where
  "parse_profiles v = (case as_string v of Some s \<Rightarrow> Some [s] | None \<Rightarrow> map_option (map js_string) (as_array v))"

section \<open>Ports and lists of scalars\<close>

text \<open>\<open>JSON.stringify\<close>.\<close>

definition json_escape :: "char \<Rightarrow> string" where
  "json_escape c =
     (if c = CHR 0x22 then [CHR 0x5C, CHR 0x22] else if c = CHR 0x5C then [CHR 0x5C, CHR 0x5C]
      else if c = CHR 0x08 then [CHR 0x5C, CHR ''b''] else if c = CHR 0x0C then [CHR 0x5C, CHR ''f'']
      else if c = CHR 0x0A then [CHR 0x5C, CHR ''n''] else if c = CHR 0x0D then [CHR 0x5C, CHR ''r'']
      else if c = CHR 0x09 then [CHR 0x5C, CHR ''t'']
      else if of_char c < (0x20 :: nat)
      then [CHR 0x5C, CHR ''u'', CHR ''0'', CHR ''0'', ''01'' ! (of_char c div 16), ''0123456789abcdef'' ! (of_char c mod 16)]
      else [c])"

definition json_quote :: "string \<Rightarrow> string" where
  "json_quote s = CHR 0x22 # concat (map json_escape s) @ [CHR 0x22]"

fun json_stringify :: "json \<Rightarrow> string" where
  "json_stringify JNull = ''null''"
| "json_stringify (JBool b) = (if b then ''true'' else ''false'')"
| "json_stringify (JNum i) = show_int i"
| "json_stringify (JStr s) = json_quote s"
| "json_stringify (JArr vs) = ''['' @ js_join '','' (map json_stringify vs) @ '']''"
| "json_stringify (JObj ms) = ''{'' @ js_join '','' (map (\<lambda>(k, v). json_quote k @ '':'' @ json_stringify v) ms) @ ''}''"

definition scalarComposePortToken :: "json option \<Rightarrow> string option" where
  "scalarComposePortToken v =
     (case v of
        Some (JStr s) \<Rightarrow> if js_trim s \<noteq> [] then Some (js_trim s) else None
      | Some (JNum i) \<Rightarrow> Some (show_int i)
      | _ \<Rightarrow> None)"

definition formatComposePortValue :: "json \<Rightarrow> string" where
  "formatComposePortValue port =
     (case port of
        JStr s \<Rightarrow> js_trim s
      | JNum i \<Rightarrow> show_int i
      | JObj p \<Rightarrow>
          let published = scalarComposePortToken (js_get p ''published'');
              target = scalarComposePortToken (js_get p ''target'');
              formatted = js_join '':'' (List.map_filter (\<lambda>x. x) [published, target])
          in if formatted \<noteq> [] \<and> truthy (str_member p ''protocol'') then formatted @ ''/'' @ the (str_member p ''protocol'')
             else if formatted \<noteq> [] then formatted
             else json_stringify port
      | _ \<Rightarrow> [])"

definition scalar_text :: "json \<Rightarrow> string" where
  "scalar_text v = (case v of JStr s \<Rightarrow> js_trim s | JNum i \<Rightarrow> show_int i | _ \<Rightarrow> [])"

definition normalizeComposeStringList :: "json option \<Rightarrow> string list option" where
  "normalizeComposeStringList v =
     (case v of
        Some (JArr items) \<Rightarrow>
          let normalized = filter (\<lambda>t. t \<noteq> []) (map scalar_text items) in if normalized = [] then None else Some normalized
      | Some (JStr s) \<Rightarrow> if js_trim s = [] then None else Some [js_trim s]
      | Some (JNum i) \<Rightarrow> Some [show_int i]
      | _ \<Rightarrow> None)"

section \<open>A project\<close>

definition parse_service :: "string \<Rightarrow> json \<Rightarrow> compose_service" where
  "parse_service name value =
     (case as_record value of
        None \<Rightarrow> empty_service name
      | Some obj \<Rightarrow>
          let (dependsOn, conditions) = parse_depends_on (js_get obj ''depends_on'')
          in \<lparr>cs_name = name, cs_image = str_member obj ''image'', cs_build = parse_build (js_get obj ''build''),
               cs_ports = map_option (\<lambda>ps. filter (\<lambda>p. p \<noteq> []) (map formatComposePortValue ps)) (as_array (js_get obj ''ports'')),
               cs_expose = normalizeComposeStringList (js_get obj ''expose''),
               cs_profiles = parse_profiles (js_get obj ''profiles''),
               cs_environment = parse_environment (js_get obj ''environment''),
               cs_envFile = parse_env_file (js_get obj ''env_file''),
               cs_dependsOn = dependsOn, cs_conditions = conditions,
               cs_volumes = map_option (map js_string) (as_array (js_get obj ''volumes'')),
               cs_command = parse_command (js_get obj ''command''), cs_entrypoint = parse_command (js_get obj ''entrypoint''),
               cs_restart = str_member obj ''restart'', cs_healthcheck = parse_healthcheck (js_get obj ''healthcheck'')\<rparr>)"

text \<open>A document that is not an object is read as an empty one.\<close>

definition parseComposeDocument :: "json \<Rightarrow> json_record" where
  "parseComposeDocument doc = (case as_record doc of Some r \<Rightarrow> r | None \<Rightarrow> [])"

definition merge_documents :: "json list \<Rightarrow> json_record" where
  "merge_documents docs =
     fold (\<lambda>overlay merged. case as_record (mergeComposeValues (Some (JObj merged)) (JObj (parseComposeDocument overlay)) []) of
         Some r \<Rightarrow> r | None \<Rightarrow> []) docs []"

datatype compose_error = Service_config_error string | Missing_interpolation string | Unknown_profiles "string list" | Unknown_services "string list"
  | Removal_blocked string | Change_blocked string

definition parseComposeFiles :: "json list \<Rightarrow> compose_error + compose_service list" where
  "parseComposeFiles docs =
     (if docs = [] then Inl (Service_config_error ''At least one Compose file is required.'')
      else case Option.bind (js_get (merge_documents docs) ''services'') as_record of
             None \<Rightarrow> Inr []
           | Some raw \<Rightarrow> Inr (map (\<lambda>(name, value). parse_service name value) raw))"

section \<open>Interpolation\<close>

text \<open>\<open>s.replaceAll(pat, rep)\<close> for a pattern that is not empty: the matches from left to right.\<close>

function replaceAll :: "string \<Rightarrow> string \<Rightarrow> string \<Rightarrow> string" where
  "replaceAll pat rep s =
     (if s = [] then []
      else if pat \<noteq> [] \<and> starts_with pat s then rep @ replaceAll pat rep (drop (length pat) s)
      else hd s # replaceAll pat rep (tl s))"
  by pat_completeness auto
termination by (relation "measure (\<lambda>(_, _, s). length s)") auto

declare replaceAll.simps [simp del]

definition escapedDollar :: string where
  "escapedDollar = CHR 0x00 # ''OPENLANDER_COMPOSE_DOLLAR'' @ [CHR 0x00]"

datatype interpolation_operator = Default_nonempty | Default_unset | Required_nonempty | Required_set

definition key_start :: "char \<Rightarrow> bool" where
  "key_start c \<longleftrightarrow> is_upper c \<or> c = CHR ''_''"

definition key_char :: "char \<Rightarrow> bool" where
  "key_char c \<longleftrightarrow> is_upper c \<or> is_digit c \<or> c = CHR ''_''"

text \<open>The operator and the rest behind it, tried in the order of the pattern.\<close>

definition read_operator :: "string \<Rightarrow> (interpolation_operator \<times> string) option" where
  "read_operator s =
     (if starts_with '':-'' s then Some (Default_nonempty, drop 2 s)
      else if starts_with ''-'' s then Some (Default_unset, drop 1 s)
      else if starts_with '':?'' s then Some (Required_nonempty, drop 2 s)
      else if starts_with ''?'' s then Some (Required_set, drop 1 s)
      else None)"

text \<open>
  A match of the pattern at the start of a string: the key, the operator with its operand, and the rest behind the brace. The
  characters of a key, the operators and the closing brace are different, so the greedy match is the only one.
\<close>

definition match_reference :: "string \<Rightarrow> (string \<times> (interpolation_operator \<times> string) option \<times> string) option" where
  "match_reference s =
     (if \<not> starts_with ''${'' s then None
      else let body = drop 2 s; k = takeWhile key_char body; rest = dropWhile key_char body
           in if k = [] \<or> \<not> key_start (hd k) then None
              else if starts_with ''}'' rest then Some (k, None, drop 1 rest)
              else case read_operator rest of
                     None \<Rightarrow> None
                   | Some (opr, tail) \<Rightarrow>
                       if CHR ''}'' \<in> set tail
                       then Some (k, Some (opr, takeWhile (\<lambda>c. c \<noteq> CHR ''}'') tail), drop 1 (dropWhile (\<lambda>c. c \<noteq> CHR ''}'') tail))
                       else None)"

definition lookup_env :: "(string, string) js_map \<Rightarrow> (string, string) js_map \<Rightarrow> string \<Rightarrow> string option" where
  "lookup_env penv envVars k = (case js_get envVars k of Some v \<Rightarrow> Some v | None \<Rightarrow> js_get penv k)"

definition reference_value :: "string \<Rightarrow> (interpolation_operator \<times> string) option \<Rightarrow> string option \<Rightarrow> compose_error + string" where
  "reference_value k operator raw =
     (case operator of
        None \<Rightarrow> Inr (case raw of Some v \<Rightarrow> v | None \<Rightarrow> [])
      | Some (opr, operand) \<Rightarrow>
          let required = Inl (Missing_interpolation (if js_trim operand \<noteq> [] then js_trim operand
                else ''Compose environment variable '' @ k @ '' is required''))
          in case opr of
               Default_nonempty \<Rightarrow> Inr (if truthy raw then the raw else operand)
             | Default_unset \<Rightarrow> Inr (case raw of Some v \<Rightarrow> v | None \<Rightarrow> operand)
             | Required_nonempty \<Rightarrow> if truthy raw then Inr (the raw) else required
             | Required_set \<Rightarrow> (case raw of Some v \<Rightarrow> Inr v | None \<Rightarrow> required))"

lemma match_reference_shorter: "match_reference s = Some (k, operator, rest) \<Longrightarrow> length rest < length s"
proof -
  assume m: "match_reference s = Some (k, operator, rest)"
  then have two: "length s \<ge> 2" by (auto simp: match_reference_def starts_with_iff split: if_splits)
  have drop: "length (dropWhile P xs) \<le> length xs" for P :: "char \<Rightarrow> bool" and xs by (rule length_dropWhile_le)
  have opr: "read_operator r = Some (opr, tail) \<Longrightarrow> length tail \<le> length r" for r opr tail
    by (auto simp: read_operator_def split: if_splits)
  let ?rest = "dropWhile key_char (drop 2 s)"
  have len: "length ?rest < length s" using drop [of key_char "drop 2 s"] two by simp
  consider "rest = drop 1 ?rest"
    | opr tail where "read_operator ?rest = Some (opr, tail)" "rest = drop 1 (dropWhile (\<lambda>c. c \<noteq> CHR ''}'') tail)"
    using m by (auto simp: match_reference_def Let_def split: if_splits option.splits)
  then show ?thesis
  proof cases
    case 2
    have "length rest \<le> length tail" using drop [of "\<lambda>c. c \<noteq> CHR ''}''" tail] 2(2) by simp
    with opr [OF 2(1)] len show ?thesis by simp
  qed (use len in simp)
qed

text \<open>\<open>replace\<close> with the global pattern; the first reference that is required and missing throws.\<close>

function interpolate_references :: "(string, string) js_map \<Rightarrow> (string, string) js_map \<Rightarrow> string \<Rightarrow> compose_error + string" where
  "interpolate_references penv envVars s =
     (if s = [] then Inr []
      else case match_reference s of
             Some (k, operator, rest) \<Rightarrow>
               rbind (reference_value k operator (lookup_env penv envVars k)) (\<lambda>v.
               rbind (interpolate_references penv envVars rest) (\<lambda>t. Inr (v @ t)))
           | None \<Rightarrow> rbind (interpolate_references penv envVars (tl s)) (\<lambda>t. Inr (hd s # t)))"
  by pat_completeness auto
termination by (relation "measure (\<lambda>(_, _, s). length s)") (auto dest: match_reference_shorter)

declare interpolate_references.simps [simp del]

definition interpolateComposeValue :: "(string, string) js_map \<Rightarrow> string \<Rightarrow> (string, string) js_map \<Rightarrow> compose_error + string" where
  "interpolateComposeValue penv value envVars =
     rbind (interpolate_references penv envVars (replaceAll ''$$'' escapedDollar value))
       (\<lambda>t. Inr (replaceAll escapedDollar ''$'' t))"

section \<open>Port mappings\<close>

definition is_numeric :: "string \<Rightarrow> bool" where
  "is_numeric s \<longleftrightarrow> s \<noteq> [] \<and> list_all is_digit s"

definition parseComposePortMapping :: "string \<Rightarrow> (nat option \<times> nat) option" where
  "parseComposePortMapping portMapping =
     (let normalized = js_trim portMapping
      in if normalized = [] then None
         else let tokens = filter (\<lambda>t. t \<noteq> []) (map js_trim (js_split CHR '':'' (hd (js_split CHR ''/'' normalized))));
                  numericTokens = filter is_numeric tokens
              in if numericTokens = [] then None
                 else if length numericTokens = 1 then Some (None, read_nat (hd numericTokens))
                 else Some (Some (read_nat (last (butlast numericTokens))), read_nat (last numericTokens)))"

text \<open>The port behind the host at the start of a string, at most five digits of it.\<close>

definition localhost_port :: "string \<Rightarrow> nat option" where
  "localhost_port s =
     (let schemes = [''http://'', ''https://'']; hosts = [''localhost:'', ''127.0.0.1:'', ''[::1]:''];
          prefixes = concat (map (\<lambda>a. map (\<lambda>b. a @ b) hosts) schemes)
      in case find (\<lambda>p. starts_with p (lower s)) prefixes of
           None \<Rightarrow> None
         | Some p \<Rightarrow> let digits = take 5 (takeWhile is_digit (drop (length p) s))
             in if digits = [] then None else Some (read_nat digits))"

fun find_localhost_port :: "string \<Rightarrow> nat option" where
  "find_localhost_port [] = None"
| "find_localhost_port (c # s) = (case localhost_port (c # s) of Some p \<Rightarrow> Some p | None \<Rightarrow> find_localhost_port s)"

definition inferComposeHealthcheckPort :: "compose_service \<Rightarrow> nat option" where
  "inferComposeHealthcheckPort service =
     (let command = (case cs_healthcheck service of
            None \<Rightarrow> []
          | Some h \<Rightarrow> (case hc_test h of Cmd_string c \<Rightarrow> c | Cmd_list cs \<Rightarrow> js_join '' '' cs))
      in case find_localhost_port command of
           None \<Rightarrow> None
         | Some port \<Rightarrow> if port > 0 \<and> port \<le> 65535 then Some port else None)"

definition or_nil :: "'a list option \<Rightarrow> 'a list" where
  "or_nil v = (case v of Some xs \<Rightarrow> xs | None \<Rightarrow> [])"

text \<open>The container port of each mapping; an interpolation that throws ends the loop.\<close>

fun container_ports :: "(string, string) js_map \<Rightarrow> (string, string) js_map \<Rightarrow> string list \<Rightarrow> compose_error + nat list" where
  "container_ports penv envVars [] = Inr []"
| "container_ports penv envVars (mapping # ms) =
     rbind (interpolateComposeValue penv mapping envVars) (\<lambda>v.
     rbind (container_ports penv envVars ms) (\<lambda>ps.
       Inr (case parseComposePortMapping v of Some (_, p) \<Rightarrow> p # ps | None \<Rightarrow> ps)))"

definition resolveServiceContainerPorts :: "(string, string) js_map \<Rightarrow> compose_service \<Rightarrow> (string, string) js_map \<Rightarrow> compose_error + nat list" where
  "resolveServiceContainerPorts penv service envVars =
     rbind (container_ports penv envVars (or_nil (cs_ports service) @ or_nil (cs_expose service))) (\<lambda>ports.
       let ports' = (if ports = [] then (case inferComposeHealthcheckPort service of Some p \<Rightarrow> [p] | None \<Rightarrow> []) else ports)
       in Inr (rev (remdups (rev ports'))))"

definition findComposeHostPortUsages :: "compose_service list \<Rightarrow> (string \<times> string list) list" where
  "findComposeHostPortUsages svcs =
     filter (\<lambda>(_, ports). ports \<noteq> [])
       (map (\<lambda>s. (cs_name s, filter (\<lambda>port. length (js_split CHR '':'' (hd (js_split CHR ''/'' (js_trim port)))) > 1)
          (or_nil (cs_ports s)))) svcs)"

definition sanitizeComposeProjectName :: "string \<Rightarrow> string" where
  "sanitizeComposeProjectName name =
     lower (filter (\<lambda>c. is_upper c \<or> is_lower c \<or> is_digit c \<or> c = CHR ''_'' \<or> c = CHR ''-'')
       (map (\<lambda>c. if c = CHR ''/'' then CHR ''-'' else c) name))"

section \<open>Runtime roles\<close>

datatype compose_role = Role_application | Role_job | Role_resource

definition RESOURCE_SIGNATURES :: "(string list \<times> nat) list" where
  "RESOURCE_SIGNATURES = [([''postgres'', ''pgvector''], 5432), ([''mysql'', ''mariadb''], 3306), ([''redis''], 6379),
     ([''mongo''], 27017), ([''rabbitmq''], 5672), ([''minio''], 9000)]"

definition signature_of :: "compose_service \<Rightarrow> string" where
  "signature_of service = cs_name service @ '' '' @ (case cs_image service of Some i \<Rightarrow> i | None \<Rightarrow> [])"

definition matches_signature :: "string \<Rightarrow> string list \<times> nat \<Rightarrow> bool" where
  "matches_signature signature entry \<longleftrightarrow> list_ex (\<lambda>token. js_includes token (lower signature)) (fst entry)"

definition knownComposeResourcePort :: "compose_service \<Rightarrow> nat option" where
  "knownComposeResourcePort service = map_option snd (find (matches_signature (signature_of service)) RESOURCE_SIGNATURES)"

definition completed_dependency :: "compose_service \<Rightarrow> string \<Rightarrow> bool" where
  "completed_dependency service dependency \<longleftrightarrow>
     Option.bind (cs_conditions service) (\<lambda>c. js_get c dependency) = Some Service_completed_successfully"

definition compose_jobs :: "compose_service list \<Rightarrow> string list" where
  "compose_jobs svcs = concat (map (\<lambda>s. filter (completed_dependency s) (or_nil (cs_dependsOn s))) svcs)"

definition compose_role_of :: "compose_service list \<Rightarrow> compose_service \<Rightarrow> compose_role" where
  "compose_role_of svcs service =
     (if cs_name service \<in> set (compose_jobs svcs) then Role_job
      else if list_ex (matches_signature (signature_of service)) RESOURCE_SIGNATURES then Role_resource
      else Role_application)"

definition inferComposeRuntimeRoles :: "compose_service list \<Rightarrow> (string, compose_role) js_map" where
  "inferComposeRuntimeRoles svcs = fold (\<lambda>s m. js_set (cs_name s) (compose_role_of svcs s) m) svcs []"

section \<open>Lemmas\<close>

lemma replaceAll_Nil [simp]: "replaceAll pat rep [] = []"
  by (simp add: replaceAll.simps)

lemma replaceAll_match [simp]: "pat \<noteq> [] \<Longrightarrow> replaceAll pat rep (pat @ s) = rep @ replaceAll pat rep s"
  by (subst replaceAll.simps) (simp add: starts_with_def)

lemma replaceAll_skip [simp]: "pat \<noteq> [] \<Longrightarrow> hd pat \<noteq> c \<Longrightarrow> replaceAll pat rep (c # s) = c # replaceAll pat rep s"
  by (subst replaceAll.simps) (cases pat; simp add: starts_with_def)

lemma interpolate_no_dollar: "CHR ''$'' \<notin> set s \<Longrightarrow> interpolate_references penv envVars s = Inr s"
proof (induction s)
  case (Cons c s)
  then have "match_reference (c # s) = None" by (auto simp: match_reference_def starts_with_def)
  with Cons show ?case by (subst interpolate_references.simps) simp
qed (simp add: interpolate_references.simps)

text \<open>Doubling the dollars of a text, as Compose documents it, protects it.\<close>

definition escape_dollars :: "string \<Rightarrow> string" where
  "escape_dollars s = concat (map (\<lambda>c. if c = CHR ''$'' then ''$$'' else [c]) s)"

definition mark_dollars :: "string \<Rightarrow> string" where
  "mark_dollars s = concat (map (\<lambda>c. if c = CHR ''$'' then escapedDollar else [c]) s)"

lemma replace_escaped: "replaceAll ''$$'' escapedDollar (escape_dollars s) = mark_dollars s"
proof (induction s)
  case (Cons c s)
  have "replaceAll ''$$'' escapedDollar (''$$'' @ escape_dollars s) = escapedDollar @ replaceAll ''$$'' escapedDollar (escape_dollars s)"
    by (rule replaceAll_match) simp
  with Cons show ?case by (auto simp: escape_dollars_def mark_dollars_def)
qed (simp add: escape_dollars_def mark_dollars_def)

lemma mark_no_dollar: "CHR ''$'' \<notin> set (mark_dollars s)"
  by (auto simp: mark_dollars_def escapedDollar_def)

lemma replace_marked: "CHR 0x00 \<notin> set s \<Longrightarrow> replaceAll escapedDollar ''$'' (mark_dollars s) = s"
proof (induction s)
  case (Cons c s)
  have ne: "escapedDollar \<noteq> []" "hd escapedDollar = CHR 0x00" by (simp_all add: escapedDollar_def)
  have "replaceAll escapedDollar ''$'' (escapedDollar @ mark_dollars s) = ''$'' @ replaceAll escapedDollar ''$'' (mark_dollars s)"
    by (rule replaceAll_match [OF ne(1)])
  with Cons ne show ?case by (auto simp: mark_dollars_def)
qed (simp add: mark_dollars_def)

lemma interpolate_unchanged: "CHR ''$'' \<notin> set s \<Longrightarrow> CHR 0x00 \<notin> set s \<Longrightarrow> interpolateComposeValue penv s envVars = Inr s"
proof -
  assume s: "CHR ''$'' \<notin> set s" "CHR 0x00 \<notin> set s"
  have "escape_dollars s = s" "mark_dollars s = s" using s(1) by (induction s) (auto simp: escape_dollars_def mark_dollars_def)
  then show ?thesis using s replace_escaped [of s] replace_marked [of s] by (simp add: interpolateComposeValue_def interpolate_no_dollar)
qed

text \<open>Ports.\<close>

lemma container_ports_positive:
  "inferComposeHealthcheckPort service = Some p \<Longrightarrow> 0 < p \<and> p \<le> 65535"
  by (auto simp: inferComposeHealthcheckPort_def Let_def split: option.splits if_splits)

lemma resolveServiceContainerPorts_distinct: "resolveServiceContainerPorts penv service envVars = Inr ports \<Longrightarrow> distinct ports"
  by (auto simp: resolveServiceContainerPorts_def rbind_Inr_iff Let_def)

lemma inferComposeRuntimeRoles_get:
  "js_get (inferComposeRuntimeRoles svcs) n = Some r \<Longrightarrow> \<exists>s \<in> set svcs. cs_name s = n \<and> r = compose_role_of svcs s"
proof -
  have "js_get (fold (\<lambda>s m. js_set (cs_name s) (g s) m) xs m) n = Some r \<Longrightarrow> (\<exists>s \<in> set xs. cs_name s = n \<and> r = g s) \<or> js_get m n = Some r" for xs m g
    by (induction xs arbitrary: m) (fastforce simp: js_get_set split: if_splits)+
  from this [of "compose_role_of svcs" svcs "[]"] show "js_get (inferComposeRuntimeRoles svcs) n = Some r \<Longrightarrow> ?thesis"
    by (auto simp: inferComposeRuntimeRoles_def)
qed

text \<open>
  A marker below a key that the base does not have stays in the result: only the overlay of a member that is in both documents
  is searched for markers.
\<close>

lemma reset_marker_leaks:
  "mergeComposeValues (Some (JObj [(''web'', JObj [])]))
     (JObj [(''web'', JObj [(''environment'', JObj [(''A'', JObj [(''__openlanderComposeReset'', JBool True), (''value'', JNull)])])])]) [] =
   JObj [(''web'', JObj [(''environment'', JObj [(''A'', JObj [(''__openlanderComposeReset'', JBool True), (''value'', JNull)])])])]"
  by (simp add: mergeComposeValues.simps isComposeResetValue_def)

text \<open>
  Interpolation undoes the escaping of dollars: for a text without the reserved NUL character, doubling its dollars and
  interpolating gives the text back, whatever the environment is, and throws nothing.
\<close>

theorem interpolate_escaped_roundtrip:
  assumes "CHR 0x00 \<notin> set s"
  shows "interpolateComposeValue penv (escape_dollars s) envVars = Inr s"
  using assms by (simp add: interpolateComposeValue_def replace_escaped interpolate_no_dollar mark_no_dollar replace_marked)

theorem interpolate_escaped_roundtrip_witness:
  "escape_dollars ''${HOME:?x} costs 5$'' = ''$${HOME:?x} costs 5$$'' \<and>
   interpolateComposeValue [] ''$${HOME:?x} costs 5$$'' [(''HOME'', ''/root'')] = Inr ''${HOME:?x} costs 5$''"
proof -
  have e: "escape_dollars ''${HOME:?x} costs 5$'' = ''$${HOME:?x} costs 5$$''" by (simp add: escape_dollars_def)
  have "interpolateComposeValue [] (escape_dollars ''${HOME:?x} costs 5$'') [(''HOME'', ''/root'')] = Inr ''${HOME:?x} costs 5$''"
    by (rule interpolate_escaped_roundtrip) simp
  then show ?thesis unfolding e by simp
qed

end
