(* ===== verification/Compose_Sets.thy ===== *)
theory Compose_Sets
  imports Compose_Spec
begin

text \<open>
  Which services of a Compose project a deployment touches (\<open>filterServicesByProfiles\<close>, \<open>selectComposeServices\<close> of
  \<open>src/src/pipeline/compose.ts\<close>, \<open>compose-deployment-sets.ts\<close>) and the guard for stateful services
  (\<open>compose-stateful-guard.ts\<close>).

  Shown: the selected services are the requested ones with everything they depend on; the sets of a deployment are disjoint and contain what the replaced
  services need; a stateful service is replaced or dropped only with an approval, except when its role is inferred anew.
\<close>

section \<open>Visiting dependencies\<close>

text \<open>
  The recursive visit of the source, as one loop over the names that are still to be visited: the
  dependencies of a name come before the names that were behind it. \<open>stop\<close> are names at which a visit returns at once.
\<close>

definition open_names :: "(string, 's) js_map \<Rightarrow> string list \<Rightarrow> nat" where
  "open_names m acc = card (set (map fst m) - set acc)"

lemma open_names_less: "n \<notin> set acc \<Longrightarrow> js_get m n = Some s \<Longrightarrow> open_names m (acc @ [n]) < open_names m acc"
proof -
  assume n: "n \<notin> set acc" "js_get m n = Some s"
  then have "n \<in> set (map fst m)" by (force dest: map_of_SomeD)
  then have "set (map fst m) - set (acc @ [n]) \<subset> set (map fst m) - set acc" using n(1) by auto
  then show ?thesis unfolding open_names_def by (simp add: psubset_card_mono)
qed

function visit :: "(string, 's) js_map \<Rightarrow> (string \<Rightarrow> bool) \<Rightarrow> ('s \<Rightarrow> string list) \<Rightarrow> string list \<Rightarrow> string list \<Rightarrow> string list" where
  "visit m stop next_of [] acc = acc"
| "visit m stop next_of (n # ns) acc =
     (if n \<in> set acc \<or> stop n then visit m stop next_of ns acc
      else case js_get m n of
             None \<Rightarrow> visit m stop next_of ns acc
           | Some s \<Rightarrow> visit m stop next_of (next_of s @ ns) (acc @ [n]))"
  by pat_completeness auto
termination
  by (relation "measures [\<lambda>(m, _, _, _, acc). open_names m acc, \<lambda>(_, _, _, ns, _). length ns]") (auto dest: open_names_less)

declare visit.simps(2) [simp del]

section \<open>Profiles and selection\<close>

definition active :: "string list option \<Rightarrow> compose_service \<Rightarrow> bool" where
  "active profiles s \<longleftrightarrow> or_nil (cs_profiles s) = [] \<or> list_ex (\<lambda>p. p \<in> set (or_nil profiles)) (or_nil (cs_profiles s))"

definition keep_deps :: "string list \<Rightarrow> compose_service \<Rightarrow> compose_service" where
  "keep_deps kept s =
     (case cs_dependsOn s of
        None \<Rightarrow> s
      | Some ds \<Rightarrow> s\<lparr>cs_dependsOn := Some (filter (\<lambda>d. d \<in> set kept) ds),
          cs_conditions := map_option (filter (\<lambda>(d, _). d \<in> set kept)) (cs_conditions s)\<rparr>)"

definition filterServicesByProfiles :: "compose_service list \<Rightarrow> string list option \<Rightarrow> compose_service list" where
  "filterServicesByProfiles svcs activeProfiles =
     (let included = filter (active activeProfiles) svcs
      in map (keep_deps (map cs_name included)) included)"

definition validateComposeProfiles :: "compose_service list \<Rightarrow> string list option \<Rightarrow> compose_error + unit" where
  "validateComposeProfiles svcs activeProfiles =
     (let unknown = filter (\<lambda>p. p \<notin> set (concat (map (\<lambda>s. or_nil (cs_profiles s)) svcs))) (or_nil activeProfiles)
      in if unknown \<noteq> [] then Inl (Unknown_profiles unknown) else Inr ())"

definition by_name :: "compose_service list \<Rightarrow> (string, compose_service) js_map" where
  "by_name svcs = fold (\<lambda>s m. js_set (cs_name s) s m) svcs []"

definition deps :: "compose_service \<Rightarrow> string list" where
  "deps s = or_nil (cs_dependsOn s)"

definition selectComposeServices :: "compose_service list \<Rightarrow> string list option \<Rightarrow> compose_error + compose_service list" where
  "selectComposeServices svcs requested =
     (if or_nil requested = [] then Inr svcs
      else let m = by_name svcs; unknown = filter (\<lambda>n. \<not> js_has m n) (or_nil requested)
           in if unknown \<noteq> [] then Inl (Unknown_services unknown)
              else let selected = visit m (\<lambda>_. False) deps (or_nil requested) []
                   in Inr (filter (\<lambda>s. cs_name s \<in> set selected) svcs))"

definition filteredComposeProject :: "compose_service list \<Rightarrow> string list option \<Rightarrow> string list option \<Rightarrow> compose_error + compose_service list" where
  "filteredComposeProject svcs profiles requested =
     rbind (validateComposeProfiles svcs profiles) (\<lambda>_. selectComposeServices (filterServicesByProfiles svcs profiles) requested)"

section \<open>Deployment sets\<close>

record deployment_options =
  do_services :: "compose_service list"
  do_runtimeRoles :: "(string, compose_role) js_map"
  do_selectedServices :: "string list option"
  do_existingServices :: "string list option"
  do_previousFingerprints :: "(string, string) js_map option"
  do_currentFingerprints :: "(string, string) js_map option"
  do_forceReplaceApplications :: "bool option"
  do_statefulReplaceTargets :: "string list option"

record deployment_sets =
  ds_replaceTargets :: "string list"
  ds_prerequisites :: "string list"
  ds_runOnceHooks :: "string list"
  ds_includedServices :: "string list"

definition set_add :: "string \<Rightarrow> string list \<Rightarrow> string list" where
  "set_add n xs = (if n \<in> set xs then xs else xs @ [n])"

definition role_of :: "deployment_options \<Rightarrow> compose_service \<Rightarrow> compose_role" where
  "role_of opts s = (case js_get (do_runtimeRoles opts) (cs_name s) of Some r \<Rightarrow> r | None \<Rightarrow> Role_application)"

definition is_selective :: "deployment_options \<Rightarrow> bool" where
  "is_selective opts \<longleftrightarrow> or_nil (do_selectedServices opts) \<noteq> []"

definition definition_changed :: "deployment_options \<Rightarrow> string \<Rightarrow> bool" where
  "definition_changed opts n \<longleftrightarrow>
     (let previous = Option.bind (do_previousFingerprints opts) (\<lambda>f. js_get f n);
          current = Option.bind (do_currentFingerprints opts) (\<lambda>f. js_get f n)
      in do_forceReplaceApplications opts = Some True \<or> previous = None \<or> current = None \<or> previous \<noteq> current)"

definition classify_service :: "deployment_options \<Rightarrow> compose_service \<Rightarrow> string list \<times> string list \<Rightarrow> string list \<times> string list" where
  "classify_service opts s acc =
     (case acc of (replace, prereq) \<Rightarrow>
        if role_of opts s = Role_resource \<and> cs_name s \<in> set (or_nil (do_statefulReplaceTargets opts)) then (set_add (cs_name s) replace, prereq)
        else if role_of opts s \<noteq> Role_application then (replace, prereq)
        else if is_selective opts
        then (if cs_name s \<in> set (or_nil (do_selectedServices opts)) then set_add (cs_name s) replace else replace, prereq)
        else if cs_name s \<notin> set (or_nil (do_existingServices opts)) \<or> definition_changed opts (cs_name s)
        then (set_add (cs_name s) replace, prereq)
        else (replace, set_add (cs_name s) prereq))"

text \<open>A hook of a service that is only verified is not followed.\<close>

definition plain_deps :: "compose_service \<Rightarrow> string list" where
  "plain_deps s = filter (\<lambda>d. \<not> completed_dependency s d) (deps s)"

definition visit_target_dep :: "(string, compose_service) js_map \<Rightarrow> string list \<Rightarrow> compose_service \<Rightarrow> string
    \<Rightarrow> string list \<times> string list \<Rightarrow> string list \<times> string list" where
  "visit_target_dep m replace target d acc =
     (case acc of (prereq, hooks) \<Rightarrow>
        let visitPrerequisite = visit m (\<lambda>n. n \<in> set replace) plain_deps
        in if completed_dependency target d
           then (visitPrerequisite (case js_get m d of Some hook \<Rightarrow> deps hook | None \<Rightarrow> []) prereq, set_add d hooks)
           else (visitPrerequisite [d] prereq, hooks))"

definition visit_target :: "(string, compose_service) js_map \<Rightarrow> string list \<Rightarrow> string \<Rightarrow> string list \<times> string list \<Rightarrow> string list \<times> string list" where
  "visit_target m replace targetName acc =
     (case js_get m targetName of
        None \<Rightarrow> acc
      | Some target \<Rightarrow> fold (visit_target_dep m replace target) (deps target) acc)"

definition add_defaults :: "deployment_options \<Rightarrow> string list \<Rightarrow> compose_service \<Rightarrow> string list \<times> string list \<Rightarrow> string list \<times> string list" where
  "add_defaults opts replace s acc =
     (case acc of (prereq, hooks) \<Rightarrow>
        (if role_of opts s = Role_resource \<and> cs_name s \<notin> set replace then set_add (cs_name s) prereq else prereq,
         if role_of opts s = Role_job \<and> or_nil (do_existingServices opts) = [] then set_add (cs_name s) hooks else hooks))"

definition planComposeDeploymentSets :: "deployment_options \<Rightarrow> deployment_sets" where
  "planComposeDeploymentSets opts =
     (let m = by_name (do_services opts);
          (replace, prereq0) = fold (classify_service opts) (do_services opts) ([], []);
          (prereq1, hooks1) = fold (visit_target m replace) replace (prereq0, []);
          (prereq2, hooks) = (if is_selective opts then (prereq1, hooks1)
             else fold (add_defaults opts replace) (do_services opts) (prereq1, hooks1));
          prereq = filter (\<lambda>n. n \<notin> set replace \<and> n \<notin> set hooks) prereq2
      in \<lparr>ds_replaceTargets = replace, ds_prerequisites = prereq, ds_runOnceHooks = hooks,
           ds_includedServices = fold set_add (replace @ prereq @ hooks) []\<rparr>)"

section \<open>Stateful services\<close>

datatype stateful_change = Change_update | Change_remove

record guard_options =
  go_currentServiceNames :: "string list"
  go_currentRuntimeRoles :: "(string, compose_role) js_map"
  go_existingServices :: "(string \<times> compose_role) list"
  go_previousFingerprints :: "(string, string) js_map option"
  go_currentFingerprints :: "(string, string) js_map"
  go_approvedChanges :: "(string, stateful_change) js_map option"

definition approved :: "guard_options \<Rightarrow> string \<Rightarrow> stateful_change \<Rightarrow> bool" where
  "approved opts n c \<longleftrightarrow> Option.bind (go_approvedChanges opts) (\<lambda>a. js_get a n) = Some c"

fun first_removed :: "guard_options \<Rightarrow> (string \<times> compose_role) list \<Rightarrow> string option" where
  "first_removed opts [] = None"
| "first_removed opts ((n, r) # es) =
     (if r = Role_resource \<and> n \<notin> set (go_currentServiceNames opts) \<and> \<not> approved opts n Change_remove then Some n
      else first_removed opts es)"

fun first_changed :: "guard_options \<Rightarrow> (string, string) js_map \<Rightarrow> (string, compose_role) js_map \<Rightarrow> string option" where
  "first_changed opts prev [] = None"
| "first_changed opts prev ((n, r) # rs) =
     (if r = Role_resource \<and> n \<in> fst ` set (go_existingServices opts) \<and> js_get prev n \<noteq> None \<and>
         js_get (go_currentFingerprints opts) n \<noteq> None \<and> js_get prev n \<noteq> js_get (go_currentFingerprints opts) n \<and>
         \<not> approved opts n Change_update
      then Some n else first_changed opts prev rs)"

definition assertComposeStatefulChangesSafe :: "guard_options \<Rightarrow> compose_error + unit" where
  "assertComposeStatefulChangesSafe opts =
     (case first_removed opts (go_existingServices opts) of
        Some n \<Rightarrow> Inl (Removal_blocked n)
      | None \<Rightarrow>
          (case go_previousFingerprints opts of
             None \<Rightarrow> Inr ()
           | Some prev \<Rightarrow>
               (case first_changed opts prev (go_currentRuntimeRoles opts) of
                  Some n \<Rightarrow> Inl (Change_blocked n)
                | None \<Rightarrow> Inr ())))"

section \<open>What a visit collects\<close>

definition visitable :: "(string, 's) js_map \<Rightarrow> (string \<Rightarrow> bool) \<Rightarrow> string \<Rightarrow> bool" where
  "visitable m stop n \<longleftrightarrow> js_has m n \<and> \<not> stop n"

definition visit_edges :: "(string, 's) js_map \<Rightarrow> (string \<Rightarrow> bool) \<Rightarrow> ('s \<Rightarrow> string list) \<Rightarrow> (string \<times> string) set" where
  "visit_edges m stop next_of = {(n, d). visitable m stop d \<and> (\<exists>s. js_get m n = Some s \<and> d \<in> set (next_of s))}"

lemma visit_extends: "set acc \<subseteq> set (visit m stop next_of ns acc)"
  by (induction m stop next_of ns acc rule: visit.induct) (auto simp: visit.simps(2) split: option.splits)

lemma visit_roots: "n \<in> set ns \<Longrightarrow> visitable m stop n \<Longrightarrow> n \<in> set (visit m stop next_of ns acc)"
proof (induction m stop next_of ns acc rule: visit.induct)
  case (2 m stop next_of n' ns acc)
  show ?case
  proof (cases "n' \<in> set acc \<or> stop n'")
    case True
    with 2(1) [OF True] 2(4,5) visit_extends [of acc m stop next_of "n' # ns"] show ?thesis
      by (auto simp: visit.simps(2) visitable_def)
  next
    case False
    show ?thesis
    proof (cases "js_get m n'")
      case None
      with 2(2) [OF False None] 2(4,5) False show ?thesis by (auto simp: visit.simps(2) visitable_def)
    next
      case (Some s)
      with 2(3) [OF False Some] 2(4,5) False visit_extends [of "acc @ [n']" m stop next_of "next_of s @ ns"] show ?thesis
        by (auto simp: visit.simps(2))
    qed
  qed
qed simp

lemma visit_closed:
  assumes "x \<in> set (visit m stop next_of ns acc)" and "x \<notin> set acc" and "(x, y) \<in> visit_edges m stop next_of"
  shows "y \<in> set (visit m stop next_of ns acc)"
  using assms
proof (induction m stop next_of ns acc rule: visit.induct)
  case (2 m stop next_of n ns acc)
  show ?case
  proof (cases "n \<in> set acc \<or> stop n")
    case True
    with 2 show ?thesis by (simp add: visit.simps(2))
  next
    case False
    show ?thesis
    proof (cases "js_get m n")
      case None
      with 2 False show ?thesis by (simp add: visit.simps(2))
    next
      case (Some s)
      show ?thesis
      proof (cases "x = n")
        case True
        with 2(6) Some have "y \<in> set (next_of s @ ns)" "visitable m stop y" by (auto simp: visit_edges_def)
        then show ?thesis using visit_roots [of y "next_of s @ ns" m stop next_of] Some False by (simp add: visit.simps(2))
      next
        case ne: False
        with 2 Some False show ?thesis by (simp add: visit.simps(2))
      qed
    qed
  qed
qed simp

lemma visit_reachable:
  "x \<in> set (visit m stop next_of ns acc) \<Longrightarrow> x \<in> set acc \<or> (\<exists>n \<in> set ns. visitable m stop n \<and> (n, x) \<in> (visit_edges m stop next_of)\<^sup>*)"
proof (induction m stop next_of ns acc rule: visit.induct)
  case (2 m stop next_of n ns acc)
  show ?case
  proof (cases "n \<in> set acc \<or> stop n")
    case True
    with 2 show ?thesis by (auto simp: visit.simps(2))
  next
    case False
    show ?thesis
    proof (cases "js_get m n")
      case None
      with 2 False show ?thesis by (auto simp: visit.simps(2))
    next
      case (Some s)
      have vn: "visitable m stop n" using False Some by (simp add: visitable_def)
      have "x \<in> set (acc @ [n]) \<or> (\<exists>k \<in> set (next_of s @ ns). visitable m stop k \<and> (k, x) \<in> (visit_edges m stop next_of)\<^sup>*)"
        using 2(3) [OF False Some] 2(4) Some False by (simp add: visit.simps(2))
      then consider "x \<in> set acc" | "x = n" | k where "k \<in> set (next_of s)" "visitable m stop k" "(k, x) \<in> (visit_edges m stop next_of)\<^sup>*"
        | k where "k \<in> set ns" "visitable m stop k" "(k, x) \<in> (visit_edges m stop next_of)\<^sup>*" by auto
      then show ?thesis
      proof cases
        case 3
        then have "(n, k) \<in> visit_edges m stop next_of" using Some by (auto simp: visit_edges_def)
        with 3 vn show ?thesis by (meson converse_rtrancl_into_rtrancl list.set_intros(1))
      qed (use vn in auto)
    qed
  qed
qed simp

lemma visit_from_scratch:
  "set (visit m stop next_of ns []) = {x. \<exists>n \<in> set ns. visitable m stop n \<and> (n, x) \<in> (visit_edges m stop next_of)\<^sup>*}"
proof (intro equalityI subsetI)
  fix x assume "x \<in> {x. \<exists>n \<in> set ns. visitable m stop n \<and> (n, x) \<in> (visit_edges m stop next_of)\<^sup>*}"
  then obtain n where n: "n \<in> set ns" "visitable m stop n" and "(n, x) \<in> (visit_edges m stop next_of)\<^sup>*" by blast
  from this(3) show "x \<in> set (visit m stop next_of ns [])"
    by (induction rule: rtrancl_induct) (auto intro: visit_roots [OF n] visit_closed)
qed (use visit_reachable [of _ m stop next_of ns "[]"] in auto)

section \<open>Selection\<close>

lemma get_by_name: "distinct (map cs_name svcs) \<Longrightarrow> js_get (by_name svcs) n = row_of cs_name n svcs"
  by (simp add: by_name_def js_get_fold_rows)

lemma by_name_mem: "distinct (map cs_name svcs) \<Longrightarrow> s \<in> set svcs \<Longrightarrow> js_get (by_name svcs) (cs_name s) = Some s"
  by (simp add: get_by_name row_of_mem keys_ok_def)

lemma by_name_Some: "distinct (map cs_name svcs) \<Longrightarrow> js_get (by_name svcs) n = Some s \<Longrightarrow> s \<in> set svcs \<and> cs_name s = n"
  using row_of_key [of cs_name n svcs s] by (simp add: get_by_name)

lemma by_name_has: "distinct (map cs_name svcs) \<Longrightarrow> js_has (by_name svcs) n \<longleftrightarrow> n \<in> cs_name ` set svcs"
  by (simp only: get_by_name row_of_None_iff not_not)

lemma keep_deps_simps [simp]: "cs_name (keep_deps kept s) = cs_name s" "deps (keep_deps kept s) = filter (\<lambda>d. d \<in> set kept) (deps s)"
  by (simp_all add: keep_deps_def deps_def or_nil_def split: option.splits)

lemma filterServicesByProfiles_names: "map cs_name (filterServicesByProfiles svcs profiles) = map cs_name (filter (active profiles) svcs)"
  by (simp add: filterServicesByProfiles_def Let_def o_def)

lemma filterServicesByProfiles_deps:
  "s \<in> set (filterServicesByProfiles svcs profiles) \<Longrightarrow> set (deps s) \<subseteq> cs_name ` set (filterServicesByProfiles svcs profiles)"
  by (auto simp: filterServicesByProfiles_def Let_def image_image)

lemma selected_names:
  assumes "distinct (map cs_name svcs)" and "or_nil requested \<noteq> []" and "selectComposeServices svcs requested = Inr out"
  shows "set (or_nil requested) \<subseteq> cs_name ` set svcs \<and>
    cs_name ` set out = {x. \<exists>n \<in> set (or_nil requested). (n, x) \<in> (visit_edges (by_name svcs) (\<lambda>_. False) deps)\<^sup>*}"
proof -
  let ?m = "by_name svcs"
  have known: "set (or_nil requested) \<subseteq> cs_name ` set svcs"
    using assms by_name_has [OF assms(1)] by (auto simp: selectComposeServices_def Let_def filter_empty_conv split: if_splits)
  have out: "out = filter (\<lambda>s. cs_name s \<in> set (visit ?m (\<lambda>_. False) deps (or_nil requested) [])) svcs"
    using assms by (auto simp: selectComposeServices_def Let_def split: if_splits)
  have vis: "visitable ?m (\<lambda>_. False) n \<longleftrightarrow> n \<in> cs_name ` set svcs" for n
    using by_name_has [OF assms(1)] by (simp add: visitable_def)
  have "x \<in> cs_name ` set svcs" if h: "n \<in> set (or_nil requested)" "(n, x) \<in> (visit_edges ?m (\<lambda>_. False) deps)\<^sup>*" for n x
    using h(2,1) known vis by (induction rule: rtrancl_induct) (auto simp: visit_edges_def)
  then have "set (visit ?m (\<lambda>_. False) deps (or_nil requested) []) \<subseteq> cs_name ` set svcs" unfolding visit_from_scratch by blast
  then have "cs_name ` set out = set (visit ?m (\<lambda>_. False) deps (or_nil requested) [])" unfolding out by auto
  then show ?thesis using known vis unfolding visit_from_scratch by blast
qed

text \<open>
  C21. The services of a deployment are closed under dependencies. For services with distinct names, whatever passes the
  profiles and the selection depends only on services that pass too; if services are requested, they are among the
  result, and the result is the least set of active services that contains them and is closed under dependencies.
\<close>

theorem filteredComposeProject_closure:
  assumes "distinct (map cs_name svcs)" and "filteredComposeProject svcs profiles requested = Inr out"
  shows "(\<forall>s \<in> set out. set (deps s) \<subseteq> cs_name ` set out) \<and>
    (or_nil requested \<noteq> [] \<longrightarrow> set (or_nil requested) \<subseteq> cs_name ` set out \<and>
      (\<forall>C. set (or_nil requested) \<subseteq> C \<and> (\<forall>s \<in> set (filterServicesByProfiles svcs profiles). cs_name s \<in> C \<longrightarrow> set (deps s) \<subseteq> C) \<longrightarrow>
         cs_name ` set out \<subseteq> C))"
proof (cases "or_nil requested = []")
  case True
  then have "out = filterServicesByProfiles svcs profiles"
    using assms(2) by (auto simp: filteredComposeProject_def rbind_Inr_iff selectComposeServices_def)
  then show ?thesis using True filterServicesByProfiles_deps by simp
next
  case False
  define fs where "fs = filterServicesByProfiles svcs profiles"
  let ?E = "visit_edges (by_name fs) (\<lambda>_. False) deps"
  have dist: "distinct (map cs_name fs)"
    using assms(1) by (simp add: fs_def filterServicesByProfiles_names distinct_map_filter)
  have sel: "selectComposeServices fs requested = Inr out" using assms(2) by (auto simp: filteredComposeProject_def rbind_Inr_iff fs_def)
  note names = selected_names [OF dist False sel]
  have sub: "set out \<subseteq> set fs" using sel by (auto simp: selectComposeServices_def Let_def split: if_splits)
  have edge: "(cs_name s, d) \<in> ?E" if "s \<in> set fs" "d \<in> set (deps s)" for s d
    using that by_name_mem [OF dist] by_name_has [OF dist] filterServicesByProfiles_deps [of s svcs profiles]
    by (fastforce simp: visit_edges_def visitable_def fs_def)
  have closed: "d \<in> cs_name ` set out" if h: "s \<in> set out" "d \<in> set (deps s)" for s d
  proof -
    obtain n where n: "n \<in> set (or_nil requested)" "(n, cs_name s) \<in> ?E\<^sup>*" using names h(1) by blast
    have "(n, d) \<in> ?E\<^sup>*" using n(2) edge [of s d] h sub by (meson rtrancl.rtrancl_into_rtrancl subsetD)
    then show ?thesis using names n(1) by blast
  qed
  have least: "cs_name ` set out \<subseteq> C"
    if C: "set (or_nil requested) \<subseteq> C" "\<forall>s \<in> set fs. cs_name s \<in> C \<longrightarrow> set (deps s) \<subseteq> C" for C
  proof -
    have "x \<in> C" if h: "n \<in> set (or_nil requested)" "(n, x) \<in> ?E\<^sup>*" for n x
      using h(2,1)
    proof (induction rule: rtrancl_induct)
      case (step y z)
      then obtain s where s: "js_get (by_name fs) y = Some s" "z \<in> set (deps s)" by (auto simp: visit_edges_def)
      with by_name_Some [OF dist s(1)] C(2) step show ?case by auto
    qed (use C(1) in auto)
    then show ?thesis using names by blast
  qed
  have "set (or_nil requested) \<subseteq> cs_name ` set out" using names by blast
  then show ?thesis using False closed least unfolding fs_def by blast
qed

definition stack :: "compose_service list" where
  "stack = [(empty_service ''web'')\<lparr>cs_dependsOn := Some [''api'', ''debug'']\<rparr>, (empty_service ''api'')\<lparr>cs_dependsOn := Some [''db'']\<rparr>,
     empty_service ''db'', (empty_service ''debug'')\<lparr>cs_profiles := Some [''dev'']\<rparr>, empty_service ''cron'']"

lemma stack_selected:
  "filteredComposeProject stack None (Some [''web'']) =
   Inr [(empty_service ''web'')\<lparr>cs_dependsOn := Some [''api'']\<rparr>, (empty_service ''api'')\<lparr>cs_dependsOn := Some [''db'']\<rparr>, empty_service ''db'']"
  by (simp add: filteredComposeProject_def validateComposeProfiles_def or_nil_def stack_def empty_service_def filterServicesByProfiles_def active_def
      keep_deps_def selectComposeServices_def by_name_def visit.simps deps_def)

theorem filteredComposeProject_closure_witness:
  "cs_name ` set [(empty_service ''web'')\<lparr>cs_dependsOn := Some [''api'']\<rparr>, (empty_service ''api'')\<lparr>cs_dependsOn := Some [''db'']\<rparr>, empty_service ''db'']
     \<subseteq> {''web'', ''api'', ''db'', ''cron''}"
proof -
  have d: "distinct (map cs_name stack)" by (simp add: stack_def empty_service_def)
  show ?thesis
    by (rule filteredComposeProject_closure [OF d stack_selected, THEN conjunct2, rule_format, THEN conjunct2, rule_format])
      (auto simp: or_nil_def filterServicesByProfiles_def active_def stack_def empty_service_def deps_def keep_deps_def)
qed

section \<open>The sets of a deployment\<close>

lemma set_set_add [simp]: "set (set_add n xs) = insert n (set xs)"
  by (auto simp: set_add_def)

lemma set_fold_set_add: "set (fold set_add ns xs) = set ns \<union> set xs"
  by (induction ns arbitrary: xs) auto

text \<open>What the first loop decides of a service.\<close>

definition is_replaced :: "deployment_options \<Rightarrow> compose_service \<Rightarrow> bool" where
  "is_replaced opts s \<longleftrightarrow>
     (role_of opts s = Role_resource \<and> cs_name s \<in> set (or_nil (do_statefulReplaceTargets opts))) \<or>
     (role_of opts s = Role_application \<and>
        (if is_selective opts then cs_name s \<in> set (or_nil (do_selectedServices opts))
         else cs_name s \<notin> set (or_nil (do_existingServices opts)) \<or> definition_changed opts (cs_name s)))"

definition is_kept :: "deployment_options \<Rightarrow> compose_service \<Rightarrow> bool" where
  "is_kept opts s \<longleftrightarrow> role_of opts s = Role_application \<and> \<not> is_selective opts \<and> \<not> is_replaced opts s"

lemma classify_service_set:
  "set (fst (classify_service opts s acc)) = (if is_replaced opts s then {cs_name s} else {}) \<union> set (fst acc) \<and>
   set (snd (classify_service opts s acc)) = (if is_kept opts s then {cs_name s} else {}) \<union> set (snd acc)"
  by (cases acc) (auto simp: classify_service_def is_replaced_def is_kept_def)

lemma classify_all:
  "set (fst (fold (classify_service opts) svcs acc)) = cs_name ` {s \<in> set svcs. is_replaced opts s} \<union> set (fst acc) \<and>
   set (snd (fold (classify_service opts) svcs acc)) = cs_name ` {s \<in> set svcs. is_kept opts s} \<union> set (snd acc)"
proof (induction svcs arbitrary: acc)
  case (Cons s svcs)
  then show ?case using classify_service_set [of opts s acc] by auto
qed simp

text \<open>The second loop: the verified services grow, stay closed, and hold the plain dependencies of the targets.\<close>

definition closed_over :: "(string, compose_service) js_map \<Rightarrow> string list \<Rightarrow> string set \<Rightarrow> string list \<Rightarrow> bool" where
  "closed_over m replace base prereq \<longleftrightarrow> base \<subseteq> set prereq \<and>
     (\<forall>x \<in> set prereq - base. \<forall>y. (x, y) \<in> visit_edges m (\<lambda>n. n \<in> set replace) plain_deps \<longrightarrow> y \<in> set prereq)"

lemma visit_closed_over:
  assumes "closed_over m replace base prereq"
  shows "closed_over m replace base (visit m (\<lambda>n. n \<in> set replace) plain_deps ns prereq)"
proof -
  let ?v = "visit m (\<lambda>n. n \<in> set replace) plain_deps ns prereq"
  have ext: "set prereq \<subseteq> set ?v" by (rule visit_extends)
  have "y \<in> set ?v" if h: "x \<in> set ?v" "x \<notin> base" "(x, y) \<in> visit_edges m (\<lambda>n. n \<in> set replace) plain_deps" for x y
  proof (cases "x \<in> set prereq")
    case True
    with assms h have "y \<in> set prereq" unfolding closed_over_def by blast
    with ext show ?thesis by blast
  next
    case False
    show ?thesis by (rule visit_closed [OF h(1) False h(3)])
  qed
  moreover have "base \<subseteq> set ?v" using assms ext unfolding closed_over_def by blast
  ultimately show ?thesis unfolding closed_over_def by blast
qed

lemma target_dep_closed_over:
  "closed_over m replace base (fst acc) \<Longrightarrow> closed_over m replace base (fst (visit_target_dep m replace target d acc))"
  by (cases acc) (auto simp: visit_target_dep_def Let_def intro: visit_closed_over)

lemma target_closed_over: "closed_over m replace base (fst acc) \<Longrightarrow> closed_over m replace base (fst (visit_target m replace n acc))"
proof (cases "js_get m n")
  case (Some t)
  assume c: "closed_over m replace base (fst acc)"
  have "closed_over m replace base (fst (fold (visit_target_dep m replace t) (deps t) acc))"
    by (rule fold_invariant [where P = "\<lambda>a. closed_over m replace base (fst a)" and Q = "\<lambda>_. True"]) (use c in \<open>auto intro: target_dep_closed_over\<close>)
  with Some show ?thesis by (simp add: visit_target_def)
qed (simp add: visit_target_def)

lemma targets_closed_over: "closed_over m replace base (fst acc) \<Longrightarrow> closed_over m replace base (fst (fold (visit_target m replace) ts acc))"
proof (induction ts arbitrary: acc)
  case (Cons t ts)
  show ?case using Cons.IH [of "visit_target m replace t acc"] target_closed_over [OF Cons.prems, of t] by simp
qed simp

lemma target_dep_hooks: "set (snd (visit_target_dep m replace t d acc)) = (if completed_dependency t d then {d} else {}) \<union> set (snd acc)"
  by (cases acc) (auto simp: visit_target_dep_def Let_def)

lemma target_hooks:
  "set (snd (fold (visit_target m replace) ts acc)) =
     {d. \<exists>n \<in> set ts. \<exists>t. js_get m n = Some t \<and> d \<in> set (deps t) \<and> completed_dependency t d} \<union> set (snd acc)"
proof (induction ts arbitrary: acc)
  case (Cons n ts)
  have "set (snd (fold (visit_target_dep m replace t) ds acc)) = {d \<in> set ds. completed_dependency t d} \<union> set (snd acc)" for t ds
    by (induction ds arbitrary: acc) (auto simp: target_dep_hooks)
  then have "set (snd (visit_target m replace n acc)) =
      {d. \<exists>t. js_get m n = Some t \<and> d \<in> set (deps t) \<and> completed_dependency t d} \<union> set (snd acc)"
    by (cases "js_get m n") (auto simp: visit_target_def)
  with Cons show ?case by auto
qed simp

lemma target_dep_grows: "set (fst acc) \<subseteq> set (fst (visit_target_dep m replace t d acc))"
  by (cases acc) (auto simp: visit_target_dep_def Let_def intro: visit_extends [THEN subsetD])

lemma fold_grows:
  assumes "\<And>x acc. set (fst acc) \<subseteq> set (fst (f x acc))"
  shows "set (fst acc) \<subseteq> set (fst (fold f xs acc))"
proof (induction xs arbitrary: acc)
  case (Cons x xs)
  then show ?case using assms [of acc x] by (metis dual_order.trans fold_simps(2))
qed simp

lemma target_grows: "set (fst acc) \<subseteq> set (fst (visit_target m replace n acc))"
  using fold_grows [of "visit_target_dep m replace t" acc for t, OF target_dep_grows] by (auto simp: visit_target_def split: option.splits)

lemma fold_reaches:
  assumes "\<And>x acc. set (fst acc) \<subseteq> set (fst (f x acc))" and "x \<in> set xs" and "\<And>acc. d \<in> set (fst (f x acc))"
  shows "d \<in> set (fst (fold f xs acc))"
  using assms(2)
proof (induction xs arbitrary: acc)
  case (Cons y xs)
  show ?case
  proof (cases "y = x")
    case True
    then show ?thesis using assms(3) [of acc] fold_grows [of f "f x acc" xs, OF assms(1)] by auto
  qed (use Cons in auto)
qed simp

lemma targets_have_deps:
  assumes "n \<in> set ts" and "js_get m n = Some t" and "d \<in> set (deps t)" and "\<not> completed_dependency t d"
    and "visitable m (\<lambda>n. n \<in> set replace) d"
  shows "d \<in> set (fst (fold (visit_target m replace) ts acc))"
proof (rule fold_reaches [OF target_grows assms(1)])
  fix acc
  have "d \<in> set (fst (fold (visit_target_dep m replace t) (deps t) acc))"
  proof (rule fold_reaches [OF target_dep_grows assms(3)])
    fix acc
    show "d \<in> set (fst (visit_target_dep m replace t d acc))"
      using assms(4) visit_roots [OF _ assms(5), of "[d]"] by (cases acc) (simp add: visit_target_dep_def Let_def)
  qed
  then show "d \<in> set (fst (visit_target m replace n acc))" using assms(2) by (simp add: visit_target_def)
qed

text \<open>The third loop.\<close>

lemma add_defaults_all:
  "set (fst (fold (add_defaults opts replace) svcs acc)) =
     cs_name ` {s \<in> set svcs. role_of opts s = Role_resource \<and> cs_name s \<notin> set replace} \<union> set (fst acc) \<and>
   set (snd (fold (add_defaults opts replace) svcs acc)) =
     cs_name ` {s \<in> set svcs. role_of opts s = Role_job \<and> or_nil (do_existingServices opts) = []} \<union> set (snd acc)"
proof (induction svcs arbitrary: acc)
  case (Cons s svcs)
  have "set (fst (add_defaults opts replace s acc)) = (if role_of opts s = Role_resource \<and> cs_name s \<notin> set replace then {cs_name s} else {}) \<union> set (fst acc)"
    "set (snd (add_defaults opts replace s acc)) = (if role_of opts s = Role_job \<and> or_nil (do_existingServices opts) = [] then {cs_name s} else {}) \<union> set (snd acc)"
    by (cases acc; simp add: add_defaults_def)+
  then show ?case using Cons [of "add_defaults opts replace s acc"] by auto
qed simp

lemma role_of_inferred:
  assumes "distinct (map cs_name (do_services opts))" and "do_runtimeRoles opts = inferComposeRuntimeRoles (do_services opts)"
    and "s \<in> set (do_services opts)"
  shows "role_of opts s = compose_role_of (do_services opts) s"
  using assms row_of_mem [of cs_name "do_services opts" s]
  by (simp add: role_of_def inferComposeRuntimeRoles_def js_get_fold_map keys_ok_def)

lemma completed_is_job: "t \<in> set svcs \<Longrightarrow> d \<in> set (deps t) \<Longrightarrow> completed_dependency t d \<Longrightarrow> d \<in> set (compose_jobs svcs)"
  by (auto simp: compose_jobs_def deps_def)

text \<open>The parts of a plan, by the loops that make them.\<close>

lemma plan_parts:
  assumes "distinct (map cs_name (do_services opts))"
  defines "S \<equiv> planComposeDeploymentSets opts" and "m \<equiv> by_name (do_services opts)"
  obtains prereq1 prereq2 where
    "set (ds_replaceTargets S) = cs_name ` {s \<in> set (do_services opts). is_replaced opts s}"
    and "closed_over m (ds_replaceTargets S) (cs_name ` {s \<in> set (do_services opts). is_kept opts s}) prereq1"
    and "\<And>n t d. n \<in> set (ds_replaceTargets S) \<Longrightarrow> js_get m n = Some t \<Longrightarrow> d \<in> set (deps t) \<Longrightarrow> \<not> completed_dependency t d \<Longrightarrow>
       visitable m (\<lambda>n. n \<in> set (ds_replaceTargets S)) d \<Longrightarrow> d \<in> set prereq1"
    and "set prereq2 = set prereq1 \<union> (if is_selective opts then {} else
       cs_name ` {s \<in> set (do_services opts). role_of opts s = Role_resource \<and> cs_name s \<notin> set (ds_replaceTargets S)})"
    and "set (ds_runOnceHooks S) = {d. \<exists>n \<in> set (ds_replaceTargets S). \<exists>t. js_get m n = Some t \<and> d \<in> set (deps t) \<and> completed_dependency t d} \<union>
       (if is_selective opts then {} else cs_name ` {s \<in> set (do_services opts). role_of opts s = Role_job \<and> or_nil (do_existingServices opts) = []})"
    and "set (ds_prerequisites S) = set prereq2 - set (ds_replaceTargets S) - set (ds_runOnceHooks S)"
    and "set (ds_includedServices S) = set (ds_replaceTargets S) \<union> set prereq2 \<union> set (ds_runOnceHooks S)"
proof -
  obtain replace prereq0 where c: "fold (classify_service opts) (do_services opts) ([], []) = (replace, prereq0)" by fastforce
  obtain prereq1 hooks1 where t: "fold (visit_target m replace) replace (prereq0, []) = (prereq1, hooks1)" by fastforce
  obtain prereq2 hooks where a: "(if is_selective opts then (prereq1, hooks1)
      else fold (add_defaults opts replace) (do_services opts) (prereq1, hooks1)) = (prereq2, hooks)" by fastforce
  have S: "ds_replaceTargets S = replace" "ds_runOnceHooks S = hooks" "ds_prerequisites S = filter (\<lambda>n. n \<notin> set replace \<and> n \<notin> set hooks) prereq2"
    "ds_includedServices S = fold set_add (replace @ ds_prerequisites S @ hooks) []"
    unfolding S_def planComposeDeploymentSets_def Let_def m_def [symmetric] c prod.case t a by simp_all
  have base: "set replace = cs_name ` {s \<in> set (do_services opts). is_replaced opts s}"
    "set prereq0 = cs_name ` {s \<in> set (do_services opts). is_kept opts s}"
    using classify_all [of opts "do_services opts" "([], [])"] c by simp_all
  have closed: "closed_over m replace (cs_name ` {s \<in> set (do_services opts). is_kept opts s}) prereq1"
    using targets_closed_over [of m replace "set prereq0" "(prereq0, [])" replace] t base(2) by (simp add: closed_over_def)
  have hooks1: "set hooks1 = {d. \<exists>n \<in> set replace. \<exists>t. js_get m n = Some t \<and> d \<in> set (deps t) \<and> completed_dependency t d}"
    using target_hooks [of m replace replace "(prereq0, [])"] t by simp
  have dflt: "set prereq2 = set prereq1 \<union> (if is_selective opts then {} else
       cs_name ` {s \<in> set (do_services opts). role_of opts s = Role_resource \<and> cs_name s \<notin> set replace})"
    "set hooks = set hooks1 \<union>
       (if is_selective opts then {} else cs_name ` {s \<in> set (do_services opts). role_of opts s = Role_job \<and> or_nil (do_existingServices opts) = []})"
    using add_defaults_all [of opts replace "do_services opts" "(prereq1, hooks1)"] a by (auto split: if_splits)
  show ?thesis
  proof (rule that [of prereq1 prereq2])
    show "d \<in> set prereq1" if "n \<in> set (ds_replaceTargets S)" "js_get m n = Some t" "d \<in> set (deps t)" "\<not> completed_dependency t d"
      "visitable m (\<lambda>n. n \<in> set (ds_replaceTargets S)) d" for n t d
      using targets_have_deps [OF that [unfolded S(1)], of "(prereq0, [])"] \<open>fold _ replace _ = _\<close> by simp
    show "set (ds_replaceTargets S) = cs_name ` {s \<in> set (do_services opts). is_replaced opts s}"
      unfolding S(1) by (rule base(1))
    show "closed_over m (ds_replaceTargets S) (cs_name ` {s \<in> set (do_services opts). is_kept opts s}) prereq1"
      unfolding S(1) by (rule closed)
    show "set prereq2 = set prereq1 \<union> (if is_selective opts then {} else
       cs_name ` {s \<in> set (do_services opts). role_of opts s = Role_resource \<and> cs_name s \<notin> set (ds_replaceTargets S)})"
      unfolding S(1) by (rule dflt(1))
    show "set (ds_runOnceHooks S) = {d. \<exists>n \<in> set (ds_replaceTargets S). \<exists>t. js_get m n = Some t \<and> d \<in> set (deps t) \<and> completed_dependency t d} \<union>
       (if is_selective opts then {} else cs_name ` {s \<in> set (do_services opts). role_of opts s = Role_job \<and> or_nil (do_existingServices opts) = []})"
      unfolding S(1,2) dflt(2) hooks1 by (rule refl)
    show pre: "set (ds_prerequisites S) = set prereq2 - set (ds_replaceTargets S) - set (ds_runOnceHooks S)"
      unfolding S(1,2,3) by auto
    show "set (ds_includedServices S) = set (ds_replaceTargets S) \<union> set prereq2 \<union> set (ds_runOnceHooks S)"
      unfolding S(4) set_fold_set_add set_append pre S(1,2) by auto
  qed
qed

text \<open>
  C13. The sets of a deployment. With inferred roles and distinct names: the replaced, verified and run-once services are disjoint and
  together are what is included; only applications, and resources approved for it, are replaced; every dependency of a replaced
  service is included, and run as a hook when the service waits for its completion; the plain dependencies of a verified service that are
  no jobs are included; and, unless the stack is new, a hook runs only for a service that is replaced.
\<close>

theorem deployment_sets_correct:
  assumes "distinct (map cs_name (do_services opts))" and "do_runtimeRoles opts = inferComposeRuntimeRoles (do_services opts)"
    and "planComposeDeploymentSets opts = S"
  shows "set (ds_replaceTargets S) \<inter> set (ds_prerequisites S) = {} \<and> set (ds_replaceTargets S) \<inter> set (ds_runOnceHooks S) = {} \<and>
    set (ds_prerequisites S) \<inter> set (ds_runOnceHooks S) = {} \<and>
    set (ds_includedServices S) = set (ds_replaceTargets S) \<union> set (ds_prerequisites S) \<union> set (ds_runOnceHooks S) \<and>
    (\<forall>s \<in> set (do_services opts). cs_name s \<in> set (ds_replaceTargets S) \<longrightarrow>
       (role_of opts s = Role_application \<or> role_of opts s = Role_resource \<and> cs_name s \<in> set (or_nil (do_statefulReplaceTargets opts))) \<and>
       (\<forall>d \<in> set (deps s). (completed_dependency s d \<longrightarrow> d \<in> set (ds_runOnceHooks S)) \<and>
          (d \<in> cs_name ` set (do_services opts) \<longrightarrow> d \<in> set (ds_includedServices S)))) \<and>
    (\<forall>s \<in> set (do_services opts). \<forall>t \<in> set (do_services opts). cs_name s \<in> set (ds_prerequisites S) \<and> cs_name t \<in> set (plain_deps s) \<and>
       role_of opts t \<noteq> Role_job \<longrightarrow> cs_name t \<in> set (ds_includedServices S)) \<and>
    (is_selective opts \<or> or_nil (do_existingServices opts) \<noteq> [] \<longrightarrow>
       (\<forall>h \<in> set (ds_runOnceHooks S). \<exists>s \<in> set (do_services opts). cs_name s \<in> set (ds_replaceTargets S) \<and> h \<in> set (deps s) \<and> completed_dependency s h))"
proof -
  let ?svcs = "do_services opts" and ?R = "set (ds_replaceTargets S)" and ?P = "set (ds_prerequisites S)" and ?H = "set (ds_runOnceHooks S)"
  let ?m = "by_name ?svcs"
  obtain prereq1 prereq2 where R: "?R = cs_name ` {s \<in> set ?svcs. is_replaced opts s}"
    and cl: "closed_over ?m (ds_replaceTargets S) (cs_name ` {s \<in> set ?svcs. is_kept opts s}) prereq1"
    and td: "\<And>n t d. n \<in> ?R \<Longrightarrow> js_get ?m n = Some t \<Longrightarrow> d \<in> set (deps t) \<Longrightarrow> \<not> completed_dependency t d \<Longrightarrow>
       visitable ?m (\<lambda>n. n \<in> ?R) d \<Longrightarrow> d \<in> set prereq1"
    and p2: "set prereq2 = set prereq1 \<union> (if is_selective opts then {} else
       cs_name ` {s \<in> set ?svcs. role_of opts s = Role_resource \<and> cs_name s \<notin> ?R})"
    and H: "?H = {d. \<exists>n \<in> ?R. \<exists>t. js_get ?m n = Some t \<and> d \<in> set (deps t) \<and> completed_dependency t d} \<union>
       (if is_selective opts then {} else cs_name ` {s \<in> set ?svcs. role_of opts s = Role_job \<and> or_nil (do_existingServices opts) = []})"
    and P: "?P = set prereq2 - ?R - ?H" and I: "set (ds_includedServices S) = ?R \<union> set prereq2 \<union> ?H"
    by (rule plan_parts [OF assms(1), unfolded assms(3)]) (rule that)
  note mem = by_name_mem [OF assms(1)] and some = by_name_Some [OF assms(1)] and has = by_name_has [OF assms(1)]
  have uniq: "s' = s" if "s \<in> set ?svcs" "s' \<in> set ?svcs" "cs_name s' = cs_name s" for s s'
    using that assms(1) by (simp add: distinct_map inj_on_def)
  have repl: "is_replaced opts s" if "s \<in> set ?svcs" "cs_name s \<in> ?R" for s
    using that uniq unfolding R by blast
  have job: "role_of opts s = Role_job" if s: "s \<in> set ?svcs" "cs_name s \<in> ?H" for s
  proof -
    consider t where "t \<in> set ?svcs" "cs_name s \<in> set (deps t)" "completed_dependency t (cs_name s)"
      | s' where "s' \<in> set ?svcs" "role_of opts s' = Role_job" "cs_name s' = cs_name s"
      using s(2) some unfolding H by (auto split: if_splits)
    then show ?thesis
    proof cases
      case 1
      with completed_is_job role_of_inferred [OF assms(1,2) s(1)] show ?thesis by (auto simp: compose_role_of_def)
    next
      case 2
      with uniq [OF s(1)] show ?thesis by blast
    qed
  qed
  have RH: "?R \<inter> ?H = {}"
  proof -
    have False if x: "x \<in> ?R" "x \<in> ?H" for x
    proof -
      obtain s where s: "s \<in> set ?svcs" "cs_name s = x" "is_replaced opts s" using x(1) unfolding R by blast
      with job [of s] x(2) show False by (auto simp: is_replaced_def)
    qed
    then show ?thesis by blast
  qed
  have target: "(completed_dependency s d \<longrightarrow> d \<in> ?H) \<and> (d \<in> cs_name ` set ?svcs \<longrightarrow> d \<in> set (ds_includedServices S))"
    if s: "s \<in> set ?svcs" "cs_name s \<in> ?R" "d \<in> set (deps s)" for s d
  proof -
    have "completed_dependency s d \<longrightarrow> d \<in> ?H" using s mem [OF s(1)] unfolding H by blast
    moreover have "d \<in> set prereq1" if "\<not> completed_dependency s d" "d \<in> cs_name ` set ?svcs" "d \<notin> ?R"
      by (rule td [OF s(2) mem [OF s(1)] s(3) that(1)]) (use that has in \<open>simp add: visitable_def\<close>)
    ultimately show ?thesis unfolding I p2 by blast
  qed
  have verified: "cs_name t \<in> set (ds_includedServices S)"
    if h: "s \<in> set ?svcs" "t \<in> set ?svcs" "cs_name s \<in> ?P" "cs_name t \<in> set (plain_deps s)" "role_of opts t \<noteq> Role_job" for s t
  proof (cases "is_selective opts")
    case True
    then have "cs_name s \<in> set prereq1" using h(3) unfolding P p2 by simp
    moreover have "(cs_name s, cs_name t) \<in> visit_edges ?m (\<lambda>n. n \<in> ?R) plain_deps" if "cs_name t \<notin> ?R"
      using that h(2,4) mem [OF h(1)] has by (simp add: visit_edges_def visitable_def)
    moreover have "cs_name ` {s \<in> set ?svcs. is_kept opts s} = {}" using True by (simp add: is_kept_def)
    ultimately show ?thesis using cl unfolding I p2 closed_over_def by blast
  next
    case False
    have "is_replaced opts t \<or> is_kept opts t \<or> role_of opts t = Role_resource"
      using h(5) False by (cases "role_of opts t") (auto simp: is_kept_def)
    moreover have "cs_name t \<in> set prereq1" if "is_kept opts t" using cl that h(2) unfolding closed_over_def by blast
    ultimately show ?thesis using h(2) False unfolding I p2 R by auto
  qed
  have hooks: "\<exists>s \<in> set ?svcs. cs_name s \<in> ?R \<and> h \<in> set (deps s) \<and> completed_dependency s h"
    if h: "h \<in> ?H" and old: "is_selective opts \<or> or_nil (do_existingServices opts) \<noteq> []" for h
  proof -
    obtain n t where "n \<in> ?R" "js_get ?m n = Some t" "h \<in> set (deps t)" "completed_dependency t h"
      using h old unfolding H by (auto split: if_splits)
    with some show ?thesis by blast
  qed
  have roles: "role_of opts s = Role_application \<or> role_of opts s = Role_resource \<and> cs_name s \<in> set (or_nil (do_statefulReplaceTargets opts))"
    if "s \<in> set ?svcs" "cs_name s \<in> ?R" for s
    using repl [OF that] by (auto simp: is_replaced_def)
  have inc: "set (ds_includedServices S) = ?R \<union> ?P \<union> ?H" and RP: "?R \<inter> ?P = {}" and PH: "?P \<inter> ?H = {}" unfolding I P by auto
  have c5: "\<forall>s \<in> set ?svcs. cs_name s \<in> ?R \<longrightarrow>
       (role_of opts s = Role_application \<or> role_of opts s = Role_resource \<and> cs_name s \<in> set (or_nil (do_statefulReplaceTargets opts))) \<and>
       (\<forall>d \<in> set (deps s). (completed_dependency s d \<longrightarrow> d \<in> ?H) \<and> (d \<in> cs_name ` set ?svcs \<longrightarrow> d \<in> set (ds_includedServices S)))"
    by (intro ballI impI conjI roles) (simp_all add: target)
  have c6: "\<forall>s \<in> set ?svcs. \<forall>t \<in> set ?svcs. cs_name s \<in> ?P \<and> cs_name t \<in> set (plain_deps s) \<and> role_of opts t \<noteq> Role_job \<longrightarrow>
       cs_name t \<in> set (ds_includedServices S)"
    using verified by simp
  have c7: "is_selective opts \<or> or_nil (do_existingServices opts) \<noteq> [] \<longrightarrow>
       (\<forall>h \<in> ?H. \<exists>s \<in> set ?svcs. cs_name s \<in> ?R \<and> h \<in> set (deps s) \<and> completed_dependency s h)"
    using hooks by simp
  show ?thesis by (intro conjI RP RH PH inc c5 c6 c7)
qed

definition shop :: "compose_service list" where
  "shop = [(empty_service ''web'')\<lparr>cs_dependsOn := Some [''api'', ''migrate''], cs_conditions := Some [(''migrate'', Service_completed_successfully)]\<rparr>,
     (empty_service ''api'')\<lparr>cs_dependsOn := Some [''db'', ''seed''], cs_conditions := Some [(''seed'', Service_completed_successfully)]\<rparr>,
     (empty_service ''migrate'')\<lparr>cs_dependsOn := Some [''db'']\<rparr>, empty_service ''seed'', (empty_service ''db'')\<lparr>cs_image := Some ''Postgres:16''\<rparr>]"

definition shop_options :: deployment_options where
  "shop_options = \<lparr>do_services = shop, do_runtimeRoles = inferComposeRuntimeRoles shop, do_selectedServices = Some [''web''],
     do_existingServices = Some [''web'', ''api'', ''db''], do_previousFingerprints = None, do_currentFingerprints = None,
     do_forceReplaceApplications = None, do_statefulReplaceTargets = None\<rparr>"

lemma shop_roles:
  "inferComposeRuntimeRoles shop = [(''web'', Role_application), (''api'', Role_application), (''migrate'', Role_job), (''seed'', Role_job), (''db'', Role_resource)]"
  by (simp add: inferComposeRuntimeRoles_def shop_def compose_role_of_def compose_jobs_def completed_dependency_def or_nil_def empty_service_def
      matches_signature_def signature_of_def RESOURCE_SIGNATURES_def lower_def lower_char_def is_upper_def starts_with_def)

lemma shop_plan:
  "planComposeDeploymentSets shop_options = \<lparr>ds_replaceTargets = [''web''], ds_prerequisites = [''api'', ''db''], ds_runOnceHooks = [''migrate''],
     ds_includedServices = [''web'', ''api'', ''db'', ''migrate'']\<rparr>"
  by (simp add: planComposeDeploymentSets_def shop_options_def shop_roles by_name_def classify_service_def role_of_def is_selective_def or_nil_def
      visit_target_def visit_target_dep_def visit.simps plain_deps_def completed_dependency_def deps_def set_add_def Let_def)
    (simp add: shop_def empty_service_def by_name_def classify_service_def role_of_def is_selective_def or_nil_def
      visit_target_def visit_target_dep_def visit.simps plain_deps_def completed_dependency_def deps_def set_add_def Let_def)

theorem deployment_sets_correct_witness:
  "distinct (map cs_name shop) \<and> {''web''} \<inter> {''api'', ''db''} = ({} :: string set) \<and>
   (\<exists>s \<in> set shop. cs_name s = ''web'' \<and> completed_dependency s ''migrate'')"
proof -
  have d: "distinct (map cs_name shop)" by (simp add: shop_def empty_service_def)
  have o: "do_services shop_options = shop" "do_runtimeRoles shop_options = inferComposeRuntimeRoles (do_services shop_options)" "is_selective shop_options"
    by (simp_all add: shop_options_def is_selective_def or_nil_def)
  from deployment_sets_correct [OF _ o(2) shop_plan] d o(1,3) show ?thesis by fastforce
qed

section \<open>The guard\<close>

lemma first_removed_None:
  "first_removed opts es = None \<longleftrightarrow> (\<forall>(n, r) \<in> set es. r = Role_resource \<and> n \<notin> set (go_currentServiceNames opts) \<longrightarrow> approved opts n Change_remove)"
  by (induction opts es rule: first_removed.induct) auto

lemma first_changed_None:
  "first_changed opts prev rs = None \<longleftrightarrow>
     (\<forall>(n, r) \<in> set rs. r = Role_resource \<and> n \<in> fst ` set (go_existingServices opts) \<and> js_get prev n \<noteq> None \<and>
        js_get (go_currentFingerprints opts) n \<noteq> None \<and> js_get prev n \<noteq> js_get (go_currentFingerprints opts) n \<longrightarrow> approved opts n Change_update)"
  by (induction opts prev rs rule: first_changed.induct) auto

text \<open>
  The guard for stateful services passes exactly when every existing resource that the new definition drops is approved for
  removal, and every existing service that is a resource in the new definition, and whose known fingerprint changed, is approved for an update.
\<close>

theorem stateful_guard_iff:
  "assertComposeStatefulChangesSafe opts = Inr () \<longleftrightarrow>
     (\<forall>n. (n, Role_resource) \<in> set (go_existingServices opts) \<and> n \<notin> set (go_currentServiceNames opts) \<longrightarrow> approved opts n Change_remove) \<and>
     (\<forall>prev n a b. go_previousFingerprints opts = Some prev \<and> (n, Role_resource) \<in> set (go_currentRuntimeRoles opts) \<and>
        n \<in> fst ` set (go_existingServices opts) \<and> js_get prev n = Some a \<and> js_get (go_currentFingerprints opts) n = Some b \<and> a \<noteq> b \<longrightarrow>
        approved opts n Change_update)"
proof -
  have removed: "first_removed opts (go_existingServices opts) = None \<longleftrightarrow>
      (\<forall>n. (n, Role_resource) \<in> set (go_existingServices opts) \<and> n \<notin> set (go_currentServiceNames opts) \<longrightarrow> approved opts n Change_remove)"
    unfolding first_removed_None by auto
  have changed: "first_changed opts prev (go_currentRuntimeRoles opts) = None \<longleftrightarrow>
      (\<forall>n a b. (n, Role_resource) \<in> set (go_currentRuntimeRoles opts) \<and> n \<in> fst ` set (go_existingServices opts) \<and>
         js_get prev n = Some a \<and> js_get (go_currentFingerprints opts) n = Some b \<and> a \<noteq> b \<longrightarrow> approved opts n Change_update)" for prev
    unfolding first_changed_None by fastforce
  have "assertComposeStatefulChangesSafe opts = Inr () \<longleftrightarrow> first_removed opts (go_existingServices opts) = None \<and>
      (\<forall>prev. go_previousFingerprints opts = Some prev \<longrightarrow> first_changed opts prev (go_currentRuntimeRoles opts) = None)"
    by (auto simp: assertComposeStatefulChangesSafe_def split: option.splits)
  then show ?thesis unfolding removed changed by blast
qed

definition dropped_db :: guard_options where
  "dropped_db = \<lparr>go_currentServiceNames = [''web''], go_currentRuntimeRoles = [(''web'', Role_application)],
     go_existingServices = [(''db'', Role_resource), (''web'', Role_application)], go_previousFingerprints = Some [(''db'', ''f1'')],
     go_currentFingerprints = [(''web'', ''f2'')], go_approvedChanges = Some [(''db'', Change_remove)]\<rparr>"

theorem stateful_guard_iff_witness:
  "assertComposeStatefulChangesSafe dropped_db = Inr () \<and> assertComposeStatefulChangesSafe (dropped_db\<lparr>go_approvedChanges := None\<rparr>) \<noteq> Inr ()"
  unfolding stateful_guard_iff by (auto simp: dropped_db_def approved_def)

text \<open>
  A resource whose role is inferred anew passes the guard without an approval, and is replaced as an application: here a
  database that ran on a Postgres image changes to an image without a known name.
\<close>

definition renamed_db :: "compose_service list" where
  "renamed_db = [(empty_service ''store'')\<lparr>cs_image := Some ''timescale/tsdb:2''\<rparr>]"

theorem role_change_escapes_guard:
  "assertComposeStatefulChangesSafe \<lparr>go_currentServiceNames = [''store''], go_currentRuntimeRoles = inferComposeRuntimeRoles renamed_db,
     go_existingServices = [(''store'', Role_resource)], go_previousFingerprints = Some [(''store'', ''f1'')],
     go_currentFingerprints = [(''store'', ''f2'')], go_approvedChanges = None\<rparr> = Inr () \<and>
   ds_replaceTargets (planComposeDeploymentSets \<lparr>do_services = renamed_db, do_runtimeRoles = inferComposeRuntimeRoles renamed_db, do_selectedServices = None,
     do_existingServices = Some [''store''], do_previousFingerprints = Some [(''store'', ''f1'')],
     do_currentFingerprints = Some [(''store'', ''f2'')], do_forceReplaceApplications = None, do_statefulReplaceTargets = None\<rparr>) = [''store'']"
proof -
  have roles: "inferComposeRuntimeRoles renamed_db = [(''store'', Role_application)]"
    by (simp add: inferComposeRuntimeRoles_def renamed_db_def compose_role_of_def compose_jobs_def or_nil_def empty_service_def
      matches_signature_def signature_of_def RESOURCE_SIGNATURES_def lower_def lower_char_def is_upper_def starts_with_def)
  show ?thesis unfolding roles
    by (simp add: assertComposeStatefulChangesSafe_def planComposeDeploymentSets_def renamed_db_def empty_service_def by_name_def classify_service_def role_of_def
      is_selective_def or_nil_def definition_changed_def visit_target_def deps_def add_defaults_def set_add_def Let_def)
qed

end
