(* ===== verification/Project_Store.thy ===== *)
theory Project_Store
  imports Prelude
begin

text \<open>
  The rows a deployment lives in and the repository methods that read and write them.

  \<^item> \<open>project_row\<close> and \<open>service_row\<close>: \<open>ProjectRow\<close> and \<open>ServiceRow\<close> of \<open>src/src/db/types.ts\<close>.
    Since migration 0012 the runtime columns live on the service row \<open><projectId>__svc\<close>; a
    project row read from its table has them all absent (\<open>None\<close> stands for both \<open>null\<close> and
    \<open>undefined\<close>, which the code's \<open>??\<close> chains do not tell apart).
  \<^item> \<open>mergeDeployable\<close>, \<open>getProject\<close>, \<open>updateProject\<close> and friends: \<open>src/src/db/repos/project.repo.ts\<close>.
  \<^item> \<open>serviceViewFromRows\<close>, \<open>loadServiceViewRecord\<close>: \<open>src/src/db/views/service-view.ts\<close>.

  Timestamps are milliseconds; an ISO or SQL timestamp column is the instant it denotes.
  The lemmas show that writes through \<open>updateProject\<close> are what \<open>getProject\<close> and the service view
  read back, and that a write never touches another project's rows.
\<close>

section \<open>Rows\<close>

datatype project_status = Running | Stopped | Building | Failed | Recovering

datatype service_status = Status project_status | Idle

datatype service_kind = KGit | KImage | KCompose | KComposeChild | KPostgres | KMysql
  | KRedis | KMongo | KNeo4j | KMinio

datatype visibility = Internal | QuickShare | Shared | Production

datatype build_method = BDockerfile | BCompose

datatype health_check_strategy = HHttp | HTcp | HExec | HNone

datatype project_type = TWeb | TWorker

datatype runtime_role = RApplication | RJob | RResource

record project_row =
  p_id :: string
  p_name :: string
  p_display_name :: "string option"
  p_description :: "string option"
  p_tags :: "string option"
  p_archived_at :: "string option"
  p_created_at :: int
  p_updated_at :: int
  p_server_id :: string
  p_deploy_lock_session :: "string option"
  p_deploy_lock_at :: "int option"
  p_status :: "project_status option"
  p_visibility :: "visibility option"
  p_assigned_port :: "int option"
  p_container_id :: "string option"
  p_image_tag :: "string option"
  p_previous_image_tag :: "string option"
  p_public_url :: "string option"
  p_dockerfile_path :: "string option"
  p_docker_target :: "string option"
  p_build_context :: "string option"
  p_build_method :: "build_method option"
  p_image_url :: "string option"
  p_image_cmd :: "string option"
  p_container_port :: "int option"
  p_pending_fix :: "string option"
  p_access_code :: "string option"
  p_access_code_iv :: "string option"
  p_is_preview :: "int option"
  p_pr_number :: "int option"
  p_health_check_strategy :: "health_check_strategy option"
  p_health_check_path :: "string option"
  p_recovering_started_at :: "int option"
  p_source :: "string option"
  p_project_type :: "project_type option"
  p_parent_project_id :: "string option"

record service_row =
  s_id :: string
  s_project_id :: string
  s_name :: string
  s_kind :: service_kind
  s_parent_service_id :: "string option"
  s_runtime_role :: runtime_role
  s_status :: "project_status option"
  s_visibility :: "visibility option"
  s_assigned_port :: "int option"
  s_container_id :: "string option"
  s_image_tag :: "string option"
  s_previous_image_tag :: "string option"
  s_public_url :: "string option"
  s_dockerfile_path :: "string option"
  s_docker_target :: "string option"
  s_build_context :: "string option"
  s_build_method :: "build_method option"
  s_image_url :: "string option"
  s_image_cmd :: "string option"
  s_container_port :: "int option"
  s_pending_fix :: "string option"
  s_access_code :: "string option"
  s_access_code_iv :: "string option"
  s_is_preview :: "int option"
  s_pr_number :: "int option"
  s_health_check_strategy :: "health_check_strategy option"
  s_health_check_path :: "string option"
  s_recovering_started_at :: "int option"
  s_container_name :: "string option"
  s_source :: string
  s_repo_url :: "string option"
  s_git_credential_id :: "string option"
  s_branch :: "string option"
  s_project_type :: project_type
  s_credentials :: "string option"
  s_created_at :: int
  s_updated_at :: int
  s_archived_at :: "string option"
  s_server_id :: string

text \<open>Rows as they are created, with every nullable column empty; used in examples.\<close>

definition new_project_row :: "string \<Rightarrow> project_row" where
  "new_project_row pid = \<lparr>p_id = pid, p_name = pid, p_display_name = None, p_description = None,
     p_tags = None, p_archived_at = None, p_created_at = 0, p_updated_at = 0, p_server_id = ''local'',
     p_deploy_lock_session = None, p_deploy_lock_at = None, p_status = None, p_visibility = None,
     p_assigned_port = None, p_container_id = None, p_image_tag = None, p_previous_image_tag = None,
     p_public_url = None, p_dockerfile_path = None, p_docker_target = None, p_build_context = None,
     p_build_method = None, p_image_url = None, p_image_cmd = None, p_container_port = None,
     p_pending_fix = None, p_access_code = None, p_access_code_iv = None, p_is_preview = None,
     p_pr_number = None, p_health_check_strategy = None, p_health_check_path = None,
     p_recovering_started_at = None, p_source = None, p_project_type = None, p_parent_project_id =
     None\<rparr>"

definition new_service_row :: "string \<Rightarrow> string \<Rightarrow> service_kind \<Rightarrow>
     project_status option \<Rightarrow> service_row" where
  "new_service_row sid pid k st = \<lparr>s_id = sid, s_project_id = pid, s_name = sid, s_kind = k,
     s_parent_service_id = None, s_runtime_role = RApplication, s_status = st, s_visibility = None,
     s_assigned_port = None, s_container_id = None, s_image_tag = None, s_previous_image_tag = None,
     s_public_url = None, s_dockerfile_path = None, s_docker_target = None, s_build_context = None,
     s_build_method = None, s_image_url = None, s_image_cmd = None, s_container_port = None,
     s_pending_fix = None, s_access_code = None, s_access_code_iv = None, s_is_preview = None,
     s_pr_number = None, s_health_check_strategy = None, s_health_check_path = None,
     s_recovering_started_at = None, s_container_name = None, s_source = [], s_repo_url = None,
     s_git_credential_id = None, s_branch = None, s_project_type = TWeb, s_credentials = None,
     s_created_at = 0, s_updated_at = 0, s_archived_at = None, s_server_id = ''local''\<rparr>"

text \<open>The two tables of the database this theory is about.\<close>

record store =
  projects :: "project_row list"
  services :: "service_row list"

section \<open>Service ids (\<open>src/src/db/service-ids.ts\<close>)\<close>

definition DEPLOYABLE_SERVICE_SUFFIX :: string where
  "DEPLOYABLE_SERVICE_SUFFIX = ''__svc''"

definition ORPHAN_MANAGED_GROUP_ID :: string where
  "ORPHAN_MANAGED_GROUP_ID = ''__orphan_managed''"

definition projectIdToDeployableServiceId :: "string \<Rightarrow> string" where
  "projectIdToDeployableServiceId projectId =
     (if ends_with DEPLOYABLE_SERVICE_SUFFIX projectId then projectId
      else projectId @ DEPLOYABLE_SERVICE_SUFFIX)"

definition deployableServiceIdToProjectId :: "string \<Rightarrow> string" where
  "deployableServiceIdToProjectId serviceId =
     (if ends_with DEPLOYABLE_SERVICE_SUFFIX serviceId
      then take (length serviceId - length DEPLOYABLE_SERVICE_SUFFIX) serviceId
      else serviceId)"

section \<open>Reading\<close>

definition mergeDeployable :: "project_row \<Rightarrow> service_row \<Rightarrow> project_row" where
  "mergeDeployable row svc = row\<lparr>
     p_status := s_status svc,
     p_visibility := s_visibility svc,
     p_assigned_port := s_assigned_port svc,
     p_container_id := s_container_id svc,
     p_image_tag := s_image_tag svc,
     p_previous_image_tag := s_previous_image_tag svc,
     p_public_url := s_public_url svc,
     p_dockerfile_path := s_dockerfile_path svc,
     p_docker_target := s_docker_target svc,
     p_build_context := s_build_context svc,
     p_build_method := s_build_method svc,
     p_source := Some (s_source svc),
     p_image_url := s_image_url svc,
     p_image_cmd := s_image_cmd svc,
     p_container_port := s_container_port svc,
     p_pending_fix := s_pending_fix svc,
     p_access_code := s_access_code svc,
     p_access_code_iv := s_access_code_iv svc,
     p_is_preview := s_is_preview svc,
     p_pr_number := s_pr_number svc,
     p_project_type := Some (s_project_type svc),
     p_health_check_strategy := s_health_check_strategy svc,
     p_health_check_path := s_health_check_path svc,
     p_recovering_started_at := s_recovering_started_at svc,
     p_parent_project_id :=
       (if truthy (s_parent_service_id svc)
        then map_option deployableServiceIdToProjectId (s_parent_service_id svc) else None)\<rparr>"

definition hydrateDeployable :: "store \<Rightarrow> project_row \<Rightarrow> project_row" where
  "hydrateDeployable db row =
     (case row_of s_id (projectIdToDeployableServiceId (p_id row)) (services db) of
        Some svc \<Rightarrow> mergeDeployable row svc | None \<Rightarrow> row)"

definition getProject :: "store \<Rightarrow> string \<Rightarrow> project_row option" where
  "getProject db pid = map_option (hydrateDeployable db) (row_of p_id pid (projects db))"

definition getProjectByName :: "store \<Rightarrow> string \<Rightarrow> project_row option" where
  "getProjectByName db name =
     (if name = ORPHAN_MANAGED_GROUP_ID then None
      else map_option (hydrateDeployable db) (row_of p_name name (projects db)))"

definition getService :: "store \<Rightarrow> string \<Rightarrow> service_row option" where
  "getService db sid = row_of s_id sid (services db)"

definition getDeployableForProject :: "store \<Rightarrow> string \<Rightarrow> service_row option" where
  "getDeployableForProject db projectId = getService db (projectId @ ''__svc'')"

section \<open>Writing\<close>

text \<open>The \<open>Partial\<close> argument of \<open>updateProject\<close>: an absent field is \<open>None\<close>.\<close>

record project_updates =
  u_status :: "project_status option"
  u_visibility :: "visibility option"
  u_containerId :: "(string option) option"
  u_containerName :: "(string option) option"
  u_assignedPort :: "(int option) option"
  u_imageUrl :: "(string option) option"
  u_imageTag :: "(string option) option"
  u_previousImageTag :: "(string option) option"
  u_containerPort :: "(int option) option"
  u_publicUrl :: "(string option) option"
  u_source :: "string option"
  u_repoUrl :: "(string option) option"
  u_branch :: "(string option) option"
  u_buildMethod :: "(build_method option) option"
  u_buildContext :: "(string option) option"
  u_dockerfilePath :: "(string option) option"
  u_dockerTarget :: "(string option) option"
  u_imageCmd :: "(string option) option"
  u_healthCheckStrategy :: "(health_check_strategy option) option"
  u_healthCheckPath :: "(string option) option"
  u_isPreview :: "(int option) option"
  u_prNumber :: "(int option) option"
  u_accessCode :: "(string option) option"
  u_accessCodeIv :: "(string option) option"
  u_parentProjectId :: "(string option) option"
  u_recoveringStartedAt :: "(int option) option"
  u_pendingFix :: "(string option) option"
  u_runtimeRole :: "runtime_role option"
  u_displayName :: "string option"
  u_description :: "(string option) option"
  u_tags :: "(string option) option"

definition no_updates :: project_updates where
  "no_updates = \<lparr>u_status = None,
     u_visibility = None,
     u_containerId = None,
     u_containerName = None,
     u_assignedPort = None,
     u_imageUrl = None,
     u_imageTag = None,
     u_previousImageTag = None,
     u_containerPort = None,
     u_publicUrl = None,
     u_source = None,
     u_repoUrl = None,
     u_branch = None,
     u_buildMethod = None,
     u_buildContext = None,
     u_dockerfilePath = None,
     u_dockerTarget = None,
     u_imageCmd = None,
     u_healthCheckStrategy = None,
     u_healthCheckPath = None,
     u_isPreview = None,
     u_prNumber = None,
     u_accessCode = None,
     u_accessCodeIv = None,
     u_parentProjectId = None,
     u_recoveringStartedAt = None,
     u_pendingFix = None,
     u_runtimeRole = None,
     u_displayName = None,
     u_description = None,
     u_tags = None\<rparr>"

text \<open>A defined field overwrites the column, an absent one leaves it.\<close>

definition set_if :: "'a option \<Rightarrow> 'a \<Rightarrow> 'a" where
  "set_if v old = (case v of Some x \<Rightarrow> x | None \<Rightarrow> old)"

definition projectSetValues :: "project_updates \<Rightarrow> int \<Rightarrow> project_row \<Rightarrow> project_row" where
  "projectSetValues u now r = r\<lparr>
     p_display_name := (case u_displayName u of Some d \<Rightarrow> Some d | None \<Rightarrow> p_display_name r),
     p_description := set_if (u_description u) (p_description r),
     p_tags := set_if (u_tags u) (p_tags r),
     p_updated_at := now\<rparr>"

definition svcSetValues :: "project_updates \<Rightarrow> int \<Rightarrow> service_row \<Rightarrow> service_row" where
  "svcSetValues u now r = r\<lparr>
     s_status := (case u_status u of Some x \<Rightarrow> Some x | None \<Rightarrow> s_status r),
     s_visibility := (case u_visibility u of Some x \<Rightarrow> Some x | None \<Rightarrow> s_visibility r),
     s_container_id := set_if (u_containerId u) (s_container_id r),
     s_container_name := set_if (u_containerName u) (s_container_name r),
     s_assigned_port := set_if (u_assignedPort u) (s_assigned_port r),
     s_image_url := set_if (u_imageUrl u) (s_image_url r),
     s_image_tag := set_if (u_imageTag u) (s_image_tag r),
     s_previous_image_tag := set_if (u_previousImageTag u) (s_previous_image_tag r),
     s_container_port := set_if (u_containerPort u) (s_container_port r),
     s_public_url := set_if (u_publicUrl u) (s_public_url r),
     s_source := set_if (u_source u) (s_source r),
     s_repo_url := set_if (u_repoUrl u) (s_repo_url r),
     s_branch := set_if (u_branch u) (s_branch r),
     s_build_method := set_if (u_buildMethod u) (s_build_method r),
     s_build_context := set_if (u_buildContext u) (s_build_context r),
     s_dockerfile_path := set_if (u_dockerfilePath u) (s_dockerfile_path r),
     s_docker_target := set_if (u_dockerTarget u) (s_docker_target r),
     s_image_cmd := set_if (u_imageCmd u) (s_image_cmd r),
     s_health_check_strategy := set_if (u_healthCheckStrategy u) (s_health_check_strategy r),
     s_health_check_path := set_if (u_healthCheckPath u) (s_health_check_path r),
     s_is_preview := set_if (u_isPreview u) (s_is_preview r),
     s_pr_number := set_if (u_prNumber u) (s_pr_number r),
     s_access_code := set_if (u_accessCode u) (s_access_code r),
     s_access_code_iv := set_if (u_accessCodeIv u) (s_access_code_iv r),
     s_parent_service_id :=
       (case u_parentProjectId u of None \<Rightarrow> s_parent_service_id r
        | Some parent \<Rightarrow> if truthy parent then map_option projectIdToDeployableServiceId parent else None),
     s_recovering_started_at := set_if (u_recoveringStartedAt u) (s_recovering_started_at r),
     s_pending_fix := set_if (u_pendingFix u) (s_pending_fix r),
     s_runtime_role := set_if (u_runtimeRole u) (s_runtime_role r),
     s_updated_at := now\<rparr>"

definition has_project_updates :: "project_updates \<Rightarrow> bool" where
  "has_project_updates u \<longleftrightarrow> u_displayName u \<noteq> None \<or> u_description u \<noteq> None \<or> u_tags u \<noteq> None"

definition has_service_updates :: "project_updates \<Rightarrow> bool" where
  "has_service_updates u \<longleftrightarrow> u_status u \<noteq> None \<or>
     u_visibility u \<noteq> None \<or>
     u_containerId u \<noteq> None \<or>
     u_containerName u \<noteq> None \<or>
     u_assignedPort u \<noteq> None \<or>
     u_imageUrl u \<noteq> None \<or>
     u_imageTag u \<noteq> None \<or>
     u_previousImageTag u \<noteq> None \<or>
     u_containerPort u \<noteq> None \<or>
     u_publicUrl u \<noteq> None \<or>
     u_source u \<noteq> None \<or>
     u_repoUrl u \<noteq> None \<or>
     u_branch u \<noteq> None \<or>
     u_buildMethod u \<noteq> None \<or>
     u_buildContext u \<noteq> None \<or>
     u_dockerfilePath u \<noteq> None \<or>
     u_dockerTarget u \<noteq> None \<or>
     u_imageCmd u \<noteq> None \<or>
     u_healthCheckStrategy u \<noteq> None \<or>
     u_healthCheckPath u \<noteq> None \<or>
     u_isPreview u \<noteq> None \<or>
     u_prNumber u \<noteq> None \<or>
     u_accessCode u \<noteq> None \<or>
     u_accessCodeIv u \<noteq> None \<or>
     u_parentProjectId u \<noteq> None \<or>
     u_recoveringStartedAt u \<noteq> None \<or>
     u_pendingFix u \<noteq> None \<or>
     u_runtimeRole u \<noteq> None"

definition updateProject :: "string \<Rightarrow> project_updates \<Rightarrow> int \<Rightarrow> store \<Rightarrow> store" where
  "updateProject pid u now db =
     (let db1 = (if has_project_updates u
                 then db\<lparr>projects := sql_update (\<lambda>r. p_id r = pid) (projectSetValues u now) (projects db)\<rparr>
                 else db)
      in if has_service_updates u
         then db1\<lparr>services := sql_update (\<lambda>r. s_id r = projectIdToDeployableServiceId pid)
                               (svcSetValues u now) (services db1)\<rparr>
         else db1)"

definition setPendingFix :: "string \<Rightarrow> string \<Rightarrow> int \<Rightarrow> store \<Rightarrow> store" where
  "setPendingFix projectId pendingFix now db =
     db\<lparr>services := sql_update (\<lambda>r. s_id r = projectIdToDeployableServiceId projectId)
          (\<lambda>r. r\<lparr>s_pending_fix := Some pendingFix, s_updated_at := now\<rparr>) (services db)\<rparr>"

definition consumePendingFix :: "string \<Rightarrow> int \<Rightarrow> store \<Rightarrow> string option \<times> store" where
  "consumePendingFix projectId now db =
     (let sid = projectIdToDeployableServiceId projectId;
          raw = Option.bind (row_of s_id sid (services db)) s_pending_fix
      in if \<not> truthy raw then (None, db)
         else (raw, db\<lparr>services := sql_update (\<lambda>r. s_id r = sid)
                      (\<lambda>r. r\<lparr>s_pending_fix := None, s_updated_at := now\<rparr>) (services db)\<rparr>))"

definition setProjectArchivedAt :: "string \<Rightarrow> string option \<Rightarrow> int \<Rightarrow> store \<Rightarrow> store" where
  "setProjectArchivedAt pid archivedAt now db =
     db\<lparr>projects := sql_update (\<lambda>r. p_id r = pid)
          (\<lambda>r. r\<lparr>p_archived_at := archivedAt, p_updated_at := now\<rparr>) (projects db)\<rparr>"

section \<open>The service view\<close>

record service_view =
  v_id :: string
  v_projectId :: string
  v_projectName :: string
  v_name :: string
  v_kind :: "service_kind option"
  v_status :: service_status
  v_containerId :: "string option"
  v_containerName :: "string option"
  v_assignedPort :: "int option"
  v_containerPort :: "int option"
  v_publicUrl :: "string option"
  v_source :: "string option"
  v_imageUrl :: "string option"
  v_repoUrl :: "string option"
  v_branch :: "string option"
  v_imageTag :: "string option"
  v_previousImageTag :: "string option"
  v_imageCmdRaw :: "string option"
  v_dockerfilePath :: "string option"
  v_dockerTarget :: "string option"
  v_buildContext :: "string option"
  v_buildMethod :: "build_method option"
  v_healthCheckStrategy :: "health_check_strategy option"
  v_healthCheckPath :: "string option"
  v_isPreview :: bool
  v_prNumber :: "int option"
  v_visibility :: visibility
  v_pendingFix :: "string option"
  v_recoveringStartedAt :: "int option"
  v_projectType :: "project_type option"
  v_accessCode :: "string option"
  v_accessCodeIv :: "string option"
  v_parentProjectId :: "string option"

text \<open>\<open>a ?? b\<close>, and \<open>service?.f ?? project.f ?? null\<close> for a nullable column (\<open>pick\<close> for text,
  \<open>pickNum\<close> for numeric columns, \<open>only\<close> for columns the project row never had).\<close>

definition coalesce :: "'a option \<Rightarrow> 'a option \<Rightarrow> 'a option" where
  "coalesce a b = (case a of Some x \<Rightarrow> Some x | None \<Rightarrow> b)"

definition serviceViewFromRows :: "project_row \<Rightarrow> service_row option \<Rightarrow> service_view" where
  "serviceViewFromRows project service =
     (let pick = (\<lambda>f g. coalesce (Option.bind service f) (g project));
          pickNum = (\<lambda>f g. coalesce (Option.bind service f) (g project));
          only = (\<lambda>f. Option.bind service f)
      in \<lparr>
         v_id = (case service of Some s \<Rightarrow> s_id s | None \<Rightarrow> p_id project @ ''__svc''),
         v_projectId = p_id project,
         v_projectName = p_name project,
         v_name = (case service of Some s \<Rightarrow> s_name s | None \<Rightarrow> p_name project @ ''__svc''),
         v_kind = map_option s_kind service,
         v_status = (case coalesce (Option.bind service s_status) (p_status project) of Some st \<Rightarrow> Status st | None \<Rightarrow> Idle),
         v_containerId = pick s_container_id p_container_id,
         v_containerName = only s_container_name,
         v_assignedPort = pickNum s_assigned_port p_assigned_port,
         v_containerPort = pickNum s_container_port p_container_port,
         v_publicUrl = pick s_public_url p_public_url,
         v_source = coalesce (map_option s_source service) (p_source project),
         v_imageUrl = pick s_image_url p_image_url,
         v_repoUrl = only s_repo_url,
         v_branch = only s_branch,
         v_imageTag = pick s_image_tag p_image_tag,
         v_previousImageTag = pick s_previous_image_tag p_previous_image_tag,
         v_imageCmdRaw = pick s_image_cmd p_image_cmd,
         v_dockerfilePath = pick s_dockerfile_path p_dockerfile_path,
         v_dockerTarget = pick s_docker_target p_docker_target,
         v_buildContext = pick s_build_context p_build_context,
         v_buildMethod = coalesce (Option.bind service s_build_method) (p_build_method project),
         v_healthCheckStrategy = coalesce (Option.bind service s_health_check_strategy) (p_health_check_strategy project),
         v_healthCheckPath = pick s_health_check_path p_health_check_path,
         v_isPreview = (case coalesce (Option.bind service s_is_preview) (p_is_preview project) of Some n \<Rightarrow> n \<noteq> 0 | None \<Rightarrow> False),
         v_prNumber = pickNum s_pr_number p_pr_number,
         v_visibility = (case coalesce (Option.bind service s_visibility) (p_visibility project) of Some v \<Rightarrow> v | None \<Rightarrow> Internal),
         v_pendingFix = pick s_pending_fix p_pending_fix,
         v_recoveringStartedAt = pickNum s_recovering_started_at p_recovering_started_at,
         v_projectType = coalesce (map_option s_project_type service) (p_project_type project),
         v_accessCode = pick s_access_code p_access_code,
         v_accessCodeIv = pick s_access_code_iv p_access_code_iv,
         v_parentProjectId = (if truthy (Option.bind service s_parent_service_id)
            then map_option deployableServiceIdToProjectId (Option.bind service s_parent_service_id)
            else p_parent_project_id project)\<rparr>)"

record service_view_record =
  vr_project :: project_row
  vr_service :: "service_row option"
  vr_view :: service_view

definition loadServiceViewRecord :: "store \<Rightarrow> project_row \<Rightarrow> service_view_record" where
  "loadServiceViewRecord db project =
     (let service = getDeployableForProject db (p_id project)
      in \<lparr>vr_project = project, vr_service = service, vr_view = serviceViewFromRows project service\<rparr>)"

definition loadServiceView :: "store \<Rightarrow> project_row \<Rightarrow> service_view" where
  "loadServiceView db project = vr_view (loadServiceViewRecord db project)"

text \<open>The batch form reads all canonical service rows with one query.\<close>

definition loadServiceViewRecords :: "store \<Rightarrow> project_row list \<Rightarrow> (string, service_view_record) js_map" where
  "loadServiceViewRecords db ps =
     (let ids = map (\<lambda>p. p_id p @ ''__svc'') ps;
          byId = map (\<lambda>s. (s_id s, s)) (filter (\<lambda>s. s_id s \<in> set ids) (services db))
      in fold (\<lambda>p m. let service = js_get (rev byId) (p_id p @ ''__svc'')
                 in js_set (p_id p) \<lparr>vr_project = p, vr_service = service,
                      vr_view = serviceViewFromRows p service\<rparr> m) ps [])"

section \<open>Properties\<close>

lemma suffix_simps [simp]:
  "ends_with DEPLOYABLE_SERVICE_SUFFIX (x @ DEPLOYABLE_SERVICE_SUFFIX)"
  "length DEPLOYABLE_SERVICE_SUFFIX = 5"
  by (auto simp: ends_with_iff) (simp add: DEPLOYABLE_SERVICE_SUFFIX_def)

lemma service_id_roundtrip:
  "\<not> ends_with DEPLOYABLE_SERVICE_SUFFIX pid \<Longrightarrow>
     deployableServiceIdToProjectId (projectIdToDeployableServiceId pid) = pid"
  by (simp add: projectIdToDeployableServiceId_def deployableServiceIdToProjectId_def)

lemma service_id_plain:
  "\<not> ends_with DEPLOYABLE_SERVICE_SUFFIX pid \<Longrightarrow> projectIdToDeployableServiceId pid = pid @ ''__svc''"
  by (simp add: projectIdToDeployableServiceId_def DEPLOYABLE_SERVICE_SUFFIX_def)

lemma service_id_inj:
  assumes "\<not> ends_with DEPLOYABLE_SERVICE_SUFFIX a" and "\<not> ends_with DEPLOYABLE_SERVICE_SUFFIX b"
  shows "projectIdToDeployableServiceId a = projectIdToDeployableServiceId b \<longleftrightarrow> a = b"
  using assms service_id_roundtrip by metis

lemma set_values_keys [simp]:
  "p_id (projectSetValues u now r) = p_id r"
  "s_id (svcSetValues u now sr) = s_id sr"
  by (simp_all add: projectSetValues_def svcSetValues_def)

lemma merge_keeps [simp]:
  "p_id (mergeDeployable r s) = p_id r"
  "p_archived_at (mergeDeployable r s) = p_archived_at r"
  "p_deploy_lock_session (mergeDeployable r s) = p_deploy_lock_session r"
  "p_deploy_lock_at (mergeDeployable r s) = p_deploy_lock_at r"
  "p_status (mergeDeployable r s) = s_status s"
  "p_recovering_started_at (mergeDeployable r s) = s_recovering_started_at s"
  by (simp_all add: mergeDeployable_def)

lemma hydrate_keeps [simp]:
  "p_id (hydrateDeployable db r) = p_id r"
  "p_archived_at (hydrateDeployable db r) = p_archived_at r"
  "p_deploy_lock_session (hydrateDeployable db r) = p_deploy_lock_session r"
  "p_deploy_lock_at (hydrateDeployable db r) = p_deploy_lock_at r"
  by (simp_all add: hydrateDeployable_def split: option.splits)

lemma getProject_id: "getProject db pid = Some p \<Longrightarrow> p_id p = pid"
  by (auto simp: getProject_def dest: row_of_key)

text \<open>
  Base rows: the runtime columns were dropped from the projects table, so a row as stored
  carries none of them.
\<close>

definition base_project_row :: "project_row \<Rightarrow> bool" where
  "base_project_row r \<longleftrightarrow> p_status r = None \<and> p_container_id r = None \<and> p_recovering_started_at r = None"

lemma v_status_from_rows:
  "v_status (serviceViewFromRows p s) =
     (case coalesce (Option.bind s s_status) (p_status p) of Some st \<Rightarrow> Status st | None \<Rightarrow> Idle)"
  by (simp add: serviceViewFromRows_def Let_def)

text \<open>The status the view shows is the status \<open>getProject\<close> shows.\<close>

lemma view_status_hydrated:
  assumes "getProject db pid = Some p" and "\<not> ends_with DEPLOYABLE_SERVICE_SUFFIX pid"
  shows "v_status (loadServiceView db p) = (case p_status p of Some st \<Rightarrow> Status st | None \<Rightarrow> Idle)"
proof -
  have pid: "p_id p = pid" using assms(1) by (rule getProject_id)
  obtain r where r: "row_of p_id pid (projects db) = Some r" and p: "p = hydrateDeployable db r"
    using assms(1) by (auto simp: getProject_def)
  have "p_id r = pid" using r by (auto dest: row_of_key)
  then show ?thesis
    using service_id_plain [OF assms(2)]
    by (auto simp: loadServiceView_def loadServiceViewRecord_def Let_def v_status_from_rows pid
        getDeployableForProject_def getService_def p hydrateDeployable_def coalesce_def
        split: option.splits)
qed

lemma updateProject_services:
  "services (updateProject pid u now db) =
     (if has_service_updates u
      then sql_update (\<lambda>r. s_id r = projectIdToDeployableServiceId pid) (svcSetValues u now) (services db)
      else services db)"
  by (simp add: updateProject_def Let_def)

lemma updateProject_projects:
  "projects (updateProject pid u now db) =
     (if has_project_updates u
      then sql_update (\<lambda>r. p_id r = pid) (projectSetValues u now) (projects db)
      else projects db)"
  by (simp add: updateProject_def Let_def)

text \<open>A write to one project leaves the hydrated row of every other project as it was.\<close>

lemma updateProject_frame:
  assumes "q \<noteq> pid" and "\<not> ends_with DEPLOYABLE_SERVICE_SUFFIX pid" and "\<not> ends_with DEPLOYABLE_SERVICE_SUFFIX q"
  shows "getProject (updateProject pid u now db) q = getProject db q"
proof -
  let ?db = "updateProject pid u now db"
  have row: "row_of p_id q (projects ?db) = row_of p_id q (projects db)"
    using assms(1) by (auto simp: updateProject_projects row_of_sql_update dest: row_of_key
        intro!: option.map_ident_strong)
  have svc: "row_of s_id (projectIdToDeployableServiceId q) (services ?db) =
             row_of s_id (projectIdToDeployableServiceId q) (services db)"
    using assms(1) service_id_inj [OF assms(2,3)]
    by (auto simp: updateProject_services row_of_sql_update dest: row_of_key
        intro!: option.map_ident_strong)
  show ?thesis
  proof (cases "row_of p_id q (projects db)")
    case None
    with row show ?thesis by (simp add: getProject_def)
  next
    case (Some r)
    then have "p_id r = q" by (auto dest: row_of_key)
    with svc row Some show ?thesis
      by (simp add: getProject_def hydrateDeployable_def)
  qed
qed

text \<open>A status write is what \<open>getProject\<close> reads back, when the service row exists.\<close>

lemma updateProject_status:
  assumes "getProject db pid = Some p"
    and "row_of s_id (projectIdToDeployableServiceId pid) (services db) = Some svc"
    and "u = no_updates\<lparr>u_status := Some st, u_recoveringStartedAt := Some rec\<rparr>"
  shows "\<exists>p'. getProject (updateProject pid u now db) pid = Some p' \<and> p_status p' = Some st
             \<and> p_recovering_started_at p' = rec \<and> p_archived_at p' = p_archived_at p"
proof -
  obtain r where r: "row_of p_id pid (projects db) = Some r" and p: "p = hydrateDeployable db r"
    using assms(1) by (auto simp: getProject_def)
  have rid: "p_id r = pid" using r by (auto dest: row_of_key)
  have sid: "s_id svc = projectIdToDeployableServiceId pid" using assms(2) by (auto dest: row_of_key)
  have "has_service_updates u" "\<not> has_project_updates u"
    by (simp_all add: assms(3) has_service_updates_def has_project_updates_def no_updates_def)
  then have
    "row_of s_id (projectIdToDeployableServiceId pid) (services (updateProject pid u now db)) = Some (svcSetValues u now svc)"
    "projects (updateProject pid u now db) = projects db"
    using assms(2) sid by (auto simp: updateProject_services updateProject_projects row_of_sql_update)
  moreover have "s_status (svcSetValues u now svc) = Some st"
    "s_recovering_started_at (svcSetValues u now svc) = rec"
    by (simp_all add: assms(3) svcSetValues_def no_updates_def set_if_def)
  ultimately show ?thesis
    using r rid assms(2) by (simp add: getProject_def hydrateDeployable_def p)
qed

text \<open>The batch loader agrees with the single loader on every project of the batch.\<close>

lemma batch_lookup:
  assumes "keys_ok s_id t" and "k \<in> K"
  shows "map_of (rev (map (\<lambda>s. (s_id s, s)) (filter (\<lambda>s. s_id s \<in> K) t))) k = row_of s_id k t"
  using assms(1)
proof (induction t)
  case Nil
  then show ?case by simp
next
  case (Cons s t)
  have "row_of s_id (s_id s) t = None" and "keys_ok s_id t"
    using Cons.prems by (auto simp: keys_ok_def row_of_None_iff)
  with Cons.IH assms(2) show ?case
    by (auto simp: map_add_def split: option.splits)
qed

lemma fold_js_set_lookup:
  assumes "distinct (map f ps)" and "p \<in> set ps"
  shows "js_get (fold (\<lambda>p m. js_set (f p) (g p) m) ps m) (f p) = Some (g p)"
  using assms
proof (induction ps arbitrary: m)
  case Nil
  then show ?case by simp
next
  case (Cons q ps)
  have other: "f p \<notin> f ` set ps \<Longrightarrow>
      js_get (fold (\<lambda>p m. js_set (f p) (g p) m) ps m') (f p) = js_get m' (f p)" for m'
    by (induction ps arbitrary: m') (auto simp: js_simps)
  show ?case
  proof (cases "p \<in> set ps")
    case True
    with Cons show ?thesis by simp
  next
    case False
    with Cons.prems have "p = q" "f p \<notin> f ` set ps" by auto
    then show ?thesis using other by (simp add: js_simps)
  qed
qed

lemma loadServiceViewRecords_eq:
  assumes "keys_ok s_id (services db)" and "distinct (map p_id ps)" and "p \<in> set ps"
  shows "js_get (loadServiceViewRecords db ps) (p_id p) = Some (loadServiceViewRecord db p)"
proof -
  let ?K = "(\<lambda>p. p_id p @ ''__svc'') ` set ps"
  let ?svc = "\<lambda>p. map_of (rev (map (\<lambda>s. (s_id s, s)) (filter (\<lambda>s. s_id s \<in> ?K) (services db)))) (p_id p @ ''__svc'')"
  have "js_get (loadServiceViewRecords db ps) (p_id p) =
      Some \<lparr>vr_project = p, vr_service = ?svc p, vr_view = serviceViewFromRows p (?svc p)\<rparr>"
    unfolding loadServiceViewRecords_def Let_def
    using fold_js_set_lookup [OF assms(2,3), where g = "\<lambda>p. \<lparr>vr_project = p, vr_service = ?svc p,
        vr_view = serviceViewFromRows p (?svc p)\<rparr>" and m = "[]"] by simp
  moreover have "?svc p = getDeployableForProject db (p_id p)"
    using batch_lookup [OF assms(1), of "p_id p @ ''__svc''" ?K] assms(3)
    by (simp add: getDeployableForProject_def getService_def)
  ultimately show ?thesis by (simp add: loadServiceViewRecord_def Let_def)
qed

end
