(* ===== verification/Environment_Repo.thy ===== *)
theory Environment_Repo
  imports Project_Store
begin

text \<open>
  The environments of a service (\<open>src/src/db/repos/environment.repo.ts\<close>): the rows of the table
  \<open>environments\<close> with its constraints (\<open>src/src/db/schema.drizzle.ts\<close>) and every query of the
  repository. A timestamp column is the instant it denotes; rows ordered by \<open>created_at\<close> keep the
  order of the table where the instants agree. A write that breaks a unique constraint is the error
  value \<open>Unique_violation\<close>, as the driver throws there.

  The lemmas show that the constraints hold in every table the repository writes, that creating an
  environment twice gives the row of the first call, and what \<open>updateEnvironment\<close> changes.
\<close>

section \<open>Rows and constraints\<close>

datatype env_status = ERunning | EStopped | EBuilding | EError | EIdle

datatype environment_type = Production_env | Development_env

record environment_row =
  ev_id :: string
  ev_service_id :: string
  ev_project_environment_id :: "string option"
  ev_type :: environment_type
  ev_branch :: "string option"
  ev_status :: env_status
  ev_assigned_port :: "int option"
  ev_container_id :: "string option"
  ev_image_tag :: "string option"
  ev_previous_image_tag :: "string option"
  ev_public_url :: "string option"
  ev_container_port :: "int option"
  ev_created_at :: int
  ev_updated_at :: int

datatype repo_error = RepoPersistenceError string string | Unique_violation

text \<open>Two rows that a unique constraint of the table does not allow together.\<close>

definition env_clash :: "environment_row \<Rightarrow> environment_row \<Rightarrow> bool" where
  "env_clash a b \<longleftrightarrow> ev_id a = ev_id b \<or>
     (ev_assigned_port a \<noteq> None \<and> ev_assigned_port a = ev_assigned_port b) \<or>
     (ev_service_id a = ev_service_id b \<and> ev_project_environment_id a = ev_project_environment_id b \<and>
      (ev_project_environment_id a = None \<longrightarrow> ev_type a = ev_type b))"

fun envs_ok :: "environment_row list \<Rightarrow> bool" where
  "envs_ok [] = True"
| "envs_ok (e # t) = (list_all (\<lambda>e'. \<not> env_clash e e') t \<and> envs_ok t)"

section \<open>Queries\<close>

definition getEnvironment :: "string \<Rightarrow> environment_row list \<Rightarrow> environment_row option" where
  "getEnvironment eid t = row_of ev_id eid t"

definition getEnvironmentByServiceAndType :: "string \<Rightarrow> environment_type \<Rightarrow> environment_row list \<Rightarrow> environment_row option" where
  "getEnvironmentByServiceAndType serviceId ty t = find (\<lambda>e. ev_service_id e = serviceId \<and> ev_type e = ty) t"

definition getEnvironmentByServiceAndProjectEnvironment ::
    "string \<Rightarrow> string \<Rightarrow> environment_row list \<Rightarrow> environment_row option" where
  "getEnvironmentByServiceAndProjectEnvironment serviceId pe t =
     find (\<lambda>e. ev_service_id e = serviceId \<and> ev_project_environment_id e = Some pe) t"

definition getEnvironmentsByServiceId :: "string \<Rightarrow> environment_row list \<Rightarrow> environment_row list" where
  "getEnvironmentsByServiceId serviceId t = sort_key ev_created_at (filter (\<lambda>e. ev_service_id e = serviceId) t)"

definition getEnvironmentsByServiceIds :: "string list \<Rightarrow> environment_row list \<Rightarrow> environment_row list" where
  "getEnvironmentsByServiceIds ids t =
     (if ids = [] then [] else sort_key ev_created_at (filter (\<lambda>e. ev_service_id e \<in> set ids) t))"

definition getEnvironmentsByProject :: "string \<Rightarrow> environment_row list \<Rightarrow> environment_row list" where
  "getEnvironmentsByProject projectId t =
     sort_key ev_created_at (filter (\<lambda>e. ev_service_id e = projectIdToDeployableServiceId projectId) t)"

text \<open>One query for many projects, its rows grouped in a \<open>Map\<close> with an entry for each project.\<close>

definition getEnvironmentsByProjectIds :: "string list \<Rightarrow> environment_row list \<Rightarrow> (string, environment_row list) js_map" where
  "getEnvironmentsByProjectIds pids t =
     (if pids = [] then []
      else let uniqueProjectIds = rev (remdups (rev pids));
               projectIdByServiceId = fold (\<lambda>p m. js_set (projectIdToDeployableServiceId p) p m) uniqueProjectIds [];
               rows = sort_key ev_created_at (filter (\<lambda>e. js_has projectIdByServiceId (ev_service_id e)) t)
           in fold (\<lambda>row m. case js_get projectIdByServiceId (ev_service_id row) of
                        None \<Rightarrow> m
                      | Some projectId \<Rightarrow>
                          if projectId = [] then m
                          else case js_get m projectId of None \<Rightarrow> m | Some rs \<Rightarrow> js_set projectId (rs @ [row]) m)
                rows (map (\<lambda>p. (p, [])) uniqueProjectIds))"

section \<open>Writes\<close>

record env_updates =
  eu_branch :: "(string option) option"
  eu_status :: "env_status option"
  eu_assignedPort :: "(int option) option"
  eu_containerId :: "(string option) option"
  eu_imageTag :: "(string option) option"
  eu_previousImageTag :: "(string option) option"
  eu_publicUrl :: "(string option) option"
  eu_containerPort :: "(int option) option"

definition no_env_updates :: env_updates where
  "no_env_updates = \<lparr>eu_branch = None, eu_status = None, eu_assignedPort = None, eu_containerId = None,
     eu_imageTag = None, eu_previousImageTag = None, eu_publicUrl = None, eu_containerPort = None\<rparr>"

definition env_set_values :: "env_updates \<Rightarrow> int \<Rightarrow> environment_row \<Rightarrow> environment_row" where
  "env_set_values u now e = e\<lparr>
     ev_branch := set_if (eu_branch u) (ev_branch e),
     ev_status := set_if (eu_status u) (ev_status e),
     ev_assigned_port := set_if (eu_assignedPort u) (ev_assigned_port e),
     ev_container_id := set_if (eu_containerId u) (ev_container_id e),
     ev_image_tag := set_if (eu_imageTag u) (ev_image_tag e),
     ev_previous_image_tag := set_if (eu_previousImageTag u) (ev_previous_image_tag e),
     ev_public_url := set_if (eu_publicUrl u) (ev_public_url e),
     ev_container_port := set_if (eu_containerPort u) (ev_container_port e),
     ev_updated_at := now\<rparr>"

text \<open>The update takes a port that another row holds, which the unique column refuses.\<close>

definition env_port_taken :: "string \<Rightarrow> env_updates \<Rightarrow> environment_row list \<Rightarrow> bool" where
  "env_port_taken eid u t = (case eu_assignedPort u of
     Some (Some p) \<Rightarrow> list_ex (\<lambda>e. ev_id e = eid) t \<and> list_ex (\<lambda>e. ev_id e \<noteq> eid \<and> ev_assigned_port e = Some p) t
   | _ \<Rightarrow> False)"

definition updateEnvironment :: "string \<Rightarrow> env_updates \<Rightarrow> int \<Rightarrow> environment_row list \<Rightarrow> repo_error + environment_row list" where
  "updateEnvironment eid u now t =
     (if u = no_env_updates then Inr t
      else if env_port_taken eid u t then Inl Unique_violation
      else Inr (sql_update (\<lambda>e. ev_id e = eid) (env_set_values u now) t))"

definition deleteEnvironment :: "string \<Rightarrow> environment_row list \<Rightarrow> environment_row list" where
  "deleteEnvironment eid t = filter (\<lambda>e. ev_id e \<noteq> eid) t"

text \<open>\<open>INSERT .. ON CONFLICT DO NOTHING RETURNING\<close>.\<close>

definition insertEnvironment :: "environment_row \<Rightarrow> environment_row list \<Rightarrow> environment_row option \<times> environment_row list" where
  "insertEnvironment e t = (if list_ex (env_clash e) t then (None, t) else (Some e, t @ [e]))"

definition resolveExistingCanonicalServiceId :: "store \<Rightarrow> string \<Rightarrow> repo_error + string" where
  "resolveExistingCanonicalServiceId db projectId =
     (let serviceId = projectIdToDeployableServiceId projectId
      in case row_of s_id serviceId (services db) of
           None \<Rightarrow> Inl (RepoPersistenceError ''service'' serviceId) | Some s \<Rightarrow> Inr (s_id s))"

record new_environment =
  ne_id :: string
  ne_projectId :: string
  ne_type :: environment_type
  ne_branch :: "string option"
  ne_status :: "env_status option"
  ne_assignedPort :: "int option"
  ne_containerId :: "string option"
  ne_imageTag :: "string option"
  ne_previousImageTag :: "string option"
  ne_publicUrl :: "string option"

definition new_environment_row :: "new_environment \<Rightarrow> string \<Rightarrow> int \<Rightarrow> environment_row" where
  "new_environment_row n serviceId now = \<lparr>ev_id = ne_id n, ev_service_id = serviceId,
     ev_project_environment_id = None, ev_type = ne_type n, ev_branch = ne_branch n,
     ev_status = (case ne_status n of Some s \<Rightarrow> s | None \<Rightarrow> EIdle), ev_assigned_port = ne_assignedPort n,
     ev_container_id = ne_containerId n, ev_image_tag = ne_imageTag n,
     ev_previous_image_tag = ne_previousImageTag n, ev_public_url = ne_publicUrl n,
     ev_container_port = None, ev_created_at = now, ev_updated_at = now\<rparr>"

definition createEnvironment :: "store \<Rightarrow> new_environment \<Rightarrow> int \<Rightarrow> environment_row list
    \<Rightarrow> (repo_error + environment_row) \<times> environment_row list" where
  "createEnvironment db n now t =
     (case resolveExistingCanonicalServiceId db (ne_projectId n) of
        Inl e \<Rightarrow> (Inl e, t)
      | Inr serviceId \<Rightarrow>
          (case getEnvironmentByServiceAndType serviceId (ne_type n) t of
             Some existing \<Rightarrow> (Inr existing, t)
           | None \<Rightarrow>
               (let (created, t') = insertEnvironment (new_environment_row n serviceId now) t
                in case coalesce (coalesce created (getEnvironment (ne_id n) t'))
                          (getEnvironmentByServiceAndType serviceId (ne_type n) t') of
                     None \<Rightarrow> (Inl (RepoPersistenceError ''environment'' (ne_id n)), t')
                   | Some row \<Rightarrow> (Inr row, t'))))"

definition createProjectEnvironmentRuntime :: "string \<Rightarrow> string \<Rightarrow> string \<Rightarrow> environment_type \<Rightarrow> string option \<Rightarrow> int
    \<Rightarrow> environment_row list \<Rightarrow> (repo_error + environment_row) \<times> environment_row list" where
  "createProjectEnvironmentRuntime eid serviceId pe ty branch now t =
     (case getEnvironmentByServiceAndProjectEnvironment serviceId pe t of
        Some existing \<Rightarrow> (Inr existing, t)
      | None \<Rightarrow>
          (let (created, t') = insertEnvironment \<lparr>ev_id = eid, ev_service_id = serviceId,
                 ev_project_environment_id = Some pe, ev_type = ty, ev_branch = branch, ev_status = EIdle,
                 ev_assigned_port = None, ev_container_id = None, ev_image_tag = None,
                 ev_previous_image_tag = None, ev_public_url = None, ev_container_port = None,
                 ev_created_at = now, ev_updated_at = now\<rparr> t
           in case coalesce created (getEnvironmentByServiceAndProjectEnvironment serviceId pe t') of
                None \<Rightarrow> (Inl (RepoPersistenceError ''environment'' eid), t')
              | Some row \<Rightarrow> (Inr row, t')))"

section \<open>Lemmas\<close>

lemma env_clash_sym: "env_clash a b = env_clash b a"
  by (cases "ev_assigned_port a"; cases "ev_assigned_port b") (auto simp: env_clash_def)

lemma envs_ok_append:
  "envs_ok (t @ u) \<longleftrightarrow> envs_ok t \<and> envs_ok u \<and> (\<forall>a \<in> set t. \<forall>b \<in> set u. \<not> env_clash a b)"
  by (induction t) (auto simp: list_all_iff)

lemma envs_ok_filter: "envs_ok t \<Longrightarrow> envs_ok (filter P t)"
  by (induction t) (auto simp: list_all_iff)

lemma envs_ok_keys: "envs_ok t \<Longrightarrow> keys_ok ev_id t"
  unfolding keys_ok_def by (induction t) (auto simp: list_all_iff env_clash_def)

lemma insertEnvironment_ok: "envs_ok t \<Longrightarrow> envs_ok (snd (insertEnvironment e t))"
  using env_clash_sym by (auto simp: insertEnvironment_def envs_ok_append list_ex_iff)

lemma env_set_values_keys [simp]:
  "ev_id (env_set_values u now e) = ev_id e"
  "ev_service_id (env_set_values u now e) = ev_service_id e"
  "ev_project_environment_id (env_set_values u now e) = ev_project_environment_id e"
  "ev_type (env_set_values u now e) = ev_type e"
  "ev_created_at (env_set_values u now e) = ev_created_at e"
  "ev_assigned_port (env_set_values u now e) = set_if (eu_assignedPort u) (ev_assigned_port e)"
  by (simp_all add: env_set_values_def)

text \<open>What an update does to a table it is allowed on, row by row.\<close>

lemma updateEnvironment_row_of:
  assumes "updateEnvironment eid u now t = Inr t'"
  shows "row_of ev_id k t' =
    (if k = eid \<and> u \<noteq> no_env_updates then map_option (env_set_values u now) (row_of ev_id k t) else row_of ev_id k t)"
  using assms
  by (cases "row_of ev_id k t") (auto simp: updateEnvironment_def row_of_sql_update split: if_splits dest: row_of_key)

lemma clash_update:
  assumes "\<not> env_clash a b" and "\<not> env_port_taken eid u t" and "a \<in> set t" and "b \<in> set t"
  shows "\<not> env_clash (if ev_id a = eid then env_set_values u now a else a)
           (if ev_id b = eid then env_set_values u now b else b)"
  using assms
  by (auto simp: env_clash_def env_port_taken_def set_if_def list_ex_iff split: option.splits)

lemma envs_ok_map:
  assumes "envs_ok t" and "\<And>a b. a \<in> set t \<Longrightarrow> b \<in> set t \<Longrightarrow> \<not> env_clash a b \<Longrightarrow> \<not> env_clash (f a) (f b)"
  shows "envs_ok (map f t)"
  using assms by (induction t) (auto simp: list_all_iff)

lemma updateEnvironment_ok:
  assumes "updateEnvironment eid u now t = Inr t'" and "envs_ok t"
  shows "envs_ok t'"
proof (cases "u = no_env_updates")
  case False
  with assms have "\<not> env_port_taken eid u t" "t' = map (\<lambda>e. if ev_id e = eid then env_set_values u now e else e) t"
    by (auto simp: updateEnvironment_def sql_update_def split: if_splits)
  with assms(2) show ?thesis using clash_update [of _ _ eid u t now] by (auto intro!: envs_ok_map)
qed (use assms in \<open>auto simp: updateEnvironment_def\<close>)

text \<open>A status alone never clashes.\<close>

definition updateEnvironment_status :: "string \<Rightarrow> env_status \<Rightarrow> int \<Rightarrow> environment_row list \<Rightarrow> environment_row list" where
  "updateEnvironment_status eid st now t =
     sql_update (\<lambda>e. ev_id e = eid) (\<lambda>e. e\<lparr>ev_status := st, ev_updated_at := now\<rparr>) t"

lemma updateEnvironment_status_eq:
  "updateEnvironment eid (no_env_updates\<lparr>eu_status := Some st\<rparr>) now t = Inr (updateEnvironment_status eid st now t)"
  by (simp add: updateEnvironment_def updateEnvironment_status_def env_port_taken_def no_env_updates_def
      env_set_values_def set_if_def sql_update_def)

text \<open>The groups of \<open>getEnvironmentsByProjectIds\<close>: each project gets its rows, in the order of the query.\<close>

lemma group_rows:
  "js_get (fold (\<lambda>row m. case js_get idm (ev_service_id row) of
                        None \<Rightarrow> m
                      | Some projectId \<Rightarrow>
                          if projectId = [] then m
                          else case js_get m projectId of None \<Rightarrow> m | Some rs \<Rightarrow> js_set projectId (rs @ [row]) m) rows m) k =
   map_option (\<lambda>rs. rs @ filter (\<lambda>e. k \<noteq> [] \<and> js_get idm (ev_service_id e) = Some k) rows) (js_get m k)"
proof (induction rows arbitrary: m)
  case Nil
  then show ?case by (simp add: option.map_ident)
next
  case (Cons row rows)
  then show ?case by (auto simp: js_get_set option.map_comp comp_def split: option.splits)
qed

lemma service_ids_map:
  "js_get (fold (\<lambda>p m. js_set (projectIdToDeployableServiceId p) p m) ps m) sid =
     (case find (\<lambda>p. projectIdToDeployableServiceId p = sid) (rev ps) of Some p \<Rightarrow> Some p | None \<Rightarrow> js_get m sid)"
  by (induction ps rule: rev_induct) (auto simp: js_get_set split: option.splits)

lemma getEnvironmentsByProjectIds_mem:
  assumes "e \<in> set t" and "p \<in> set pids" and "ev_service_id e = projectIdToDeployableServiceId p"
    and "[] \<notin> set pids"
  shows "e \<in> set (concat (map snd (getEnvironmentsByProjectIds pids t)))"
proof -
  let ?u = "rev (remdups (rev pids))"
  let ?idm = "fold (\<lambda>p m. js_set (projectIdToDeployableServiceId p) p m) ?u []"
  obtain q where q: "find (\<lambda>p. projectIdToDeployableServiceId p = ev_service_id e) (rev ?u) = Some q"
    using assms(2,3) by (cases "find (\<lambda>p. projectIdToDeployableServiceId p = ev_service_id e) (rev ?u)") (auto simp: find_None_iff)
  then have qs: "q \<in> set pids" "q \<noteq> []" using assms(4) by (auto simp: find_Some_iff dest: nth_mem)
  have idm: "js_get ?idm (ev_service_id e) = Some q" using q by (simp add: service_ids_map)
  have "map_of (map (\<lambda>p. (p, [])) ?u) q = Some []" using qs by (simp add: map_of_map_restrict)
  with idm qs assms(1) have "\<exists>rs. js_get (getEnvironmentsByProjectIds pids t) q = Some rs \<and> e \<in> set rs"
    by (auto simp: getEnvironmentsByProjectIds_def Let_def group_rows)
  then show ?thesis by (auto dest!: map_of_SomeD intro: rev_bexI)
qed

text \<open>Creating an environment under a fresh id answers a row of that service and type, once and for all.\<close>

lemma createEnvironment_result:
  assumes "createEnvironment db n now t = (Inr row, t')" and "getEnvironment (ne_id n) t = None"
  shows "row \<in> set t' \<and> ev_service_id row = projectIdToDeployableServiceId (ne_projectId n) \<and> ev_type row = ne_type n \<and>
    getEnvironmentByServiceAndType (projectIdToDeployableServiceId (ne_projectId n)) (ne_type n) t' = Some row"
proof -
  let ?sid = "projectIdToDeployableServiceId (ne_projectId n)"
  let ?e = "new_environment_row n ?sid now"
  obtain s where s: "row_of s_id ?sid (services db) = Some s"
    using assms(1) by (auto simp: createEnvironment_def resolveExistingCanonicalServiceId_def Let_def split: option.splits)
  then have r: "resolveExistingCanonicalServiceId db (ne_projectId n) = Inr ?sid"
    by (auto simp: resolveExistingCanonicalServiceId_def Let_def dest: row_of_key)
  show ?thesis
  proof (cases "getEnvironmentByServiceAndType ?sid (ne_type n) t")
    case (Some e)
    then have "row = e" "t' = t" using assms(1) by (simp_all add: createEnvironment_def r)
    with Some show ?thesis by (auto simp: getEnvironmentByServiceAndType_def find_Some_iff)
  next
    case None
    then have ins: "\<not> list_ex (env_clash ?e) t \<and> row = ?e \<and> t' = t @ [?e]"
      using assms by (auto simp: createEnvironment_def r insertEnvironment_def coalesce_def Let_def split: if_splits)
    have "find (\<lambda>e. ev_service_id e = ?sid \<and> ev_type e = ne_type n) t = None"
      using None by (simp add: getEnvironmentByServiceAndType_def)
    then have "find (\<lambda>e. ev_service_id e = ?sid \<and> ev_type e = ne_type n) (t @ [?e]) = Some ?e"
      by (induction t) (auto simp: new_environment_row_def split: if_splits)
    with ins show ?thesis by (auto simp: getEnvironmentByServiceAndType_def new_environment_row_def)
  qed
qed

lemma createEnvironment_existing:
  assumes "createEnvironment db n now t = (Inr row, t')"
    and "getEnvironmentByServiceAndType (projectIdToDeployableServiceId (ne_projectId n)) (ne_type n) t' = Some row"
    and "ne_projectId m = ne_projectId n" and "ne_type m = ne_type n"
  shows "createEnvironment db m now2 t' = (Inr row, t')"
proof -
  obtain s where s: "row_of s_id (projectIdToDeployableServiceId (ne_projectId n)) (services db) = Some s"
    using assms(1) by (auto simp: createEnvironment_def resolveExistingCanonicalServiceId_def Let_def split: option.splits)
  then have "s_id s = projectIdToDeployableServiceId (ne_projectId n)" by (auto dest: row_of_key)
  with s assms(2-4) show ?thesis
    by (simp add: createEnvironment_def resolveExistingCanonicalServiceId_def Let_def)
qed

lemma createEnvironment_ok: "envs_ok t \<Longrightarrow> envs_ok (snd (createEnvironment db n now t))"
  using insertEnvironment_ok [of t "new_environment_row n (projectIdToDeployableServiceId (ne_projectId n)) now"]
  by (auto simp: createEnvironment_def resolveExistingCanonicalServiceId_def Let_def insertEnvironment_def coalesce_def
      split: option.splits dest!: row_of_key)

lemma createProjectEnvironmentRuntime_ok: "envs_ok t \<Longrightarrow> envs_ok (snd (createProjectEnvironmentRuntime eid sid pe ty b now t))"
  by (auto simp: createProjectEnvironmentRuntime_def Let_def envs_ok_append list_ex_iff env_clash_sym insertEnvironment_def
      split: option.splits prod.splits if_splits)

section \<open>Properties\<close>

text \<open>
  The unique constraints of the environments table (the id, the port, one legacy environment per
  service and type, one per service and project environment) hold in every table the
  repository writes; and creating an environment is idempotent: under a fresh id it answers a
  row of that service and type that is stored, and every later call for them answers this row
  and changes nothing.
\<close>

theorem environment_constraints:
  assumes "envs_ok t"
  shows "envs_ok (snd (createEnvironment db n now t)) \<and>
    envs_ok (snd (createProjectEnvironmentRuntime eid sid pe ty b now t)) \<and>
    envs_ok (deleteEnvironment eid t) \<and>
    (updateEnvironment eid u now t = Inr t' \<longrightarrow> envs_ok t') \<and>
    (createEnvironment db n now t = (Inr row, t'') \<and> getEnvironment (ne_id n) t = None \<longrightarrow>
       row \<in> set t'' \<and> ev_service_id row = projectIdToDeployableServiceId (ne_projectId n) \<and> ev_type row = ne_type n \<and>
       createEnvironment db (n\<lparr>ne_id := other, ne_branch := br\<rparr>) later t'' = (Inr row, t''))"
proof (intro conjI impI)
  assume c: "createEnvironment db n now t = (Inr row, t'') \<and> getEnvironment (ne_id n) t = None"
  note res = createEnvironment_result [OF conjunct1 [OF c] conjunct2 [OF c]]
  show "row \<in> set t''" "ev_service_id row = projectIdToDeployableServiceId (ne_projectId n)" "ev_type row = ne_type n"
    using res by simp_all
  show "createEnvironment db (n\<lparr>ne_id := other, ne_branch := br\<rparr>) later t'' = (Inr row, t'')"
    by (rule createEnvironment_existing [OF conjunct1 [OF c]]) (use res in simp_all)
qed (use assms in \<open>auto simp: createEnvironment_ok createProjectEnvironmentRuntime_ok deleteEnvironment_def envs_ok_filter
       intro: updateEnvironment_ok\<close>)

definition web_env :: new_environment where
  "web_env = \<lparr>ne_id = ''e1'', ne_projectId = ''p'', ne_type = Production_env, ne_branch = None, ne_status = None,
     ne_assignedPort = Some 3000, ne_containerId = None, ne_imageTag = None, ne_previousImageTag = None, ne_publicUrl = None\<rparr>"

theorem environment_constraints_witness:
  "\<exists>row t'. createEnvironment \<lparr>projects = [], services = [new_service_row ''p__svc'' ''p'' KGit None]\<rparr> web_env 5 [] = (Inr row, t') \<and>
     ev_status row = EIdle \<and> envs_ok t' \<and>
     createEnvironment \<lparr>projects = [], services = [new_service_row ''p__svc'' ''p'' KGit None]\<rparr>
       (web_env\<lparr>ne_id := ''e2'', ne_branch := None\<rparr>) 9 t' = (Inr row, t')"
proof -
  let ?db = "\<lparr>projects = [], services = [new_service_row ''p__svc'' ''p'' KGit None]\<rparr>"
  let ?row = "new_environment_row web_env ''p__svc'' 5"
  have c: "createEnvironment ?db web_env 5 [] = (Inr ?row, [?row])" by code_simp
  have g: "getEnvironment (ne_id web_env) [] = None" by (simp add: getEnvironment_def)
  have "ev_status ?row = EIdle" by code_simp
  moreover have "envs_ok []" by simp
  ultimately show ?thesis
    using environment_constraints [of "[]" ?db web_env 5 _ _ _ _ _ _ _ ?row "[?row]" None "''e2''" 9] c g by auto
qed

end
