(* ===== verification/Project_State.thy ===== *)
theory Project_State
  imports Environment_Repo
begin

text \<open>
  The project state machine and the mutation policy.

  \<^item> \<open>ProjectStateManager\<close> (\<open>src/src/monitor/project-state-manager.ts\<close>): \<open>transition\<close> validates a
    status change against the transition table, persists it and emits an event; the reconcilers
    bring the stored status in line with the containers that Docker reports.
  \<^item> \<open>src/src/pipeline/mutation-policy.ts\<close>: when a project may be mutated, started, stopped, archived or purged.

  The list of containers is an argument (Docker is not part of the repository); the
  environments table is a list of rows beside the store. \<open>now\<close> is the time of the write, used for
  \<open>recovering_started_at\<close> too.
\<close>

section \<open>The mutation policy\<close>

datatype policy_error = ProjectArchivedError string | ProjectRecoveringError string | CircuitBreakerOpenError string

datatype lifecycle_action = AStart | AStop | AArchive | APurge

text \<open>The context: the circuit-breaker lookup and the canonical service row.\<close>

record policy_ctx =
  isCircuitBreakerOpen :: "string \<Rightarrow> bool"
  ctx_service :: "service_row option"

definition assertProjectMutable :: "project_row \<Rightarrow> policy_ctx \<Rightarrow> policy_error + unit" where
  "assertProjectMutable project ctx =
     (if truthy (p_archived_at project) then Inl (ProjectArchivedError (p_id project))
      else if v_status (serviceViewFromRows project (ctx_service ctx)) = Status Recovering
      then Inl (ProjectRecoveringError (p_id project))
      else if isCircuitBreakerOpen ctx (p_id project) then Inl (CircuitBreakerOpenError (p_id project))
      else Inr ())"

definition assertProjectLifecycleMutable :: "project_row \<Rightarrow> lifecycle_action \<Rightarrow> policy_ctx \<Rightarrow> policy_error + unit" where
  "assertProjectLifecycleMutable project action ctx =
     (if truthy (p_archived_at project) \<and> action \<noteq> APurge then Inl (ProjectArchivedError (p_id project))
      else if v_status (serviceViewFromRows project (ctx_service ctx)) = Status Recovering \<and> action \<noteq> AStop
      then Inl (ProjectRecoveringError (p_id project))
      else if action \<noteq> AStop \<and> isCircuitBreakerOpen ctx (p_id project)
      then Inl (CircuitBreakerOpenError (p_id project))
      else Inr ())"

section \<open>Transitions\<close>

fun VALID_TRANSITIONS :: "project_status \<Rightarrow> project_status list" where
  "VALID_TRANSITIONS Stopped = [Building]"
| "VALID_TRANSITIONS Building = [Running, Failed]"
| "VALID_TRANSITIONS Running = [Recovering, Stopped, Building]"
| "VALID_TRANSITIONS Recovering = [Running, Failed]"
| "VALID_TRANSITIONS Failed = [Building, Stopped, Recovering, Running]"

definition RECONCILIATION_TRANSITIONS :: "project_status list" where
  "RECONCILIATION_TRANSITIONS = [Running, Stopped]"

record status_changed =
  sc_projectId :: string
  sc_from :: project_status
  sc_to :: project_status
  sc_reason :: string

definition transition_allowed :: "project_status \<Rightarrow> project_status \<Rightarrow> bool \<Rightarrow> bool" where
  "transition_allowed current target skipEvents \<longleftrightarrow>
     target \<in> set (VALID_TRANSITIONS current) \<or> (skipEvents \<and> target \<in> set RECONCILIATION_TRANSITIONS)"

definition status_update :: "project_status \<Rightarrow> int \<Rightarrow> project_updates" where
  "status_update target now =
     no_updates\<lparr>u_status := Some target,
       u_recoveringStartedAt := Some (if target = Recovering then Some now else None)\<rparr>"

text \<open>The result, the events emitted and the store.\<close>

definition transition :: "string \<Rightarrow> project_status \<Rightarrow> string \<Rightarrow> bool \<Rightarrow> int \<Rightarrow> store
    \<Rightarrow> bool \<times> status_changed list \<times> store" where
  "transition projectId target reason skipEvents now db =
     (case Option.bind (getProject db projectId) p_status of
        None \<Rightarrow> (False, [], db)
      | Some current \<Rightarrow>
          if current = target then (True, [], db)
          else if \<not> transition_allowed current target skipEvents then (False, [], db)
          else (True,
                if skipEvents then []
                else [\<lparr>sc_projectId = projectId, sc_from = current, sc_to = target, sc_reason = reason\<rparr>],
                updateProject projectId (status_update target now) now db))"

definition psm_getState :: "store \<Rightarrow> string \<Rightarrow> project_status option" where
  "psm_getState db projectId = Option.bind (getProject db projectId) p_status"

section \<open>Reconciliation with Docker\<close>

record container_info =
  ct_id :: string
  ct_name :: string
  ct_status :: string
  ct_labels :: "(string, string) js_map"

definition PROJECT_LABEL :: string where "PROJECT_LABEL = ''openlander.project''"

definition index_container :: "container_info \<Rightarrow> (string, container_info) js_map \<Rightarrow> (string, container_info) js_map" where
  "index_container c idx =
     (let idx1 = js_set (''id:'' @ ct_id c) c idx;
          label = js_get (ct_labels c) PROJECT_LABEL;
          idx2 = (if truthy label then js_set (''project:'' @ the label) c idx1 else idx1)
      in js_set (''name:'' @ ct_name c) c idx2)"

definition buildContainerIndex :: "container_info list \<Rightarrow> (string, container_info) js_map" where
  "buildContainerIndex cs = fold index_container cs []"

definition findProjectContainer :: "string \<Rightarrow> string \<Rightarrow> string option \<Rightarrow> (string, container_info) js_map
    \<Rightarrow> container_info option" where
  "findProjectContainer projectId projectName containerRef idx =
     (let byRef = (if truthy containerRef
                   then coalesce (js_get idx (''id:'' @ the containerRef)) (js_get idx (''name:'' @ the containerRef))
                   else None)
      in case byRef of
           Some c \<Rightarrow> Some c
         | None \<Rightarrow> coalesce (js_get idx (''project:'' @ projectName)) (js_get idx (''project:'' @ projectId)))"

definition projectContainerRef :: "service_row option \<Rightarrow> service_view \<Rightarrow> string option" where
  "projectContainerRef deployable view =
     (if deployable \<noteq> None \<and> \<not> truthy (s_container_id (the deployable))
      then coalesce (v_containerName view) (v_containerId view)
      else coalesce (v_containerId view) (v_containerName view))"

definition reconcileProject :: "string \<Rightarrow> (string, container_info) js_map \<Rightarrow> int \<Rightarrow> store \<Rightarrow> bool \<times> store" where
  "reconcileProject projectId idx now db =
     (case getProject db projectId of
        None \<Rightarrow> (False, db)
      | Some project \<Rightarrow>
          if p_archived_at project \<noteq> None then (False, db)
          else let rec = loadServiceViewRecord db project;
                   view = vr_view rec;
                   container = findProjectContainer (p_id project) (p_name project)
                     (projectContainerRef (vr_service rec) view) idx;
                   dockerRunning = (\<exists>c \<in> set_option container. ct_status c = ''running'')
               in if dockerRunning \<and> v_status view \<noteq> Status Running
                  then (case transition (p_id project) Running ''docker reconciliation: container is running'' True now db of
                          (ok, _, db') \<Rightarrow> (ok, db'))
                  else if container = None \<and> (v_status view = Status Running \<or> v_status view = Status Building)
                  then (case transition (p_id project) Stopped ''docker reconciliation: container missing'' True now db of
                          (ok, _, db') \<Rightarrow> (ok, db'))
                  else (False, db))"

definition reconcileOne :: "string \<Rightarrow> container_info list \<Rightarrow> int \<Rightarrow> store \<Rightarrow> bool \<times> store" where
  "reconcileOne projectId containers now db = reconcileProject projectId (buildContainerIndex containers) now db"

text \<open>The projects that are reconciled, the most recently updated first.\<close>

definition listRuntimeProjectsForReconciliation :: "store \<Rightarrow> project_row list" where
  "listRuntimeProjectsForReconciliation db =
     map (hydrateDeployable db)
       (sort_key (\<lambda>r. - p_updated_at r)
         (filter (\<lambda>r. p_id r \<noteq> ORPHAN_MANAGED_GROUP_ID \<and> p_archived_at r = None \<and>
            list_ex (\<lambda>s. s_id s = p_id r @ ''__svc'' \<and> s_kind s \<in> set [KGit, KImage, KCompose, KComposeChild] \<and>
               s_archived_at s = None) (services db)) (projects db)))"

definition reconcile_env :: "string list \<Rightarrow> int \<Rightarrow> environment_row \<Rightarrow> nat \<times> environment_row list \<Rightarrow> nat \<times> environment_row list" where
  "reconcile_env runningIds now e acc =
     (case acc of (n, t) \<Rightarrow>
        if ev_status e \<noteq> EBuilding then (n, t)
        else let isContainerRunning = (\<exists>c \<in> set_option (ev_container_id e). c \<in> set runningIds)
             in (n + 1, updateEnvironment_status (ev_id e) (if isContainerRunning then ERunning else EStopped) now t))"

definition reconcileStaleEnvironments :: "environment_row list \<Rightarrow> string list \<Rightarrow> int \<Rightarrow> environment_row list
    \<Rightarrow> nat \<times> environment_row list" where
  "reconcileStaleEnvironments envs runningIds now t = fold (reconcile_env runningIds now) envs (0, t)"

fun reconcile_projects :: "string list \<Rightarrow> (string, container_info) js_map \<Rightarrow> int \<Rightarrow> store \<Rightarrow> nat \<times> nat \<times> store" where
  "reconcile_projects [] idx now db = (0, 0, db)"
| "reconcile_projects (pid # pids) idx now db =
     (case reconcileProject pid idx now db of
        (ok, db1) \<Rightarrow>
          (case reconcile_projects pids idx now db1 of
             (r, s, db2) \<Rightarrow> if ok then (r + 1, s, db2) else (r, s + 1, db2)))"

definition reconcileAll :: "container_info list \<Rightarrow> int \<Rightarrow> store \<Rightarrow> environment_row list
    \<Rightarrow> (nat \<times> nat) \<times> store \<times> environment_row list" where
  "reconcileAll containers now db envs =
     (let pids = map p_id (listRuntimeProjectsForReconciliation db);
          (reconciled, skipped, db') = reconcile_projects pids (buildContainerIndex containers) now db;
          runningIds = map ct_id (filter (\<lambda>c. ct_status c = ''running'') containers);
          (n, envs') = reconcileStaleEnvironments (concat (map snd (getEnvironmentsByProjectIds pids envs))) runningIds now envs
      in ((reconciled + n, skipped), db', envs'))"

section \<open>Lemmas\<close>

abbreviation plain_id :: "string \<Rightarrow> bool" where
  "plain_id pid \<equiv> \<not> ends_with DEPLOYABLE_SERVICE_SUFFIX pid"

text \<open>A project with a status has a service row or a status column of its own; stored rows have none.\<close>

definition psm_ok :: "store \<Rightarrow> bool" where
  "psm_ok db \<longleftrightarrow> (\<forall>r \<in> set (projects db). base_project_row r)"

lemma status_has_service:
  assumes "psm_ok db" and "getProject db pid = Some p" and "p_status p = Some st"
  shows "\<exists>svc. row_of s_id (projectIdToDeployableServiceId pid) (services db) = Some svc \<and> s_status svc = Some st"
proof -
  obtain r where r: "row_of p_id pid (projects db) = Some r" "p = hydrateDeployable db r"
    using assms(2) by (auto simp: getProject_def)
  have "base_project_row r" "p_id r = pid" using r(1) assms(1) by (auto simp: psm_ok_def dest: row_of_key)
  with r(2) assms(3) show ?thesis by (auto simp: hydrateDeployable_def base_project_row_def split: option.splits)
qed

lemma status_update_shape:
  "status_update st now = no_updates\<lparr>u_status := Some st, u_recoveringStartedAt := Some (if st = Recovering then Some now else None)\<rparr>"
  by (simp add: status_update_def)

lemma status_update_projects: "projects (updateProject pid (status_update st now) t db) = projects db"
  by (simp add: updateProject_projects has_project_updates_def status_update_def no_updates_def)

lemma psm_ok_status_update [simp]: "psm_ok (updateProject pid (status_update st now) t db) = psm_ok db"
  by (simp add: psm_ok_def status_update_projects)

lemma transition_cases:
  "transition pid target reason skip now db =
     (case psm_getState db pid of
        None \<Rightarrow> (False, [], db)
      | Some current \<Rightarrow>
          if current = target then (True, [], db)
          else if \<not> transition_allowed current target skip then (False, [], db)
          else (True, if skip then [] else [\<lparr>sc_projectId = pid, sc_from = current, sc_to = target, sc_reason = reason\<rparr>],
                updateProject pid (status_update target now) now db))"
  by (simp add: transition_def psm_getState_def)

lemma transition_psm_ok: "transition pid target reason skip now db = (ok, evs, db') \<Longrightarrow> psm_ok db' = psm_ok db"
  by (auto simp: transition_cases split: option.splits if_splits)

lemma transition_frame:
  assumes "transition pid target reason skip now db = (ok, evs, db')" and "q \<noteq> pid" and "plain_id pid" and "plain_id q"
  shows "getProject db' q = getProject db q \<and> getDeployableForProject db' q = getDeployableForProject db q"
proof -
  have "row_of s_id (q @ ''__svc'') (services (updateProject pid u now db)) = row_of s_id (q @ ''__svc'') (services db)" for u
    using assms(2) service_id_inj [OF assms(3,4)] service_id_plain [OF assms(4)]
    by (auto simp: updateProject_services row_of_sql_update dest: row_of_key intro!: option.map_ident_strong)
  then show ?thesis
    using assms updateProject_frame [OF assms(2-4)]
    by (auto simp: transition_cases getDeployableForProject_def getService_def split: option.splits if_splits)
qed

lemma transition_moves:
  assumes "psm_ok db" and "transition pid target reason skip now db = (True, evs, db')"
    and "psm_getState db pid \<noteq> Some target"
  shows "\<exists>p'. getProject db' pid = Some p' \<and> p_status p' = Some target \<and>
     p_recovering_started_at p' = (if target = Recovering then Some now else None)"
proof -
  obtain p cur where p: "getProject db pid = Some p" "p_status p = Some cur" "cur \<noteq> target"
    "db' = updateProject pid (status_update target now) now db"
    using assms(2,3) by (auto simp: transition_cases psm_getState_def split: option.splits bind_splits if_splits)
  obtain svc where "row_of s_id (projectIdToDeployableServiceId pid) (services db) = Some svc"
    using status_has_service [OF assms(1) p(1,2)] by blast
  from updateProject_status [OF p(1) this status_update_shape] show ?thesis unfolding p(4) by blast
qed

text \<open>The container that the reconciler finds for a project, and agreement of the status with it.\<close>

definition container_of :: "(string, container_info) js_map \<Rightarrow> store \<Rightarrow> project_row \<Rightarrow> container_info option" where
  "container_of idx db p =
     (let rec = loadServiceViewRecord db p
      in findProjectContainer (p_id p) (p_name p) (projectContainerRef (vr_service rec) (vr_view rec)) idx)"

definition in_sync :: "(string, container_info) js_map \<Rightarrow> store \<Rightarrow> string \<Rightarrow> bool" where
  "in_sync idx db pid \<longleftrightarrow>
     (\<forall>p st. getProject db pid = Some p \<longrightarrow> p_archived_at p = None \<longrightarrow> p_status p = Some st \<longrightarrow>
        (\<forall>c. container_of idx db p = Some c \<longrightarrow> ct_status c = ''running'' \<longrightarrow> st = Running) \<and>
        (container_of idx db p = None \<longrightarrow> st \<noteq> Running \<and> st \<noteq> Building))"

lemma in_sync_frame:
  assumes "getProject db' q = getProject db q" and "getDeployableForProject db' q = getDeployableForProject db q"
  shows "in_sync idx db' q = in_sync idx db q"
proof -
  have "container_of idx db' p = container_of idx db p" if "getProject db q = Some p" for p
    using assms(2) getProject_id [OF that] by (simp add: container_of_def loadServiceViewRecord_def)
  with assms(1) show ?thesis by (auto simp: in_sync_def)
qed

text \<open>A status write does not move the references to the container.\<close>

lemma container_refs:
  "v_containerId (serviceViewFromRows p s) = coalesce (Option.bind s s_container_id) (p_container_id p)"
  "v_containerName (serviceViewFromRows p s) = Option.bind s s_container_name"
  "p_container_id (mergeDeployable r t) = s_container_id t"
  "p_name (mergeDeployable r t) = p_name r"
  by (simp_all add: serviceViewFromRows_def Let_def mergeDeployable_def)

lemma container_of_status_update:
  assumes "getProject db pid = Some p" and "plain_id pid"
    and "getProject (updateProject pid (status_update st now) t db) pid = Some p'"
  shows "container_of idx (updateProject pid (status_update st now) t db) p' = container_of idx db p"
proof -
  let ?u = "status_update st now" and ?db = "updateProject pid (status_update st now) t db"
  obtain r where r: "row_of p_id pid (projects db) = Some r" "p = hydrateDeployable db r" "p' = hydrateDeployable ?db r"
    using assms(1,3) by (auto simp: getProject_def status_update_projects)
  have id: "p_id r = pid" using r(1) by (auto dest: row_of_key)
  have u: "has_service_updates ?u" by (simp add: has_service_updates_def status_update_def no_updates_def)
  have same: "s_container_id (svcSetValues ?u t s) = s_container_id s" "s_container_name (svcSetValues ?u t s) = s_container_name s" for s
    by (simp_all add: svcSetValues_def status_update_def no_updates_def set_if_def)
  have row: "row_of s_id (pid @ ''__svc'') (services ?db) = map_option (svcSetValues ?u t) (row_of s_id (pid @ ''__svc'') (services db))"
    using service_id_plain [OF assms(2)] u
    by (cases "row_of s_id (pid @ ''__svc'') (services db)")
       (auto simp: updateProject_services row_of_sql_update dest: row_of_key)
  show ?thesis
    using service_id_plain [OF assms(2)]
    by (cases "row_of s_id (pid @ ''__svc'') (services db)")
       (simp_all add: r container_of_def loadServiceViewRecord_def getDeployableForProject_def getService_def id row
         hydrateDeployable_def container_refs projectContainerRef_def Let_def same)
qed

lemma view_status_of:
  assumes "getProject db pid = Some p" and "plain_id pid"
  shows "v_status (vr_view (loadServiceViewRecord db p)) = (case p_status p of Some st \<Rightarrow> Status st | None \<Rightarrow> Idle)"
  using view_status_hydrated [OF assms] by (simp add: loadServiceView_def)

text \<open>What \<open>reconcileProject\<close> asks of the state machine.\<close>

lemma reconcileProject_cases:
  assumes "getProject db pid = Some p" and "plain_id pid" and "p_archived_at p = None"
  shows "reconcileProject pid idx now db =
     (if (\<exists>c. container_of idx db p = Some c \<and> ct_status c = ''running'') \<and> p_status p \<noteq> Some Running
      then (case transition pid Running ''docker reconciliation: container is running'' True now db of (ok, _, db') \<Rightarrow> (ok, db'))
      else if container_of idx db p = None \<and> p_status p \<in> {Some Running, Some Building}
      then (case transition pid Stopped ''docker reconciliation: container missing'' True now db of (ok, _, db') \<Rightarrow> (ok, db'))
      else (False, db))"
  using assms(3) view_status_of [OF assms(1,2)] getProject_id [OF assms(1)]
  by (cases "p_status p"; cases "container_of idx db p")
     (auto simp: reconcileProject_def assms(1) container_of_def Let_def)

lemma reconcileProject_transition:
  assumes "reconcileProject pid idx now db = (ok, db')" and "plain_id pid"
  shows "(\<not> ok \<and> db' = db) \<or> (\<exists>target reason evs. transition pid target reason True now db = (ok, evs, db'))"
proof (cases "getProject db pid")
  case None
  with assms(1) show ?thesis by (simp add: reconcileProject_def)
next
  case (Some p)
  show ?thesis
  proof (cases "p_archived_at p")
    case None
    with assms Some show ?thesis
      by (auto simp: reconcileProject_cases split: if_splits prod.splits)
  next
    case (Some a)
    with assms(1) \<open>getProject db pid = Some p\<close> show ?thesis by (simp add: reconcileProject_def)
  qed
qed

lemma transition_refused_same: "transition pid target reason skip now db = (False, evs, db') \<Longrightarrow> db' = db"
  by (auto simp: transition_cases split: option.splits if_splits)

lemma reconcileProject_in_sync:
  assumes "psm_ok db" and "plain_id pid" and "reconcileProject pid idx now db = (ok, db')"
  shows "in_sync idx db' pid"
proof (cases "\<exists>p st. getProject db pid = Some p \<and> p_archived_at p = None \<and> p_status p = Some st")
  case False
  then show ?thesis
    using assms reconcileProject_transition [OF assms(3,2)]
    by (auto simp: in_sync_def transition_cases psm_getState_def reconcileProject_def split: option.splits bind_splits if_splits)
next
  case True
  then obtain p st where p: "getProject db pid = Some p" "p_archived_at p = None" "p_status p = Some st" by blast
  obtain svc where svc: "row_of s_id (projectIdToDeployableServiceId pid) (services db) = Some svc"
    using status_has_service [OF assms(1) p(1,3)] by blast
  have moved: "in_sync idx (updateProject pid (status_update target now) now db) pid"
    if "\<And>c. container_of idx db p = Some c \<Longrightarrow> ct_status c = ''running'' \<Longrightarrow> target = Running"
      "container_of idx db p = None \<Longrightarrow> target = Stopped" for target
  proof -
    obtain p' where p': "getProject (updateProject pid (status_update target now) now db) pid = Some p'" "p_status p' = Some target"
      using updateProject_status [OF p(1) svc status_update_shape] by blast
    then show ?thesis
      using that container_of_status_update [OF p(1) assms(2) p'(1)] by (auto simp: in_sync_def)
  qed
  show ?thesis
    using assms(3) p moved [of Running] moved [of Stopped]
    unfolding reconcileProject_cases [OF p(1) assms(2) p(2)]
    by (cases st; cases "container_of idx db p")
       (auto simp: transition_cases psm_getState_def transition_allowed_def RECONCILIATION_TRANSITIONS_def in_sync_def split: if_splits)
qed

lemma reconcileProject_frame:
  assumes "reconcileProject pid idx now db = (ok, db')" and "plain_id pid" and "plain_id q" and "q \<noteq> pid"
  shows "in_sync idx db' q = in_sync idx db q"
  using reconcileProject_transition [OF assms(1,2)] transition_frame [OF _ assms(4,2,3)] in_sync_frame by metis

lemma reconcile_projects_in_sync:
  assumes "psm_ok db" and "\<forall>pid \<in> set pids. plain_id pid" and "reconcile_projects pids idx now db = (r, s, db')"
    and "q \<in> set pids \<or> (plain_id q \<and> in_sync idx db q)"
  shows "in_sync idx db' q"
  using assms
proof (induction pids arbitrary: db r s)
  case Nil
  then show ?case by simp
next
  case (Cons pid pids)
  obtain ok db1 where one: "reconcileProject pid idx now db = (ok, db1)" by fastforce
  obtain r1 s1 where rest: "reconcile_projects pids idx now db1 = (r1, s1, db')"
    using Cons.prems(3) one by (auto split: prod.splits if_splits)
  have ok1: "psm_ok db1"
    using reconcileProject_transition [OF one] Cons.prems(1,2) transition_psm_ok by fastforce
  have "q \<in> set pids \<or> (plain_id q \<and> in_sync idx db1 q)"
  proof (cases "q = pid")
    case True
    then show ?thesis using reconcileProject_in_sync [OF Cons.prems(1) _ one] Cons.prems(2) by auto
  next
    case False
    then show ?thesis using reconcileProject_frame [OF one _ _ False] Cons.prems(2,4) by auto
  qed
  then show ?case using Cons.IH [OF ok1 _ rest] Cons.prems(2) by auto
qed

lemma reconcile_env_keeps:
  assumes "fold (reconcile_env ids now) envs (n, t) = (n', t')"
  shows "map ev_id t' = map ev_id t \<and>
    (\<forall>e' \<in> set t'. ev_status e' = EBuilding \<longrightarrow> e' \<in> set t \<and> (\<forall>e \<in> set envs. ev_id e = ev_id e' \<longrightarrow> ev_status e \<noteq> EBuilding))"
  using assms
proof (induction envs arbitrary: n t)
  case Nil
  then show ?case by simp
next
  case (Cons e envs)
  show ?case
  proof (cases "ev_status e = EBuilding")
    case False
    then have "fold (reconcile_env ids now) envs (n, t) = (n', t')" using Cons.prems by (simp add: reconcile_env_def [of ids now e])
    from Cons.IH [OF this] False show ?thesis by auto
  next
    case True
    define st where "st = (if \<exists>c \<in> set_option (ev_container_id e). c \<in> set ids then ERunning else EStopped)"
    have ne: "st \<noteq> EBuilding" by (simp add: st_def)
    define u where "u = updateEnvironment_status (ev_id e) st now t"
    have step: "fold (reconcile_env ids now) envs (n + 1, u) = (n', t')"
      using Cons.prems True by (simp add: reconcile_env_def [of ids now e] st_def u_def Let_def)
    have ids: "map ev_id u = map ev_id t"
      by (simp add: u_def updateEnvironment_status_def sql_update_def)
    have u: "e' \<in> set t \<and> ev_id e \<noteq> ev_id e'" if h: "e' \<in> set u" "ev_status e' = EBuilding" for e'
    proof -
      obtain e0 where "e0 \<in> set t" "e' = (if ev_id e0 = ev_id e then e0\<lparr>ev_status := st, ev_updated_at := now\<rparr> else e0)"
        using h(1) unfolding u_def updateEnvironment_status_def sql_update_def set_map by (elim imageE)
      with h(2) ne show ?thesis by (cases "ev_id e0 = ev_id e") auto
    qed
    have IH: "e' \<in> set u \<and> (\<forall>e \<in> set envs. ev_id e = ev_id e' \<longrightarrow> ev_status e \<noteq> EBuilding)"
      if "e' \<in> set t'" "ev_status e' = EBuilding" for e'
      using Cons.IH [OF step] that by blast
    show ?thesis
    proof (intro conjI ballI impI)
      show "map ev_id t' = map ev_id t" using Cons.IH [OF step] ids by simp
    next
      fix e' assume "e' \<in> set t'" "ev_status e' = EBuilding"
      then show "e' \<in> set t" using IH u by blast
    next
      fix e' e1 assume "e' \<in> set t'" "ev_status e' = EBuilding" "e1 \<in> set (e # envs)" "ev_id e1 = ev_id e'"
      then show "ev_status e1 \<noteq> EBuilding" using IH [of e'] u [of e'] by auto
    qed
  qed
qed

section \<open>Properties\<close>

text \<open>
  C35. The transition function. \<open>transition\<close> answers true exactly when the project has a status and
  the target is that status, is listed for it in the transition table, or is running or stopped in reconciliation mode.
  It then leaves the project in the target status, with \<open>recovering_started_at\<close> set exactly for a
  move to recovering, and emits one event exactly for a real change outside reconciliation
  mode. A refusal changes nothing and emits nothing.
\<close>

theorem transition_spec:
  assumes "psm_ok db" and "transition pid target reason skip now db = (ok, evs, db')"
  shows "(ok \<longleftrightarrow> (\<exists>cur. psm_getState db pid = Some cur \<and>
        (cur = target \<or> target \<in> set (VALID_TRANSITIONS cur) \<or> (skip \<and> target \<in> {Running, Stopped})))) \<and>
     (ok \<longrightarrow> psm_getState db' pid = Some target) \<and>
     (ok \<and> psm_getState db pid \<noteq> Some target \<longrightarrow>
        (\<exists>p. getProject db' pid = Some p \<and> p_recovering_started_at p = (if target = Recovering then Some now else None))) \<and>
     (\<not> ok \<or> psm_getState db pid = Some target \<longrightarrow> db' = db \<and> evs = []) \<and>
     (ok \<and> psm_getState db pid \<noteq> Some target \<longrightarrow>
        evs = (if skip then [] else [\<lparr>sc_projectId = pid, sc_from = the (psm_getState db pid), sc_to = target, sc_reason = reason\<rparr>]))"
proof -
  have "psm_getState db' pid = Some target \<and>
      (\<exists>p. getProject db' pid = Some p \<and> p_recovering_started_at p = (if target = Recovering then Some now else None))"
    if "ok" "psm_getState db pid \<noteq> Some target"
    using transition_moves [OF assms(1), of pid target reason skip now evs db'] assms(2) that
    by (auto simp: psm_getState_def [of db'])
  with assms(2) show ?thesis
    by (auto simp: transition_cases transition_allowed_def RECONCILIATION_TRANSITIONS_def split: option.splits if_splits)
qed

definition one_project :: "project_status \<Rightarrow> store" where
  "one_project st = \<lparr>projects = [new_project_row ''p''],
     services = [new_service_row ''p__svc'' ''p'' KGit (Some st)]\<rparr>"

lemma one_project_facts:
  "psm_ok (one_project st)" "psm_getState (one_project st) ''p'' = Some st"
  by (simp_all add: one_project_def psm_ok_def base_project_row_def new_project_row_def new_service_row_def psm_getState_def
      getProject_def hydrateDeployable_def projectIdToDeployableServiceId_def ends_with_def starts_with_def DEPLOYABLE_SERVICE_SUFFIX_def)

theorem transition_spec_witness:
  "fst (transition ''p'' Recovering ''crash'' False 7 (one_project Running)) \<and>
   psm_getState (snd (snd (transition ''p'' Recovering ''crash'' False 7 (one_project Running)))) ''p'' = Some Recovering \<and>
   \<not> fst (transition ''p'' Recovering ''crash'' False 7 (one_project Stopped))"
proof -
  have split: "transition a b c d e f = (fst (transition a b c d e f), fst (snd (transition a b c d e f)), snd (snd (transition a b c d e f)))"
    for a b c d e f by simp
  show ?thesis
    using transition_spec [OF one_project_facts(1) split, of "''p''" Recovering "''crash''" False 7 Running]
      transition_spec [OF one_project_facts(1) split, of "''p''" Recovering "''crash''" False 7 Stopped]
    by (simp add: one_project_facts(2))
qed

inductive psm_step :: "store \<Rightarrow> store \<Rightarrow> bool" where
  transition: "plain_id pid \<Longrightarrow> transition pid target reason skip now db = (ok, evs, db') \<Longrightarrow> psm_step db db'"
| reconcile: "plain_id pid \<Longrightarrow> reconcileOne pid containers now db = (ok, db') \<Longrightarrow> psm_step db db'"

definition clock_ok :: "store \<Rightarrow> bool" where
  "clock_ok db \<longleftrightarrow> (\<forall>pid p. plain_id pid \<longrightarrow> getProject db pid = Some p \<longrightarrow>
     (p_recovering_started_at p \<noteq> None \<longleftrightarrow> p_status p = Some Recovering))"

lemma transition_clock_ok:
  assumes "psm_ok db" and "clock_ok db" and "plain_id pid" and "transition pid target reason skip now db = (ok, evs, db')"
  shows "clock_ok db'"
proof (cases "ok \<and> psm_getState db pid \<noteq> Some target")
  case True
  then obtain p' where p': "getProject db' pid = Some p'" "p_status p' = Some target"
     "p_recovering_started_at p' = (if target = Recovering then Some now else None)"
    using transition_moves [OF assms(1), of pid target reason skip now evs db'] assms(4) by auto
  show ?thesis unfolding clock_ok_def
  proof (intro allI impI)
    fix q p assume q: "plain_id q" "getProject db' q = Some p"
    show "(p_recovering_started_at p \<noteq> None) = (p_status p = Some Recovering)"
    proof (cases "q = pid")
      case True
      with p' q show ?thesis by auto
    next
      case False
      with transition_frame [OF assms(4) False assms(3) q(1)] q assms(2) show ?thesis by (simp add: clock_ok_def)
    qed
  qed
next
  case False
  then have "db' = db" using assms(4) by (auto simp: transition_cases split: option.splits if_splits)
  with assms(2) show ?thesis by simp
qed

lemma psm_step_preserves:
  assumes "psm_step db db'" and "psm_ok db" and "clock_ok db"
  shows "psm_ok db' \<and> clock_ok db'"
  using assms
proof (induction rule: psm_step.induct)
  case (transition pid target reason skip now db ok evs db')
  then show ?case using transition_clock_ok transition_psm_ok by blast
next
  case (reconcile pid containers now db ok db')
  then show ?case
    using reconcileProject_transition [of pid _ now db ok db'] transition_clock_ok transition_psm_ok
    unfolding reconcileOne_def by metis
qed

text \<open>
  C36. The recovery clock. In every state reached by transitions and reconciliations of projects
  from one where it holds, a project has a \<open>recovering_started_at\<close> exactly while its status is recovering.
\<close>

theorem recovery_clock_invariant:
  assumes "psm_step\<^sup>*\<^sup>* db db'" and "psm_ok db" and "clock_ok db"
  shows "clock_ok db'"
proof -
  have "psm_ok db' \<and> clock_ok db'"
    using assms by (induction rule: rtranclp_induct) (auto dest: psm_step_preserves)
  then show ?thesis ..
qed

theorem recovery_clock_invariant_witness:
  "\<exists>db. psm_step\<^sup>*\<^sup>* (one_project Running) db \<and> psm_getState db ''p'' = Some Recovering \<and> clock_ok db"
proof -
  obtain ok evs db where t: "transition ''p'' Recovering ''crash'' False 7 (one_project Running) = (ok, evs, db)"
    by (cases "transition ''p'' Recovering ''crash'' False 7 (one_project Running)") auto
  have pl: "plain_id ''p''" by (simp add: ends_with_def starts_with_def DEPLOYABLE_SERVICE_SUFFIX_def)
  have "ok" using t by (auto simp: transition_cases one_project_facts transition_allowed_def)
  then have st: "psm_getState db ''p'' = Some Recovering"
    using transition_moves [OF one_project_facts(1), of "''p''" Recovering "''crash''" False 7 Running evs db] t
    by (auto simp: one_project_facts psm_getState_def [of db])
  have steps: "psm_step\<^sup>*\<^sup>* (one_project Running) db"
    using psm_step.transition [OF pl t] by blast
  have "clock_ok (one_project Running)"
    unfolding clock_ok_def
    by (auto simp: one_project_def getProject_def hydrateDeployable_def new_project_row_def new_service_row_def
        projectIdToDeployableServiceId_def ends_with_def starts_with_def DEPLOYABLE_SERVICE_SUFFIX_def mergeDeployable_def split: if_splits)
  from recovery_clock_invariant [OF steps one_project_facts(1) this] steps st show ?thesis by blast
qed

text \<open>
  Reconciliation reaches agreement with Docker. After \<open>reconcileAll\<close>, every project it lists that
  has a status is running if its container is, and neither running nor building if it has no
  container; no environment it looked at that was building is left building.
\<close>

theorem reconcileAll_in_sync:
  assumes "psm_ok db" and "\<forall>r \<in> set (projects db). plain_id (p_id r)" and "keys_ok ev_id envs"
    and "reconcileAll containers now db envs = (counts, db', envs')"
    and "p \<in> set (listRuntimeProjectsForReconciliation db)" and "\<forall>r \<in> set (projects db). p_id r \<noteq> []"
  shows "in_sync (buildContainerIndex containers) db' (p_id p) \<and>
     (\<forall>e \<in> set envs'. ev_service_id e = projectIdToDeployableServiceId (p_id p) \<longrightarrow> ev_status e \<noteq> EBuilding)"
proof -
  let ?pids = "map p_id (listRuntimeProjectsForReconciliation db)" and ?idx = "buildContainerIndex containers"
  let ?ids = "map ct_id (filter (\<lambda>c. ct_status c = ''running'') containers)"
  obtain r s where rp: "reconcile_projects ?pids ?idx now db = (r, s, db')"
    and "\<exists>n. reconcileStaleEnvironments (concat (map snd (getEnvironmentsByProjectIds ?pids envs))) ?ids now envs = (n, envs')"
    using assms(4) by (auto simp: reconcileAll_def Let_def split: prod.splits)
  then obtain n where env: "fold (reconcile_env ?ids now) (concat (map snd (getEnvironmentsByProjectIds ?pids envs))) (0, envs) = (n, envs')"
    by (auto simp: reconcileStaleEnvironments_def)
  have "\<forall>pid \<in> set ?pids. plain_id pid"
    using assms(2) by (auto simp: listRuntimeProjectsForReconciliation_def)
  from reconcile_projects_in_sync [OF assms(1) this rp] assms(5)
  have "in_sync ?idx db' (p_id p)" by auto
  moreover have "ev_status e \<noteq> EBuilding"
    if e: "e \<in> set envs'" "ev_service_id e = projectIdToDeployableServiceId (p_id p)" for e
  proof
    assume b: "ev_status e = EBuilding"
    with reconcile_env_keeps [OF env] e have "e \<in> set envs"
      "\<forall>e1 \<in> set (concat (map snd (getEnvironmentsByProjectIds ?pids envs))). ev_id e1 = ev_id e \<longrightarrow> ev_status e1 \<noteq> EBuilding" by blast+
    moreover have "e \<in> set (concat (map snd (getEnvironmentsByProjectIds ?pids envs)))"
      using e(2) assms(5,6) \<open>e \<in> set envs\<close>
      by (intro getEnvironmentsByProjectIds_mem [of _ _ "p_id p"]) (auto simp: listRuntimeProjectsForReconciliation_def)
    ultimately show False using b by blast
  qed
  ultimately show ?thesis by blast
qed

definition crashed_env :: environment_row where
  "crashed_env = \<lparr>ev_id = ''e'', ev_service_id = ''p__svc'', ev_project_environment_id = None, ev_type = Production_env,
     ev_branch = None, ev_status = EBuilding, ev_assigned_port = None, ev_container_id = None, ev_image_tag = None,
     ev_previous_image_tag = None, ev_public_url = None, ev_container_port = None, ev_created_at = 0, ev_updated_at = 0\<rparr>"

lemma one_project_listed: "\<exists>p \<in> set (listRuntimeProjectsForReconciliation (one_project st)). p_id p = ''p''"
  by (simp add: listRuntimeProjectsForReconciliation_def one_project_def new_project_row_def new_service_row_def ORPHAN_MANAGED_GROUP_ID_def)

theorem reconcileAll_in_sync_witness:
  "\<exists>counts db' envs'. reconcileAll [] 3 (one_project Running) [crashed_env] = (counts, db', envs') \<and>
     in_sync (buildContainerIndex []) db' ''p'' \<and> list_all (\<lambda>e. ev_status e \<noteq> EBuilding) envs'"
proof -
  obtain counts db' envs' where r: "reconcileAll [] 3 (one_project Running) [crashed_env] = (counts, db', envs')"
    by (cases "reconcileAll [] 3 (one_project Running) [crashed_env]") auto
  obtain p where p: "p \<in> set (listRuntimeProjectsForReconciliation (one_project Running))" "p_id p = ''p''"
    using one_project_listed by blast
  have plain: "\<forall>r \<in> set (projects (one_project Running)). plain_id (p_id r)"
    by (simp add: one_project_def new_project_row_def ends_with_def starts_with_def DEPLOYABLE_SERVICE_SUFFIX_def)
  have keys: "keys_ok ev_id [crashed_env]" by (simp add: keys_ok_def)
  have "snd (snd (reconcileAll [] 3 (one_project Running) [crashed_env])) = [crashed_env\<lparr>ev_status := EStopped, ev_updated_at := 3\<rparr>]"
    by code_simp
  then have "envs' = [crashed_env\<lparr>ev_status := EStopped, ev_updated_at := 3\<rparr>]" using r by simp
  moreover have "\<forall>r \<in> set (projects (one_project Running)). p_id r \<noteq> []" by (simp add: one_project_def new_project_row_def)
  ultimately show ?thesis using reconcileAll_in_sync [OF one_project_facts(1) plain keys r p(1)] r p(2) by auto
qed

text \<open>
  The lifecycle policy is the documented matrix. Starting and archiving need a project that is not
  archived, not recovering and whose breaker is closed; stopping needs only that it is not archived;
  purging needs that it is not recovering and its breaker is closed. A rejection names the
  first of archived, recovering and breaker open that applies. What may be deployed may be started.
\<close>

theorem lifecycle_policy_matrix:
  "(assertProjectLifecycleMutable p a ctx = Inr () \<longleftrightarrow>
      (let archived = truthy (p_archived_at p);
           recovering = v_status (serviceViewFromRows p (ctx_service ctx)) = Status Recovering;
           breaker = isCircuitBreakerOpen ctx (p_id p)
       in case a of
            AStart \<Rightarrow> \<not> archived \<and> \<not> recovering \<and> \<not> breaker
          | AStop \<Rightarrow> \<not> archived
          | AArchive \<Rightarrow> \<not> archived \<and> \<not> recovering \<and> \<not> breaker
          | APurge \<Rightarrow> \<not> recovering \<and> \<not> breaker)) \<and>
   (assertProjectMutable p ctx = assertProjectLifecycleMutable p AStart ctx)"
  by (cases a) (simp_all add: assertProjectLifecycleMutable_def assertProjectMutable_def Let_def)

end
