(* ===== verification/Deploy_Lock.thy ===== *)
theory Deploy_Lock
  imports Project_Store
begin

text \<open>
  The per-project deploy lock: the two lock columns of the projects table
  (\<open>acquireDeployLock\<close>, \<open>releaseDeployLock\<close>, \<open>getDeployLockInfo\<close> and
  \<open>cleanExpiredDeployLocks\<close> of \<open>src/src/db/repos/project.repo.ts\<close>) and the wrappers
  of \<open>src/src/db/repos/deploy-lock-helper.ts\<close>.

  Every repository method is a sequence of SQL statements; \<open>acquireDeployLock\<close> is the clean-up
  statement followed by one conditional \<open>UPDATE\<close>. The step relation \<open>lock_step\<close> interleaves the
  single statements of any number of sessions with the passing of time, with the unscoped
  release that the event listeners of \<open>src/src/web/api/routes.ts\<close> issue when an event carries no
  session, and with the writes of the rest of the program. The lock's guarantee is proved for every
  reachable state: two sessions that took a project's lock within the last 30 minutes and have
  not released it are the same session, unless the lock was dropped without a session since. That this
  exception is real is \<open>unscoped_release_breaks_exclusion\<close>.

  The locale \<open>exclusive_lock\<close> is the contract the pipeline relies on; it is interpreted on
  the repository methods, and the facts about \<open>withDeployLock\<close> come from it.
\<close>

section \<open>The repository methods\<close>

definition lock_expired :: "int \<Rightarrow> int \<Rightarrow> project_row \<Rightarrow> bool" where
  "lock_expired timeoutMinutes now r \<longleftrightarrow>
     p_deploy_lock_session r \<noteq> None \<and>
     (case p_deploy_lock_at r of None \<Rightarrow> False | Some t \<Rightarrow> t < now - timeoutMinutes * 60000)"

definition cleanExpiredDeployLocks :: "int \<Rightarrow> int \<Rightarrow> store \<Rightarrow> nat \<times> store" where
  "cleanExpiredDeployLocks timeoutMinutes now db =
     (let p = lock_expired timeoutMinutes now;
          f = (\<lambda>r. r\<lparr>p_deploy_lock_session := None, p_deploy_lock_at := None\<rparr>)
      in (length (sql_returning p f (projects db)), db\<lparr>projects := sql_update p f (projects db)\<rparr>))"

definition DEFAULT_LOCK_MINUTES :: int where
  "DEFAULT_LOCK_MINUTES = 30"

text \<open>The conditional \<open>UPDATE\<close> of \<open>acquireDeployLock\<close>.\<close>

definition lock_free_for :: "string \<Rightarrow> string \<Rightarrow> project_row \<Rightarrow> bool" where
  "lock_free_for projectId sessionId r \<longleftrightarrow>
     p_id r = projectId \<and> (p_deploy_lock_session r = None \<or> p_deploy_lock_session r = Some sessionId)"

definition take_lock :: "string \<Rightarrow> int \<Rightarrow> project_row \<Rightarrow> project_row" where
  "take_lock sessionId now r =
     r\<lparr>p_deploy_lock_session := Some sessionId, p_deploy_lock_at := Some now, p_updated_at := now\<rparr>"

definition lock_update :: "string \<Rightarrow> string \<Rightarrow> int \<Rightarrow> store \<Rightarrow> bool \<times> store" where
  "lock_update projectId sessionId now db =
     (0 < length (sql_returning (lock_free_for projectId sessionId) (take_lock sessionId now) (projects db)),
      db\<lparr>projects := sql_update (lock_free_for projectId sessionId) (take_lock sessionId now) (projects db)\<rparr>)"

definition acquireDeployLock :: "string \<Rightarrow> string \<Rightarrow> int \<Rightarrow> store \<Rightarrow> bool \<times> store" where
  "acquireDeployLock projectId sessionId now db =
     lock_update projectId sessionId now (snd (cleanExpiredDeployLocks DEFAULT_LOCK_MINUTES now db))"

definition drop_lock :: "int \<Rightarrow> project_row \<Rightarrow> project_row" where
  "drop_lock now r = r\<lparr>p_deploy_lock_session := None, p_deploy_lock_at := None, p_updated_at := now\<rparr>"

definition releaseDeployLock :: "string \<Rightarrow> string option \<Rightarrow> int \<Rightarrow> store \<Rightarrow> bool \<times> store" where
  "releaseDeployLock projectId sessionId now db =
     (case sessionId of
        Some s \<Rightarrow>
          (let p = (\<lambda>r. p_id r = projectId \<and> p_deploy_lock_session r = Some s);
               updated = sql_returning p (drop_lock now) (projects db)
           in (updated \<noteq> [], db\<lparr>projects := sql_update p (drop_lock now) (projects db)\<rparr>))
      | None \<Rightarrow>
          (True, db\<lparr>projects := sql_update (\<lambda>r. p_id r = projectId) (drop_lock now) (projects db)\<rparr>))"

definition getDeployLockInfo :: "store \<Rightarrow> string \<Rightarrow> (string \<times> int) option" where
  "getDeployLockInfo db projectId =
     (case getProject db projectId of
        None \<Rightarrow> None
      | Some p \<Rightarrow>
          if \<not> truthy (p_deploy_lock_session p) then None
          else (case p_deploy_lock_at p of
                  None \<Rightarrow> None | Some t \<Rightarrow> Some (the (p_deploy_lock_session p), t)))"

section \<open>The wrappers\<close>

datatype 'e thrown = DeployLockedError string string | Thrown 'e

text \<open>
  \<open>onContention\<close> must throw: it maps the holder's session to the error it throws. The
  wrapped function \<open>fn\<close> runs on the store and either returns or throws.
\<close>

definition acquireDeployLockOrThrow ::
  "string \<Rightarrow> string \<Rightarrow> (string \<Rightarrow> 'e) option \<Rightarrow> int \<Rightarrow> store \<Rightarrow> ('e thrown + unit) \<times> store" where
  "acquireDeployLockOrThrow projectId sessionId onContention now db =
     (let (acquired, db1) = acquireDeployLock projectId sessionId now db
      in if acquired then (Inr (), db1)
         else let lockedBy = (case getDeployLockInfo db1 projectId of Some (s, _) \<Rightarrow> s | None \<Rightarrow> ''unknown'')
              in (case onContention of
                    Some f \<Rightarrow> (Inl (Thrown (f lockedBy)), db1)
                  | None \<Rightarrow> (Inl (DeployLockedError projectId lockedBy), db1)))"

definition withDeployLock ::
  "string \<Rightarrow> string \<Rightarrow> (string \<Rightarrow> 'e) option \<Rightarrow> int \<Rightarrow> int \<Rightarrow> (store \<Rightarrow> ('e thrown + 'a) \<times> store)
     \<Rightarrow> store \<Rightarrow> ('e thrown + 'a) \<times> store" where
  "withDeployLock projectId sessionId onContention now later fn db =
     (case acquireDeployLockOrThrow projectId sessionId onContention now db of
        (Inl e, db1) \<Rightarrow> (Inl e, db1)
      | (Inr _, db1) \<Rightarrow>
          (let (r, db2) = fn db1
           in (r, snd (releaseDeployLock projectId (Some sessionId) later db2))))"

section \<open>What one statement does to a project's lock\<close>

text \<open>The lock columns of a project as stored: session and time.\<close>

definition lock_of :: "store \<Rightarrow> string \<Rightarrow> (string option \<times> int option) option" where
  "lock_of db pid = map_option (\<lambda>r. (p_deploy_lock_session r, p_deploy_lock_at r)) (row_of p_id pid (projects db))"

definition lock_holder :: "store \<Rightarrow> string \<Rightarrow> string option" where
  "lock_holder db pid = Option.bind (lock_of db pid) fst"

definition db_ok :: "store \<Rightarrow> bool" where
  "db_ok db \<longleftrightarrow> keys_ok p_id (projects db)"

lemma take_drop_keys [simp]: "p_id (take_lock s now r) = p_id r" "p_id (drop_lock now r) = p_id r"
  by (simp_all add: take_lock_def drop_lock_def)

lemma lock_of_clean:
  "lock_of (snd (cleanExpiredDeployLocks m now db)) pid =
     map_option (\<lambda>(s, t). if s \<noteq> None \<and> (\<exists>u. t = Some u \<and> u < now - m * 60000) then (None, None) else (s, t))
       (lock_of db pid)"
  by (auto simp: lock_of_def cleanExpiredDeployLocks_def Let_def row_of_sql_update lock_expired_def
      option.map_comp intro!: option.map_cong split: option.splits)

lemma lock_of_update:
  "lock_of (snd (lock_update q s now db)) pid =
     (if pid = q then map_option (\<lambda>(s', t). if s' = None \<or> s' = Some s then (Some s, Some now) else (s', t)) (lock_of db pid)
      else lock_of db pid)"
  by (auto simp: lock_of_def lock_update_def row_of_sql_update lock_free_for_def take_lock_def
      option.map_comp dest!: row_of_key intro!: option.map_cong)

lemma lock_update_result:
  assumes "db_ok db"
  shows "fst (lock_update pid s now db) \<longleftrightarrow>
     (\<exists>s' t. lock_of db pid = Some (s', t) \<and> (s' = None \<or> s' = Some s))"
proof -
  have "filter (lock_free_for pid s) (projects db) =
     (case row_of p_id pid (projects db) of None \<Rightarrow> []
      | Some r \<Rightarrow> if p_deploy_lock_session r = None \<or> p_deploy_lock_session r = Some s then [r] else [])"
    using filter_by_key [of p_id "projects db" pid
        "\<lambda>r. p_deploy_lock_session r = None \<or> p_deploy_lock_session r = Some s"] assms
    by (simp add: lock_free_for_def [abs_def] db_ok_def)
  then show ?thesis
    by (auto simp: lock_update_def sql_returning_def lock_of_def split: option.splits)
qed

lemma lock_of_release:
  "lock_of (snd (releaseDeployLock q (Some s) now db)) pid =
     (if pid = q then map_option (\<lambda>(s', t). if s' = Some s then (None, None) else (s', t)) (lock_of db pid)
      else lock_of db pid)"
  by (auto simp: lock_of_def releaseDeployLock_def Let_def row_of_sql_update drop_lock_def
      option.map_comp dest!: row_of_key intro!: option.map_cong)

lemma db_ok_statements [simp]:
  "db_ok (snd (cleanExpiredDeployLocks m now db)) = db_ok db"
  "db_ok (snd (lock_update q s now db)) = db_ok db"
  "db_ok (snd (releaseDeployLock q so now db)) = db_ok db"
  by (auto simp: db_ok_def cleanExpiredDeployLocks_def lock_update_def releaseDeployLock_def
      Let_def keys_sql_update split: option.splits)

lemmas lock_statements = lock_of_clean lock_of_update lock_of_release

section \<open>The contract of the lock\<close>

text \<open>
  \<open>acq s\<close> and \<open>rel s\<close> are the operations of session \<open>s\<close>, \<open>holder\<close> the session the lock is
  registered for, \<open>stale\<close> says that the registered holder's claim has expired.
\<close>

locale exclusive_lock =
  fixes acq :: "'s \<Rightarrow> 'db \<Rightarrow> bool \<times> 'db"
    and rel :: "'s \<Rightarrow> 'db \<Rightarrow> 'db"
    and holder :: "'db \<Rightarrow> 's option"
    and stale :: "'db \<Rightarrow> bool"
    and inv :: "'db \<Rightarrow> bool"
  assumes inv_acq: "inv db \<Longrightarrow> inv (snd (acq s db))"
    and inv_rel: "inv db \<Longrightarrow> inv (rel s db)"
    and acq_won: "inv db \<Longrightarrow> fst (acq s db) \<Longrightarrow> holder (snd (acq s db)) = Some s"
    and acq_lost: "inv db \<Longrightarrow> \<not> fst (acq s db) \<Longrightarrow> holder (snd (acq s db)) = holder db \<and> holder db \<noteq> Some s"
    and acq_blocked: "inv db \<Longrightarrow> holder db = Some t \<Longrightarrow> t \<noteq> s \<Longrightarrow> \<not> stale db \<Longrightarrow> \<not> fst (acq s db)"
    and rel_own: "inv db \<Longrightarrow> holder db = Some s \<Longrightarrow> holder (rel s db) = None"
    and rel_foreign: "inv db \<Longrightarrow> holder db \<noteq> Some s \<Longrightarrow> holder (rel s db) = holder db"
begin

lemma rel_not_holder: "inv db \<Longrightarrow> holder (rel s db) \<noteq> Some s"
  using rel_own rel_foreign by (cases "holder db = Some s") auto

text \<open>A session that lost the race cannot free the winner's lock.\<close>

lemma loser_keeps_lock:
  assumes "inv db" and "\<not> fst (acq s db)"
  shows "holder (rel s (snd (acq s db))) = holder db"
  using assms acq_lost inv_acq rel_foreign by metis

text \<open>A critical section that ends with its own lock still registered leaves it free.\<close>

lemma section_frees:
  assumes "inv db'" and "holder db' = Some s"
  shows "holder (rel s db') = None"
  using assms by (rule rel_own)

text \<open>A section that lost its lock to another session leaves that session's lock alone.\<close>

lemma section_spares_successor:
  assumes "inv db'" and "holder db' = Some t" and "t \<noteq> s"
  shows "holder (rel s db') = Some t"
  using assms rel_foreign by simp

lemma fresh_holder_wins:
  assumes "inv db" and "holder db = Some t" and "\<not> stale db" and "fst (acq s db)"
  shows "s = t"
  using acq_blocked [OF assms(1,2) _ assms(3), of s] assms(4) by auto

end

definition lock_stale :: "store \<Rightarrow> string \<Rightarrow> int \<Rightarrow> bool" where
  "lock_stale db pid now \<longleftrightarrow>
     (\<exists>s t. lock_of db pid = Some (Some s, Some t) \<and> t < now - DEFAULT_LOCK_MINUTES * 60000)"

lemma acquire_result:
  assumes "db_ok db"
  shows "fst (acquireDeployLock pid s now db) \<longleftrightarrow>
     (\<exists>s' t. lock_of db pid = Some (s', t) \<and> (s' = None \<or> s' = Some s)) \<or> lock_stale db pid now"
proof (cases "lock_of db pid")
  case None
  with assms show ?thesis
    by (simp add: acquireDeployLock_def lock_update_result lock_of_clean lock_stale_def)
next
  case (Some st)
  obtain a b where "st = (a, b)" by fastforce
  with assms Some show ?thesis
    by (cases a; cases b) (auto simp: acquireDeployLock_def lock_update_result lock_of_clean lock_stale_def)
qed

lemma acquire_lock_of:
  assumes "db_ok db"
  shows "lock_of (snd (acquireDeployLock pid s now db)) q =
     (if q = pid \<and> fst (acquireDeployLock pid s now db) then Some (Some s, Some now)
      else lock_of (snd (cleanExpiredDeployLocks DEFAULT_LOCK_MINUTES now db)) q)"
proof -
  let ?db1 = "snd (cleanExpiredDeployLocks DEFAULT_LOCK_MINUTES now db)"
  have "db_ok ?db1" using assms by simp
  then show ?thesis
    by (cases "lock_of ?db1 pid") (auto simp: acquireDeployLock_def lock_update_result lock_of_update)
qed

lemma acquire_lost_lock_of:
  assumes "db_ok db" and "\<not> fst (acquireDeployLock pid s now db)"
  shows "lock_of (snd (acquireDeployLock pid s now db)) pid = lock_of db pid"
  using assms acquire_result [OF assms(1), of pid s now]
  by (auto simp: acquire_lock_of lock_of_clean lock_stale_def
      intro!: option.map_ident_strong split: option.splits)

interpretation dl: exclusive_lock
  "\<lambda>s. acquireDeployLock pid s now" "\<lambda>s db. snd (releaseDeployLock pid (Some s) later db)"
  "\<lambda>db. lock_holder db pid" "\<lambda>db. lock_stale db pid now" db_ok
  for pid now later
proof (unfold_locales, goal_cases)
  case (1 db s)
  then show ?case by (simp add: acquireDeployLock_def)
next
  case (2 db s)
  then show ?case by simp
next
  case (3 db s)
  then show ?case by (simp add: lock_holder_def acquire_lock_of)
next
  case (4 db s)
  then have "lock_holder db pid \<noteq> Some s"
    using acquire_result [OF 4(1), of pid s now]
    by (auto simp: lock_holder_def bind_eq_Some_conv)
  with 4 show ?case by (simp add: lock_holder_def acquire_lost_lock_of)
next
  case (5 db t s)
  then show ?case by (auto simp: acquire_result lock_holder_def bind_eq_Some_conv)
next
  case (6 db s)
  then show ?case by (auto simp: lock_holder_def lock_of_release bind_eq_Some_conv)
next
  case (7 db s)
  then show ?case
    by (cases "lock_of db pid") (auto simp: lock_holder_def lock_of_release)
qed

section \<open>Interleaved sessions\<close>

text \<open>
  A system state: the database, the clock, for each session that won a lock and has not
  itself released it since, the project, the session and the time of the acquisition, and the
  times at which the lock of a project was dropped without naming a session.
\<close>

record lock_sys =
  ls_db :: store
  ls_now :: int
  ls_held :: "(string \<times> string \<times> int) list"
  ls_dropped :: "(string \<times> int) list"

text \<open>
  Each rule is one SQL statement or the passing of time. \<open>acquireDeployLock\<close> is \<open>clean\<close> followed
  by \<open>won\<close> or \<open>lost\<close>, with any other steps in between. \<open>unscoped\<close> is the release without a session, which
  the listeners of \<open>deploy:success\<close>, \<open>deploy:failed\<close>, \<open>compose:up\<close> and \<open>compose:failed\<close> issue when the
  event names no session; the sessions that hold the lock are not told, and go on. \<open>gone\<close> is the deletion
  of a project, whose lock disappears with its row; \<open>other\<close> is any other write of the program: the lock
  columns are written by the statements above only, so it leaves them as they are, and it may insert
  projects.
\<close>

inductive lock_step :: "lock_sys \<Rightarrow> lock_sys \<Rightarrow> bool" where
  tick: "0 \<le> d \<Longrightarrow> lock_step y (y\<lparr>ls_now := ls_now y + d\<rparr>)"
| clean: "lock_step y (y\<lparr>ls_db := snd (cleanExpiredDeployLocks DEFAULT_LOCK_MINUTES (ls_now y) (ls_db y))\<rparr>)"
| won: "lock_update pid s (ls_now y) (ls_db y) = (True, db') \<Longrightarrow>
     lock_step y (y\<lparr>ls_db := db', ls_held := (pid, s, ls_now y) # ls_held y\<rparr>)"
| lost: "lock_update pid s (ls_now y) (ls_db y) = (False, db') \<Longrightarrow> lock_step y (y\<lparr>ls_db := db'\<rparr>)"
| release: "lock_step y (y\<lparr>ls_db := snd (releaseDeployLock pid (Some s) (ls_now y) (ls_db y)),
     ls_held := filter (\<lambda>(p, t, _). \<not> (p = pid \<and> t = s)) (ls_held y)\<rparr>)"
| unscoped: "lock_step y (y\<lparr>ls_db := snd (releaseDeployLock pid None (ls_now y) (ls_db y)),
     ls_dropped := (pid, ls_now y) # ls_dropped y\<rparr>)"
| gone: "db_ok db' \<Longrightarrow> \<forall>q. q \<noteq> pid \<longrightarrow> lock_of db' q = lock_of (ls_db y) q \<Longrightarrow> lock_of db' pid = None \<Longrightarrow>
     lock_step y (y\<lparr>ls_db := db', ls_dropped := (pid, ls_now y) # ls_dropped y\<rparr>)"
| other: "db_ok db' \<Longrightarrow> \<forall>q. lock_of (ls_db y) q \<noteq> None \<longrightarrow> lock_of db' q = lock_of (ls_db y) q \<Longrightarrow>
     lock_step y (y\<lparr>ls_db := db'\<rparr>)"

inductive lock_reachable :: "lock_sys \<Rightarrow> bool" where
  start: "db_ok db \<Longrightarrow> lock_reachable \<lparr>ls_db = db, ls_now = now, ls_held = [], ls_dropped = []\<rparr>"
| step: "lock_reachable y \<Longrightarrow> lock_step y z \<Longrightarrow> lock_reachable z"

text \<open>
  The invariant: whoever took the lock within the expiry window, and has not had it dropped
  since, is the registered holder, with a timestamp no older than its acquisition.
\<close>

fun held_ok :: "store \<Rightarrow> int \<Rightarrow> string \<times> string \<times> int \<Rightarrow> bool" where
  "held_ok db now (p, s, t) \<longleftrightarrow> t \<le> now \<and>
     (now - t \<le> DEFAULT_LOCK_MINUTES * 60000 \<longrightarrow>
        (\<exists>u. lock_of db p = Some (Some s, Some u) \<and> t \<le> u))"

fun kept_since :: "(string \<times> int) list \<Rightarrow> string \<times> string \<times> int \<Rightarrow> bool" where
  "kept_since dropped (p, s, t) \<longleftrightarrow> (\<forall>u. (p, u) \<in> set dropped \<longrightarrow> u < t)"

definition lock_inv :: "lock_sys \<Rightarrow> bool" where
  "lock_inv y \<longleftrightarrow> db_ok (ls_db y) \<and>
     (\<forall>h \<in> set (ls_held y). snd (snd h) \<le> ls_now y \<and> (kept_since (ls_dropped y) h \<longrightarrow> held_ok (ls_db y) (ls_now y) h))"

lemma held_ok_tick: "0 \<le> d \<Longrightarrow> held_ok db now h \<Longrightarrow> held_ok db (now + d) h"
  by (cases h) auto

lemma clean_keeps_fresh:
  "lock_of db p = Some (Some s, Some u) \<Longrightarrow> now - m * 60000 \<le> u \<Longrightarrow>
     lock_of (snd (cleanExpiredDeployLocks m now db)) p = Some (Some s, Some u)"
  by (simp add: lock_of_clean)

lemma update_keeps_held:
  "lock_of db p = Some (Some t, Some u) \<Longrightarrow>
     lock_of (snd (lock_update pid s now db)) p = Some (Some t, Some (if p = pid \<and> t = s then now else u))"
  by (cases "p = pid") (auto simp: lock_of_update)

lemma held_ok_clean:
  "held_ok db now h \<Longrightarrow> held_ok (snd (cleanExpiredDeployLocks DEFAULT_LOCK_MINUTES now db)) now h"
  by (cases h) (fastforce dest: clean_keeps_fresh [where m = DEFAULT_LOCK_MINUTES and now = now])

lemma held_ok_update: "held_ok db now h \<Longrightarrow> held_ok (snd (lock_update pid s now db)) now h"
  by (cases h) (auto simp: update_keeps_held)

lemma held_ok_release:
  "held_ok db now (p, t, u) \<Longrightarrow> \<not> (p = pid \<and> t = s) \<Longrightarrow>
     held_ok (snd (releaseDeployLock pid (Some s) now' db)) now (p, t, u)"
  by (auto simp: lock_of_release)

text \<open>A lease of the project whose lock is dropped was not kept; every other lease is untouched.\<close>

lemma held_ok_drop:
  assumes "snd (snd h) \<le> now" and "kept_since dropped h \<longrightarrow> held_ok db now h" and "kept_since ((pid, now) # dropped) h"
    and "\<And>q. q \<noteq> pid \<Longrightarrow> lock_of db' q = lock_of db q"
  shows "held_ok db' now h"
  using assms by (cases h) fastforce

lemma lock_of_unscoped:
  "lock_of (snd (releaseDeployLock q None now db)) pid =
     (if pid = q then map_option (\<lambda>_. (None, None)) (lock_of db pid) else lock_of db pid)"
  by (auto simp: lock_of_def releaseDeployLock_def row_of_sql_update drop_lock_def
      option.map_comp dest!: row_of_key intro!: option.map_cong)

lemma held_ok_won:
  assumes "db_ok db" and "fst (lock_update pid s now db)"
  shows "held_ok (snd (lock_update pid s now db)) now (pid, s, now)"
  using assms by (auto simp: lock_update_result lock_of_update)

lemma lock_step_inv:
  assumes "lock_step y z" and "lock_inv y"
  shows "lock_inv z"
  using assms
proof (induction rule: lock_step.induct)
  case (tick d y)
  then show ?case by (auto simp: lock_inv_def held_ok_tick simp del: held_ok.simps kept_since.simps)
next
  case (clean y)
  then show ?case by (simp add: lock_inv_def held_ok_clean del: held_ok.simps kept_since.simps)
next
  case (won pid s y db')
  then have "db' = snd (lock_update pid s (ls_now y) (ls_db y))" "fst (lock_update pid s (ls_now y) (ls_db y))"
    by simp_all
  with won.prems show ?case
    by (simp add: lock_inv_def held_ok_update held_ok_won del: held_ok.simps kept_since.simps)
next
  case (lost pid s y db')
  then have "db' = snd (lock_update pid s (ls_now y) (ls_db y))" by simp
  with lost.prems show ?case
    by (simp add: lock_inv_def held_ok_update del: held_ok.simps kept_since.simps)
next
  case (release y pid s)
  then show ?case
    by (auto simp: lock_inv_def intro: held_ok_release simp del: held_ok.simps kept_since.simps)
next
  case (unscoped y pid)
  then show ?case
    by (auto simp: lock_inv_def lock_of_unscoped simp del: held_ok.simps kept_since.simps
        intro: held_ok_drop [where dropped = "ls_dropped y" and pid = pid and db = "ls_db y"])
next
  case (gone db' pid y)
  then show ?case
    by (auto simp: lock_inv_def simp del: held_ok.simps kept_since.simps
        intro: held_ok_drop [where dropped = "ls_dropped y" and pid = pid and db = "ls_db y"])
next
  case (other db' y)
  then have "held_ok (ls_db y) (ls_now y) h \<Longrightarrow> held_ok db' (ls_now y) h" for h
    by (cases h) fastforce
  with other show ?case
    by (simp add: lock_inv_def del: held_ok.simps kept_since.simps)
qed

lemma lock_reachable_inv: "lock_reachable y \<Longrightarrow> lock_inv y"
proof (induction rule: lock_reachable.induct)
  case (start db now)
  then show ?case by (simp add: lock_inv_def)
next
  case (step y z)
  then show ?case by (blast intro: lock_step_inv)
qed

text \<open>\<open>acquireDeployLock\<close> as a whole is a run of the step relation.\<close>

lemma acquire_is_run:
  assumes "acquireDeployLock pid s (ls_now y) (ls_db y) = (ok, db')"
  shows "\<exists>m. lock_step y m \<and> lock_step m
     (y\<lparr>ls_db := db', ls_held := (if ok then [(pid, s, ls_now y)] else []) @ ls_held y\<rparr>)"
proof -
  let ?m = "y\<lparr>ls_db := snd (cleanExpiredDeployLocks DEFAULT_LOCK_MINUTES (ls_now y) (ls_db y))\<rparr>"
  have "lock_update pid s (ls_now ?m) (ls_db ?m) = (ok, db')"
    using assms by (simp add: acquireDeployLock_def)
  then have "lock_step ?m (?m\<lparr>ls_db := db', ls_held := (if ok then [(pid, s, ls_now y)] else []) @ ls_held y\<rparr>)"
    using lock_step.won [of pid s ?m db'] lock_step.lost [of pid s ?m db'] by (cases ok) auto
  then show ?thesis using lock_step.clean [of y] by auto
qed

section \<open>Properties\<close>

text \<open>
  C1. Mutual exclusion of the deploy lock. In every interleaving of the SQL statements of any
  number of sessions, of the releases without a session and of the other writes of the program, two
  sessions that each took the lock of the same project within the last 30 minutes and have not
  released it are the same session - provided that since the earlier of the two acquisitions the
  project's lock was not dropped by a release without a session or by the deletion of the project.
\<close>

theorem deploy_lock_mutual_exclusion:
  assumes "lock_reachable y"
    and "(pid, s1, t1) \<in> set (ls_held y)" and "(pid, s2, t2) \<in> set (ls_held y)"
    and "ls_now y - t1 \<le> 30 * 60000" and "ls_now y - t2 \<le> 30 * 60000"
    and "\<forall>u. (pid, u) \<in> set (ls_dropped y) \<longrightarrow> u < t1 \<and> u < t2"
  shows "s1 = s2"
proof -
  have inv: "lock_inv y" using assms(1) by (rule lock_reachable_inv)
  obtain u1 where "lock_of (ls_db y) pid = Some (Some s1, Some u1)"
    using inv assms(2,4,6) by (fastforce simp: lock_inv_def DEFAULT_LOCK_MINUTES_def)
  moreover obtain u2 where "lock_of (ls_db y) pid = Some (Some s2, Some u2)"
    using inv assms(3,5,6) by (fastforce simp: lock_inv_def DEFAULT_LOCK_MINUTES_def)
  ultimately show ?thesis by simp
qed

definition locked_example :: lock_sys where
  "locked_example = \<lparr>ls_db = snd (lock_update ''p'' ''deploy-1'' 5
       \<lparr>projects = [new_project_row ''p''], services = []\<rparr>),
     ls_now = 5, ls_held = [(''p'', ''deploy-1'', 5)], ls_dropped = []\<rparr>"

lemma locked_example_reachable: "lock_reachable locked_example"
proof -
  let ?db = "\<lparr>projects = [new_project_row ''p''], services = []\<rparr>"
  let ?y = "\<lparr>ls_db = ?db, ls_now = 5, ls_held = [], ls_dropped = []\<rparr>"
  have "lock_reachable ?y" by (rule lock_reachable.start) (simp add: db_ok_def keys_ok_def)
  moreover have "lock_update ''p'' ''deploy-1'' 5 ?db = (True, snd (lock_update ''p'' ''deploy-1'' 5 ?db))"
    by (simp add: lock_update_def sql_returning_def lock_free_for_def new_project_row_def)
  then have "lock_step ?y locked_example"
    using lock_step.won [of "''p''" "''deploy-1''" ?y] by (simp add: locked_example_def)
  ultimately show ?thesis by (rule lock_reachable.step)
qed

lemma locked_example_ok: "db_ok (ls_db locked_example)"
  using lock_reachable_inv [OF locked_example_reachable] by (simp add: lock_inv_def)

lemma locked_example_row:
  "row_of p_id ''p'' (projects (ls_db locked_example)) = Some (take_lock ''deploy-1'' 5 (new_project_row ''p''))"
  by (simp add: locked_example_def lock_update_def sql_update_def lock_free_for_def
      new_project_row_def take_lock_def)

text \<open>
  The same project after an event without a session released the lock that \<open>deploy-1\<close> holds and \<open>deploy-2\<close>
  took it twice, one minute later and again.
\<close>

definition unscoped_example :: lock_sys where
  "unscoped_example =
     (let db1 = snd (releaseDeployLock ''p'' None 5 (ls_db locked_example));
          db2 = snd (lock_update ''p'' ''deploy-2'' 60005 db1)
      in \<lparr>ls_db = snd (lock_update ''p'' ''deploy-2'' 60005 db2), ls_now = 60005,
           ls_held = [(''p'', ''deploy-2'', 60005), (''p'', ''deploy-2'', 60005), (''p'', ''deploy-1'', 5)],
           ls_dropped = [(''p'', 5)]\<rparr>)"

lemma unscoped_example_reachable: "lock_reachable unscoped_example"
proof -
  let ?db1 = "snd (releaseDeployLock ''p'' None 5 (ls_db locked_example))"
  let ?db2 = "snd (lock_update ''p'' ''deploy-2'' 60005 ?db1)"
  let ?y1 = "locked_example\<lparr>ls_db := ?db1, ls_dropped := [(''p'', 5)]\<rparr>"
  let ?y2 = "?y1\<lparr>ls_now := 60005\<rparr>"
  let ?y3 = "?y2\<lparr>ls_db := ?db2, ls_held := (''p'', ''deploy-2'', 60005) # ls_held locked_example\<rparr>"
  have ok: "db_ok ?db1" "db_ok ?db2" using locked_example_ok by simp_all
  have free: "lock_of ?db1 ''p'' = Some (None, None)"
    by (simp add: lock_of_unscoped) (simp add: lock_of_def locked_example_row)
  have "lock_step locked_example ?y1"
    using lock_step.unscoped [of locked_example "''p''"] by (simp add: locked_example_def)
  then have r1: "lock_reachable ?y1" by (rule lock_reachable.step [OF locked_example_reachable])
  have "lock_step ?y1 ?y2" using lock_step.tick [of 60000 ?y1] by (simp add: locked_example_def)
  then have r2: "lock_reachable ?y2" by (rule lock_reachable.step [OF r1])
  have "lock_update ''p'' ''deploy-2'' 60005 ?db1 = (True, ?db2)"
    using lock_update_result [OF ok(1), of "''p''" "''deploy-2''" 60005] free by (simp add: prod_eq_iff)
  then have "lock_step ?y2 ?y3" using lock_step.won [of "''p''" "''deploy-2''" ?y2 ?db2] by simp
  then have r3: "lock_reachable ?y3" by (rule lock_reachable.step [OF r2])
  have "lock_update ''p'' ''deploy-2'' 60005 ?db2 = (True, snd (lock_update ''p'' ''deploy-2'' 60005 ?db2))"
    using lock_update_result [OF ok(2), of "''p''" "''deploy-2''" 60005] free by (simp add: prod_eq_iff lock_of_update)
  then have "lock_step ?y3 unscoped_example"
    using lock_step.won [of "''p''" "''deploy-2''" ?y3] by (simp add: unscoped_example_def locked_example_def Let_def)
  then show ?thesis by (rule lock_reachable.step [OF r3])
qed

theorem deploy_lock_mutual_exclusion_witness:
  "lock_reachable unscoped_example \<and> (''p'', ''deploy-2'', 60005) \<in> set (ls_held unscoped_example) \<and>
   (''p'', 5) \<in> set (ls_dropped unscoped_example) \<and> ''deploy-2'' = ''deploy-2''"
  using deploy_lock_mutual_exclusion [OF unscoped_example_reachable, of "''p''" "''deploy-2''" 60005 "''deploy-2''" 60005]
    unscoped_example_reachable by (simp add: unscoped_example_def Let_def)

text \<open>
  Without that proviso the guarantee fails. A release without a session, issued while \<open>deploy-1\<close>
  works, lets \<open>deploy-2\<close> take the lock: both took it within the last 30 minutes and neither released it.
\<close>

theorem unscoped_release_breaks_exclusion:
  "\<exists>y s1 s2 t1 t2. lock_reachable y \<and> s1 \<noteq> s2 \<and> (''p'', s1, t1) \<in> set (ls_held y) \<and> (''p'', s2, t2) \<in> set (ls_held y) \<and>
     ls_now y - t1 \<le> 30 * 60000 \<and> ls_now y - t2 \<le> 30 * 60000"
proof -
  have "(''p'', ''deploy-1'', 5) \<in> set (ls_held unscoped_example)" "(''p'', ''deploy-2'', 60005) \<in> set (ls_held unscoped_example)"
    "ls_now unscoped_example = 60005"
    by (simp_all add: unscoped_example_def Let_def)
  then show ?thesis using unscoped_example_reachable
    by (intro exI [of _ unscoped_example] exI [of _ "''deploy-1''"] exI [of _ "''deploy-2''"] exI [of _ 5] exI [of _ 60005]) simp
qed

text \<open>
  \<open>acquireDeployLock\<close> succeeds exactly when the project exists and its lock is free, already
  held by the same session, or older than 30 minutes. On success the lock is registered for the
  session with the current time; on failure the lock columns are unchanged. No other project's
  lock is given to anyone.
\<close>

theorem acquireDeployLock_spec:
  assumes "db_ok db" and "acquireDeployLock pid s now db = (won, db')"
  shows "(won \<longleftrightarrow>
           (\<exists>r. row_of p_id pid (projects db) = Some r \<and>
              (p_deploy_lock_session r = None \<or> p_deploy_lock_session r = Some s \<or>
               (\<exists>t. p_deploy_lock_at r = Some t \<and> 30 * 60000 < now - t)))) \<and>
         lock_of db' pid = (if won then Some (Some s, Some now) else lock_of db pid) \<and>
         (\<forall>q. q \<noteq> pid \<longrightarrow> lock_of db' q = lock_of (snd (cleanExpiredDeployLocks 30 now db)) q)"
proof -
  have won: "won = fst (acquireDeployLock pid s now db)" and db': "db' = snd (acquireDeployLock pid s now db)"
    using assms(2) by simp_all
  have "won \<longleftrightarrow> (\<exists>r. row_of p_id pid (projects db) = Some r \<and>
              (p_deploy_lock_session r = None \<or> p_deploy_lock_session r = Some s \<or>
               (\<exists>t. p_deploy_lock_at r = Some t \<and> 30 * 60000 < now - t)))"
    using assms(1) by (force simp: won acquire_result lock_of_def lock_stale_def DEFAULT_LOCK_MINUTES_def)
  moreover have "lock_of db' pid = (if won then Some (Some s, Some now) else lock_of db pid)"
    using assms(1) acquire_lost_lock_of by (simp add: won db' acquire_lock_of)
  moreover have "\<forall>q. q \<noteq> pid \<longrightarrow> lock_of db' q = lock_of (snd (cleanExpiredDeployLocks 30 now db)) q"
    using assms(1) by (simp add: db' acquire_lock_of DEFAULT_LOCK_MINUTES_def)
  ultimately show ?thesis by blast
qed

theorem acquireDeployLock_spec_witness:
  "fst (acquireDeployLock ''p'' ''b'' 1800010 (ls_db locked_example)) \<and>
   \<not> fst (acquireDeployLock ''p'' ''b'' 1800005 (ls_db locked_example)) \<and>
   lock_of (snd (acquireDeployLock ''p'' ''b'' 1800010 (ls_db locked_example))) ''p'' = Some (Some ''b'', Some 1800010)"
  using acquireDeployLock_spec [OF locked_example_ok surjective_pairing, of "''p''" "''b''" 1800010]
    acquireDeployLock_spec [OF locked_example_ok surjective_pairing, of "''p''" "''b''" 1800005]
  by (simp add: locked_example_row take_lock_def)

text \<open>
  \<open>withDeployLock\<close>. If the lock is won, the wrapped function runs with the lock registered for
  the session, its outcome (value or exception) is returned, and afterwards the session no longer
  holds the lock; a lock another session took over meanwhile is left to it. If the lock is not
  won, the function does not run, the call throws \<open>DeployLockedError\<close>, and the project's lock is
  as it was.
\<close>

theorem withDeployLock_exclusive:
  assumes "db_ok db" and "\<And>d. db_ok d \<Longrightarrow> db_ok (snd (fn d))"
    and "acquireDeployLock pid s now db = (won, db1)"
    and "withDeployLock pid s None now later fn db = (res, db3)"
  shows "if won
     then lock_holder db1 pid = Some s \<and> res = fst (fn db1) \<and> lock_holder db3 pid \<noteq> Some s \<and>
          (lock_holder (snd (fn db1)) pid \<noteq> Some s \<longrightarrow> lock_holder db3 pid = lock_holder (snd (fn db1)) pid)
     else (\<exists>t. res = Inl (DeployLockedError pid t)) \<and> db3 = db1 \<and> lock_of db3 pid = lock_of db pid"
proof (cases won)
  case True
  have ok1: "db_ok db1" using dl.inv_acq [OF assms(1), of pid s now] assms(3) by simp
  have res: "res = fst (fn db1)" "db3 = snd (releaseDeployLock pid (Some s) later (snd (fn db1)))"
    using assms(3,4) True
    by (auto simp: withDeployLock_def acquireDeployLockOrThrow_def split: prod.splits)
  have "lock_holder db1 pid = Some s" using dl.acq_won [OF assms(1), of pid s now] assms(3) True by simp
  with res True show ?thesis
    using dl.rel_not_holder [OF assms(2) [OF ok1]] dl.rel_foreign [OF assms(2) [OF ok1]] by simp
next
  case False
  have "lock_of db1 pid = lock_of db pid"
    using acquire_lost_lock_of [OF assms(1), of pid s now] assms(3) False by simp
  with False assms(3,4) show ?thesis
    by (auto simp: withDeployLock_def acquireDeployLockOrThrow_def Let_def split: prod.splits option.splits)
qed

theorem withDeployLock_exclusive_witness:
  "fst (withDeployLock ''p'' ''b'' None 10 20 (\<lambda>d. (Inr (1::nat) :: unit thrown + nat, d)) (ls_db locked_example))
     \<noteq> Inr 1 \<and>
   fst (withDeployLock ''p'' ''deploy-1'' None 10 20 (\<lambda>d. (Inr (1::nat) :: unit thrown + nat, d)) (ls_db locked_example))
     = Inr 1"
proof -
  let ?db = "ls_db locked_example"
  let ?fn = "\<lambda>d::store. (Inr (1::nat) :: unit thrown + nat, d)"
  have lk: "lock_of ?db ''p'' = Some (Some ''deploy-1'', Some 5)"
    by (simp add: lock_of_def locked_example_row take_lock_def)
  have lost: "\<not> fst (acquireDeployLock ''p'' ''b'' 10 ?db)" and won: "fst (acquireDeployLock ''p'' ''deploy-1'' 10 ?db)"
    using acquire_result [OF locked_example_ok] lk by (auto simp: lock_stale_def DEFAULT_LOCK_MINUTES_def)
  show ?thesis
    using withDeployLock_exclusive [OF locked_example_ok, of ?fn "''p''" "''b''" 10 _ _ 20, OF _ surjective_pairing surjective_pairing]
      withDeployLock_exclusive [OF locked_example_ok, of ?fn "''p''" "''deploy-1''" 10 _ _ 20, OF _ surjective_pairing surjective_pairing]
      lost won by auto
qed

end
