(* ===== verification/Circuit_Breaker.thy ===== *)
theory Circuit_Breaker
  imports Prelude
begin

text \<open>
  Circuit breakers.

  \<^item> \<open>CircuitBreakerRepo\<close> (\<open>src/src/db/repos/circuit-breaker.repo.ts\<close>): the persisted breaker of a project,
    one row of the table \<open>circuit_breaker_state\<close>, and \<open>incrementAndCheckBreaker\<close> of
    \<open>src/src/monitor/ops-recovery.ts\<close>, which counts a failed recovery and opens the breaker.
  \<^item> \<open>LlmCircuitBreaker\<close> (\<open>src/src/llm/llm-circuit-breaker.ts\<close>): the in-memory breaker of an LLM provider.

  Times are milliseconds, passed to every operation that reads \<open>Date.now()\<close>. The two breakers admit
  calls by the same contract, the locale \<open>breaker\<close>: an open breaker refuses until its cooldown
  has passed and the first check after that admits and leaves it half open. The sequences of
  checks are treated once, in the locale.
\<close>

section \<open>The persisted breaker\<close>

datatype breaker_state = Closed | Open | Half_open

record breaker_row =
  cb_project_id :: string
  cb_failure_count :: int
  cb_last_failure_at :: "int option"
  cb_opened_at :: "int option"
  cb_state :: breaker_state
  cb_reset_at :: "int option"

type_synonym breaker_table = "breaker_row list"

definition FAILURE_WINDOW_MS :: int where "FAILURE_WINDOW_MS = 24 * 60 * 60 * 1000"

definition HALF_OPEN_DELAY_MS :: int where "HALF_OPEN_DELAY_MS = 30 * 60 * 1000"

text \<open>A row with the column defaults of the schema.\<close>

definition breaker_defaults :: "string \<Rightarrow> breaker_row" where
  "breaker_defaults pid = \<lparr>cb_project_id = pid, cb_failure_count = 0, cb_last_failure_at = None,
     cb_opened_at = None, cb_state = Closed, cb_reset_at = None\<rparr>"

definition cb_getState :: "breaker_table \<Rightarrow> string \<Rightarrow> breaker_row option" where
  "cb_getState t pid = row_of cb_project_id pid t"

text \<open>The argument of \<open>upsert\<close>: a column is absent (\<open>None\<close>) or given; a nullable one may be given as null.\<close>

record breaker_data =
  bd_failure_count :: "int option"
  bd_last_failure_at :: "int option option"
  bd_opened_at :: "int option option"
  bd_state :: "breaker_state option"
  bd_reset_at :: "int option option"

definition or_else :: "'a option \<Rightarrow> 'a \<Rightarrow> 'a" where
  "or_else v d = (case v of Some x \<Rightarrow> x | None \<Rightarrow> d)"

definition bd_apply :: "breaker_data \<Rightarrow> breaker_row \<Rightarrow> breaker_row" where
  "bd_apply d r = r\<lparr>cb_failure_count := or_else (bd_failure_count d) (cb_failure_count r),
     cb_last_failure_at := or_else (bd_last_failure_at d) (cb_last_failure_at r),
     cb_opened_at := or_else (bd_opened_at d) (cb_opened_at r),
     cb_state := or_else (bd_state d) (cb_state r),
     cb_reset_at := or_else (bd_reset_at d) (cb_reset_at r)\<rparr>"

definition cb_upsert :: "string \<Rightarrow> breaker_data \<Rightarrow> breaker_table \<Rightarrow> breaker_table" where
  "cb_upsert pid d t =
     (case cb_getState t pid of
        Some _ \<Rightarrow> sql_update (\<lambda>r. cb_project_id r = pid) (bd_apply d) t
      | None \<Rightarrow> t @ [bd_apply d (breaker_defaults pid)])"

text \<open>
  \<open>incrementFailure\<close> reads the row and then writes the new count. \<open>Inl\<close> is the
  \<open>RepoPersistenceError\<close> of a write that returned no row.
\<close>

definition isOutsideWindow :: "int \<Rightarrow> breaker_row \<Rightarrow> bool" where
  "isOutsideWindow now r = (case cb_last_failure_at r of Some t \<Rightarrow> now - t > FAILURE_WINDOW_MS | None \<Rightarrow> False)"

definition count_failure :: "breaker_row \<Rightarrow> int \<Rightarrow> breaker_row \<Rightarrow> breaker_row" where
  "count_failure existing now r =
     r\<lparr>cb_failure_count := (if isOutsideWindow now existing then 1 else cb_failure_count existing + 1),
       cb_last_failure_at := Some now\<rparr>"

definition incrementFailure :: "string \<Rightarrow> int \<Rightarrow> breaker_table \<Rightarrow> (string + breaker_row) \<times> breaker_table" where
  "incrementFailure pid now t =
     (case cb_getState t pid of
        Some existing \<Rightarrow>
          (case sql_returning (\<lambda>r. cb_project_id r = pid) (count_failure existing now) t of
             [] \<Rightarrow> Inl pid | r # _ \<Rightarrow> Inr r,
           sql_update (\<lambda>r. cb_project_id r = pid) (count_failure existing now) t)
      | None \<Rightarrow>
          (let r = (breaker_defaults pid)\<lparr>cb_failure_count := 1, cb_last_failure_at := Some now\<rparr>
           in (Inr r, t @ [r])))"

definition openBreaker :: "string \<Rightarrow> int \<Rightarrow> breaker_table \<Rightarrow> breaker_table" where
  "openBreaker pid now t =
     sql_upsert cb_project_id ((breaker_defaults pid)\<lparr>cb_state := Open, cb_opened_at := Some now\<rparr>)
       (\<lambda>r. r\<lparr>cb_state := Open, cb_opened_at := Some now\<rparr>) t"

definition halfOpen :: "string \<Rightarrow> breaker_table \<Rightarrow> breaker_table" where
  "halfOpen pid t =
     sql_upsert cb_project_id ((breaker_defaults pid)\<lparr>cb_state := Half_open\<rparr>) (\<lambda>r. r\<lparr>cb_state := Half_open\<rparr>) t"

definition cb_reset :: "string \<Rightarrow> int \<Rightarrow> breaker_table \<Rightarrow> breaker_table" where
  "cb_reset pid now t =
     sql_upsert cb_project_id
       ((breaker_defaults pid)\<lparr>cb_state := Closed, cb_failure_count := 0, cb_reset_at := Some now\<rparr>)
       (\<lambda>r. r\<lparr>cb_state := Closed, cb_failure_count := 0, cb_reset_at := Some now\<rparr>) t"

definition findAllOpen :: "breaker_table \<Rightarrow> string list" where
  "findAllOpen t = map cb_project_id (filter (\<lambda>r. cb_state r = Open) t)"

definition cooled_down :: "int \<Rightarrow> breaker_row \<Rightarrow> bool" where
  "cooled_down now r = (case cb_opened_at r of Some t \<Rightarrow> now - t > HALF_OPEN_DELAY_MS | None \<Rightarrow> False)"

definition isOpen :: "string \<Rightarrow> int \<Rightarrow> breaker_table \<Rightarrow> bool \<times> breaker_table" where
  "isOpen pid now t =
     (case cb_getState t pid of
        None \<Rightarrow> (False, t)
      | Some r \<Rightarrow>
          if cb_state r = Open \<and> cooled_down now r then (False, halfOpen pid t)
          else (cb_state r = Open, t))"

text \<open>\<open>recovery_max_per_day\<close> is the configured threshold, 5 when there is no configuration.\<close>

definition incrementAndCheckBreaker :: "int option \<Rightarrow> string \<Rightarrow> int \<Rightarrow> int \<Rightarrow> breaker_table \<Rightarrow> breaker_table" where
  "incrementAndCheckBreaker configured pid now now' t =
     (case incrementFailure pid now t of
        (Inl _, t') \<Rightarrow> t'
      | (Inr r, t') \<Rightarrow> if cb_failure_count r \<ge> or_else configured 5 then openBreaker pid now' t' else t')"

section \<open>The breaker of an LLM provider\<close>

record provider_state =
  ps_state :: breaker_state
  ps_failures :: "int list"
  ps_openedAt :: "int option"

record llm_config =
  failureThreshold :: nat
  windowMs :: int
  cooldownMs :: int

type_synonym llm_breaker = "(string, provider_state) js_map"

definition DEFAULT_CONFIG :: llm_config where
  "DEFAULT_CONFIG = \<lparr>failureThreshold = 3, windowMs = 300000, cooldownMs = 600000\<rparr>"

definition initial_provider :: provider_state where
  "initial_provider = \<lparr>ps_state = Closed, ps_failures = [], ps_openedAt = None\<rparr>"

definition getOrCreateState :: "string \<Rightarrow> llm_breaker \<Rightarrow> provider_state" where
  "getOrCreateState k m = (case js_get m k of Some s \<Rightarrow> s | None \<Rightarrow> initial_provider)"

definition pruneFailures :: "llm_config \<Rightarrow> int \<Rightarrow> provider_state \<Rightarrow> provider_state" where
  "pruneFailures cfg now s =
     (let fs = filter (\<lambda>t. now - t \<le> windowMs cfg) (ps_failures s);
          s' = s\<lparr>ps_failures := fs\<rparr>
      in if ps_state s = Closed \<and> fs = [] then s'\<lparr>ps_openedAt := None\<rparr> else s')"

text \<open>\<open>getOrCreateState\<close> puts the provider's object into the map and the methods mutate that object.\<close>

definition recordFailure :: "llm_config \<Rightarrow> string \<Rightarrow> bool \<Rightarrow> int \<Rightarrow> llm_breaker \<Rightarrow> llm_breaker" where
  "recordFailure cfg k isHealthCheck now m =
     (if isHealthCheck then m
      else let s = getOrCreateState k m;
               s1 = pruneFailures cfg now (s\<lparr>ps_failures := ps_failures s @ [now]\<rparr>);
               s2 = (if ps_state s1 = Half_open \<or> length (ps_failures s1) \<ge> failureThreshold cfg
                     then s1\<lparr>ps_state := Open, ps_openedAt := Some now\<rparr> else s1)
           in js_set k s2 m)"

definition recordSuccess :: "string \<Rightarrow> llm_breaker \<Rightarrow> llm_breaker" where
  "recordSuccess k m = js_set k initial_provider m"

definition canCall :: "llm_config \<Rightarrow> string \<Rightarrow> int \<Rightarrow> llm_breaker \<Rightarrow> bool \<times> llm_breaker" where
  "canCall cfg k now m =
     (let s = pruneFailures cfg now (getOrCreateState k m)
      in if ps_state s = Closed \<or> ps_state s = Half_open then (True, js_set k s m)
         else let openedAt = (case ps_openedAt s of Some t \<Rightarrow> t | None \<Rightarrow> now);
                  s' = s\<lparr>ps_openedAt := Some openedAt\<rparr>
              in if now - openedAt \<ge> cooldownMs cfg
                 then (True, js_set k (s'\<lparr>ps_state := Half_open, ps_openedAt := None\<rparr>) m)
                 else (False, js_set k s' m))"

record llm_status =
  ls_state :: breaker_state
  ls_failureCount :: nat
  ls_cooldownRemainingMs :: "int option"

definition getStatus :: "llm_config \<Rightarrow> string \<Rightarrow> int \<Rightarrow> llm_breaker \<Rightarrow> llm_status \<times> llm_breaker" where
  "getStatus cfg k now m =
     (let s = pruneFailures cfg now (getOrCreateState k m)
      in (\<lparr>ls_state = ps_state s, ls_failureCount = length (ps_failures s),
           ls_cooldownRemainingMs =
             (if ps_state s = Open
              then map_option (\<lambda>t. max 0 (cooldownMs cfg - (now - t))) (ps_openedAt s) else None)\<rparr>,
          js_set k s m))"

section \<open>The contract of a breaker\<close>

locale breaker =
  fixes state :: "'s \<Rightarrow> 'k \<Rightarrow> breaker_state"
    and opened_at :: "'s \<Rightarrow> 'k \<Rightarrow> int option"
    and admit :: "'k \<Rightarrow> int \<Rightarrow> 's \<Rightarrow> bool \<times> 's"
    and cooled :: "int \<Rightarrow> bool"
  assumes refuse: "\<lbrakk>state s k = Open; opened_at s k = Some t; \<not> cooled (now - t); admit k now s = (a, s')\<rbrakk>
        \<Longrightarrow> \<not> a \<and> state s' k = Open \<and> opened_at s' k = Some t"
    and probe: "\<lbrakk>state s k = Open; opened_at s k = Some t; cooled (now - t); admit k now s = (a, s')\<rbrakk>
        \<Longrightarrow> a \<and> state s' k = Half_open"
    and pass: "\<lbrakk>state s k \<noteq> Open; admit k now s = (a, s')\<rbrakk> \<Longrightarrow> a \<and> state s' k = state s k"
    and frame: "\<lbrakk>admit k now s = (a, s'); j \<noteq> k\<rbrakk> \<Longrightarrow> state s' j = state s j \<and> opened_at s' j = opened_at s j"
begin

text \<open>A sequence of checks: each names a key and a time.\<close>

fun admits :: "('k \<times> int) list \<Rightarrow> 's \<Rightarrow> bool list \<times> 's" where
  "admits [] s = ([], s)"
| "admits ((k, now) # cs) s =
     (let (a, s') = admit k now s; (as, s'') = admits cs s' in (a # as, s''))"

lemma stays_open:
  assumes "state s k = Open" and "opened_at s k = Some t" and "\<forall>now. (k, now) \<in> set cs \<longrightarrow> \<not> cooled (now - t)"
    and "admits cs s = (as, s')"
  shows "state s' k = Open \<and> opened_at s' k = Some t \<and> length as = length cs \<and>
     (\<forall>i < length cs. fst (cs ! i) = k \<longrightarrow> \<not> as ! i)"
  using assms
proof (induction cs arbitrary: s as)
  case Nil
  then show ?case by simp
next
  case (Cons c cs)
  obtain j now where c: "c = (j, now)" by fastforce
  obtain a s1 where a: "admit j now s = (a, s1)" by fastforce
  obtain as1 where as1: "admits cs s1 = (as1, s')" "as = a # as1"
    using Cons.prems(4) a by (auto simp: c split: prod.splits)
  have s1: "state s1 k = Open \<and> opened_at s1 k = Some t \<and> (j = k \<longrightarrow> \<not> a)"
  proof (cases "j = k")
    case True
    then show ?thesis using refuse [OF Cons.prems(1,2) _ a [unfolded True]] Cons.prems(3) c by auto
  next
    case False
    then show ?thesis using frame [OF a, of k] Cons.prems(1,2) by simp
  qed
  have "state s' k = Open \<and> opened_at s' k = Some t \<and> length as1 = length cs \<and>
     (\<forall>i < length cs. fst (cs ! i) = k \<longrightarrow> \<not> as1 ! i)"
    using Cons.IH [OF _ _ _ as1(1)] s1 Cons.prems(3) by auto
  with s1 show ?case by (auto simp: as1(2) c nth_Cons split: nat.splits)
qed

lemma probe_after_cooldown:
  assumes "state s k = Open" and "opened_at s k = Some t" and "\<forall>u. (k, u) \<in> set cs \<longrightarrow> \<not> cooled (u - t)"
    and "cooled (now - t)" and "admits cs s = (as, s')" and "admit k now s' = (a, s'')"
  shows "a \<and> state s'' k = Half_open"
  using stays_open [OF assms(1,2,3,5)] probe [OF _ _ assms(4,6)] by blast

end

section \<open>Both breakers fulfil it\<close>

definition cb_status :: "breaker_table \<Rightarrow> string \<Rightarrow> breaker_state" where
  "cb_status t pid = (case cb_getState t pid of Some r \<Rightarrow> cb_state r | None \<Rightarrow> Closed)"

definition cb_opened :: "breaker_table \<Rightarrow> string \<Rightarrow> int option" where
  "cb_opened t pid = (case cb_getState t pid of Some r \<Rightarrow> cb_opened_at r | None \<Rightarrow> None)"

definition cb_admit :: "string \<Rightarrow> int \<Rightarrow> breaker_table \<Rightarrow> bool \<times> breaker_table" where
  "cb_admit pid now t = (let (blocked, t') = isOpen pid now t in (\<not> blocked, t'))"

lemma getState_halfOpen [table_simps]:
  "cb_getState (halfOpen pid t) k = (if k = pid
     then Some ((case cb_getState t pid of None \<Rightarrow> breaker_defaults pid | Some r \<Rightarrow> r)\<lparr>cb_state := Half_open\<rparr>)
     else cb_getState t k)"
  by (simp add: cb_getState_def halfOpen_def row_of_sql_upsert breaker_defaults_def split: option.splits)

lemma getState_openBreaker [table_simps]:
  "cb_getState (openBreaker pid now t) k = (if k = pid
     then Some ((case cb_getState t pid of None \<Rightarrow> breaker_defaults pid | Some r \<Rightarrow> r)\<lparr>cb_state := Open, cb_opened_at := Some now\<rparr>)
     else cb_getState t k)"
  by (simp add: cb_getState_def openBreaker_def row_of_sql_upsert breaker_defaults_def split: option.splits)

interpretation repo: breaker cb_status cb_opened cb_admit "\<lambda>d. d > HALF_OPEN_DELAY_MS"
  by unfold_locales
    (auto simp: cb_status_def cb_opened_def cb_admit_def isOpen_def cooled_down_def getState_halfOpen
      split: option.splits if_splits)

definition llm_state :: "llm_breaker \<Rightarrow> string \<Rightarrow> breaker_state" where
  "llm_state m k = ps_state (getOrCreateState k m)"

definition llm_opened :: "llm_breaker \<Rightarrow> string \<Rightarrow> int option" where
  "llm_opened m k = ps_openedAt (getOrCreateState k m)"

lemma getOrCreateState_set [js_simps]:
  "getOrCreateState j (js_set k s m) = (if j = k then s else getOrCreateState j m)"
  by (simp add: getOrCreateState_def js_get_set)

lemma prune_open [simp]:
  "ps_state (pruneFailures cfg now s) = ps_state s"
  "ps_state s = Open \<Longrightarrow> ps_openedAt (pruneFailures cfg now s) = ps_openedAt s"
  by (simp_all add: pruneFailures_def Let_def)

lemma llm_is_breaker: "breaker llm_state llm_opened (canCall cfg) (\<lambda>d. d \<ge> cooldownMs cfg)"
  by unfold_locales
    (auto simp: llm_state_def llm_opened_def canCall_def getOrCreateState_set Let_def
      split: if_splits option.splits, (metis breaker_state.exhaust)+)

interpretation llm: breaker llm_state llm_opened "canCall cfg" "\<lambda>d. d \<ge> cooldownMs cfg" for cfg
  by (rule llm_is_breaker)

section \<open>Counting failures\<close>

text \<open>
  The length of the current run of failures, newest first: a run ends where two consecutive
  failures are more than 24 hours apart.
\<close>

fun run_len :: "int list \<Rightarrow> int" where
  "run_len [] = 0"
| "run_len [t] = 1"
| "run_len (t # u # ts) = (if t - u > FAILURE_WINDOW_MS then 1 else run_len (u # ts) + 1)"

text \<open>Failures recorded one after the other: the time of the count and the time of the opening.\<close>

fun record_failures :: "int option \<Rightarrow> string \<Rightarrow> (int \<times> int) list \<Rightarrow> breaker_table \<Rightarrow> breaker_table" where
  "record_failures c pid [] t = t"
| "record_failures c pid ((now, now') # ts) t = record_failures c pid ts (incrementAndCheckBreaker c pid now now' t)"

lemma record_failures_snoc:
  "record_failures c pid (ts @ [(now, now')]) t = incrementAndCheckBreaker c pid now now' (record_failures c pid ts t)"
  by (induction ts arbitrary: t) auto

lemma incrementFailure_new:
  assumes "cb_getState t pid = None"
  shows "incrementFailure pid now t =
     (Inr ((breaker_defaults pid)\<lparr>cb_failure_count := 1, cb_last_failure_at := Some now\<rparr>),
      t @ [(breaker_defaults pid)\<lparr>cb_failure_count := 1, cb_last_failure_at := Some now\<rparr>])"
  using assms by (simp add: incrementFailure_def Let_def)

lemma incrementFailure_old:
  assumes "cb_getState t pid = Some r"
  shows "\<exists>t'. incrementFailure pid now t = (Inr (count_failure r now r), t') \<and>
     cb_getState t' pid = Some (count_failure r now r)"
proof -
  have row: "row_of cb_project_id pid t = Some r" using assms by (simp add: cb_getState_def)
  have keep: "cb_project_id (count_failure r now q) = cb_project_id q" for q by (simp add: count_failure_def)
  have "\<exists>us. filter (\<lambda>q. cb_project_id q = pid) t = r # us"
    using row by (induction t) (auto split: if_splits)
  then have "\<exists>us. sql_returning (\<lambda>q. cb_project_id q = pid) (count_failure r now) t = count_failure r now r # us"
    by (auto simp: sql_returning_def)
  moreover have "cb_getState (sql_update (\<lambda>q. cb_project_id q = pid) (count_failure r now) t) pid = Some (count_failure r now r)"
    using row row_of_key [OF row] by (simp add: cb_getState_def row_of_sql_update keep)
  ultimately show ?thesis using assms by (auto simp: incrementFailure_def)
qed

section \<open>Properties\<close>

text \<open>
  The breaker of a project opens at its threshold. After recovery failures at the times \<open>ts\<close>,
  from an empty table, the row counts the failures of the current run (a gap of more than 24
  hours starts a new one), and the breaker is open exactly when some failure brought the run to
  the threshold: \<open>recovery_max_per_day\<close>, or 5 where it is not configured.
\<close>

theorem breaker_opens_at_threshold:
  assumes "ts \<noteq> []"
  shows "\<exists>r. cb_getState (record_failures c pid ts []) pid = Some r \<and>
     cb_failure_count r = run_len (rev (map fst ts)) \<and> cb_last_failure_at r = Some (fst (last ts)) \<and>
     cb_state r = (if \<exists>k. 0 < k \<and> k \<le> length ts \<and> run_len (rev (map fst (take k ts))) \<ge> or_else c 5
                   then Open else Closed) \<and>
     (run_len (rev (map fst ts)) \<ge> or_else c 5 \<longrightarrow> cb_opened_at r = Some (snd (last ts)))"
  using assms
proof (induction ts rule: rev_induct)
  case Nil
  then show ?case by simp
next
  case (snoc x ts)
  obtain now now' where x: "x = (now, now')" by fastforce
  let ?hit = "\<lambda>us k. 0 < k \<and> k \<le> length us \<and> run_len (rev (map fst (take k us))) \<ge> or_else c 5"
  let ?n = "run_len (rev (map fst (ts @ [x])))"
  have hits: "(\<exists>k. ?hit (ts @ [x]) k) \<longleftrightarrow> (\<exists>k. ?hit ts k) \<or> ?n \<ge> or_else c 5"
  proof
    assume "\<exists>k. ?hit (ts @ [x]) k"
    then obtain k where k: "?hit (ts @ [x]) k" by blast
    show "(\<exists>k. ?hit ts k) \<or> ?n \<ge> or_else c 5"
    proof (cases "k \<le> length ts")
      case True
      with k have "?hit ts k" by simp
      then show ?thesis by blast
    next
      case False
      with k have "k = length (ts @ [x])" by simp
      with k have "?n \<ge> or_else c 5" by (simp only: take_all order_refl)
      then show ?thesis by blast
    qed
  next
    assume "(\<exists>k. ?hit ts k) \<or> ?n \<ge> or_else c 5"
    then show "\<exists>k. ?hit (ts @ [x]) k"
    proof
      assume "\<exists>k. ?hit ts k"
      then obtain k where k: "?hit ts k" by blast
      then have "?hit (ts @ [x]) k" by simp
      then show ?thesis by blast
    next
      assume n: "?n \<ge> or_else c 5"
      have "?hit (ts @ [x]) (length (ts @ [x]))" using n by (simp only: take_all order_refl) simp
      then show ?thesis by blast
    qed
  qed
  show ?case
  proof (cases "ts = []")
    case True
    show ?thesis
      unfolding hits
      by (simp add: True x incrementAndCheckBreaker_def incrementFailure_new cb_getState_def breaker_defaults_def
          openBreaker_def sql_upsert_def sql_update_def)
  next
    case False
    from snoc.IH [OF False] obtain r where r: "cb_getState (record_failures c pid ts []) pid = Some r"
      "cb_failure_count r = run_len (rev (map fst ts))" "cb_last_failure_at r = Some (fst (last ts))"
      "cb_state r = (if \<exists>k. ?hit ts k then Open else Closed)" by blast
    obtain t' where t': "incrementFailure pid now (record_failures c pid ts []) = (Inr (count_failure r now r), t')"
      "cb_getState t' pid = Some (count_failure r now r)"
      using incrementFailure_old [OF r(1)] by blast
    obtain us u where us: "ts = us @ [u]" using False by (meson rev_exhaust)
    have n: "cb_failure_count (count_failure r now r) = ?n"
      using r(2,3) by (cases "rev us") (auto simp: count_failure_def isOutsideWindow_def us x)
    have "cb_getState (record_failures c pid (ts @ [x]) []) pid =
        Some (if ?n \<ge> or_else c 5 then (count_failure r now r)\<lparr>cb_state := Open, cb_opened_at := Some now'\<rparr>
              else count_failure r now r)"
      using t' n by (simp add: x record_failures_snoc incrementAndCheckBreaker_def getState_openBreaker del: rev.simps rev_append)
    then show ?thesis
      using n r(4) unfolding hits by (auto simp: x count_failure_def simp del: rev_append)
  qed
qed

theorem breaker_opens_at_threshold_witness:
  "\<exists>r. cb_getState (record_failures (Some 2) ''p'' [(0, 0), (100000000, 100000000), (100000005, 100000009)] []) ''p'' = Some r \<and>
     cb_failure_count r = 2 \<and> cb_state r = Open \<and> cb_opened_at r = Some 100000009"
proof -
  have run: "run_len [100000005, 100000000, 0] = 2" by (simp add: FAILURE_WINDOW_MS_def)
  have "\<exists>k. 0 < k \<and> k \<le> length [(0, 0), (100000000, 100000000), (100000005, 100000009 :: int)] \<and>
     run_len (rev (map fst (take k [(0, 0), (100000000, 100000000), (100000005, 100000009 :: int)]))) \<ge> or_else (Some 2) 5"
    using run by (intro exI [of _ 3]) (simp add: or_else_def)
  with breaker_opens_at_threshold [of "[(0, 0), (100000000, 100000000), (100000005, 100000009)]" "Some 2" "''p''"] run
  show ?thesis by (fastforce simp: or_else_def simp del: run_len.simps)
qed

text \<open>A sequence of \<open>isOpen\<close> calls, of any projects, at given times.\<close>

fun isOpen_all :: "(string \<times> int) list \<Rightarrow> breaker_table \<Rightarrow> bool list \<times> breaker_table" where
  "isOpen_all [] t = ([], t)"
| "isOpen_all ((pid, now) # cs) t = (let (b, t') = isOpen pid now t; (bs, t'') = isOpen_all cs t' in (b # bs, t''))"

lemma admits_isOpen_all: "repo.admits cs t = (let (bs, t') = isOpen_all cs t in (map Not bs, t'))"
proof (induction cs t rule: isOpen_all.induct)
  case (2 pid now cs t)
  then show ?case
    by (cases "isOpen pid now t") (auto simp: cb_admit_def [of pid now t] split: prod.splits)
qed simp

text \<open>
  An opened breaker blocks for 30 minutes and then lets a probe through. After \<open>openBreaker\<close> at
  \<open>t0\<close>, every \<open>isOpen\<close> call for the project up to 30 minutes later answers true, whatever
  other calls happen between them; the first one after that answers false and leaves the breaker half open.
\<close>

theorem breaker_blocks_then_probes:
  assumes "\<forall>now. (pid, now) \<in> set cs \<longrightarrow> now - t0 \<le> HALF_OPEN_DELAY_MS" and "now - t0 > HALF_OPEN_DELAY_MS"
    and "isOpen_all cs (openBreaker pid t0 t) = (bs, t1)" and "isOpen pid now t1 = (b, t2)"
  shows "(\<forall>i < length cs. fst (cs ! i) = pid \<longrightarrow> bs ! i) \<and> \<not> b \<and> cb_status t2 pid = Half_open"
proof -
  have s: "cb_status (openBreaker pid t0 t) pid = Open" "cb_opened (openBreaker pid t0 t) pid = Some t0"
    by (simp_all add: cb_status_def cb_opened_def getState_openBreaker split: option.splits)
  have c: "\<forall>now. (pid, now) \<in> set cs \<longrightarrow> \<not> HALF_OPEN_DELAY_MS < now - t0" using assms(1) by auto
  have run: "repo.admits cs (openBreaker pid t0 t) = (map Not bs, t1)"
    using assms(3) by (simp add: admits_isOpen_all)
  have "cb_admit pid now t1 = (\<not> b, t2)" using assms(4) by (simp add: cb_admit_def)
  from repo.probe_after_cooldown [OF s c assms(2) run this] repo.stays_open [OF s c run]
  show ?thesis by auto
qed

theorem breaker_blocks_then_probes_witness:
  "fst (isOpen_all [(''p'', 1800000), (''p'', 1800001)] (openBreaker ''p'' 0 [])) = [True, False]"
  using breaker_blocks_then_probes [of "''p''" "[(''p'', 1800000)]" 0 1800001 "[]", OF _ _ surjective_pairing surjective_pairing]
  by (auto simp: HALF_OPEN_DELAY_MS_def split: prod.splits)

text \<open>A sequence of \<open>canCall\<close> checks.\<close>

fun canCall_all :: "llm_config \<Rightarrow> (string \<times> int) list \<Rightarrow> llm_breaker \<Rightarrow> bool list \<times> llm_breaker" where
  "canCall_all cfg [] m = ([], m)"
| "canCall_all cfg ((k, now) # cs) m = (let (a, m') = canCall cfg k now m; (as, m'') = canCall_all cfg cs m' in (a # as, m''))"

lemma admits_canCall_all: "llm.admits cfg cs m = canCall_all cfg cs m"
  by (induction cfg cs m rule: canCall_all.induct) (auto split: prod.splits)

text \<open>
  The breaker of an LLM provider. A failure (not of a health check) opens it exactly when it was
  half open or open, or the failures within the window, this one included, reach the threshold. Once opened at \<open>t0\<close>, every
  \<open>canCall\<close> for the provider within the cooldown refuses, whatever calls of other providers
  happen between them, and the first one after the cooldown is let through, half open.
\<close>

theorem llm_breaker_cycle:
  assumes "0 \<le> windowMs cfg" and "m1 = recordFailure cfg k False t0 m"
    and "\<forall>u. (k, u) \<in> set cs \<longrightarrow> u - t0 < cooldownMs cfg" and "now - t0 \<ge> cooldownMs cfg"
    and "canCall_all cfg cs m1 = (as, m2)" and "canCall cfg k now m2 = (a, m3)"
  shows "(llm_state m1 k = Open \<longleftrightarrow> llm_state m k \<noteq> Closed \<or>
       length (filter (\<lambda>t. t0 - t \<le> windowMs cfg) (ps_failures (getOrCreateState k m))) + 1 \<ge> failureThreshold cfg) \<and>
     (llm_state m k \<noteq> Open \<and> llm_state m1 k = Open \<longrightarrow>
        (\<forall>i < length cs. fst (cs ! i) = k \<longrightarrow> \<not> as ! i) \<and> a \<and> llm_state m3 k = Half_open)"
proof -
  let ?s = "getOrCreateState k m"
  have opened: "llm_state m1 k = Open \<longleftrightarrow> llm_state m k \<noteq> Closed \<or>
       length (filter (\<lambda>t. t0 - t \<le> windowMs cfg) (ps_failures ?s)) + 1 \<ge> failureThreshold cfg"
    using assms(1,2) by (cases "ps_state ?s")
      (auto simp: recordFailure_def llm_state_def getOrCreateState_set pruneFailures_def Let_def)
  have at: "llm_opened m1 k = Some t0" if "llm_state m k \<noteq> Open" "llm_state m1 k = Open"
    using that assms(2) by (auto simp: recordFailure_def llm_state_def llm_opened_def getOrCreateState_set Let_def split: if_splits)
  have c: "\<forall>u. (k, u) \<in> set cs \<longrightarrow> \<not> cooldownMs cfg \<le> u - t0" using assms(3) by auto
  have "(\<forall>i < length cs. fst (cs ! i) = k \<longrightarrow> \<not> as ! i) \<and> a \<and> llm_state m3 k = Half_open"
    if "llm_state m k \<noteq> Open" "llm_state m1 k = Open"
    using llm.stays_open [OF that(2) at [OF that] c, of as m2]
      llm.probe_after_cooldown [OF that(2) at [OF that] c assms(4) _ assms(6)] assms(5)
    by (auto simp: admits_canCall_all)
  with opened show ?thesis by blast
qed

theorem llm_breaker_cycle_witness:
  "fst (canCall_all DEFAULT_CONFIG [(''a'', 600001), (''b'', 600002), (''a'', 600002)]
     (recordFailure DEFAULT_CONFIG ''a'' False 2 (recordFailure DEFAULT_CONFIG ''a'' False 1 (recordFailure DEFAULT_CONFIG ''a'' False 0 []))))
   = [False, True, True]"
  using llm_breaker_cycle [of DEFAULT_CONFIG _ "''a''" 2
      "recordFailure DEFAULT_CONFIG ''a'' False 1 (recordFailure DEFAULT_CONFIG ''a'' False 0 [])"
      "[(''a'', 600001), (''b'', 600002)]" 600002]
  by (simp add: DEFAULT_CONFIG_def recordFailure_def canCall_def getOrCreateState_def initial_provider_def pruneFailures_def
      llm_state_def Let_def)

end
