(* ===== verification/Recovery_Policy.thy ===== *)
theory Recovery_Policy
  imports Deploy_Lock Circuit_Breaker
begin

text \<open>
  The recovery policy (\<open>src/src/monitor/recovery-policy.ts\<close>): whether an automatic recovery may start or
  continue, and the wrapper that turns a failing stage into a degraded event.

  The database of the context may be unreachable (\<open>None\<close>). The circuit-breaker lookup and the
  budget check are optional, as in the code; the lookup may change the breaker's state (it
  half-opens a breaker whose delay has passed), so its state is threaded through.

  Shown: the exact conditions of eligibility per trigger, and that no recovery is eligible within the 30
  minutes that follow the acquisition of the project's deploy lock while it is held and was not dropped by a
  release without a session.
\<close>

section \<open>Eligibility\<close>

definition DEFAULT_LOCK_STALE_MS :: int where "DEFAULT_LOCK_STALE_MS = 1800000"

datatype eligibility_reason = Eligible | Project_not_found | Archived | Is_stopped | Recovering_in_progress
  | Circuit_breaker_open | Global_budget_exceeded | Deploy_in_progress | Partial_failure_state_transition

datatype recovery_trigger = Deploy_failed | Container_failure | Health_degraded | Continue_check | Ops_sequence

record eligibility_result =
  er_eligible :: bool
  er_reason :: eligibility_reason
  er_message :: "string option"

record 'b recovery_ctx =
  rc_db :: "store option"
  rc_isCircuitBreakerOpen :: "(string \<Rightarrow> 'b \<Rightarrow> bool \<times> 'b) option"
  rc_isGlobalBudgetExceeded :: "bool option"
  rc_lockStaleMs :: "int option"

text \<open>The lock time: absent or empty (\<open>None\<close>), not a date (\<open>Some None\<close>), or a time.\<close>

definition isLockStale :: "int option option \<Rightarrow> int \<Rightarrow> int \<Rightarrow> bool" where
  "isLockStale lockAt lockStaleMs now =
     (case lockAt of
        None \<Rightarrow> False
      | Some None \<Rightarrow> False
      | Some (Some ts) \<Rightarrow> now - ts \<ge> lockStaleMs)"

fun status_text :: "service_status \<Rightarrow> string" where
  "status_text (Status Running) = ''running''"
| "status_text (Status Stopped) = ''stopped''"
| "status_text (Status Building) = ''building''"
| "status_text (Status Failed) = ''error''"
| "status_text (Status Recovering) = ''recovering''"
| "status_text Idle = ''idle''"

definition blocked :: "eligibility_reason \<Rightarrow> string option \<Rightarrow> eligibility_result" where
  "blocked reason message = \<lparr>er_eligible = False, er_reason = reason, er_message = message\<rparr>"

text \<open>The checks on the breaker and the budget, which the operations sequence skips.\<close>

definition check_budget :: "recovery_trigger \<Rightarrow> 'b recovery_ctx \<Rightarrow> eligibility_result" where
  "check_budget trigger ctx =
     (if trigger \<noteq> Ops_sequence \<and> rc_isGlobalBudgetExceeded ctx = Some True
      then blocked Global_budget_exceeded (Some ''Global LLM budget exceeded'')
      else \<lparr>er_eligible = True, er_reason = Eligible, er_message = None\<rparr>)"

definition check_breaker :: "string \<Rightarrow> recovery_trigger \<Rightarrow> 'b recovery_ctx \<Rightarrow> 'b \<Rightarrow> eligibility_result \<times> 'b" where
  "check_breaker projectId trigger ctx b =
     (case rc_isCircuitBreakerOpen ctx of
        None \<Rightarrow> (check_budget trigger ctx, b)
      | Some lookup \<Rightarrow>
          if trigger = Ops_sequence then (check_budget trigger ctx, b)
          else (case lookup projectId b of
                  (True, b') \<Rightarrow> (blocked Circuit_breaker_open (Some ''Circuit breaker is open''), b')
                | (False, b') \<Rightarrow> (check_budget trigger ctx, b')))"

definition checkRecoveryEligibility :: "string \<Rightarrow> recovery_trigger \<Rightarrow> 'b recovery_ctx \<Rightarrow> int \<Rightarrow> 'b
    \<Rightarrow> eligibility_result \<times> 'b" where
  "checkRecoveryEligibility projectId trigger ctx now b =
     (let lockStaleMs = or_else (rc_lockStaleMs ctx) DEFAULT_LOCK_STALE_MS
      in case rc_db ctx of
           None \<Rightarrow> (blocked Project_not_found (Some ''Project state lookup failed''), b)
         | Some db \<Rightarrow>
             (case getProject db projectId of
                None \<Rightarrow> (blocked Project_not_found None, b)
              | Some project \<Rightarrow>
                  if truthy (p_archived_at project) then (blocked Archived (Some ''Project is archived''), b)
                  else let status = v_status (vr_view (loadServiceViewRecord db project));
                           statusMessage = (if status = Idle then ''unknown'' else status_text status)
                       in if status = Status Stopped then (blocked Is_stopped (Some ''Project is stopped''), b)
                          else if truthy (p_deploy_lock_session project) \<and>
                              \<not> isLockStale (map_option Some (p_deploy_lock_at project)) lockStaleMs now
                          then (blocked Deploy_in_progress (Some ''Deploy lock is held by another process''), b)
                          else if trigger = Continue_check \<and> status \<noteq> Status Running \<and> status \<noteq> Status Recovering
                          then (blocked Recovering_in_progress
                                 (Some (''Project is in status '' @ statusMessage @ '', cannot continue recovery'')), b)
                          else check_breaker projectId trigger ctx b))"

section \<open>Stages\<close>

datatype recovery_stage = Enqueue | Transition | Emit | Execute

record degraded_event =
  de_stage :: recovery_stage
  de_projectId :: string
  de_reason :: string

datatype 'a stage_result = Stage_ok 'a | Stage_failed string

text \<open>
  A stage throws (\<open>Inl\<close>, with the error's message) or returns. \<open>emit_ok\<close> says whether emitting the event
  succeeds; a failure to emit is logged and nothing else.
\<close>

definition withRecoveryStage :: "recovery_stage \<Rightarrow> string \<Rightarrow> bool \<Rightarrow> ('s \<Rightarrow> (string + 'a) \<times> 's) \<Rightarrow> 's
    \<Rightarrow> 'a stage_result \<times> degraded_event list \<times> 's" where
  "withRecoveryStage stage projectId emit_ok fn s =
     (case fn s of
        (Inr value, s') \<Rightarrow> (Stage_ok value, [], s')
      | (Inl reason, s') \<Rightarrow>
          (Stage_failed reason,
           if emit_ok then [\<lparr>de_stage = stage, de_projectId = projectId, de_reason = reason\<rparr>] else [], s'))"

section \<open>Properties\<close>

text \<open>
  Who may recover. A recovery is eligible exactly when the project is found and is not archived
  or stopped, its deploy lock is free or stale, a continued recovery finds it running or
  recovering, and - except for the operations sequence - the breaker is not open and the
  budget is not exceeded. The reason is the first of these that fails, and the breaker is consulted only when
  nothing before it blocks.
\<close>

theorem checkRecoveryEligibility_iff:
  assumes "checkRecoveryEligibility pid trigger ctx now b = (res, b')"
  shows "(er_eligible res \<longleftrightarrow>
       (\<exists>db p st. rc_db ctx = Some db \<and> getProject db pid = Some p \<and> \<not> truthy (p_archived_at p) \<and>
          st = v_status (loadServiceView db p) \<and> st \<noteq> Status Stopped \<and>
          (truthy (p_deploy_lock_session p) \<longrightarrow>
             (\<exists>t. p_deploy_lock_at p = Some t \<and> now - t \<ge> or_else (rc_lockStaleMs ctx) 1800000)) \<and>
          (trigger = Continue_check \<longrightarrow> st \<in> {Status Running, Status Recovering}) \<and>
          (trigger \<noteq> Ops_sequence \<longrightarrow>
             (\<forall>lookup. rc_isCircuitBreakerOpen ctx = Some lookup \<longrightarrow> \<not> fst (lookup pid b)) \<and>
             rc_isGlobalBudgetExceeded ctx \<noteq> Some True))) \<and>
     (er_eligible res \<longleftrightarrow> er_reason res = Eligible) \<and>
     (b' \<noteq> b \<longrightarrow> (\<exists>lookup. rc_isCircuitBreakerOpen ctx = Some lookup \<and> b' = snd (lookup pid b)) \<and>
        er_reason res \<in> {Eligible, Circuit_breaker_open, Global_budget_exceeded})"
proof -
  have brk: "check_breaker pid trigger ctx b = (res, b') \<Longrightarrow>
      (er_eligible res \<longleftrightarrow> (trigger \<noteq> Ops_sequence \<longrightarrow>
             (\<forall>lookup. rc_isCircuitBreakerOpen ctx = Some lookup \<longrightarrow> \<not> fst (lookup pid b)) \<and>
             rc_isGlobalBudgetExceeded ctx \<noteq> Some True)) \<and>
      (er_eligible res \<longleftrightarrow> er_reason res = Eligible) \<and>
      (b' \<noteq> b \<longrightarrow> (\<exists>lookup. rc_isCircuitBreakerOpen ctx = Some lookup \<and> b' = snd (lookup pid b)) \<and>
        er_reason res \<in> {Eligible, Circuit_breaker_open, Global_budget_exceeded})"
    by (auto simp: check_breaker_def check_budget_def blocked_def split: option.splits if_splits prod.splits bool.splits)
  have stale: "isLockStale (map_option Some t) ms now \<longleftrightarrow> (\<exists>u. t = Some u \<and> now - u \<ge> ms)" for t ms
    by (cases t) (auto simp: isLockStale_def)
  show ?thesis
  proof (cases "\<exists>db p. rc_db ctx = Some db \<and> getProject db pid = Some p")
    case False
    with assms show ?thesis by (auto simp: checkRecoveryEligibility_def blocked_def Let_def split: option.splits)
  next
    case True
    then obtain db p where p: "rc_db ctx = Some db" "getProject db pid = Some p" by blast
    show ?thesis
      using assms brk
      by (auto simp: checkRecoveryEligibility_def blocked_def Let_def p loadServiceView_def stale DEFAULT_LOCK_STALE_MS_def
          split: if_splits)
  qed
qed

definition locked_ctx :: "breaker_table recovery_ctx" where
  "locked_ctx = \<lparr>rc_db = Some (ls_db locked_example), rc_isCircuitBreakerOpen = Some (\<lambda>pid t. isOpen pid 1800005 t),
     rc_isGlobalBudgetExceeded = Some False, rc_lockStaleMs = None\<rparr>"

lemma locked_project: "\<exists>p. getProject (ls_db locked_example) ''p'' = Some p \<and> p_archived_at p = None \<and>
   p_deploy_lock_session p = Some ''deploy-1'' \<and> p_deploy_lock_at p = Some 5 \<and>
   v_status (loadServiceView (ls_db locked_example) p) = Idle"
proof -
  have svs: "services (ls_db locked_example) = []" by (simp add: locked_example_def lock_update_def)
  have get: "getProject (ls_db locked_example) ''p'' = Some (take_lock ''deploy-1'' 5 (new_project_row ''p''))"
    by (simp add: getProject_def locked_example_row hydrateDeployable_def svs)
  show ?thesis unfolding get
    by (simp add: take_lock_def new_project_row_def loadServiceView_def loadServiceViewRecord_def getDeployableForProject_def
        getService_def svs v_status_from_rows coalesce_def Let_def)
qed

theorem checkRecoveryEligibility_iff_witness:
  "er_eligible (fst (checkRecoveryEligibility ''p'' Deploy_failed locked_ctx 1800005 [])) \<and>
   \<not> er_eligible (fst (checkRecoveryEligibility ''p'' Deploy_failed locked_ctx 1800004 [])) \<and>
   \<not> er_eligible (fst (checkRecoveryEligibility ''p'' Continue_check locked_ctx 1800005 []))"
proof -
  obtain p where p: "getProject (ls_db locked_example) ''p'' = Some p" "p_archived_at p = None"
   "p_deploy_lock_session p = Some ''deploy-1''" "p_deploy_lock_at p = Some 5" "v_status (loadServiceView (ls_db locked_example) p) = Idle"
    using locked_project by blast
  show ?thesis
    using checkRecoveryEligibility_iff [OF surjective_pairing, of "''p''" Deploy_failed locked_ctx 1800005 "[]"]
      checkRecoveryEligibility_iff [OF surjective_pairing, of "''p''" Deploy_failed locked_ctx 1800004 "[]"]
      checkRecoveryEligibility_iff [OF surjective_pairing, of "''p''" Continue_check locked_ctx 1800005 "[]"]
    by (simp add: locked_ctx_def p or_else_def isOpen_def cb_getState_def)
qed

text \<open>
  C16. No recovery during a deploy. In every interleaving of the lock's statements, of the releases
  without a session and of the other writes, while a session that took the deploy lock of a project less than 30
  minutes ago has not released it, and the lock was not dropped since by a release without a session
  or by the deletion of the project, no recovery of the project is eligible, whatever its trigger; the breaker
  is not consulted.
\<close>

theorem no_recovery_while_deploying:
  assumes "lock_reachable y" and "(pid, s, t) \<in> set (ls_held y)" and "s \<noteq> []" and "ls_now y - t < 30 * 60000"
    and "\<forall>u. (pid, u) \<in> set (ls_dropped y) \<longrightarrow> u < t"
    and "rc_db ctx = Some (ls_db y)" and "rc_lockStaleMs ctx = None"
    and "checkRecoveryEligibility pid trigger ctx (ls_now y) b = (res, b')"
  shows "\<not> er_eligible res \<and> er_reason res \<in> {Archived, Is_stopped, Deploy_in_progress} \<and> b' = b"
proof -
  have "held_ok (ls_db y) (ls_now y) (pid, s, t)"
    using lock_reachable_inv [OF assms(1)] assms(2,5) unfolding lock_inv_def by fastforce
  then obtain u where u: "lock_of (ls_db y) pid = Some (Some s, Some u)" "t \<le> u"
    using assms(4) by (auto simp: DEFAULT_LOCK_MINUTES_def)
  then obtain p where p: "getProject (ls_db y) pid = Some p" "p_deploy_lock_session p = Some s" "p_deploy_lock_at p = Some u"
    by (auto simp: lock_of_def getProject_def)
  have "\<not> isLockStale (map_option Some (p_deploy_lock_at p)) 1800000 (ls_now y)"
    using assms(4) u(2) p(3) by (simp add: isLockStale_def)
  with assms(3,6,7,8) p(1,2) show ?thesis
    by (auto simp: checkRecoveryEligibility_def blocked_def Let_def or_else_def DEFAULT_LOCK_STALE_MS_def split: if_splits)
qed

theorem no_recovery_while_deploying_witness:
  "er_reason (fst (checkRecoveryEligibility ''p'' Container_failure locked_ctx 5 [])) \<in> {Archived, Is_stopped, Deploy_in_progress}"
  using no_recovery_while_deploying [OF locked_example_reachable, of "''p''" "''deploy-1''" 5 locked_ctx Container_failure "[]",
      OF _ _ _ _ _ _ surjective_pairing]
  by (simp add: locked_ctx_def) (simp add: locked_example_def)

text \<open>
  The two windows differ at their end. Exactly 30 minutes after a lock was taken it is still held -
  another session cannot acquire it - and yet a recovery of the project is eligible.
\<close>

theorem lock_windows_differ:
  "\<exists>y ctx. lock_reachable y \<and> (''p'', ''deploy-1'', 5) \<in> set (ls_held y) \<and> ls_now y = 1800005 \<and>
     rc_db ctx = Some (ls_db y) \<and> rc_lockStaleMs ctx = None \<and>
     \<not> fst (acquireDeployLock ''p'' ''deploy-2'' (ls_now y) (ls_db y)) \<and>
     er_eligible (fst (checkRecoveryEligibility ''p'' Deploy_failed (ctx :: breaker_table recovery_ctx) (ls_now y) []))"
proof -
  let ?y = "locked_example\<lparr>ls_now := 1800005\<rparr>"
  have "lock_reachable ?y"
    using lock_reachable.step [OF locked_example_reachable lock_step.tick [of 1800000]]
    by (simp add: locked_example_def)
  moreover have "\<not> fst (acquireDeployLock ''p'' ''deploy-2'' 1800005 (ls_db locked_example))"
    by (simp add: acquireDeployLock_def cleanExpiredDeployLocks_def lock_expired_def DEFAULT_LOCK_MINUTES_def lock_update_def
        sql_returning_def sql_update_def lock_free_for_def locked_example_def new_project_row_def take_lock_def Let_def)
  moreover have "er_eligible (fst (checkRecoveryEligibility ''p'' Deploy_failed locked_ctx 1800005 []))"
    using locked_project
    by (auto simp: checkRecoveryEligibility_def locked_ctx_def Let_def loadServiceView_def isLockStale_def or_else_def
        DEFAULT_LOCK_STALE_MS_def check_breaker_def check_budget_def isOpen_def cb_getState_def)
  ultimately show ?thesis
    by (intro exI [of _ ?y] exI [of _ locked_ctx]) (simp add: locked_ctx_def, simp add: locked_example_def)
qed

end
