(* ===== verification/Scope_Policy.thy ===== *)
theory Scope_Policy
  imports Project_Store Json
begin

text \<open>
  The scope policy of MCP tokens (\<open>src/src/mcp/scope-policy.ts\<close>): a token may be scoped to one project or one
  service, and a tool call with it must name only targets inside that scope.

  The arguments of a call are a JSON record. The database is the store of projects and services
  with the lookups the policy makes of the other tables: deploy logs, project environments,
  briefings and action runs. A lookup that throws is \<open>Inl\<close>; the calls are read-only, so evaluating them in
  order and stopping at the first error is the sequence of the code.

  Shown: a call that is not rejected names, by every selector the policy knows, only
  resources inside the token's scope, and at least one; and the check made again at execution agrees.
\<close>

section \<open>Data\<close>

datatype scope_kind = Sc_org | Sc_project | Sc_service

record request_identity =
  id_kind :: "scope_kind option"
  id_project :: "string option"
  id_service :: "string option"

datatype tool_target = T_mcp | T_web

record scope_target =
  tg_projectId :: "string option"
  tg_serviceId :: "string option"
  tg_resolvedFrom :: string

record scope_rejection =
  rj_identity :: request_identity
  rj_target :: "scope_target option"
  rj_reason :: string

datatype scope_error = ProjectNotFound string | ServiceNotFound string | EnvironmentNotFound string

record run_row =
  rr_project_id :: string
  rr_plan :: "stored_text option"

record scope_db =
  sd_store :: store
  sd_deployLogs :: "(string, string) js_map"
  sd_environments :: "(string, string) js_map"
  sd_briefings :: "(string, string \<times> string option) js_map"
  sd_actionRuns :: "(string, run_row) js_map"

section \<open>Resolving targets\<close>

definition TARGETLESS_SCOPED_ACTION_ALLOWLIST :: "string list" where
  "TARGETLESS_SCOPED_ACTION_ALLOWLIST = [''get_instance_info'', ''list_projects'']"

fun readString :: "json_record \<Rightarrow> string list \<Rightarrow> string" where
  "readString args [] = []"
| "readString args (key # keys) =
     (case js_get args key of
        Some (JStr v) \<Rightarrow> if js_trim v \<noteq> [] then js_trim v else readString args keys
      | _ \<Rightarrow> readString args keys)"

declare readString.simps [simp del]

definition isManagedKind :: "service_kind \<Rightarrow> bool" where
  "isManagedKind k \<longleftrightarrow> k \<in> set [KPostgres, KMysql, KRedis, KMongo, KNeo4j, KMinio]"

definition isScopedIdentity :: "request_identity option \<Rightarrow> bool" where
  "isScopedIdentity i \<longleftrightarrow> (\<exists>x \<in> set_option i. id_kind x = Some Sc_project \<or> id_kind x = Some Sc_service)"

definition resolveProjectIdByName :: "scope_db \<Rightarrow> string \<Rightarrow> scope_error + string option" where
  "resolveProjectIdByName db name =
     (if name = [] then Inr None
      else case coalesce (getProject (sd_store db) name) (getProjectByName (sd_store db) name) of
             None \<Rightarrow> Inl (ProjectNotFound name)
           | Some p \<Rightarrow> Inr (Some (p_id p)))"

definition strip_slash :: "string \<Rightarrow> string" where
  "strip_slash v = (case v of c # cs \<Rightarrow> if c = CHR ''/'' then cs else v | [] \<Rightarrow> [])"

definition matchesServiceAlias :: "service_row \<Rightarrow> string \<Rightarrow> bool" where
  "matchesServiceAlias service value \<longleftrightarrow>
     s_id service = value \<or> s_name service = value \<or> s_container_id service = Some value \<or>
     s_container_name service = Some (js_trim (strip_slash value))"

definition target_of_service :: "service_row \<Rightarrow> string \<Rightarrow> scope_target" where
  "target_of_service svc from = \<lparr>tg_projectId = Some (s_project_id svc), tg_serviceId = Some (s_id svc), tg_resolvedFrom = from\<rparr>"

definition targetFromService :: "scope_db \<Rightarrow> string \<Rightarrow> string \<Rightarrow> scope_error + scope_target" where
  "targetFromService db serviceId resolvedFrom =
     (case getService (sd_store db) serviceId of
        None \<Rightarrow> Inl (ServiceNotFound serviceId)
      | Some svc \<Rightarrow> Inr (target_of_service svc resolvedFrom))"

text \<open>The services, most recently updated first.\<close>

definition listServices :: "scope_db \<Rightarrow> service_row list" where
  "listServices db = sort_key (\<lambda>s. - s_updated_at s) (services (sd_store db))"

definition token_service :: "request_identity option \<Rightarrow> string option" where
  "token_service i = (case i of Some x \<Rightarrow> if id_kind x = Some Sc_service then id_service x else None | None \<Rightarrow> None)"

definition targetFromServiceName :: "scope_db \<Rightarrow> string \<Rightarrow> string \<Rightarrow> request_identity option
    \<Rightarrow> scope_error + scope_target option" where
  "targetFromServiceName db serviceName projectName i =
     (let own = (if truthy (token_service i) \<and> projectName = []
                 then getService (sd_store db) (the (token_service i)) else None)
      in if \<exists>svc \<in> set_option own. \<not> isManagedKind (s_kind svc) \<and> matchesServiceAlias svc serviceName
         then Inr (Some (target_of_service (the own) ''token_service''))
         else rbind (if projectName \<noteq> [] then resolveProjectIdByName db projectName else Inr None) (\<lambda>projectScopeId.
           let found = filter (\<lambda>svc. matchesServiceAlias svc serviceName \<and>
                          (truthy projectScopeId \<longrightarrow> Some (s_project_id svc) = projectScopeId)) (listServices db)
           in case found of
                [svc] \<Rightarrow> Inr (Some (target_of_service svc
                   (if truthy projectScopeId then ''service_name_project_scope'' else ''service_name'')))
              | _ \<Rightarrow>
                  if truthy projectScopeId
                  then Inr (Some \<lparr>tg_projectId = projectScopeId, tg_serviceId = None, tg_resolvedFrom = ''project_name''\<rparr>)
                  else if isScopedIdentity i then Inl (ServiceNotFound serviceName)
                  else Inr None))"

definition targetFromDeployId :: "scope_db \<Rightarrow> string \<Rightarrow> scope_error + scope_target" where
  "targetFromDeployId db deployId =
     (case js_get (sd_deployLogs db) deployId of
        None \<Rightarrow> Inl (ServiceNotFound deployId)
      | Some service_id \<Rightarrow> targetFromService db service_id ''deploy_id'')"

definition targetFromProjectEnvironmentId :: "scope_db \<Rightarrow> string \<Rightarrow> scope_error + scope_target" where
  "targetFromProjectEnvironmentId db environmentId =
     (case js_get (sd_environments db) environmentId of
        None \<Rightarrow> Inl (EnvironmentNotFound environmentId)
      | Some project_id \<Rightarrow> Inr \<lparr>tg_projectId = Some project_id, tg_serviceId = None, tg_resolvedFrom = ''project_environment_id''\<rparr>)"

definition projectTargetForServiceIdentity :: "scope_db \<Rightarrow> string \<Rightarrow> request_identity option \<Rightarrow> string \<Rightarrow> scope_target option" where
  "projectTargetForServiceIdentity db projectId i resolvedFrom =
     (if \<not> truthy (token_service i) then None
      else case getService (sd_store db) (the (token_service i)) of
             None \<Rightarrow> None
           | Some svc \<Rightarrow>
               if s_project_id svc \<noteq> projectId then None
               else Some \<lparr>tg_projectId = Some projectId, tg_serviceId = Some (s_id svc), tg_resolvedFrom = resolvedFrom\<rparr>)"

definition targetFromBriefingId :: "scope_db \<Rightarrow> string \<Rightarrow> request_identity option \<Rightarrow> scope_target option" where
  "targetFromBriefingId db briefingId i =
     (case js_get (sd_briefings db) briefingId of
        None \<Rightarrow> None
      | Some (project_id, service_id) \<Rightarrow>
          (case (if truthy service_id then None
                 else projectTargetForServiceIdentity db project_id i ''briefing_project_scope'') of
             Some t \<Rightarrow> Some t
           | None \<Rightarrow> Some \<lparr>tg_projectId = Some project_id, tg_serviceId = service_id, tg_resolvedFrom = ''briefing_id''\<rparr>))"

definition readRecordString :: "json_record \<Rightarrow> string \<Rightarrow> string" where
  "readRecordString r key = (case js_get r key of Some (JStr v) \<Rightarrow> js_trim v | _ \<Rightarrow> [])"

definition parseJsonRecord :: "stored_text option \<Rightarrow> json_record option" where
  "parseJsonRecord v = (case v of Some (Json j) \<Rightarrow> as_record j | _ \<Rightarrow> None)"

text \<open>The target of a run that is not given by its plan.\<close>

definition run_fallback :: "scope_db \<Rightarrow> run_row \<Rightarrow> request_identity option \<Rightarrow> scope_target" where
  "run_fallback db run i =
     (case (if rr_project_id run \<noteq> []
            then projectTargetForServiceIdentity db (rr_project_id run) i ''action_run_project_scope'' else None) of
        Some t \<Rightarrow> t
      | None \<Rightarrow> \<lparr>tg_projectId = (if rr_project_id run \<noteq> [] then Some (rr_project_id run) else None),
                 tg_serviceId = None, tg_resolvedFrom = ''action_run_id''\<rparr>)"

definition target_from_plan :: "scope_db \<Rightarrow> run_row \<Rightarrow> json_record \<Rightarrow> request_identity option
    \<Rightarrow> scope_error + scope_target option" where
  "target_from_plan db run plan i =
     (let targetServiceId = readRecordString plan ''targetServiceId'';
          args = Option.bind (js_get plan ''args'') as_record;
          serviceId = (case args of Some a \<Rightarrow> readString a [''service_id'', ''serviceId''] | None \<Rightarrow> []);
          targetProjectId = readRecordString plan ''targetProjectId''
      in if targetServiceId \<noteq> []
         then (case getService (sd_store db) targetServiceId of
                 Some svc \<Rightarrow> Inr (Some (target_of_service svc ''action_run_id''))
               | None \<Rightarrow>
                   if rr_project_id run \<noteq> [] \<and> targetProjectId = rr_project_id run
                   then Inr (Some \<lparr>tg_projectId = Some (rr_project_id run), tg_serviceId = Some targetServiceId,
                              tg_resolvedFrom = ''action_run_id''\<rparr>)
                   else Inr None)
         else if serviceId \<noteq> [] then rbind (targetFromService db serviceId ''action_run_id'') (\<lambda>t. Inr (Some t))
         else if targetProjectId \<noteq> []
         then Inr (Some (case projectTargetForServiceIdentity db targetProjectId i ''action_run_project_scope'' of
                Some t \<Rightarrow> t
              | None \<Rightarrow> \<lparr>tg_projectId = Some targetProjectId, tg_serviceId = None, tg_resolvedFrom = ''action_run_id''\<rparr>))
         else Inr (Some (run_fallback db run i)))"

definition targetFromActionRunId :: "scope_db \<Rightarrow> string \<Rightarrow> request_identity option \<Rightarrow> scope_error + scope_target option" where
  "targetFromActionRunId db actionRunId i =
     (case js_get (sd_actionRuns db) actionRunId of
        None \<Rightarrow> Inr None
      | Some run \<Rightarrow>
          (case parseJsonRecord (rr_plan run) of
             Some plan \<Rightarrow> target_from_plan db run plan i
           | None \<Rightarrow> Inr (Some (run_fallback db run i))))"

text \<open>\<open>push\<close> in sequence: the targets of each selector, or the first error.\<close>

fun push_all :: "(scope_error + scope_target list) list \<Rightarrow> scope_error + scope_target list" where
  "push_all [] = Inr []"
| "push_all (r # rs) = rbind r (\<lambda>xs. rbind (push_all rs) (\<lambda>ys. Inr (xs @ ys)))"

definition push_opt :: "scope_error + scope_target option \<Rightarrow> scope_error + scope_target list" where
  "push_opt r = rbind r (\<lambda>t. Inr (case t of Some x \<Rightarrow> [x] | None \<Rightarrow> []))"

definition push_one :: "scope_error + scope_target \<Rightarrow> scope_error + scope_target list" where
  "push_one r = rbind r (\<lambda>t. Inr [t])"

definition no_such :: "string \<Rightarrow> scope_target" where
  "no_such selector = \<lparr>tg_projectId = None, tg_serviceId = None, tg_resolvedFrom = selector\<rparr>"

fun elements :: "json option \<Rightarrow> json list" where
  "elements (Some (JArr xs)) = xs"
| "elements _ = []"

definition push_run :: "scope_db \<Rightarrow> request_identity option \<Rightarrow> json \<Rightarrow> scope_error + scope_target list" where
  "push_run db i v =
     (case v of
        JStr s \<Rightarrow> rbind (targetFromActionRunId db s i) (\<lambda>t. Inr [case t of Some x \<Rightarrow> x | None \<Rightarrow> no_such ''action_run_ids''])
      | _ \<Rightarrow> Inr [no_such ''action_run_ids''])"

definition push_service :: "scope_db \<Rightarrow> json \<Rightarrow> scope_error + scope_target list" where
  "push_service db v =
     (case v of JStr s \<Rightarrow> push_one (targetFromService db s ''service_id'') | _ \<Rightarrow> Inr [no_such ''service_ids''])"

definition if_given :: "string \<Rightarrow> (scope_error + scope_target list) \<Rightarrow> scope_error + scope_target list" where
  "if_given v r = (if v \<noteq> [] then r else Inr [])"

definition resolveMcpScopeTargets :: "scope_db \<Rightarrow> json_record \<Rightarrow> request_identity option \<Rightarrow> scope_error + scope_target list" where
  "resolveMcpScopeTargets db args i =
     (let deployId = readString args [''deploy_id'', ''job_id''];
          environmentId = readString args [''project_environment_id''];
          briefingId = readString args [''briefing_id''];
          actionRunId = readString args [''action_run_id'', ''action_id'', ''actionRunId''];
          serviceId = readString args [''service_id'', ''serviceId''];
          projectId = readString args [''project_id'', ''target_project_id'', ''projectId''];
          projectName = readString args [''project_name'', ''projectName''];
          serviceName = readString args [''service_name'', ''serviceName'', ''container_name'']
      in push_all (
           [if_given deployId (push_one (targetFromDeployId db deployId)),
            if_given environmentId (push_one (targetFromProjectEnvironmentId db environmentId)),
            if_given briefingId (push_opt (Inr (targetFromBriefingId db briefingId i))),
            if_given actionRunId (push_opt (targetFromActionRunId db actionRunId i))]
           @ map (push_run db i) (elements (js_get args ''action_run_ids''))
           @ map (push_service db) (elements (js_get args ''service_ids''))
           @ [if_given serviceId (push_one (targetFromService db serviceId ''service_id'')),
              if_given serviceName (push_opt (targetFromServiceName db serviceName
                (if projectId \<noteq> [] then projectId else projectName) i)),
              if_given projectId (Inr [\<lparr>tg_projectId = Some projectId, tg_serviceId = None, tg_resolvedFrom = ''project_id''\<rparr>]),
              if_given projectName (rbind (resolveProjectIdByName db projectName) (\<lambda>pid.
                Inr [\<lparr>tg_projectId = pid, tg_serviceId = None, tg_resolvedFrom = ''project_name''\<rparr>]))]))"

definition resolveMcpScopeTarget :: "scope_db \<Rightarrow> json_record \<Rightarrow> request_identity option \<Rightarrow> scope_error + scope_target option" where
  "resolveMcpScopeTarget db args i =
     rbind (resolveMcpScopeTargets db args i) (\<lambda>ts. Inr (case ts of t # _ \<Rightarrow> Some t | [] \<Rightarrow> None))"

definition resolveMcpTargetProjectId :: "scope_db \<Rightarrow> json_record \<Rightarrow> request_identity option \<Rightarrow> scope_error + string option" where
  "resolveMcpTargetProjectId db args i =
     rbind (resolveMcpScopeTarget db args i) (\<lambda>t. Inr (Option.bind t tg_projectId))"

section \<open>The checks\<close>

definition buildScopeViolationResponse :: "request_identity \<Rightarrow> scope_target option \<Rightarrow> string \<Rightarrow> scope_rejection" where
  "buildScopeViolationResponse i target reason = \<lparr>rj_identity = i, rj_target = target, rj_reason = reason\<rparr>"

text \<open>One pass of the loop over the targets: the rejection, or nothing.\<close>

definition check_target :: "request_identity \<Rightarrow> scope_target \<Rightarrow> scope_rejection option" where
  "check_target i target =
     (if \<not> truthy (tg_projectId target)
      then Some (buildScopeViolationResponse i (Some target)
        (if tg_resolvedFrom target \<in> set [''service_ids'', ''action_run_ids''] then ''target_not_found_or_out_of_scope'' else ''target_required''))
      else if id_kind i = Some Sc_project
      then (if truthy (id_project i) \<and> id_project i = tg_projectId target then None
            else Some (buildScopeViolationResponse i (Some target) ''project_mismatch''))
      else if truthy (id_service i) \<and> tg_serviceId target = id_service i then None
      else Some (buildScopeViolationResponse i (Some target) ''service_mismatch''))"

fun first_rejection :: "request_identity \<Rightarrow> scope_target list \<Rightarrow> scope_rejection option" where
  "first_rejection i [] = None"
| "first_rejection i (t # ts) = (case check_target i t of Some r \<Rightarrow> Some r | None \<Rightarrow> first_rejection i ts)"

text \<open>\<open>Inl\<close>: the error is not a missing project or service and is thrown on.\<close>

definition maybeRejectMcpScope :: "string \<Rightarrow> json_record \<Rightarrow> tool_target \<Rightarrow> scope_db \<Rightarrow> request_identity option
    \<Rightarrow> scope_error + scope_rejection option" where
  "maybeRejectMcpScope tool args target db ident =
     (if target \<noteq> T_mcp \<or> \<not> isScopedIdentity ident then Inr None
      else case ident of
        None \<Rightarrow> Inr None
      | Some i \<Rightarrow>
          if tool \<in> set TARGETLESS_SCOPED_ACTION_ALLOWLIST then Inr None
          else (case resolveMcpScopeTargets db args ident of
                  Inl (EnvironmentNotFound e) \<Rightarrow> Inl (EnvironmentNotFound e)
                | Inl _ \<Rightarrow> Inr (Some (buildScopeViolationResponse i None ''target_not_found_or_out_of_scope''))
                | Inr [] \<Rightarrow> Inr (Some (buildScopeViolationResponse i None ''target_required''))
                | Inr ts \<Rightarrow> Inr (first_rejection i ts)))"

text \<open>\<open>Inl\<close> is a rejection with a \<open>ScopeViolationError\<close> and its reason.\<close>

definition assertMcpActiveScope :: "string option \<Rightarrow> request_identity option \<Rightarrow> string option \<Rightarrow> string + unit" where
  "assertMcpActiveScope targetProjectId ident targetServiceId =
     (case ident of
        None \<Rightarrow> Inr ()
      | Some i \<Rightarrow>
          if \<not> truthy targetProjectId \<or> \<not> isScopedIdentity ident then Inr ()
          else if id_kind i = Some Sc_project
          then (if truthy (id_project i) \<and> id_project i = targetProjectId then Inr () else Inl ''project_mismatch'')
          else if id_kind i = Some Sc_service \<and> truthy (id_service i) \<and> id_service i = targetServiceId then Inr ()
          else Inl ''service_target_required'')"

definition projectVisibleToMcpScope :: "project_row \<Rightarrow> service_row list \<Rightarrow> request_identity option \<Rightarrow> bool" where
  "projectVisibleToMcpScope project deployables ident =
     (case ident of
        None \<Rightarrow> True
      | Some i \<Rightarrow>
          if \<not> isScopedIdentity ident then True
          else if id_kind i = Some Sc_project then Some (p_id project) = id_project i
          else list_ex (\<lambda>svc. Some (s_id svc) = id_service i) deployables)"

definition filterDeployablesForMcpScope :: "service_row list \<Rightarrow> request_identity option \<Rightarrow> service_row list" where
  "filterDeployablesForMcpScope deployables ident =
     (case ident of
        None \<Rightarrow> deployables
      | Some i \<Rightarrow>
          if id_kind i \<noteq> Some Sc_service then deployables
          else filter (\<lambda>svc. Some (s_id svc) = id_service i) deployables)"

section \<open>Lemmas\<close>

text \<open>A project and a service that the token may touch.\<close>

definition within :: "request_identity \<Rightarrow> string option \<Rightarrow> string option \<Rightarrow> bool" where
  "within i pid sid \<longleftrightarrow> truthy pid \<and>
     (if id_kind i = Some Sc_project then id_project i = pid else truthy (id_service i) \<and> sid = id_service i)"

lemma check_target_None: "check_target i t = None \<longleftrightarrow> within i (tg_projectId t) (tg_serviceId t)"
  by (auto simp: check_target_def within_def)

lemma first_rejection_None: "first_rejection i ts = None \<longleftrightarrow> (\<forall>t \<in> set ts. within i (tg_projectId t) (tg_serviceId t))"
  by (induction ts) (auto simp: check_target_None [symmetric] split: option.splits)

lemma push_all_Inr: "push_all rs = Inr xs \<longleftrightarrow> (\<exists>xss. rs = map Inr xss \<and> xs = concat xss)"
proof (induction rs arbitrary: xs)
  case Nil
  then show ?case by auto
next
  case (Cons r rs)
  show ?case
  proof
    assume "push_all (r # rs) = Inr xs"
    then obtain ys zs where "r = Inr ys" "push_all rs = Inr zs" "xs = ys @ zs" by (auto simp: rbind_Inr_iff)
    with Cons.IH obtain xss where "rs = map Inr xss" "zs = concat xss" by blast
    with \<open>r = Inr ys\<close> \<open>xs = ys @ zs\<close> show "\<exists>xss. r # rs = map Inr xss \<and> xs = concat xss"
      by (intro exI [of _ "ys # xss"]) simp
  next
    assume "\<exists>xss. r # rs = map Inr xss \<and> xs = concat xss"
    then obtain xss where xss: "r # rs = map Inr xss" "xs = concat xss" by metis
    then obtain ys yss where "xss = ys # yss" by (cases xss) auto
    with xss Cons.IH [of "concat yss"] show "push_all (r # rs) = Inr xs" by (auto simp: rbind_Inr_iff)
  qed
qed

lemma push_all_member:
  assumes "push_all rs = Inr xs" and "r \<in> set rs"
  shows "\<exists>ys. r = Inr ys \<and> set ys \<subseteq> set xs"
  using assms by (auto simp: push_all_Inr) blast

text \<open>What a call that was let through has passed.\<close>

lemma not_rejected:
  assumes "maybeRejectMcpScope tool args T_mcp db (Some i) = Inr None" and "isScopedIdentity (Some i)"
    and "tool \<notin> set TARGETLESS_SCOPED_ACTION_ALLOWLIST"
  shows "\<exists>ts. resolveMcpScopeTargets db args (Some i) = Inr ts \<and> ts \<noteq> [] \<and>
     (\<forall>t \<in> set ts. within i (tg_projectId t) (tg_serviceId t))"
proof (cases "resolveMcpScopeTargets db args (Some i)")
  case (Inl e)
  with assms show ?thesis by (cases e) (auto simp: maybeRejectMcpScope_def)
next
  case (Inr ts)
  with assms show ?thesis
    by (cases ts) (auto simp: maybeRejectMcpScope_def first_rejection_None simp del: first_rejection.simps)
qed

lemma selector_in_scope:
  assumes "push_all rs = Inr ts" and "\<forall>t \<in> set ts. within i (tg_projectId t) (tg_serviceId t)" and "r \<in> set rs"
  shows "\<exists>ys. r = Inr ys \<and> (\<forall>t \<in> set ys. within i (tg_projectId t) (tg_serviceId t))"
  using push_all_member [OF assms(1,3)] assms(2) by blast

lemma given_in_scope:
  assumes "resolveMcpScopeTargets db args (Some i) = Inr ts" and "\<forall>t \<in> set ts. within i (tg_projectId t) (tg_serviceId t)"
  shows
    "readString args [''service_id'', ''serviceId''] = sid \<Longrightarrow> sid \<noteq> [] \<Longrightarrow>
       \<exists>svc. getService (sd_store db) sid = Some svc \<and> within i (Some (s_project_id svc)) (Some (s_id svc))"
    "readString args [''deploy_id'', ''job_id''] = did \<Longrightarrow> did \<noteq> [] \<Longrightarrow>
       \<exists>sid svc. js_get (sd_deployLogs db) did = Some sid \<and> getService (sd_store db) sid = Some svc \<and>
          within i (Some (s_project_id svc)) (Some (s_id svc))"
    "readString args [''project_environment_id''] = eid \<Longrightarrow> eid \<noteq> [] \<Longrightarrow>
       \<exists>pid. js_get (sd_environments db) eid = Some pid \<and> within i (Some pid) None"
    "readString args [''project_id'', ''target_project_id'', ''projectId''] = pid \<Longrightarrow> pid \<noteq> [] \<Longrightarrow> within i (Some pid) None"
    "readString args [''project_name'', ''projectName''] = pname \<Longrightarrow> pname \<noteq> [] \<Longrightarrow>
       \<exists>pid. resolveProjectIdByName db pname = Inr (Some pid) \<and> within i (Some pid) None"
    "v \<in> set (elements (js_get args ''service_ids'')) \<Longrightarrow>
       \<exists>sid svc. v = JStr sid \<and> getService (sd_store db) sid = Some svc \<and> within i (Some (s_project_id svc)) (Some (s_id svc))"
proof -
  note r = assms(1) [unfolded resolveMcpScopeTargets_def Let_def]
  note sel = selector_in_scope [OF r assms(2)]
  show "\<exists>svc. getService (sd_store db) sid = Some svc \<and> within i (Some (s_project_id svc)) (Some (s_id svc))"
    if "readString args [''service_id'', ''serviceId''] = sid" "sid \<noteq> []"
    using sel [of "if_given sid (push_one (targetFromService db sid ''service_id''))"] that
    by (auto simp: if_given_def push_one_def targetFromService_def target_of_service_def split: option.splits)
  show "\<exists>sid svc. js_get (sd_deployLogs db) did = Some sid \<and> getService (sd_store db) sid = Some svc \<and>
          within i (Some (s_project_id svc)) (Some (s_id svc))"
    if "readString args [''deploy_id'', ''job_id''] = did" "did \<noteq> []"
    using sel [of "if_given did (push_one (targetFromDeployId db did))"] that
    by (auto simp: if_given_def push_one_def targetFromDeployId_def targetFromService_def target_of_service_def split: option.splits)
  show "\<exists>pid. js_get (sd_environments db) eid = Some pid \<and> within i (Some pid) None"
    if "readString args [''project_environment_id''] = eid" "eid \<noteq> []"
    using sel [of "if_given eid (push_one (targetFromProjectEnvironmentId db eid))"] that
    by (auto simp: if_given_def push_one_def targetFromProjectEnvironmentId_def split: option.splits)
  show "within i (Some pid) None"
    if "readString args [''project_id'', ''target_project_id'', ''projectId''] = pid" "pid \<noteq> []"
    using sel [of "if_given pid (Inr [\<lparr>tg_projectId = Some pid, tg_serviceId = None, tg_resolvedFrom = ''project_id''\<rparr>])"] that
    by (auto simp: if_given_def)
  show "\<exists>pid. resolveProjectIdByName db pname = Inr (Some pid) \<and> within i (Some pid) None"
    if "readString args [''project_name'', ''projectName''] = pname" "pname \<noteq> []"
    using sel [of "if_given pname (rbind (resolveProjectIdByName db pname) (\<lambda>pid.
                Inr [\<lparr>tg_projectId = pid, tg_serviceId = None, tg_resolvedFrom = ''project_name''\<rparr>]))"] that
    by (auto simp: if_given_def rbind_Inr_iff resolveProjectIdByName_def split: option.splits)
  show "\<exists>sid svc. v = JStr sid \<and> getService (sd_store db) sid = Some svc \<and> within i (Some (s_project_id svc)) (Some (s_id svc))"
    if "v \<in> set (elements (js_get args ''service_ids''))"
    using sel [of "push_service db v"] that
    by (auto simp: push_service_def push_one_def targetFromService_def target_of_service_def no_such_def within_def
        split: json.splits option.splits)
qed

section \<open>Properties\<close>

text \<open>
  C17. A scoped token stays in its scope. If a tool call made with a project- or service-scoped token is not
  rejected, and the tool is not one of the two that need no target, then the call names a
  target, and whatever it names by \<open>service_id\<close>, \<open>service_ids\<close>, \<open>deploy_id\<close>, \<open>project_environment_id\<close>,
  \<open>project_id\<close> or \<open>project_name\<close> (and their aliases) exists, where it must be looked up, and lies in the scope: it belongs to the token's project, or is
  the token's service.
\<close>

theorem scoped_call_stays_in_scope:
  assumes "maybeRejectMcpScope tool args T_mcp db (Some i) = Inr None" and "isScopedIdentity (Some i)"
    and "tool \<notin> set TARGETLESS_SCOPED_ACTION_ALLOWLIST"
  shows "(\<exists>t ts. resolveMcpScopeTargets db args (Some i) = Inr (t # ts)) \<and>
    (\<forall>sid. readString args [''service_id'', ''serviceId''] = sid \<longrightarrow> sid \<noteq> [] \<longrightarrow>
       (\<exists>svc. getService (sd_store db) sid = Some svc \<and> within i (Some (s_project_id svc)) (Some (s_id svc)))) \<and>
    (\<forall>v \<in> set (elements (js_get args ''service_ids'')).
       \<exists>sid svc. v = JStr sid \<and> getService (sd_store db) sid = Some svc \<and> within i (Some (s_project_id svc)) (Some (s_id svc))) \<and>
    (\<forall>did. readString args [''deploy_id'', ''job_id''] = did \<longrightarrow> did \<noteq> [] \<longrightarrow>
       (\<exists>sid svc. js_get (sd_deployLogs db) did = Some sid \<and> getService (sd_store db) sid = Some svc \<and>
          within i (Some (s_project_id svc)) (Some (s_id svc)))) \<and>
    (\<forall>eid. readString args [''project_environment_id''] = eid \<longrightarrow> eid \<noteq> [] \<longrightarrow>
       (\<exists>pid. js_get (sd_environments db) eid = Some pid \<and> within i (Some pid) None)) \<and>
    (\<forall>pid. readString args [''project_id'', ''target_project_id'', ''projectId''] = pid \<longrightarrow> pid \<noteq> [] \<longrightarrow> within i (Some pid) None) \<and>
    (\<forall>pname. readString args [''project_name'', ''projectName''] = pname \<longrightarrow> pname \<noteq> [] \<longrightarrow>
       (\<exists>pid. resolveProjectIdByName db pname = Inr (Some pid) \<and> within i (Some pid) None))"
proof -
  obtain ts where ts: "resolveMcpScopeTargets db args (Some i) = Inr ts" "ts \<noteq> []"
    "\<forall>t \<in> set ts. within i (tg_projectId t) (tg_serviceId t)"
    using not_rejected [OF assms] by blast
  note g = given_in_scope [OF ts(1,3)]
  show ?thesis
    using ts(1,2) g(1) g(2) g(3) g(4) g(5) g(6)
    by (intro conjI allI impI ballI) (metis list.exhaust, blast+)
qed

definition project_token :: request_identity where
  "project_token = \<lparr>id_kind = Some Sc_project, id_project = Some ''p'', id_service = None\<rparr>"

definition two_projects :: scope_db where
  "two_projects = \<lparr>sd_store = \<lparr>projects = [new_project_row ''p'', new_project_row ''q''],
       services = [new_service_row ''p__svc'' ''p'' KGit None, new_service_row ''q__svc'' ''q'' KGit None]\<rparr>,
     sd_deployLogs = [], sd_environments = [], sd_briefings = [], sd_actionRuns = []\<rparr>"

lemmas scope_run_simps = maybeRejectMcpScope_def resolveMcpScopeTargets_def isScopedIdentity_def project_token_def two_projects_def
  TARGETLESS_SCOPED_ACTION_ALLOWLIST_def if_given_def push_one_def push_opt_def targetFromService_def target_of_service_def getService_def
  new_service_row_def readString.simps check_target_def buildScopeViolationResponse_def Let_def js_trim_def is_space_def push_service_def

theorem scoped_call_stays_in_scope_witness:
  "maybeRejectMcpScope ''deploy'' [(''service_id'', JStr ''p__svc'')] T_mcp two_projects (Some project_token) = Inr None \<and>
   (\<exists>svc. getService (sd_store two_projects) ''p__svc'' = Some svc \<and> within project_token (Some (s_project_id svc)) (Some (s_id svc))) \<and>
   maybeRejectMcpScope ''deploy'' [(''service_ids'', JArr [JStr ''p__svc'', JStr ''q__svc''])] T_mcp two_projects (Some project_token) \<noteq> Inr None"
proof -
  have ok: "maybeRejectMcpScope ''deploy'' [(''service_id'', JStr ''p__svc'')] T_mcp two_projects (Some project_token) = Inr None"
    by (simp add: scope_run_simps)
  have read: "readString [(''service_id'', JStr ''p__svc'')] [''service_id'', ''serviceId''] = ''p__svc''"
    by (simp add: readString.simps js_trim_def is_space_def)
  have "maybeRejectMcpScope ''deploy'' [(''service_ids'', JArr [JStr ''p__svc'', JStr ''q__svc''])] T_mcp two_projects (Some project_token) \<noteq> Inr None"
    by (simp add: scope_run_simps)
  moreover have "isScopedIdentity (Some project_token)" "''deploy'' \<notin> set TARGETLESS_SCOPED_ACTION_ALLOWLIST"
    by (simp_all add: scope_run_simps)
  ultimately show ?thesis
    using scoped_call_stays_in_scope [OF ok] ok read by auto
qed

text \<open>
  The second check agrees with the first. For a call that was not rejected, the target that
  \<open>resolveMcpScopeTarget\<close> gives, on which the operation acts, passes \<open>assertMcpActiveScope\<close>; and that check passes for a
  scoped token and a given project exactly when project and service are within the scope.
\<close>

theorem assertMcpActiveScope_agrees:
  assumes "maybeRejectMcpScope tool args T_mcp db (Some i) = Inr None" and "isScopedIdentity (Some i)"
    and "tool \<notin> set TARGETLESS_SCOPED_ACTION_ALLOWLIST"
  shows "(\<exists>t. resolveMcpScopeTarget db args (Some i) = Inr (Some t) \<and>
      assertMcpActiveScope (tg_projectId t) (Some i) (tg_serviceId t) = Inr ()) \<and>
    (\<forall>pid sid. truthy pid \<longrightarrow> (assertMcpActiveScope pid (Some i) sid = Inr () \<longleftrightarrow> within i pid sid))"
proof -
  obtain ts where ts: "resolveMcpScopeTargets db args (Some i) = Inr ts" "ts \<noteq> []"
    "\<forall>t \<in> set ts. within i (tg_projectId t) (tg_serviceId t)"
    using not_rejected [OF assms] by blast
  have iff: "assertMcpActiveScope pid (Some i) sid = Inr () \<longleftrightarrow> within i pid sid" if "truthy pid" for pid sid
    using that assms(2) by (auto simp: assertMcpActiveScope_def within_def isScopedIdentity_def)
  obtain t us where "ts = t # us" using ts(2) by (cases ts) auto
  with ts iff [of "tg_projectId t" "tg_serviceId t"] iff show ?thesis
    by (auto simp: resolveMcpScopeTarget_def within_def)
qed

theorem assertMcpActiveScope_agrees_witness:
  "assertMcpActiveScope (Some ''p'') (Some project_token) None = Inr () \<and>
   assertMcpActiveScope (Some ''q'') (Some project_token) None \<noteq> Inr ()"
proof -
  have ok: "maybeRejectMcpScope ''deploy'' [(''service_id'', JStr ''p__svc'')] T_mcp two_projects (Some project_token) = Inr None"
    by (simp add: scope_run_simps)
  have sc: "isScopedIdentity (Some project_token)" "''deploy'' \<notin> set TARGETLESS_SCOPED_ACTION_ALLOWLIST"
    by (simp_all add: scope_run_simps)
  from assertMcpActiveScope_agrees [OF ok sc] show ?thesis by (auto simp: within_def project_token_def)
qed

end
