(* ===== verification/Permissions.thy ===== *)
theory Permissions
  imports Json
begin

text \<open>
  Operation permissions (\<open>src/src/security/operation-permissions.ts\<close>): what an operation may do to a project
  or service, from a global setting and overrides per project and per service, all stored as
  JSON texts in the settings table.

  The settings store is the code's \<open>PermissionSettingStore\<close>: its rows and which of its optional methods
  are there. A patch field that is absent is \<open>None\<close>.

  Shown: the precedence of the three scopes, that a saved setting is what is read back, and that a
  setting that cannot be read never grants anything.
\<close>

section \<open>Data\<close>

datatype permission = Allow | Approval_required | Block

datatype db_permission = Db_allow | Db_block

datatype permission_source = From_global | From_project | From_service

record permission_values =
  pv_app :: permission
  pv_destructive :: permission
  pv_database :: db_permission

record permission_override =
  po_app :: "permission option"
  po_destructive :: "permission option"
  po_database :: "db_permission option"

record permission_sources =
  src_app :: permission_source
  src_destructive :: permission_source
  src_database :: permission_source

record permission_snapshot =
  sn_global :: permission_values
  sn_project :: "permission_override option"
  sn_service :: "permission_override option"
  sn_effective :: permission_values
  sn_sources :: permission_sources

record permission_target =
  pt_projectId :: "string option"
  pt_serviceId :: "string option"

datatype permission_error = ConfigurationError string | DeniedError string permission_target

record permission_store =
  st_rows :: "(string, stored_text) js_map"
  st_reads :: bool
  st_upserts :: bool
  st_deletes :: bool

definition DEFAULT_OPERATION_PERMISSIONS :: permission_values where
  "DEFAULT_OPERATION_PERMISSIONS = \<lparr>pv_app = Approval_required, pv_destructive = Allow, pv_database = Db_allow\<rparr>"

definition GLOBAL_SETTING_KEY :: string where
  "GLOBAL_SETTING_KEY = ''security.operation_permissions.global''"

definition projectSettingKey :: "string \<Rightarrow> string" where
  "projectSettingKey projectId = ''security.operation_permissions.project.'' @ projectId"

definition serviceSettingKey :: "string \<Rightarrow> string" where
  "serviceSettingKey serviceId = ''security.operation_permissions.service.'' @ serviceId"

section \<open>Reading\<close>

definition as_permission :: "json \<Rightarrow> permission option" where
  "as_permission v =
     (if v = JStr ''allow'' then Some Allow
      else if v = JStr ''approval_required'' then Some Approval_required
      else if v = JStr ''block'' then Some Block else None)"

definition as_db_permission :: "json \<Rightarrow> db_permission option" where
  "as_db_permission v =
     (if v = JStr ''allow'' then Some Db_allow else if v = JStr ''block'' then Some Db_block else None)"

text \<open>One field of \<open>parseStoredOverride\<close>: absent, valid, or an error.\<close>

definition parse_field :: "string \<Rightarrow> (json \<Rightarrow> 'p option) \<Rightarrow> json option \<Rightarrow> permission_error + 'p option" where
  "parse_field key check v =
     (case v of
        None \<Rightarrow> Inr None
      | Some j \<Rightarrow> (case check j of Some p \<Rightarrow> Inr (Some p) | None \<Rightarrow> Inl (ConfigurationError key)))"

definition parseStoredOverride :: "string \<Rightarrow> stored_text \<Rightarrow> permission_error + permission_override" where
  "parseStoredOverride key value =
     (case value of
        Not_json \<Rightarrow> Inl (ConfigurationError key)
      | Json j \<Rightarrow>
          (case as_record j of
             None \<Rightarrow> Inl (ConfigurationError key)
           | Some r \<Rightarrow>
               rbind (parse_field key as_permission (js_get r ''app_lifecycle'')) (\<lambda>app.
               rbind (parse_field key as_permission (js_get r ''destructive_actions'')) (\<lambda>destr.
               rbind (parse_field key as_db_permission (js_get r ''database_access'')) (\<lambda>db.
                 Inr \<lparr>po_app = app, po_destructive = destr, po_database = db\<rparr>)))))"

definition readOverride :: "permission_store \<Rightarrow> string \<Rightarrow> permission_error + permission_override option" where
  "readOverride st key =
     (if \<not> st_reads st then Inr None
      else case js_get (st_rows st) key of
             None \<Rightarrow> Inr None
           | Some v \<Rightarrow> rbind (parseStoredOverride key v) (\<lambda>ov. Inr (Some ov)))"

definition or_keep :: "'a option \<Rightarrow> 'a \<Rightarrow> 'a" where
  "or_keep v d = (case v of Some x \<Rightarrow> x | None \<Rightarrow> d)"

definition applyOverride :: "permission_override option \<Rightarrow> permission_source
    \<Rightarrow> permission_values \<times> permission_sources \<Rightarrow> permission_values \<times> permission_sources" where
  "applyOverride override source cs =
     (case override of
        None \<Rightarrow> cs
      | Some ov \<Rightarrow>
          (case cs of (current, sources) \<Rightarrow>
             let appPermission = (case po_app ov of Some p \<Rightarrow> Some p | None \<Rightarrow> po_destructive ov);
                 (c1, s1) = (case appPermission of
                      Some p \<Rightarrow> (current\<lparr>pv_app := p\<rparr>, sources\<lparr>src_app := source\<rparr>) | None \<Rightarrow> (current, sources));
                 (c2, s2) = (case po_destructive ov of
                      Some p \<Rightarrow> (c1\<lparr>pv_destructive := p\<rparr>, s1\<lparr>src_destructive := source\<rparr>) | None \<Rightarrow> (c1, s1))
             in case po_database ov of
                  Some p \<Rightarrow> (c2\<lparr>pv_database := p\<rparr>, s2\<lparr>src_database := source\<rparr>) | None \<Rightarrow> (c2, s2)))"

definition global_values :: "permission_override option \<Rightarrow> permission_values" where
  "global_values globalOverride =
     (case globalOverride of
        None \<Rightarrow> DEFAULT_OPERATION_PERMISSIONS\<lparr>pv_app := Approval_required\<rparr>
      | Some ov \<Rightarrow>
          \<lparr>pv_app = (case po_app ov of
               Some p \<Rightarrow> p | None \<Rightarrow> if po_destructive ov = Some Block then Block else Approval_required),
           pv_destructive = or_keep (po_destructive ov) (pv_destructive DEFAULT_OPERATION_PERMISSIONS),
           pv_database = or_keep (po_database ov) (pv_database DEFAULT_OPERATION_PERMISSIONS)\<rparr>)"

definition snapshot_of :: "permission_override option \<Rightarrow> permission_override option \<Rightarrow> permission_override option
    \<Rightarrow> permission_snapshot" where
  "snapshot_of globalOverride projectOverride serviceOverride =
     (let global = global_values globalOverride;
          sources = \<lparr>src_app = From_global, src_destructive = From_global, src_database = From_global\<rparr>;
          (effective, sources') = applyOverride serviceOverride From_service
             (applyOverride projectOverride From_project (global, sources))
      in \<lparr>sn_global = global, sn_project = projectOverride, sn_service = serviceOverride,
          sn_effective = effective, sn_sources = sources'\<rparr>)"

definition read_scope :: "permission_store \<Rightarrow> (string \<Rightarrow> string) \<Rightarrow> string option
    \<Rightarrow> permission_error + permission_override option" where
  "read_scope st key sid = (if truthy sid then readOverride st (key (the sid)) else Inr None)"

definition getOperationPermissionSnapshot :: "permission_store \<Rightarrow> permission_target \<Rightarrow> permission_error + permission_snapshot" where
  "getOperationPermissionSnapshot st target =
     rbind (readOverride st GLOBAL_SETTING_KEY) (\<lambda>g.
     rbind (read_scope st projectSettingKey (pt_projectId target)) (\<lambda>p.
     rbind (read_scope st serviceSettingKey (pt_serviceId target)) (\<lambda>s.
       Inr (snapshot_of g p s))))"

definition no_target :: permission_target where
  "no_target = \<lparr>pt_projectId = None, pt_serviceId = None\<rparr>"

section \<open>Writing\<close>

fun permission_json :: "permission \<Rightarrow> json" where
  "permission_json Allow = JStr ''allow''"
| "permission_json Approval_required = JStr ''approval_required''"
| "permission_json Block = JStr ''block''"

fun db_permission_json :: "db_permission \<Rightarrow> json" where
  "db_permission_json Db_allow = JStr ''allow''"
| "db_permission_json Db_block = JStr ''block''"

definition member :: "string \<Rightarrow> ('p \<Rightarrow> json) \<Rightarrow> 'p option \<Rightarrow> (string \<times> json) list" where
  "member k f v = (case v of Some p \<Rightarrow> [(k, f p)] | None \<Rightarrow> [])"

text \<open>\<open>JSON.stringify(next)\<close>.\<close>

definition override_text :: "permission_override \<Rightarrow> stored_text" where
  "override_text ov = Json (JObj (member ''app_lifecycle'' permission_json (po_app ov)
     @ member ''destructive_actions'' permission_json (po_destructive ov)
     @ member ''database_access'' db_permission_json (po_database ov)))"

definition saveGlobalOperationPermissions :: "permission_store \<Rightarrow> permission_override
    \<Rightarrow> (permission_error + permission_snapshot) \<times> permission_store" where
  "saveGlobalOperationPermissions st patch =
     (case (getOperationPermissionSnapshot st no_target, readOverride st GLOBAL_SETTING_KEY) of
        (Inl e, _) \<Rightarrow> (Inl e, st)
      | (Inr _, Inl e) \<Rightarrow> (Inl e, st)
      | (Inr current, Inr stored) \<Rightarrow>
          let g = sn_global current;
              next = \<lparr>po_app = Some (or_keep (po_app patch) (pv_app g)),
                      po_destructive = Some (or_keep (po_destructive patch) (pv_destructive g)),
                      po_database = Some (or_keep (po_database patch) (pv_database g))\<rparr>;
              next' = (if po_app patch = None \<and> Option.bind stored po_app = None then next\<lparr>po_app := None\<rparr> else next)
          in if \<not> st_upserts st then (Inl (ConfigurationError ''settings_store''), st)
             else let st' = st\<lparr>st_rows := js_set GLOBAL_SETTING_KEY (override_text next') (st_rows st)\<rparr>
                  in (getOperationPermissionSnapshot st' no_target, st'))"

text \<open>A patch of an override: a field is absent, null (remove) or a value.\<close>

record override_patch =
  pp_app :: "permission option option"
  pp_destructive :: "permission option option"
  pp_database :: "db_permission option option"

definition patch_override :: "override_patch \<Rightarrow> permission_override \<Rightarrow> permission_override" where
  "patch_override patch ov =
     \<lparr>po_app = or_keep (pp_app patch) (po_app ov),
      po_destructive = or_keep (pp_destructive patch) (po_destructive ov),
      po_database = or_keep (pp_database patch) (po_database ov)\<rparr>"

definition empty_override :: permission_override where
  "empty_override = \<lparr>po_app = None, po_destructive = None, po_database = None\<rparr>"

definition scope_key :: "permission_target \<Rightarrow> string option" where
  "scope_key scope =
     (if truthy (pt_serviceId scope) then Some (serviceSettingKey (the (pt_serviceId scope)))
      else if truthy (pt_projectId scope) then Some (projectSettingKey (the (pt_projectId scope)))
      else None)"

definition saveOperationPermissionOverride :: "permission_store \<Rightarrow> permission_target \<Rightarrow> override_patch
    \<Rightarrow> (permission_error + permission_snapshot) \<times> permission_store" where
  "saveOperationPermissionOverride st scope patch =
     (case scope_key scope of
        None \<Rightarrow> (Inl (ConfigurationError ''missing_scope''), st)
      | Some key \<Rightarrow>
          (case readOverride st key of
             Inl e \<Rightarrow> (Inl e, st)
           | Inr existing \<Rightarrow>
               let next = patch_override patch (or_keep existing empty_override)
               in if \<not> st_upserts st \<or> \<not> st_deletes st then (Inl (ConfigurationError ''settings_store''), st)
                  else let st' = st\<lparr>st_rows := (if next = empty_override then js_del key (st_rows st)
                                              else js_set key (override_text next) (st_rows st))\<rparr>
                       in (getOperationPermissionSnapshot st' scope, st')))"

section \<open>Guards\<close>

definition assertDestructiveActionAllowed :: "permission_store \<Rightarrow> permission_target \<Rightarrow> permission_error + permission_snapshot" where
  "assertDestructiveActionAllowed st target =
     rbind (getOperationPermissionSnapshot st target) (\<lambda>snapshot.
       if pv_destructive (sn_effective snapshot) = Block then Inl (DeniedError ''destructive_actions'' target) else Inr snapshot)"

definition assertDatabaseAccessAllowed :: "permission_store \<Rightarrow> permission_target \<Rightarrow> permission_error + permission_snapshot" where
  "assertDatabaseAccessAllowed st target =
     rbind (getOperationPermissionSnapshot st target) (\<lambda>snapshot.
       if pv_database (sn_effective snapshot) = Db_block then Inl (DeniedError ''database_access'' target) else Inr snapshot)"

definition assertAppLifecycleAllowed :: "permission_store \<Rightarrow> permission_target \<Rightarrow> permission_error + permission_snapshot" where
  "assertAppLifecycleAllowed st target =
     rbind (getOperationPermissionSnapshot st target) (\<lambda>snapshot.
       if pv_app (sn_effective snapshot) = Block then Inl (DeniedError ''app_lifecycle'' target) else Inr snapshot)"

section \<open>Lemmas\<close>

lemma permission_roundtrip [simp]:
  "as_permission (permission_json p) = Some p" "as_db_permission (db_permission_json d) = Some d"
  by (cases p, simp_all add: as_permission_def) (cases d, simp_all add: as_db_permission_def)

lemma parse_override_text [simp]: "parseStoredOverride key (override_text ov) = Inr ov"
  by (cases ov) (auto simp: parseStoredOverride_def override_text_def member_def parse_field_def split: option.splits)

lemma keys_distinct [simp]:
  "projectSettingKey p \<noteq> GLOBAL_SETTING_KEY" "serviceSettingKey s \<noteq> GLOBAL_SETTING_KEY"
  "GLOBAL_SETTING_KEY \<noteq> projectSettingKey p" "GLOBAL_SETTING_KEY \<noteq> serviceSettingKey s"
  "projectSettingKey p \<noteq> serviceSettingKey s" "serviceSettingKey s \<noteq> projectSettingKey p"
  "projectSettingKey p = projectSettingKey p' \<longleftrightarrow> p = p'" "serviceSettingKey s = serviceSettingKey s' \<longleftrightarrow> s = s'"
  by (auto simp: projectSettingKey_def serviceSettingKey_def GLOBAL_SETTING_KEY_def)

lemma readOverride_set:
  "readOverride (st\<lparr>st_rows := js_set key (override_text ov) (st_rows st)\<rparr>) k =
     (if k = key \<and> st_reads st then Inr (Some ov) else readOverride st k)"
  by (simp add: readOverride_def js_get_set)

lemma readOverride_del:
  "readOverride (st\<lparr>st_rows := js_del key (st_rows st)\<rparr>) k = (if k = key then Inr None else readOverride st k)"
  by (simp add: readOverride_def js_get_del)

text \<open>The first of the given settings that is there.\<close>

fun first_some :: "'a option list \<Rightarrow> 'a \<Rightarrow> 'a" where
  "first_some [] d = d"
| "first_some (Some x # xs) d = x"
| "first_some (None # xs) d = first_some xs d"

lemma applyOverride_values:
  "pv_destructive (fst (applyOverride ov src cs)) = first_some [Option.bind ov po_destructive] (pv_destructive (fst cs))"
  "pv_database (fst (applyOverride ov src cs)) = first_some [Option.bind ov po_database] (pv_database (fst cs))"
  "pv_app (fst (applyOverride ov src cs)) = first_some [Option.bind ov po_app, Option.bind ov po_destructive] (pv_app (fst cs))"
  "src_destructive (snd (applyOverride ov src cs)) = (if Option.bind ov po_destructive = None then src_destructive (snd cs) else src)"
  "src_database (snd (applyOverride ov src cs)) = (if Option.bind ov po_database = None then src_database (snd cs) else src)"
  "src_app (snd (applyOverride ov src cs)) =
     (if Option.bind ov po_app = None \<and> Option.bind ov po_destructive = None then src_app (snd cs) else src)"
  by (cases ov; cases cs; auto simp: applyOverride_def Let_def split: option.splits)+

lemma first_some_append: "first_some (xs @ ys) d = first_some xs (first_some ys d)"
  by (induction xs d rule: first_some.induct) auto

lemma snapshot_values:
  "sn_global (snapshot_of g p s) = global_values g"
  "sn_effective (snapshot_of g p s) =
     fst (applyOverride s From_service (applyOverride p From_project
       (global_values g, \<lparr>src_app = From_global, src_destructive = From_global, src_database = From_global\<rparr>)))"
  "sn_sources (snapshot_of g p s) =
     snd (applyOverride s From_service (applyOverride p From_project
       (global_values g, \<lparr>src_app = From_global, src_destructive = From_global, src_database = From_global\<rparr>)))"
  by (simp_all add: snapshot_of_def Let_def split: prod.splits)

lemma global_values_first:
  "pv_destructive (global_values g) = first_some [Option.bind g po_destructive] Allow"
  "pv_database (global_values g) = first_some [Option.bind g po_database] Db_allow"
  "pv_app (global_values g) = first_some [Option.bind g po_app]
     (if Option.bind g po_destructive = Some Block then Block else Approval_required)"
  by (cases g; auto simp: global_values_def DEFAULT_OPERATION_PERMISSIONS_def or_keep_def split: option.splits)+

section \<open>Properties\<close>

text \<open>
  Precedence. The effective permission of an operation on a service is the one of the service's
  override, else of the project's, else of the global setting, else the default; the
  lifecycle permission falls back to the destructive-actions permission of the same override before it looks
  further out, and globally only to its block. The reported source is the scope it came from.
\<close>

theorem permission_precedence:
  assumes "getOperationPermissionSnapshot st target = Inr sn"
  shows "\<exists>g p s. readOverride st GLOBAL_SETTING_KEY = Inr g \<and>
     read_scope st projectSettingKey (pt_projectId target) = Inr p \<and>
     read_scope st serviceSettingKey (pt_serviceId target) = Inr s \<and>
     pv_destructive (sn_effective sn) =
       first_some [Option.bind s po_destructive, Option.bind p po_destructive, Option.bind g po_destructive] Allow \<and>
     pv_database (sn_effective sn) =
       first_some [Option.bind s po_database, Option.bind p po_database, Option.bind g po_database] Db_allow \<and>
     pv_app (sn_effective sn) =
       first_some [Option.bind s po_app, Option.bind s po_destructive, Option.bind p po_app, Option.bind p po_destructive,
         Option.bind g po_app] (if Option.bind g po_destructive = Some Block then Block else Approval_required) \<and>
     src_destructive (sn_sources sn) =
       (if Option.bind s po_destructive \<noteq> None then From_service
        else if Option.bind p po_destructive \<noteq> None then From_project else From_global) \<and>
     src_database (sn_sources sn) =
       (if Option.bind s po_database \<noteq> None then From_service
        else if Option.bind p po_database \<noteq> None then From_project else From_global)"
proof -
  obtain g p s where r: "readOverride st GLOBAL_SETTING_KEY = Inr g"
     "read_scope st projectSettingKey (pt_projectId target) = Inr p"
     "read_scope st serviceSettingKey (pt_serviceId target) = Inr s" "sn = snapshot_of g p s"
    using assms by (auto simp: getOperationPermissionSnapshot_def rbind_Inr_iff)
  have fs: "first_some (x # xs) d = first_some [x] (first_some xs d)" for x xs and d :: 'z
    by (cases x) auto
  show ?thesis
    by (intro exI conjI; (rule r(1-3))?)
       (simp_all add: r(4) snapshot_values applyOverride_values global_values_first
          fs [of _ "_ # _"] del: first_some.simps)
qed

definition sample_settings :: permission_store where
  "sample_settings = \<lparr>st_rows = [(projectSettingKey ''p'', override_text \<lparr>po_app = None, po_destructive = Some Block, po_database = None\<rparr>),
       (serviceSettingKey ''s'', override_text \<lparr>po_app = Some Allow, po_destructive = None, po_database = Some Db_block\<rparr>),
       (serviceSettingKey ''bad'', Not_json)],
     st_reads = True, st_upserts = True, st_deletes = True\<rparr>"

definition on_service :: "string \<Rightarrow> permission_target" where
  "on_service s = \<lparr>pt_projectId = Some ''p'', pt_serviceId = Some s\<rparr>"

lemma sample_reads:
  "readOverride sample_settings GLOBAL_SETTING_KEY = Inr None"
  "readOverride sample_settings (projectSettingKey ''p'') = Inr (Some \<lparr>po_app = None, po_destructive = Some Block, po_database = None\<rparr>)"
  "readOverride sample_settings (serviceSettingKey ''s'') = Inr (Some \<lparr>po_app = Some Allow, po_destructive = None, po_database = Some Db_block\<rparr>)"
  by (simp_all add: readOverride_def sample_settings_def)

theorem permission_precedence_witness:
  "\<exists>sn. getOperationPermissionSnapshot sample_settings (on_service ''s'') = Inr sn \<and>
     pv_destructive (sn_effective sn) = Block \<and> pv_app (sn_effective sn) = Allow \<and> src_database (sn_sources sn) = From_service"
proof -
  obtain sn where sn: "getOperationPermissionSnapshot sample_settings (on_service ''s'') = Inr sn"
    by (simp add: getOperationPermissionSnapshot_def read_scope_def on_service_def sample_reads)
  with permission_precedence [OF sn] show ?thesis
    by (auto simp: read_scope_def on_service_def sample_reads)
qed

text \<open>
  What is saved is what is read. When \<open>saveOperationPermissionOverride\<close> succeeds, the override of its
  scope is the previous one with the patch applied (fields set, fields removed, an empty
  override removed), every other setting is as before, and the returned snapshot is the one the store now gives.
\<close>

theorem saveOperationPermissionOverride_spec:
  assumes "saveOperationPermissionOverride st scope patch = (Inr sn, st')" and "st_reads st"
  shows "\<exists>key existing. scope_key scope = Some key \<and> readOverride st key = Inr existing \<and>
     readOverride st' key =
       (let ov = patch_override patch (or_keep existing empty_override)
        in Inr (if ov = empty_override then None else Some ov)) \<and>
     (\<forall>k. k \<noteq> key \<longrightarrow> readOverride st' k = readOverride st k) \<and>
     getOperationPermissionSnapshot st' scope = Inr sn"
proof -
  obtain key where key: "scope_key scope = Some key"
    using assms(1) by (cases "scope_key scope") (auto simp: saveOperationPermissionOverride_def)
  obtain existing where existing: "readOverride st key = Inr existing"
    using assms(1) key by (cases "readOverride st key") (auto simp: saveOperationPermissionOverride_def)
  let ?ov = "patch_override patch (or_keep existing empty_override)"
  have "st' = st\<lparr>st_rows := (if ?ov = empty_override then js_del key (st_rows st) else js_set key (override_text ?ov) (st_rows st))\<rparr>"
    "getOperationPermissionSnapshot st' scope = Inr sn"
    using assms(1) key existing by (auto simp: saveOperationPermissionOverride_def Let_def split: if_splits)
  with key existing assms(2) show ?thesis
    by (cases "?ov = empty_override") (auto simp: readOverride_set readOverride_del Let_def)
qed

theorem saveOperationPermissionOverride_spec_witness:
  "\<exists>sn st'. saveOperationPermissionOverride sample_settings (on_service ''s'')
       \<lparr>pp_app = Some None, pp_destructive = Some (Some Allow), pp_database = None\<rparr> = (Inr sn, st') \<and>
     readOverride st' (serviceSettingKey ''s'') =
       Inr (Some \<lparr>po_app = None, po_destructive = Some Allow, po_database = Some Db_block\<rparr>)"
proof -
  let ?patch = "\<lparr>pp_app = Some None, pp_destructive = Some (Some Allow), pp_database = None\<rparr>"
  have sc: "scope_key (on_service ''s'') = Some (serviceSettingKey ''s'')" by (simp add: scope_key_def on_service_def)
  have reads: "st_reads sample_settings" by (simp add: sample_settings_def)
  let ?ov = "\<lparr>po_app = None, po_destructive = Some Allow, po_database = Some Db_block\<rparr>"
  let ?st = "sample_settings\<lparr>st_rows := js_set (serviceSettingKey ''s'') (override_text ?ov) (st_rows sample_settings)\<rparr>"
  have ov: "patch_override ?patch \<lparr>po_app = Some Allow, po_destructive = None, po_database = Some Db_block\<rparr> = ?ov" "?ov \<noteq> empty_override"
    by (simp_all add: patch_override_def or_keep_def empty_override_def)
  have can: "st_upserts sample_settings" "st_deletes sample_settings" by (simp_all add: sample_settings_def)
  have save: "saveOperationPermissionOverride sample_settings (on_service ''s'') ?patch =
      (getOperationPermissionSnapshot ?st (on_service ''s''), ?st)"
    by (simp add: saveOperationPermissionOverride_def sc sample_reads ov or_keep_def can Let_def)
  have "\<exists>sn. getOperationPermissionSnapshot ?st (on_service ''s'') = Inr sn"
    unfolding getOperationPermissionSnapshot_def read_scope_def readOverride_set by (simp add: on_service_def sample_reads reads)
  then obtain sn st' where r: "saveOperationPermissionOverride sample_settings (on_service ''s'') ?patch = (Inr sn, st')"
    using save by auto
  with saveOperationPermissionOverride_spec [OF r reads] show ?thesis
    by (auto simp: sc sample_reads patch_override_def or_keep_def empty_override_def)
qed

text \<open>
  Closed on failure. If one of the settings that apply to a target - the global one, the
  project's, the service's - is stored but cannot be read (not JSON, not an object, an
  unknown value), none of the three guards lets the operation through: each throws a configuration error.
\<close>

theorem unreadable_permissions_deny:
  assumes "st_reads st" and "js_get (st_rows st) key = Some v" and "parseStoredOverride key v = Inl e"
    and "key = GLOBAL_SETTING_KEY \<or> (truthy (pt_projectId target) \<and> key = projectSettingKey (the (pt_projectId target))) \<or>
         (truthy (pt_serviceId target) \<and> key = serviceSettingKey (the (pt_serviceId target)))"
  shows "\<exists>k. assertDestructiveActionAllowed st target = Inl (ConfigurationError k) \<and>
     assertDatabaseAccessAllowed st target = Inl (ConfigurationError k) \<and>
     assertAppLifecycleAllowed st target = Inl (ConfigurationError k)"
proof -
  have conf: "parseStoredOverride k w = Inl e' \<Longrightarrow> \<exists>k'. e' = ConfigurationError k'" for k w e'
    by (auto simp: parseStoredOverride_def rbind_Inl_iff parse_field_def split: stored_text.splits option.splits)
  have read_err: "readOverride st k = Inl e' \<Longrightarrow> \<exists>k'. e' = ConfigurationError k'" for k e'
    using conf by (auto simp: readOverride_def rbind_Inl_iff split: if_splits option.splits)
  have bad: "readOverride st key = Inl e" using assms(1-3) by (simp add: readOverride_def)
  have "\<exists>k. getOperationPermissionSnapshot st target = Inl (ConfigurationError k)"
  proof (cases "getOperationPermissionSnapshot st target")
    case (Inl e')
    then show ?thesis
      using read_err by (auto simp: getOperationPermissionSnapshot_def rbind_Inl_iff read_scope_def split: if_splits)
  next
    case (Inr sn)
    with bad assms(4) show ?thesis
      by (auto simp: getOperationPermissionSnapshot_def rbind_Inr_iff read_scope_def)
  qed
  then show ?thesis
    by (auto simp: assertDestructiveActionAllowed_def assertDatabaseAccessAllowed_def assertAppLifecycleAllowed_def)
qed

theorem unreadable_permissions_deny_witness:
  "\<exists>k. assertDestructiveActionAllowed sample_settings (on_service ''bad'') = Inl (ConfigurationError k)"
proof -
  have "js_get (st_rows sample_settings) (serviceSettingKey ''bad'') = Some Not_json" by (simp add: sample_settings_def)
  from unreadable_permissions_deny [OF _ this, of _ "on_service ''bad''"] show ?thesis
    by (auto simp: parseStoredOverride_def on_service_def sample_settings_def)
qed

end
