(* ===== verification/Action_Run.thy ===== *)
theory Action_Run
  imports Json
begin

text \<open>
  Action runs (\<open>src/src/db/repos/action-run.repo.ts\<close>): the ledger of operations that were started,
  held for approval and executed, and \<open>handleDestructiveMcpApproval\<close> of
  \<open>src/src/mcp/destructive-executor.ts\<close>, which executes a held operation once it is approved.

  A method is one SQL statement (the start-up clean-up is three). Ids from \<open>crypto.randomUUID\<close> are arguments
  that are not in the table yet; times are arguments. The step relation \<open>run_step\<close> interleaves the statements of
  any number of web and MCP requests, recovery gates and restarts.

  Shown: a held operation is executed at most once, only after an approval or with permission,
  and never after a rejection; a restart leaves nothing running, pending or executable.
\<close>

section \<open>Rows\<close>

datatype run_status = RRunning | RSucceeded | RFailed | RPending_approval

datatype approval_status = APending | AApproved | ARejected

datatype trigger_source = Web_agent | Auto_recovery | Monitor | Mcp

datatype recovery_strategy = SRecipe | SLlm | SMemory | SUnknown

record action_run =
  ar_id :: string
  ar_project_id :: string
  ar_trigger_source :: trigger_source
  ar_trigger_session_id :: "string option"
  ar_status :: run_status
  ar_error_message :: "string option"
  ar_recovery_strategy :: "recovery_strategy option"
  ar_started_at :: int
  ar_completed_at :: "int option"
  ar_plan :: "stored_text option"
  ar_current_step :: "int option"
  ar_total_steps :: "int option"
  ar_correlation_id :: "string option"
  ar_updated_at :: "int option"
  ar_approval_status :: "approval_status option"
  ar_approval_tool :: "string option"
  ar_approval_requested_at :: "int option"
  ar_approval_resolved_at :: "int option"
  ar_created_at :: int

type_synonym run_table = "action_run list"

definition DESTRUCTIVE :: string where "DESTRUCTIVE = ''destructive_mcp''"

definition blank_run :: "string \<Rightarrow> string \<Rightarrow> trigger_source \<Rightarrow> run_status \<Rightarrow> int \<Rightarrow> action_run" where
  "blank_run rid projectId source status now =
     \<lparr>ar_id = rid, ar_project_id = projectId, ar_trigger_source = source, ar_trigger_session_id = None,
      ar_status = status, ar_error_message = None, ar_recovery_strategy = None, ar_started_at = now,
      ar_completed_at = None, ar_plan = None, ar_current_step = None, ar_total_steps = None, ar_correlation_id = None,
      ar_updated_at = None, ar_approval_status = None, ar_approval_tool = None, ar_approval_requested_at = None,
      ar_approval_resolved_at = None, ar_created_at = now\<rparr>"

section \<open>The repository\<close>

fun known_strategy :: "recovery_strategy option \<Rightarrow> recovery_strategy option" where
  "known_strategy (Some SUnknown) = None"
| "known_strategy s = s"

definition create_run :: "string \<Rightarrow> string \<Rightarrow> trigger_source \<Rightarrow> string option \<Rightarrow> recovery_strategy option \<Rightarrow> string option
    \<Rightarrow> int \<Rightarrow> run_table \<Rightarrow> run_table" where
  "create_run rid projectId source session strategy correlation now t =
     t @ [(blank_run rid projectId source RRunning now)\<lparr>ar_trigger_session_id := session,
            ar_recovery_strategy := known_strategy strategy, ar_correlation_id := correlation\<rparr>]"

definition createPendingMcpApproval :: "string \<Rightarrow> string \<Rightarrow> stored_text \<Rightarrow> string option \<Rightarrow> int \<Rightarrow> run_table \<Rightarrow> run_table" where
  "createPendingMcpApproval rid projectId plan correlation now t =
     t @ [(blank_run rid projectId Mcp RPending_approval now)\<lparr>ar_correlation_id := correlation, ar_plan := Some plan,
            ar_approval_status := Some APending, ar_approval_tool := Some DESTRUCTIVE,
            ar_approval_requested_at := Some now, ar_updated_at := Some now\<rparr>]"

definition recordDeployPlanApproval :: "string \<Rightarrow> string \<Rightarrow> stored_text \<Rightarrow> string option \<Rightarrow> int \<Rightarrow> run_table \<Rightarrow> run_table" where
  "recordDeployPlanApproval rid projectId plan correlation now t =
     t @ [(blank_run rid projectId Mcp RSucceeded now)\<lparr>ar_correlation_id := correlation, ar_plan := Some plan,
            ar_approval_status := Some AApproved, ar_approval_tool := Some ''deploy_plan'',
            ar_approval_requested_at := Some now, ar_approval_resolved_at := Some now,
            ar_completed_at := Some now, ar_updated_at := Some now\<rparr>]"

definition claimable :: "string \<Rightarrow> bool \<Rightarrow> action_run \<Rightarrow> bool" where
  "claimable rid permissionGranted r \<longleftrightarrow>
     ar_id r = rid \<and> ar_approval_tool r = Some DESTRUCTIVE \<and> ar_status r = RPending_approval \<and>
     (if permissionGranted then ar_approval_status r \<in> {Some APending, Some AApproved}
      else ar_approval_status r = Some AApproved)"

definition claim_values :: "int \<Rightarrow> action_run \<Rightarrow> action_run" where
  "claim_values now r = r\<lparr>ar_status := RRunning, ar_approval_status := Some AApproved,
     ar_approval_resolved_at := Some now, ar_updated_at := Some now\<rparr>"

definition claimMcpExecution :: "string \<Rightarrow> bool \<Rightarrow> int \<Rightarrow> run_table \<Rightarrow> bool \<times> run_table" where
  "claimMcpExecution rid permissionGranted now t =
     (length (sql_returning (claimable rid permissionGranted) (claim_values now) t) = 1,
      sql_update (claimable rid permissionGranted) (claim_values now) t)"

definition updateStatus :: "string \<Rightarrow> run_status \<Rightarrow> string option \<Rightarrow> int \<Rightarrow> run_table \<Rightarrow> run_table" where
  "updateStatus rid status errorMessage now t =
     sql_update (\<lambda>r. ar_id r = rid) (\<lambda>r. r\<lparr>ar_status := status, ar_error_message := errorMessage,
       ar_completed_at := (if status = RSucceeded \<or> status = RFailed then Some now else None)\<rparr>) t"

definition updatePlan :: "string \<Rightarrow> stored_text \<Rightarrow> int \<Rightarrow> run_table \<Rightarrow> run_table" where
  "updatePlan rid plan now t =
     sql_update (\<lambda>r. ar_id r = rid) (\<lambda>r. r\<lparr>ar_plan := Some plan, ar_updated_at := Some now\<rparr>) t"

definition updateStep :: "string \<Rightarrow> int \<Rightarrow> int option \<Rightarrow> int \<Rightarrow> run_table \<Rightarrow> run_table" where
  "updateStep rid currentStep totalSteps now t =
     sql_update (\<lambda>r. ar_id r = rid) (\<lambda>r. r\<lparr>ar_current_step := Some currentStep,
       ar_total_steps := (case totalSteps of Some n \<Rightarrow> Some n | None \<Rightarrow> ar_total_steps r),
       ar_updated_at := Some now\<rparr>) t"

definition approval_row :: "string \<Rightarrow> string option \<Rightarrow> action_run \<Rightarrow> bool" where
  "approval_row rid tool r \<longleftrightarrow>
     ar_id r = rid \<and> (tool = Some DESTRUCTIVE \<longrightarrow> ar_status r = RPending_approval \<and> ar_approval_status r = Some APending)"

definition approval_values :: "approval_status \<Rightarrow> string option \<Rightarrow> int \<Rightarrow> action_run \<Rightarrow> action_run" where
  "approval_values status tool now r =
     (let r1 = r\<lparr>ar_approval_status := Some status, ar_approval_tool := tool, ar_updated_at := Some now\<rparr>
      in if status = APending then r1\<lparr>ar_approval_requested_at := Some now\<rparr>
         else r1\<lparr>ar_approval_resolved_at := Some now\<rparr>)"

definition updateApproval :: "string \<Rightarrow> approval_status \<Rightarrow> string option \<Rightarrow> int \<Rightarrow> run_table \<Rightarrow> run_table" where
  "updateApproval rid status tool now t = sql_update (approval_row rid tool) (approval_values status tool now) t"

definition updateRecoveryStrategy :: "string \<Rightarrow> recovery_strategy option \<Rightarrow> int \<Rightarrow> run_table \<Rightarrow> run_table" where
  "updateRecoveryStrategy rid strategy now t =
     sql_update (\<lambda>r. ar_id r = rid) (\<lambda>r. r\<lparr>ar_recovery_strategy := known_strategy strategy, ar_updated_at := Some now\<rparr>) t"

definition findById :: "run_table \<Rightarrow> string \<Rightarrow> action_run option" where
  "findById t rid = row_of ar_id rid t"

definition findPendingApproval :: "run_table \<Rightarrow> string \<Rightarrow> action_run option" where
  "findPendingApproval t rid = find (\<lambda>r. ar_id r = rid \<and> ar_approval_status r = Some APending) t"

definition newest_first :: "run_table \<Rightarrow> run_table" where
  "newest_first t = sort_key (\<lambda>r. - ar_created_at r) t"

definition findByApprovalStatus :: "run_table \<Rightarrow> approval_status \<Rightarrow> nat \<Rightarrow> int \<Rightarrow> run_table" where
  "findByApprovalStatus t status limit now =
     take limit (newest_first (filter (\<lambda>r. ar_approval_status r = Some status \<and>
       (status = APending \<longrightarrow> ar_status r = RPending_approval \<and>
          (\<exists>at \<in> set_option (ar_approval_requested_at r). at \<ge> now - 60 * 60 * 1000))) t))"

definition findRunning :: "run_table \<Rightarrow> string \<Rightarrow> run_table" where
  "findRunning t projectId =
     newest_first (filter (\<lambda>r. ar_project_id r = projectId \<and> (ar_status r = RRunning \<or> ar_status r = RPending_approval)) t)"

definition findByProjectId :: "run_table \<Rightarrow> string \<Rightarrow> nat option \<Rightarrow> run_table" where
  "findByProjectId t projectId limit =
     (let rows = newest_first (filter (\<lambda>r. ar_project_id r = projectId) t)
      in case limit of Some n \<Rightarrow> if n = 0 then rows else take n rows | None \<Rightarrow> rows)"

definition findRecent :: "run_table \<Rightarrow> nat \<Rightarrow> run_table" where
  "findRecent t limit = take limit (newest_first t)"

text \<open>The three statements of the start-up clean-up, in order.\<close>

definition fail_run :: "string \<Rightarrow> int \<Rightarrow> action_run \<Rightarrow> action_run" where
  "fail_run message now r =
     r\<lparr>ar_status := RFailed, ar_error_message := Some message, ar_completed_at := Some now, ar_updated_at := Some now\<rparr>"

definition approved_waiting :: "action_run \<Rightarrow> bool" where
  "approved_waiting r \<longleftrightarrow> ar_status r = RPending_approval \<and> ar_approval_status r = Some AApproved \<and>
     ar_approval_tool r = Some DESTRUCTIVE"

definition stale_run :: "action_run \<Rightarrow> bool" where
  "stale_run r \<longleftrightarrow> ar_status r = RRunning \<or> ar_status r = RPending_approval"

definition reject_pending :: "int \<Rightarrow> action_run \<Rightarrow> action_run" where
  "reject_pending now r = r\<lparr>ar_approval_status := Some ARejected, ar_approval_resolved_at := Some now, ar_updated_at := Some now\<rparr>"

definition markStaleAsFailedOnStartup :: "int \<Rightarrow> run_table \<Rightarrow> nat \<times> run_table" where
  "markStaleAsFailedOnStartup now t =
     (let t1 = sql_update approved_waiting (fail_run ''server_restart_during_execute'' now) t;
          t2 = sql_update stale_run (fail_run ''Server restarted'' now) t1;
          t3 = sql_update (\<lambda>r. ar_approval_status r = Some APending) (reject_pending now) t2
      in (length (filter stale_run t1) + length (filter approved_waiting t), t3))"

section \<open>Executing an approved operation\<close>

text \<open>
  \<open>handleDestructiveMcpApproval\<close>, called when an approval is resolved. \<open>execute\<close> is \<open>executeClaimedMcpAction\<close>, which runs the tool
  and writes the outcome. The first component says whether it was called.
\<close>

definition handleDestructiveMcpApproval :: "(string \<Rightarrow> run_table \<Rightarrow> run_table) \<Rightarrow> string \<Rightarrow> bool \<Rightarrow> int \<Rightarrow> run_table
    \<Rightarrow> bool \<times> run_table" where
  "handleDestructiveMcpApproval execute rid approved now t =
     (case findById t rid of
        None \<Rightarrow> (False, t)
      | Some run \<Rightarrow>
          if ar_approval_tool run \<noteq> Some DESTRUCTIVE then (False, t)
          else if \<not> approved
          then (False, if ar_status run = RPending_approval \<and> ar_approval_status run = Some ARejected
                       then updateStatus rid RFailed (Some ''rejected'') now t else t)
          else (case claimMcpExecution rid False now t of
                  (False, t1) \<Rightarrow> (False, t1)
                | (True, t1) \<Rightarrow> (True, execute rid t1)))"

section \<open>Interleavings\<close>

text \<open>The ledger, and the ids of the runs whose execution was claimed, newest first.\<close>

record run_sys =
  rs_runs :: run_table
  rs_claimed :: "string list"
  rs_rejected :: "string list"

text \<open>
  The statements the program issues. Destructive runs are approved or rejected (\<open>resolve\<close>), claimed by the
  approval handler or by a caller that holds the permission, and finished; other runs move
  freely through their recovery gate; a restart fails what was under way.
\<close>

inductive run_step :: "run_sys \<Rightarrow> run_sys \<Rightarrow> bool" where
  hold: "rid \<notin> ar_id ` set (rs_runs y) \<Longrightarrow>
     run_step y (y\<lparr>rs_runs := createPendingMcpApproval rid p plan c now (rs_runs y)\<rparr>)"
| start: "rid \<notin> ar_id ` set (rs_runs y) \<Longrightarrow>
     run_step y (y\<lparr>rs_runs := create_run rid p src ses str c now (rs_runs y)\<rparr>)"
| approve: "run_step y (y\<lparr>rs_runs := updateApproval rid AApproved (Some DESTRUCTIVE) now (rs_runs y)\<rparr>)"
| reject: "\<exists>r \<in> set (rs_runs y). approval_row rid (Some DESTRUCTIVE) r \<Longrightarrow>
     run_step y (y\<lparr>rs_runs := updateApproval rid ARejected (Some DESTRUCTIVE) now (rs_runs y), rs_rejected := rid # rs_rejected y\<rparr>)"
| claim: "claimMcpExecution rid permissionGranted now (rs_runs y) = (True, t) \<Longrightarrow>
     run_step y (y\<lparr>rs_runs := t, rs_claimed := rid # rs_claimed y\<rparr>)"
| lose: "claimMcpExecution rid permissionGranted now (rs_runs y) = (False, t) \<Longrightarrow> run_step y (y\<lparr>rs_runs := t\<rparr>)"
| status: "st \<noteq> RPending_approval \<Longrightarrow> run_step y (y\<lparr>rs_runs := updateStatus rid st e now (rs_runs y)\<rparr>)"
| plan: "run_step y (y\<lparr>rs_runs := updatePlan rid pl now (rs_runs y)\<rparr>)"
| gate: "(\<And>r. findById (rs_runs y) rid = Some r \<Longrightarrow> ar_approval_tool r \<noteq> Some DESTRUCTIVE) \<Longrightarrow> tool \<noteq> Some DESTRUCTIVE \<Longrightarrow>
     run_step y (y\<lparr>rs_runs := updateApproval rid ap tool now (updateStatus rid st e now (rs_runs y))\<rparr>)"
| restart: "run_step y (y\<lparr>rs_runs := snd (markStaleAsFailedOnStartup now (rs_runs y))\<rparr>)"

inductive run_reachable :: "run_sys \<Rightarrow> bool" where
  init: "run_reachable \<lparr>rs_runs = [], rs_claimed = [], rs_rejected = []\<rparr>"
| step: "run_reachable y \<Longrightarrow> run_step y z \<Longrightarrow> run_reachable z"

text \<open>
  The invariant: ids are unique; a run that was claimed is no longer waiting; one that was rejected is not
  waiting with a pending or granted approval. Both are destructive runs of the table.
\<close>

definition spent :: "run_table \<Rightarrow> string \<Rightarrow> bool" where
  "spent t rid \<longleftrightarrow> (\<exists>r. findById t rid = Some r \<and> ar_approval_tool r = Some DESTRUCTIVE \<and>
     (ar_status r \<noteq> RPending_approval \<or> ar_approval_status r = Some ARejected))"

definition run_inv :: "run_sys \<Rightarrow> bool" where
  "run_inv y \<longleftrightarrow> keys_ok ar_id (rs_runs y) \<and> distinct (rs_claimed y) \<and>
     (\<forall>rid \<in> set (rs_claimed y) \<union> set (rs_rejected y). spent (rs_runs y) rid) \<and>
     set (rs_claimed y) \<inter> set (rs_rejected y) = {}"

lemma writes_keep_id [simp]:
  "ar_id (claim_values now r) = ar_id r" "ar_id (approval_values st tool now r) = ar_id r"
  "ar_id (fail_run m now r) = ar_id r" "ar_id (reject_pending now r) = ar_id r"
  by (simp_all add: claim_values_def approval_values_def fail_run_def reject_pending_def Let_def)

lemma findById_update:
  assumes "\<And>r. ar_id (f r) = ar_id r"
  shows "findById (sql_update p f t) rid = map_option (\<lambda>r. if p r then f r else r) (findById t rid)"
  by (simp add: findById_def row_of_sql_update assms)

lemma spent_update:
  assumes "\<And>r. ar_id (f r) = ar_id r" and "spent t rid"
    and "\<And>r. ar_id r = rid \<Longrightarrow> p r \<Longrightarrow> ar_approval_tool r = Some DESTRUCTIVE \<Longrightarrow>
       ar_status r \<noteq> RPending_approval \<or> ar_approval_status r = Some ARejected \<Longrightarrow>
       ar_approval_tool (f r) = Some DESTRUCTIVE \<and> (ar_status (f r) \<noteq> RPending_approval \<or> ar_approval_status (f r) = Some ARejected)"
  shows "spent (sql_update p f t) rid"
proof -
  obtain r where r: "findById t rid = Some r" "ar_approval_tool r = Some DESTRUCTIVE"
    "ar_status r \<noteq> RPending_approval \<or> ar_approval_status r = Some ARejected"
    using assms(2) by (auto simp: spent_def)
  have "ar_id r = rid" using r(1) by (auto simp: findById_def dest: row_of_key)
  then show ?thesis
    using assms(3) [of r] r by (cases "p r") (auto simp: spent_def findById_update assms(1))
qed

lemma spent_append: "spent t rid \<Longrightarrow> spent (t @ [r]) rid"
  by (auto simp: spent_def findById_def row_of_append)

lemma keys_append: "keys_ok ar_id t \<Longrightarrow> ar_id r \<notin> ar_id ` set t \<Longrightarrow> keys_ok ar_id (t @ [r])"
  by (auto simp: keys_ok_def)

lemma not_spent_waiting:
  assumes "keys_ok ar_id t" and "r \<in> set t" and "ar_status r = RPending_approval" and "ar_approval_status r \<noteq> Some ARejected"
  shows "\<not> spent t (ar_id r)"
  using assms row_of_mem [OF assms(1,2)] by (auto simp: spent_def findById_def)

text \<open>The single statements keep what is spent spent.\<close>

lemma spent_updateApproval: "spent t rid \<Longrightarrow> spent (updateApproval rid' ap (Some DESTRUCTIVE) now t) rid"
  unfolding updateApproval_def by (rule spent_update) (auto simp: approval_row_def)

lemma spent_claim: "spent t rid \<Longrightarrow> spent (sql_update (claimable rid' g) (claim_values now) t) rid"
  by (rule spent_update) (auto simp: claimable_def split: if_splits)

lemma spent_updateStatus: "spent t rid \<Longrightarrow> st \<noteq> RPending_approval \<Longrightarrow> spent (updateStatus rid' st e now t) rid"
  unfolding updateStatus_def by (rule spent_update) auto

lemma spent_updatePlan: "spent t rid \<Longrightarrow> spent (updatePlan rid' pl now t) rid"
  unfolding updatePlan_def by (rule spent_update) auto

lemma spent_restart: "spent t rid \<Longrightarrow> spent (snd (markStaleAsFailedOnStartup now t)) rid"
  unfolding markStaleAsFailedOnStartup_def Let_def snd_conv
  by (rule spent_update, simp, rule spent_update, simp, rule spent_update) (auto simp: fail_run_def reject_pending_def)

lemma spent_gate:
  assumes "spent t rid" and "\<And>r. findById t rid' = Some r \<Longrightarrow> ar_approval_tool r \<noteq> Some DESTRUCTIVE"
  shows "spent (updateApproval rid' ap tool now (updateStatus rid' st e now t)) rid"
proof -
  have "rid \<noteq> rid'" using assms by (auto simp: spent_def)
  then show ?thesis
    unfolding updateApproval_def updateStatus_def
    by (intro spent_update [OF _ spent_update [OF _ assms(1)]]) (auto simp: approval_row_def)
qed

lemma keys_updates [simp]:
  "keys_ok ar_id (updateApproval rid ap tool now t) = keys_ok ar_id t"
  "keys_ok ar_id (updateStatus rid st e now t) = keys_ok ar_id t"
  "keys_ok ar_id (updatePlan rid pl now t) = keys_ok ar_id t"
  "keys_ok ar_id (sql_update (claimable rid g) (claim_values now) t) = keys_ok ar_id t"
  "keys_ok ar_id (snd (markStaleAsFailedOnStartup now t)) = keys_ok ar_id t"
  by (simp_all add: updateApproval_def updateStatus_def updatePlan_def markStaleAsFailedOnStartup_def keys_sql_update Let_def)

lemma claim_won:
  assumes "keys_ok ar_id t" and "claimMcpExecution rid g now t = (True, t')"
  shows "\<not> spent t rid \<and> spent t' rid \<and> t' = sql_update (claimable rid g) (claim_values now) t"
proof -
  have t': "t' = sql_update (claimable rid g) (claim_values now) t"
    and "length (filter (claimable rid g) t) = 1"
    using assms(2) by (auto simp: claimMcpExecution_def sql_returning_def)
  then obtain r where "filter (claimable rid g) t = [r]" by (auto simp: length_Suc_conv)
  then have r: "r \<in> set t" "claimable rid g r" by (auto simp: filter_eq_Cons_iff)
  then have id: "ar_id r = rid" by (simp add: claimable_def)
  have "\<not> spent t rid"
    using not_spent_waiting [OF assms(1) r(1)] r(2) id by (auto simp: claimable_def split: if_splits)
  moreover have "findById t rid = Some r" using row_of_mem [OF assms(1) r(1)] id by (simp add: findById_def)
  then have "spent t' rid"
    using r(2) by (auto simp: spent_def t' findById_update claim_values_def claimable_def)
  ultimately show ?thesis using t' by blast
qed

lemma run_step_inv:
  assumes "run_step y z" and "run_inv y"
  shows "run_inv z"
  using assms
proof (induction rule: run_step.induct)
  case (hold rid y p plan c now)
  then show ?case
    by (auto simp: run_inv_def createPendingMcpApproval_def blank_run_def intro!: keys_append spent_append)
next
  case (start rid y p src ses str c now)
  then show ?case by (auto simp: run_inv_def create_run_def blank_run_def intro!: keys_append spent_append)
next
  case (approve y rid now)
  then show ?case by (auto simp: run_inv_def intro: spent_updateApproval)
next
  case (reject y rid now)
  then obtain r where r: "r \<in> set (rs_runs y)" "ar_id r = rid" "ar_status r = RPending_approval" "ar_approval_status r = Some APending"
    by (auto simp: approval_row_def)
  have keys: "keys_ok ar_id (rs_runs y)" using reject.prems by (simp add: run_inv_def)
  have fresh: "rid \<notin> set (rs_claimed y)"
    using not_spent_waiting [OF keys r(1,3)] r(2,4) reject.prems by (auto simp: run_inv_def)
  have "findById (rs_runs y) rid = Some r" using row_of_mem [OF keys r(1)] r(2) by (simp add: findById_def)
  then have "spent (updateApproval rid ARejected (Some DESTRUCTIVE) now (rs_runs y)) rid"
    using r by (auto simp: spent_def updateApproval_def findById_update approval_row_def approval_values_def)
  with reject.prems fresh show ?case by (auto simp: run_inv_def intro: spent_updateApproval)
next
  case (claim rid g now y t)
  have keys: "keys_ok ar_id (rs_runs y)" using claim.prems by (simp add: run_inv_def)
  note won = claim_won [OF keys claim.hyps]
  with claim.prems show ?case by (auto simp: run_inv_def intro: spent_claim)
next
  case (lose rid g now y t)
  then have "t = sql_update (claimable rid g) (claim_values now) (rs_runs y)" by (simp add: claimMcpExecution_def)
  with lose.prems show ?case by (auto simp: run_inv_def intro: spent_claim)
next
  case (status st y rid e now)
  then show ?case by (auto simp: run_inv_def intro: spent_updateStatus)
next
  case (plan y rid pl now)
  then show ?case by (auto simp: run_inv_def intro: spent_updatePlan)
next
  case (gate y rid tool ap now st e)
  then have "spent (updateApproval rid ap tool now (updateStatus rid st e now (rs_runs y))) i" if "spent (rs_runs y) i" for i
    using that spent_gate by blast
  with gate.prems show ?case by (auto simp: run_inv_def)
next
  case (restart y now)
  then show ?case by (auto simp: run_inv_def intro: spent_restart)
qed

lemma run_reachable_inv: "run_reachable y \<Longrightarrow> run_inv y"
proof (induction rule: run_reachable.induct)
  case init
  then show ?case by (simp add: run_inv_def keys_ok_def)
next
  case (step y z)
  then show ?case by (blast intro: run_step_inv)
qed

section \<open>Properties\<close>

text \<open>
  C12. A held operation is executed at most once, and never after a rejection. In every interleaving of approvals, rejections,
  claims by the approval handler and by callers with permission, outcome writes and restarts,
  the execution of a run is claimed at most once, and no run is both rejected and claimed.
\<close>

theorem claim_at_most_once:
  assumes "run_reachable y"
  shows "distinct (rs_claimed y) \<and> set (rs_claimed y) \<inter> set (rs_rejected y) = {} \<and>
     (\<forall>rid g now. rid \<in> set (rs_claimed y) \<union> set (rs_rejected y) \<longrightarrow> \<not> fst (claimMcpExecution rid g now (rs_runs y)))"
proof -
  have inv: "run_inv y" using assms by (rule run_reachable_inv)
  have "\<not> fst (claimMcpExecution rid g now (rs_runs y))" if "spent (rs_runs y) rid" for rid g now
    using claim_won [of "rs_runs y" rid g now "snd (claimMcpExecution rid g now (rs_runs y))"] inv that
    by (cases "claimMcpExecution rid g now (rs_runs y)") (auto simp: run_inv_def)
  with inv show ?thesis by (auto simp: run_inv_def)
qed

definition held_run :: action_run where
  "held_run = (blank_run ''r'' ''p'' Mcp RPending_approval 0)\<lparr>ar_plan := Some Not_json, ar_approval_status := Some APending,
     ar_approval_tool := Some DESTRUCTIVE, ar_approval_requested_at := Some 0, ar_updated_at := Some 0\<rparr>"

lemma held_reachable: "run_reachable \<lparr>rs_runs = [held_run], rs_claimed = [], rs_rejected = []\<rparr>"
  using run_reachable.step [OF run_reachable.init run_step.hold [of "''r''" _ "''p''" Not_json None 0]]
  by (simp add: createPendingMcpApproval_def held_run_def blank_run_def)

lemma held_claim: "claimMcpExecution ''r'' True 1 [held_run] = (True, [claim_values 1 held_run])"
  by (simp add: claimMcpExecution_def sql_returning_def sql_update_def claimable_def held_run_def blank_run_def)

theorem claim_at_most_once_witness:
  "fst (claimMcpExecution ''r'' True 1 [held_run]) \<and>
   \<not> fst (claimMcpExecution ''r'' True 2 (snd (claimMcpExecution ''r'' True 1 [held_run])))"
proof -
  have "run_reachable \<lparr>rs_runs = [claim_values 1 held_run], rs_claimed = [''r''], rs_rejected = []\<rparr>"
    using run_reachable.step [OF held_reachable run_step.claim, of "''r''" True 1] held_claim by simp
  from claim_at_most_once [OF this] show ?thesis by (simp add: held_claim)
qed

text \<open>
  A restart leaves nothing half done. After \<open>markStaleAsFailedOnStartup\<close> no run is running or waiting, no
  approval is pending, nothing can be claimed, finished runs keep their status, and the count returned is the
  number of runs that were failed.
\<close>

theorem restart_clears_runs:
  assumes "markStaleAsFailedOnStartup now t = (n, t')"
  shows "length t' = length t \<and> n = length (filter stale_run t) \<and>
     (\<forall>i < length t. ar_id (t' ! i) = ar_id (t ! i) \<and>
        ar_status (t' ! i) = (if stale_run (t ! i) then RFailed else ar_status (t ! i)) \<and>
        ar_approval_status (t' ! i) \<noteq> Some APending) \<and>
     (\<forall>rid g later. \<not> fst (claimMcpExecution rid g later t'))"
proof -
  let ?f = "fail_run ''server_restart_during_execute'' now" and ?g = "fail_run ''Server restarted'' now"
  let ?t1 = "sql_update approved_waiting ?f t"
  let ?h = "\<lambda>r. let r1 = (if approved_waiting r then ?f r else r); r2 = (if stale_run r1 then ?g r1 else r1)
     in if ar_approval_status r2 = Some APending then reject_pending now r2 else r2"
  have t': "t' = map ?h t"
    using assms by (auto simp: markStaleAsFailedOnStartup_def sql_update_def Let_def)
  have h: "ar_id (?h r) = ar_id r" "ar_status (?h r) = (if stale_run r then RFailed else ar_status r)"
    "ar_approval_status (?h r) \<noteq> Some APending" for r
    by (auto simp: Let_def approved_waiting_def stale_run_def fail_run_def reject_pending_def)
  have "length (filter stale_run ?t1) + length (filter approved_waiting t) = length (filter stale_run t)"
    by (induction t) (auto simp: sql_update_def approved_waiting_def stale_run_def fail_run_def)
  then have n: "n = length (filter stale_run t)"
    using assms by (auto simp: markStaleAsFailedOnStartup_def Let_def)
  have "filter (claimable rid g) t' = []" for rid g
    using h(2) by (auto simp: t' filter_empty_conv claimable_def stale_run_def simp del: Let_def)
  then have "\<not> fst (claimMcpExecution rid g later t')" for rid g later
    by (simp add: claimMcpExecution_def sql_returning_def)
  with n h show ?thesis by (simp add: t' del: Let_def)
qed

theorem restart_clears_runs_witness:
  "fst (markStaleAsFailedOnStartup 9 [held_run]) = 1 \<and>
   \<not> fst (claimMcpExecution ''r'' True 10 (snd (markStaleAsFailedOnStartup 9 [held_run])))"
  using restart_clears_runs [OF surjective_pairing, of 9 "[held_run]"]
  by (simp add: stale_run_def held_run_def blank_run_def)

end
