(* ===== verification/Mcp_Safety.thy ===== *)
theory Mcp_Safety
  imports Scope_Policy Permissions Action_Run
begin

text \<open>
  The safety gate of MCP tool calls (\<open>src/src/mcp/destructive-safety.ts\<close> with the sets of
  \<open>src/src/mcp/mcp-restricted-actions.ts\<close>): before a tool runs, its target is resolved and checked against the
  token's scope, the operation permissions are read, and the call is let through, blocked, refused as reserved
  for the human interface, or held as a pending action run.

  The three components below it are used through their own definitions: the scope policy, the
  permissions and the ledger of action runs. The texts that only guide the agent are left out of
  the results; the identity carries its scope fields.

  Shown: the loop that collects the services under a Compose service computes exactly the reachable ones; a
  policy-controlled tool is let through only when it is allowed on its target and on every service under it;
  a tool reserved for the human interface is never let through; a held call leaves one pending run.
\<close>

section \<open>Policy sets\<close>

definition HUMAN_UI_ONLY_TOOLS :: "string list" where
  "HUMAN_UI_ONLY_TOOLS = [''platform_force_remove'', ''recover_platform'', ''platform_cleanup_orphans'']"

definition APPROVAL_HOLD_TOOLS :: "string list" where
  "APPROVAL_HOLD_TOOLS = [''cleanup_apps'', ''stop_app'', ''delete_app'', ''stop_service'', ''remove_service'',
     ''remove_volume'', ''delete_bucket'', ''archive_project'', ''unarchive_project'', ''archive_service'',
     ''unarchive_service'', ''bulk_delete_env_vars'', ''remove_secret_file'', ''remove_git_credential'',
     ''remove_unused_docker_network'', ''cleanup_docker'']"

definition POLICY_CONTROLLED_DESTRUCTIVE_TOOLS :: "string list" where
  "POLICY_CONTROLLED_DESTRUCTIVE_TOOLS = [''stop_app'', ''delete_app'', ''stop_service'', ''archive_project'',
     ''unarchive_project'', ''archive_service'', ''unarchive_service'', ''remove_service'', ''remove_volume'',
     ''delete_bucket'', ''cleanup_docker'']"

definition DATABASE_ACCESS_TOOLS :: "string list" where
  "DATABASE_ACCESS_TOOLS = [''describe_data_source'', ''read_data_source'', ''get_service_credentials'',
     ''create_service_user'', ''exec_service_container'', ''get_migration_preflight'']"

definition APP_TOOLS :: "string list" where
  "APP_TOOLS = [''stop_app'', ''delete_app'']"

definition COMPOSE_LIFECYCLE_TOOLS :: "string list" where
  "COMPOSE_LIFECYCLE_TOOLS = [''stop_app'', ''delete_app'', ''archive_service'', ''unarchive_service'']"

definition ARCHIVE_TOOLS :: "string list" where
  "ARCHIVE_TOOLS = [''archive_project'', ''unarchive_project'', ''archive_service'', ''unarchive_service'']"

section \<open>Data\<close>

datatype permission_key = K_app | K_destructive | K_database

datatype safety_result =
  Permission_blocked string permission_key "string option" "string option" "permission_source option"
| Human_ui_only string
| Preview_hold
| Pending_approval string

datatype mcp_error = Scope_lookup scope_error | Scope_violation string | Permission_failure permission_error

record mcp_db =
  m_store :: store
  m_deployLogs :: "(string, string) js_map"
  m_environments :: "(string, string) js_map"
  m_briefings :: "(string, string \<times> string option) js_map"
  m_settings :: permission_store
  m_runs :: run_table

definition scope_view :: "mcp_db \<Rightarrow> scope_db" where
  "scope_view db = \<lparr>sd_store = m_store db, sd_deployLogs = m_deployLogs db, sd_environments = m_environments db,
     sd_briefings = m_briefings db,
     sd_actionRuns = map (\<lambda>r. (ar_id r, \<lparr>rr_project_id = ar_project_id r, rr_plan = ar_plan r\<rparr>)) (m_runs db)\<rparr>"

fun permission_at :: "permission_key \<Rightarrow> permission_snapshot \<Rightarrow> permission" where
  "permission_at K_app sn = pv_app (sn_effective sn)"
| "permission_at _ sn = pv_destructive (sn_effective sn)"

fun source_at :: "permission_key \<Rightarrow> permission_snapshot \<Rightarrow> permission_source" where
  "source_at K_app sn = src_app (sn_sources sn)"
| "source_at K_destructive sn = src_destructive (sn_sources sn)"
| "source_at K_database sn = src_database (sn_sources sn)"

definition isAllowedMcpPreview :: "string \<Rightarrow> json_record \<Rightarrow> bool" where
  "isAllowedMcpPreview tool args \<longleftrightarrow> tool = ''platform_cleanup_orphans'' \<and> js_get args ''dry_run'' \<noteq> Some (JBool False)"

section \<open>The services under a Compose service\<close>

text \<open>One pass over the services, and passes until one adds nothing.\<close>

definition expand_child :: "service_row \<Rightarrow> string list \<times> bool \<Rightarrow> string list \<times> bool" where
  "expand_child child acc =
     (case acc of (ids, expanded) \<Rightarrow>
        if truthy (s_parent_service_id child) \<and> the (s_parent_service_id child) \<in> set ids \<and> s_id child \<notin> set ids
        then (ids @ [s_id child], True) else (ids, expanded))"

definition expand_pass :: "service_row list \<Rightarrow> string list \<Rightarrow> string list \<times> bool" where
  "expand_pass svcs ids = fold expand_child svcs (ids, False)"

definition outside :: "service_row list \<Rightarrow> string list \<Rightarrow> nat" where
  "outside svcs ids = card (s_id ` set svcs - set ids)"

lemma expand_keeps: "fold expand_child cs (ids, e) = (ids', e') \<Longrightarrow> e \<Longrightarrow> e'"
proof (induction cs arbitrary: ids e)
  case Nil
  then show ?case by simp
next
  case (Cons d ds)
  obtain ids1 e1 where one: "expand_child d (ids, e) = (ids1, e1)" by fastforce
  then have "e1" using Cons.prems(2) by (auto simp: expand_child_def split: if_splits)
  with Cons.IH Cons.prems(1) one show ?case by simp
qed

lemma expand_fold:
  assumes "fold expand_child cs (ids, e) = (ids', e')" and "set cs \<subseteq> set svcs"
  shows "set ids \<subseteq> set ids' \<and> set ids' \<subseteq> set ids \<union> s_id ` set svcs \<and> (e' \<longrightarrow> e \<or> set ids \<subset> set ids') \<and> (\<not> e' \<longrightarrow> ids' = ids)"
  using assms
proof (induction cs arbitrary: ids e)
  case Nil
  then show ?case by auto
next
  case (Cons c cs)
  obtain ids1 e1 where one: "expand_child c (ids, e) = (ids1, e1)" by fastforce
  have rest: "fold expand_child cs (ids1, e1) = (ids', e')" using Cons.prems(1) one by simp
  have IH: "set ids1 \<subseteq> set ids' \<and> set ids' \<subseteq> set ids1 \<union> s_id ` set svcs \<and> (e' \<longrightarrow> e1 \<or> set ids1 \<subset> set ids') \<and> (\<not> e' \<longrightarrow> ids' = ids1)"
    using Cons.IH [OF rest] Cons.prems(2) by simp
  have c: "(ids1 = ids \<and> e1 = e) \<or> (ids1 = ids @ [s_id c] \<and> e1 \<and> s_id c \<notin> set ids)"
    using one by (auto simp: expand_child_def split: if_splits)
  have keep: "e1 \<longrightarrow> e'" using expand_keeps [OF rest] by blast
  from c show ?case
  proof
    assume "ids1 = ids \<and> e1 = e"
    with IH show ?thesis by auto
  next
    assume "ids1 = ids @ [s_id c] \<and> e1 \<and> s_id c \<notin> set ids"
    with IH keep Cons.prems(2) show ?thesis by auto
  qed
qed

function expand_loop :: "service_row list \<Rightarrow> string list \<Rightarrow> string list" where
  "expand_loop svcs ids = (case expand_pass svcs ids of (ids', expanded) \<Rightarrow> if expanded then expand_loop svcs ids' else ids')"
  by pat_completeness auto

termination
proof (relation "measure (\<lambda>(svcs, ids). outside svcs ids)")
  fix svcs :: "service_row list" and ids ids' :: "string list" and expanded
  assume "(ids', expanded) = expand_pass svcs ids" "expanded"
  then have "fold expand_child svcs (ids, False) = (ids', True)" by (simp add: expand_pass_def)
  from expand_fold [OF this, of svcs] have "set ids \<subset> set ids'" "set ids' \<subseteq> set ids \<union> s_id ` set svcs" by auto
  then have "s_id ` set svcs - set ids' \<subset> s_id ` set svcs - set ids" by blast
  then show "((svcs, ids'), (svcs, ids)) \<in> measure (\<lambda>(svcs, ids). outside svcs ids)"
    by (simp add: outside_def psubset_card_mono)
qed simp

declare expand_loop.simps [simp del]

section \<open>The gate\<close>

text \<open>The loop over the services under a Compose service: blocked (\<open>Inl\<close>), or the permission so far.\<close>

fun check_children :: "permission_store \<Rightarrow> string \<Rightarrow> permission_key \<Rightarrow> service_row list \<Rightarrow> permission option
    \<Rightarrow> mcp_error + (safety_result + permission option)" where
  "check_children st tool key [] perm = Inr (Inr perm)"
| "check_children st tool key (child # cs) perm =
     (case getOperationPermissionSnapshot st \<lparr>pt_projectId = Some (s_project_id child), pt_serviceId = Some (s_id child)\<rparr> of
        Inl e \<Rightarrow> Inl (Permission_failure e)
      | Inr sn \<Rightarrow>
          if permission_at key sn = Block
          then Inr (Inl (Permission_blocked tool key (Some (s_project_id child)) (Some (s_id child)) (Some (source_at key sn))))
          else check_children st tool key cs
            (if permission_at key sn = Approval_required \<and> perm \<noteq> Some Block then Some Approval_required else perm))"

definition check_compose :: "mcp_db \<Rightarrow> string \<Rightarrow> permission_key \<Rightarrow> string option \<Rightarrow> permission option
    \<Rightarrow> mcp_error + (safety_result + permission option)" where
  "check_compose db tool key targetServiceId perm =
     (if \<not> truthy targetServiceId \<or> tool \<notin> set COMPOSE_LIFECYCLE_TOOLS then Inr (Inr perm)
      else case getService (m_store db) (the targetServiceId) of
             None \<Rightarrow> Inr (Inr perm)
           | Some svc \<Rightarrow>
               if s_kind svc \<noteq> KCompose then Inr (Inr perm)
               else let svcs = listServices (scope_view db);
                        targetIds = expand_loop svcs [s_id svc]
                    in check_children (m_settings db) tool key (filter (\<lambda>row. s_id row \<in> set targetIds) svcs) perm)"

definition should_hold :: "string \<Rightarrow> json_record \<Rightarrow> permission option \<Rightarrow> permission_snapshot option \<Rightarrow> bool" where
  "should_hold tool args perm perms \<longleftrightarrow>
     perm = Some Approval_required \<or>
     (tool \<in> set ARCHIVE_TOOLS \<and>
        Option.bind (Option.bind perms sn_project) po_destructive = None \<and>
        Option.bind (Option.bind perms sn_service) po_destructive = None) \<or>
     tool \<in> set [''remove_secret_file'', ''remove_git_credential'', ''remove_unused_docker_network''] \<or>
     (tool = ''bulk_delete_env_vars'' \<and> js_get args ''confirm'' = Some (JBool True))"

definition json_of :: "string option \<Rightarrow> json" where
  "json_of v = (case v of Some s \<Rightarrow> JStr s | None \<Rightarrow> JNull)"

fun kind_json :: "scope_kind \<Rightarrow> json" where
  "kind_json Sc_org = JStr ''org''"
| "kind_json Sc_project = JStr ''project''"
| "kind_json Sc_service = JStr ''service''"

definition hold_plan :: "string \<Rightarrow> json_record \<Rightarrow> string option \<Rightarrow> string option \<Rightarrow> request_identity option \<Rightarrow> string \<Rightarrow> stored_text" where
  "hold_plan tool args targetProjectId targetServiceId ident requestedAt =
     Json (JObj ([(''type'', JStr ''destructive_mcp''), (''tool'', JStr tool), (''args'', JObj args),
        (''targetProjectId'', json_of targetProjectId), (''targetServiceId'', json_of targetServiceId)]
        @ (case ident of None \<Rightarrow> []
           | Some i \<Rightarrow> [(''identity'', JObj ((case id_kind i of None \<Rightarrow> [] | Some k \<Rightarrow> [(''mcpScopeKind'', kind_json k)])
               @ [(''mcpScopeProjectId'', json_of (id_project i)), (''mcpScopeServiceId'', json_of (id_service i))]))])
        @ [(''requestedAt'', JStr requestedAt)]))"

text \<open>After the permissions: block, refuse, hold or let through.\<close>

definition decide :: "string \<Rightarrow> json_record \<Rightarrow> request_identity option \<Rightarrow> bool \<Rightarrow> string \<Rightarrow> int \<Rightarrow> string
    \<Rightarrow> string option \<Rightarrow> string option \<Rightarrow> permission_snapshot option \<Rightarrow> permission_key \<Rightarrow> permission option \<Rightarrow> mcp_db
    \<Rightarrow> safety_result option \<times> mcp_db" where
  "decide tool args ident preview rid now nowText pid sid perms key perm db =
     (if perm = Some Block
      then (Some (Permission_blocked tool key pid sid (map_option (source_at key) perms)), db)
      else if tool \<in> set HUMAN_UI_ONLY_TOOLS \<and> \<not> isAllowedMcpPreview tool args then (Some (Human_ui_only tool), db)
      else if tool \<notin> set APPROVAL_HOLD_TOOLS \<or> \<not> should_hold tool args perm perms then (None, db)
      else if preview then (Some Preview_hold, db)
      else (Some (Pending_approval rid),
            db\<lparr>m_runs := createPendingMcpApproval rid (case pid of Some p \<Rightarrow> p | None \<Rightarrow> [])
                 (hold_plan tool args pid sid ident nowText) None now (m_runs db)\<rparr>))"

definition tool_key :: "string \<Rightarrow> permission_key" where
  "tool_key tool = (if tool \<in> set APP_TOOLS then K_app else K_destructive)"

definition own_permission :: "string \<Rightarrow> permission_snapshot option \<Rightarrow> permission option" where
  "own_permission tool perms =
     (if tool \<in> set POLICY_CONTROLLED_DESTRUCTIVE_TOOLS
      then Some (case perms of Some sn \<Rightarrow> permission_at (tool_key tool) sn | None \<Rightarrow> Allow) else None)"

definition gate :: "string \<Rightarrow> json_record \<Rightarrow> request_identity option \<Rightarrow> bool \<Rightarrow> string \<Rightarrow> int \<Rightarrow> string
    \<Rightarrow> string option \<Rightarrow> string option \<Rightarrow> permission_snapshot option \<Rightarrow> mcp_db
    \<Rightarrow> (mcp_error + safety_result option) \<times> mcp_db" where
  "gate tool args ident preview rid now nowText pid sid perms db =
     (if tool \<in> set DATABASE_ACCESS_TOOLS \<and> (\<exists>sn \<in> set_option perms. pv_database (sn_effective sn) = Db_block)
      then (Inr (Some (Permission_blocked tool K_database pid sid (map_option (source_at K_database) perms))), db)
      else case check_compose db tool (tool_key tool) sid (own_permission tool perms) of
             Inl e \<Rightarrow> (Inl e, db)
           | Inr (Inl blocked) \<Rightarrow> (Inr (Some blocked), db)
           | Inr (Inr perm) \<Rightarrow>
               (case decide tool args ident preview rid now nowText pid sid perms (tool_key tool) perm db of (r, db') \<Rightarrow> (Inr r, db')))"

definition maybeHandleMcpSafety :: "string \<Rightarrow> json_record \<Rightarrow> tool_target \<Rightarrow> request_identity option \<Rightarrow> bool \<Rightarrow> string \<Rightarrow> int \<Rightarrow> string
    \<Rightarrow> mcp_db \<Rightarrow> (mcp_error + safety_result option) \<times> mcp_db" where
  "maybeHandleMcpSafety tool args context ident preview rid now nowText db =
     (if context \<noteq> T_mcp then (Inr None, db)
      else case resolveMcpScopeTarget (scope_view db) args ident of
        Inl e \<Rightarrow> (Inl (Scope_lookup e), db)
      | Inr tgt \<Rightarrow>
          let pid = Option.bind tgt tg_projectId; sid = Option.bind tgt tg_serviceId
          in case assertMcpActiveScope pid ident sid of
               Inl reason \<Rightarrow> (Inl (Scope_violation reason), db)
             | Inr _ \<Rightarrow>
                 if tool \<in> set DATABASE_ACCESS_TOOLS \<or> tool \<in> set POLICY_CONTROLLED_DESTRUCTIVE_TOOLS
                 then (case getOperationPermissionSnapshot (m_settings db) \<lparr>pt_projectId = pid, pt_serviceId = sid\<rparr> of
                         Inl e \<Rightarrow> (Inl (Permission_failure e), db)
                       | Inr sn \<Rightarrow> gate tool args ident preview rid now nowText pid sid (Some sn) db)
                 else gate tool args ident preview rid now nowText pid sid None db)"

definition isGroupBMcpHoldTool :: "string \<Rightarrow> bool" where
  "isGroupBMcpHoldTool tool \<longleftrightarrow> tool \<in> set APPROVAL_HOLD_TOOLS"

section \<open>The closure is reachability\<close>

definition child_rel :: "service_row list \<Rightarrow> (string \<times> string) set" where
  "child_rel svcs = {(p, c). \<exists>s \<in> set svcs. truthy (s_parent_service_id s) \<and> s_parent_service_id s = Some p \<and> s_id s = c}"

lemma expand_fold_sound:
  assumes "fold expand_child cs (ids, e) = (ids', e')" and "set cs \<subseteq> set svcs" and "\<forall>x \<in> set ids. (root, x) \<in> (child_rel svcs)\<^sup>*"
  shows "\<forall>x \<in> set ids'. (root, x) \<in> (child_rel svcs)\<^sup>*"
  using assms
proof (induction cs arbitrary: ids e)
  case Nil
  then show ?case by simp
next
  case (Cons c cs)
  obtain ids1 e1 where one: "expand_child c (ids, e) = (ids1, e1)" by fastforce
  have "(p, s_id c) \<in> child_rel svcs" if "s_parent_service_id c = Some p" "p \<noteq> []" for p
    using that Cons.prems(2) by (auto simp: child_rel_def intro!: bexI [of _ c])
  then have "\<forall>x \<in> set ids1. (root, x) \<in> (child_rel svcs)\<^sup>*"
    using one Cons.prems(3)
    by (auto simp: expand_child_def truthy_def split: if_splits) (meson rtrancl.rtrancl_into_rtrancl)
  with Cons.IH [of ids1 e1] Cons.prems one show ?case by simp
qed

lemma expand_fold_closed:
  assumes "fold expand_child cs (ids, e) = (ids', False)" and "c \<in> set cs" and "s_parent_service_id c = Some p" and "p \<noteq> []" and "p \<in> set ids"
  shows "s_id c \<in> set ids"
  using assms
proof (induction cs arbitrary: ids e)
  case Nil
  then show ?case by simp
next
  case (Cons d ds)
  obtain ids1 e1 where one: "expand_child d (ids, e) = (ids1, e1)" by fastforce
  have rest: "fold expand_child ds (ids1, e1) = (ids', False)" using Cons.prems(1) one by simp
  then have "\<not> e1" using expand_keeps by blast
  then have same: "ids1 = ids" "\<not> (truthy (s_parent_service_id d) \<and> the (s_parent_service_id d) \<in> set ids \<and> s_id d \<notin> set ids)"
    using one by (auto simp: expand_child_def split: if_splits)
  show ?case
  proof (cases "c = d")
    case True
    with same(2) Cons.prems show ?thesis by auto
  next
    case False
    with Cons.IH [OF rest [unfolded same(1)]] Cons.prems show ?thesis by auto
  qed
qed

lemma expand_loop_set:
  assumes "\<forall>x \<in> set ids. (root, x) \<in> (child_rel svcs)\<^sup>*" and "root \<in> set ids"
  shows "set (expand_loop svcs ids) = {x. (root, x) \<in> (child_rel svcs)\<^sup>*}"
  using assms
proof (induction svcs ids rule: expand_loop.induct)
  case (1 svcs ids)
  obtain ids' e where pass: "expand_pass svcs ids = (ids', e)" by fastforce
  then have f: "fold expand_child svcs (ids, False) = (ids', e)" by (simp add: expand_pass_def)
  have sound: "\<forall>x \<in> set ids'. (root, x) \<in> (child_rel svcs)\<^sup>*" using expand_fold_sound [OF f] "1.prems"(1) by blast
  have root: "root \<in> set ids'" using expand_fold [OF f order_refl] "1.prems"(2) by blast
  show ?case
  proof (cases e)
    case True
    then show ?thesis using "1.IH" [OF pass [symmetric] True sound root] pass by (simp add: expand_loop.simps [of svcs ids])
  next
    case False
    then have same: "ids' = ids" using expand_fold [OF f order_refl] by blast
    have stop: "fold expand_child svcs (ids, False) = (ids', False)" using f False by simp
    have "x \<in> set ids" if "(root, x) \<in> (child_rel svcs)\<^sup>*" for x
      using that
    proof (induction rule: rtrancl_induct)
      case base
      then show ?case using "1.prems"(2) .
    next
      case (step y z)
      then show ?case using expand_fold_closed [OF stop] by (auto simp: child_rel_def)
    qed
    with sound same show ?thesis using pass False by (auto simp: expand_loop.simps [of svcs ids])
  qed
qed

text \<open>What the loop over the children has seen when it lets the call through.\<close>

lemma check_children_ok:
  assumes "check_children st tool key cs perm = Inr (Inr perm')"
  shows "(\<forall>c \<in> set cs. \<exists>sn. getOperationPermissionSnapshot st \<lparr>pt_projectId = Some (s_project_id c), pt_serviceId = Some (s_id c)\<rparr> = Inr sn \<and>
       permission_at key sn \<noteq> Block \<and> (permission_at key sn = Approval_required \<longrightarrow> perm' \<in> {Some Block, Some Approval_required})) \<and>
     (perm' = perm \<or> perm' = Some Approval_required \<and> perm \<noteq> Some Block)"
  using assms
proof (induction cs arbitrary: perm)
  case Nil
  then show ?case by simp
next
  case (Cons c cs)
  obtain sn where sn: "getOperationPermissionSnapshot st \<lparr>pt_projectId = Some (s_project_id c), pt_serviceId = Some (s_id c)\<rparr> = Inr sn"
     "permission_at key sn \<noteq> Block"
     "check_children st tool key cs (if permission_at key sn = Approval_required \<and> perm \<noteq> Some Block then Some Approval_required else perm)
       = Inr (Inr perm')"
    using Cons.prems by (auto split: sum.splits if_splits)
  from Cons.IH [OF sn(3)] sn(1,2) show ?case by (auto split: if_splits)
qed

lemma policy_tools_held: "tool \<in> set POLICY_CONTROLLED_DESTRUCTIVE_TOOLS \<Longrightarrow> tool \<in> set APPROVAL_HOLD_TOOLS"
  by (auto simp: POLICY_CONTROLLED_DESTRUCTIVE_TOOLS_def APPROVAL_HOLD_TOOLS_def)

lemma decide_None:
  assumes "decide tool args ident preview rid now nowText pid sid perms key perm db = (None, db')"
  shows "perm \<noteq> Some Block \<and> db' = db \<and> (tool \<in> set HUMAN_UI_ONLY_TOOLS \<longrightarrow> isAllowedMcpPreview tool args) \<and>
     (tool \<in> set APPROVAL_HOLD_TOOLS \<longrightarrow> \<not> should_hold tool args perm perms)"
  using assms by (auto simp: decide_def split: if_splits)

lemma gate_None:
  assumes "gate tool args ident preview rid now nowText pid sid perms db = (Inr None, db')"
  shows "\<exists>perm. db' = db \<and>
     check_compose db tool (tool_key tool) sid (own_permission tool perms) = Inr (Inr perm) \<and>
     perm \<noteq> Some Block \<and> (tool \<in> set HUMAN_UI_ONLY_TOOLS \<longrightarrow> isAllowedMcpPreview tool args) \<and>
     (tool \<in> set APPROVAL_HOLD_TOOLS \<longrightarrow> \<not> should_hold tool args perm perms) \<and>
     (tool \<in> set DATABASE_ACCESS_TOOLS \<longrightarrow> (\<forall>sn \<in> set_option perms. pv_database (sn_effective sn) = Db_allow))"
proof -
  have db: "\<not> (tool \<in> set DATABASE_ACCESS_TOOLS \<and> (\<exists>sn \<in> set_option perms. pv_database (sn_effective sn) = Db_block))"
    using assms by (auto simp: gate_def)
  then have "tool \<in> set DATABASE_ACCESS_TOOLS \<longrightarrow> (\<forall>sn \<in> set_option perms. pv_database (sn_effective sn) = Db_allow)"
    using db_permission.exhaust by blast
  moreover obtain perm where "check_compose db tool (tool_key tool) sid (own_permission tool perms) = Inr (Inr perm)"
    "decide tool args ident preview rid now nowText pid sid perms (tool_key tool) perm db = (None, db')"
    using assms db by (auto simp: gate_def split: sum.splits prod.splits if_splits)
  ultimately show ?thesis using decide_None by metis
qed

lemma check_children_blocked: "check_children st t k cs perm = Inr (Inl r) \<Longrightarrow> \<exists>a b c. r = Permission_blocked t k a b c"
  by (induction cs arbitrary: perm) (auto split: sum.splits if_splits)

lemma check_compose_blocked: "check_compose db t k sid perm = Inr (Inl r) \<Longrightarrow> \<exists>a b c. r = Permission_blocked t k a b c"
  by (auto simp: check_compose_def Let_def split: if_splits option.splits dest: check_children_blocked)

lemma gate_writes:
  assumes "gate tool args ident preview rid now nowText pid sid perms db = (Inr res, db')"
  shows "((\<exists>r. res = Some (Pending_approval r)) \<longrightarrow> \<not> preview \<and> tool \<in> set APPROVAL_HOLD_TOOLS \<and>
        (\<exists>run. db' = db\<lparr>m_runs := m_runs db @ [run]\<rparr> \<and> ar_id run = rid \<and> ar_status run = RPending_approval \<and>
           ar_approval_status run = Some APending \<and> ar_approval_tool run = Some ''destructive_mcp'')) \<and>
     ((\<forall>r. res \<noteq> Some (Pending_approval r)) \<longrightarrow> db' = db)"
proof (cases "tool \<in> set DATABASE_ACCESS_TOOLS \<and> (\<exists>sn \<in> set_option perms. pv_database (sn_effective sn) = Db_block)")
  case True
  then have "(Inr res :: mcp_error + safety_result option, db') =
     (Inr (Some (Permission_blocked tool K_database pid sid (map_option (source_at K_database) perms))), db)"
    using assms by (simp add: gate_def)
  then show ?thesis by simp
next
  case False
  then have gd: "(case check_compose db tool (tool_key tool) sid (own_permission tool perms) of
           Inl e \<Rightarrow> (Inl e, db)
         | Inr (Inl blocked) \<Rightarrow> (Inr (Some blocked), db)
         | Inr (Inr perm) \<Rightarrow>
             (case decide tool args ident preview rid now nowText pid sid perms
                (tool_key tool) perm db of (r, db') \<Rightarrow> (Inr r, db'))) = (Inr res, db')"
    using assms by (simp only: gate_def if_False)
  show ?thesis
  proof (cases "check_compose db tool (tool_key tool) sid (own_permission tool perms)")
    case (Inl e)
    with gd show ?thesis by simp
  next
    case (Inr x)
    show ?thesis
    proof (cases x)
      case (Inl r)
      with Inr gd check_compose_blocked show ?thesis by fastforce
    next
      case perm: (Inr perm)
      then have "decide tool args ident preview rid now nowText pid sid perms
                (tool_key tool) perm db = (res, db')"
        using Inr gd by (simp split: prod.splits)
      then show ?thesis
        by (auto simp: decide_def createPendingMcpApproval_def blank_run_def DESTRUCTIVE_def split: if_splits)
    qed
  qed
qed

section \<open>Properties\<close>

text \<open>
  The services a Compose operation touches. The loop that collects the ids under a service ends, and its
  result is exactly the set of services reachable from it by \<open>parent_service_id\<close>, whatever the
  order of the rows and even if the parent links form a cycle.
\<close>

theorem expand_loop_is_reachability:
  "set (expand_loop svcs [root]) = {x. (root, x) \<in> (child_rel svcs)\<^sup>*}"
  by (rule expand_loop_set) simp_all

text \<open>
  C11. Nothing destructive passes without permission. If the gate lets a policy-controlled tool run at once, then the
  call's first target passed the scope check, the tool's permission on it is to allow, and - for a lifecycle
  operation on a Compose service - it is to allow on every service reachable under it too.
\<close>

theorem gate_respects_permissions:
  assumes "maybeHandleMcpSafety tool args T_mcp ident preview rid now nowText db = (Inr None, db')"
    and "tool \<in> set POLICY_CONTROLLED_DESTRUCTIVE_TOOLS"
  shows "db' = db \<and> (\<exists>tgt sn key. resolveMcpScopeTarget (scope_view db) args ident = Inr tgt \<and>
     key = (if tool \<in> {''stop_app'', ''delete_app''} then K_app else K_destructive) \<and>
     assertMcpActiveScope (Option.bind tgt tg_projectId) ident (Option.bind tgt tg_serviceId) = Inr () \<and>
     getOperationPermissionSnapshot (m_settings db) \<lparr>pt_projectId = Option.bind tgt tg_projectId, pt_serviceId = Option.bind tgt tg_serviceId\<rparr> = Inr sn \<and>
     permission_at key sn = Allow \<and>
     (\<forall>sid svc c. Option.bind tgt tg_serviceId = Some sid \<longrightarrow> sid \<noteq> [] \<longrightarrow> getService (m_store db) sid = Some svc \<longrightarrow> s_kind svc = KCompose \<longrightarrow>
        tool \<in> set COMPOSE_LIFECYCLE_TOOLS \<longrightarrow> c \<in> set (services (m_store db)) \<longrightarrow>
        (sid, s_id c) \<in> (child_rel (services (m_store db)))\<^sup>* \<longrightarrow>
        (\<exists>sn'. getOperationPermissionSnapshot (m_settings db) \<lparr>pt_projectId = Some (s_project_id c), pt_serviceId = Some (s_id c)\<rparr> = Inr sn' \<and>
           permission_at key sn' = Allow)))"
proof -
  let ?key = "tool_key tool"
  have key: "?key = (if tool \<in> {''stop_app'', ''delete_app''} then K_app else K_destructive)"
    by (simp add: tool_key_def APP_TOOLS_def)
  obtain tgt sn where tgt: "resolveMcpScopeTarget (scope_view db) args ident = Inr tgt"
    "assertMcpActiveScope (Option.bind tgt tg_projectId) ident (Option.bind tgt tg_serviceId) = Inr ()"
    "getOperationPermissionSnapshot (m_settings db) \<lparr>pt_projectId = Option.bind tgt tg_projectId, pt_serviceId = Option.bind tgt tg_serviceId\<rparr> = Inr sn"
    "gate tool args ident preview rid now nowText (Option.bind tgt tg_projectId) (Option.bind tgt tg_serviceId) (Some sn) db = (Inr None, db')"
    using assms by (auto simp: maybeHandleMcpSafety_def Let_def split: sum.splits)
  obtain perm where g: "db' = db" "check_compose db tool ?key (Option.bind tgt tg_serviceId) (Some (permission_at ?key sn)) = Inr (Inr perm)"
    "perm \<noteq> Some Block" "\<not> should_hold tool args perm (Some sn)"
    using gate_None [OF tgt(4)] assms(2) policy_tools_held by (auto simp: own_permission_def)
  have hold: "perm \<noteq> Some Approval_required" using g(4) by (auto simp: should_hold_def)
  have allow: "p = Allow" if "p \<noteq> Block" "p \<noteq> Approval_required" for p using that by (cases p) auto
  have same: "perm = Some (permission_at ?key sn)"
    using g(2) hold check_children_ok by (fastforce simp: check_compose_def Let_def split: if_splits option.splits)
  then have own: "permission_at ?key sn = Allow" using g(3) hold allow by auto
  have kids: "\<exists>sn'. getOperationPermissionSnapshot (m_settings db) \<lparr>pt_projectId = Some (s_project_id c), pt_serviceId = Some (s_id c)\<rparr> = Inr sn' \<and>
      permission_at ?key sn' = Allow"
    if c: "Option.bind tgt tg_serviceId = Some sid" "sid \<noteq> []" "getService (m_store db) sid = Some svc" "s_kind svc = KCompose"
      "tool \<in> set COMPOSE_LIFECYCLE_TOOLS" "c \<in> set (services (m_store db))" "(sid, s_id c) \<in> (child_rel (services (m_store db)))\<^sup>*" for sid svc c
  proof -
    let ?svcs = "listServices (scope_view db)"
    have svcs: "set ?svcs = set (services (m_store db))" by (simp add: listServices_def scope_view_def)
    then have rel: "child_rel ?svcs = child_rel (services (m_store db))" by (simp add: child_rel_def)
    have "s_id svc = sid" using c(3) by (auto simp: getService_def dest: row_of_key)
    then have "check_children (m_settings db) tool ?key (filter (\<lambda>row. s_id row \<in> set (expand_loop ?svcs [sid])) ?svcs)
        (Some (permission_at ?key sn)) = Inr (Inr perm)"
      using g(2) c(1-5) by (simp add: check_compose_def Let_def)
    from check_children_ok [OF this] have "\<forall>d \<in> set (filter (\<lambda>row. s_id row \<in> set (expand_loop ?svcs [sid])) ?svcs).
       \<exists>sn. getOperationPermissionSnapshot (m_settings db) \<lparr>pt_projectId = Some (s_project_id d), pt_serviceId = Some (s_id d)\<rparr> = Inr sn \<and>
       permission_at ?key sn \<noteq> Block \<and> (permission_at ?key sn = Approval_required \<longrightarrow> perm \<in> {Some Block, Some Approval_required})" by blast
    moreover have "c \<in> set (filter (\<lambda>row. s_id row \<in> set (expand_loop ?svcs [sid])) ?svcs)"
      using c(6,7) svcs rel expand_loop_set [of "[sid]" sid ?svcs] by simp
    ultimately show ?thesis using g(3) hold allow by blast
  qed
  show ?thesis
    by (intro conjI g(1) exI [of _ tgt] exI [of _ sn] exI [of _ ?key]) (use tgt(1-3) own kids key in blast)+
qed

text \<open>A Compose service with one child, whose stop the settings allow for the project.\<close>

definition compose_db :: mcp_db where
  "compose_db = \<lparr>m_store = \<lparr>projects = [new_project_row ''p''],
       services = [new_service_row ''a'' ''p'' KCompose None,
         (new_service_row ''b'' ''p'' KComposeChild None)\<lparr>s_parent_service_id := Some ''a''\<rparr>]\<rparr>,
     m_deployLogs = [], m_environments = [], m_briefings = [],
     m_settings = \<lparr>st_rows = [(projectSettingKey ''p'', override_text \<lparr>po_app = Some Allow, po_destructive = None, po_database = None\<rparr>)],
       st_reads = True, st_upserts = True, st_deletes = True\<rparr>,
     m_runs = []\<rparr>"

abbreviation stop_args :: json_record where
  "stop_args \<equiv> [(''service_id'', JStr ''a'')]"

lemma compose_snapshot:
  "getOperationPermissionSnapshot (m_settings compose_db) \<lparr>pt_projectId = Some ''p'', pt_serviceId = Some s\<rparr> =
     Inr (snapshot_of None (Some \<lparr>po_app = Some Allow, po_destructive = None, po_database = None\<rparr>) None)"
  by (simp add: getOperationPermissionSnapshot_def read_scope_def readOverride_def compose_db_def)

lemma compose_target:
  "resolveMcpScopeTarget (scope_view compose_db) stop_args None = Inr (Some \<lparr>tg_projectId = Some ''p'', tg_serviceId = Some ''a'', tg_resolvedFrom = ''service_id''\<rparr>)"
  by (simp add: resolveMcpScopeTarget_def resolveMcpScopeTargets_def scope_view_def compose_db_def readString.simps js_trim_def is_space_def
      if_given_def push_one_def push_opt_def targetFromService_def target_of_service_def getService_def new_service_row_def Let_def)

lemma compose_allowed: "permission_at K_app (snapshot_of None (Some \<lparr>po_app = Some Allow, po_destructive = None, po_database = None\<rparr>) None) = Allow"
  by (simp add: snapshot_values applyOverride_values)

lemma compose_services:
  "listServices (scope_view compose_db) = services (m_store compose_db)"
  "getService (m_store compose_db) ''a'' = Some (new_service_row ''a'' ''p'' KCompose None)"
  "\<forall>c \<in> set (services (m_store compose_db)). s_project_id c = ''p''"
  by (simp_all add: listServices_def scope_view_def compose_db_def new_service_row_def getService_def)

lemma children_allowed:
  "\<forall>c \<in> set cs. s_project_id c = ''p'' \<Longrightarrow> check_children (m_settings compose_db) tool K_app cs (Some Allow) = Inr (Inr (Some Allow))"
  by (induction cs) (auto simp: compose_snapshot compose_allowed simp del: permission_at.simps)

lemma compose_passes: "maybeHandleMcpSafety ''stop_app'' stop_args T_mcp None False ''r'' 0 ''t'' compose_db = (Inr None, compose_db)"
proof -
  have "check_compose compose_db ''stop_app'' K_app (Some ''a'') (Some Allow) = Inr (Inr (Some Allow))"
    using compose_services(3) children_allowed
    by (auto simp: check_compose_def COMPOSE_LIFECYCLE_TOOLS_def compose_services new_service_row_def Let_def)
  then show ?thesis
    by (simp add: maybeHandleMcpSafety_def compose_target assertMcpActiveScope_def compose_snapshot gate_def tool_key_def own_permission_def
        compose_allowed decide_def should_hold_def POLICY_CONTROLLED_DESTRUCTIVE_TOOLS_def DATABASE_ACCESS_TOOLS_def APP_TOOLS_def
        HUMAN_UI_ONLY_TOOLS_def ARCHIVE_TOOLS_def Let_def del: permission_at.simps)
qed

theorem gate_respects_permissions_witness:
  "\<exists>sn'. getOperationPermissionSnapshot (m_settings compose_db) \<lparr>pt_projectId = Some ''p'', pt_serviceId = Some ''b''\<rparr> = Inr sn' \<and>
     permission_at K_app sn' = Allow"
proof -
  let ?b = "(new_service_row ''b'' ''p'' KComposeChild None)\<lparr>s_parent_service_id := Some ''a''\<rparr>"
  have b: "?b \<in> set (services (m_store compose_db))" "s_id ?b = ''b''" "s_project_id ?b = ''p''" "s_kind (new_service_row ''a'' ''p'' KCompose None) = KCompose"
    by (simp_all add: compose_db_def new_service_row_def)
  have "(''a'', s_id ?b) \<in> child_rel (services (m_store compose_db))"
    by (auto simp: child_rel_def compose_db_def)
  then have reach: "(''a'', s_id ?b) \<in> (child_rel (services (m_store compose_db)))\<^sup>*" by blast
  have pol: "''stop_app'' \<in> set POLICY_CONTROLLED_DESTRUCTIVE_TOOLS" "''stop_app'' \<in> set COMPOSE_LIFECYCLE_TOOLS"
    by (simp_all add: POLICY_CONTROLLED_DESTRUCTIVE_TOOLS_def COMPOSE_LIFECYCLE_TOOLS_def)
  show ?thesis
    using gate_respects_permissions [OF compose_passes pol(1)] compose_services(2) pol(2) b reach
    by (auto simp: compose_target simp del: permission_at.simps)
qed

text \<open>
  C37. What the gate never lets through. If the gate lets a call run at once, the tool is not one reserved for the
  human interface (except for a dry run of the orphan clean-up), a database tool has database access
  on its target, and a tool that can be held is not one that must be held. If it holds the call, it has added
  one run to the ledger, pending approval, for this tool, and changed nothing else.
\<close>

theorem gate_holds_and_refuses:
  assumes "maybeHandleMcpSafety tool args T_mcp ident preview rid now nowText db = (Inr res, db')"
  shows "(res = None \<longrightarrow>
       (tool \<in> set HUMAN_UI_ONLY_TOOLS \<longrightarrow> tool = ''platform_cleanup_orphans'' \<and> js_get args ''dry_run'' \<noteq> Some (JBool False)) \<and>
       (tool \<in> set DATABASE_ACCESS_TOOLS \<longrightarrow> (\<exists>tgt sn. resolveMcpScopeTarget (scope_view db) args ident = Inr tgt \<and>
          getOperationPermissionSnapshot (m_settings db) \<lparr>pt_projectId = Option.bind tgt tg_projectId, pt_serviceId = Option.bind tgt tg_serviceId\<rparr> = Inr sn \<and>
          pv_database (sn_effective sn) = Db_allow)) \<and>
       tool \<notin> {''remove_secret_file'', ''remove_git_credential'', ''remove_unused_docker_network''}) \<and>
     ((\<exists>r. res = Some (Pending_approval r)) \<longrightarrow> \<not> preview \<and> tool \<in> set APPROVAL_HOLD_TOOLS \<and>
        (\<exists>run. db' = db\<lparr>m_runs := m_runs db @ [run]\<rparr> \<and> ar_id run = rid \<and> ar_status run = RPending_approval \<and>
           ar_approval_status run = Some APending \<and> ar_approval_tool run = Some ''destructive_mcp'')) \<and>
     ((\<forall>r. res \<noteq> Some (Pending_approval r)) \<longrightarrow> db' = db)"
proof -
  obtain tgt perms where g: "resolveMcpScopeTarget (scope_view db) args ident = Inr tgt"
    "gate tool args ident preview rid now nowText (Option.bind tgt tg_projectId) (Option.bind tgt tg_serviceId) perms db = (Inr res, db')"
    "tool \<in> set DATABASE_ACCESS_TOOLS \<Longrightarrow> \<exists>sn. perms = Some sn \<and>
       getOperationPermissionSnapshot (m_settings db) \<lparr>pt_projectId = Option.bind tgt tg_projectId, pt_serviceId = Option.bind tgt tg_serviceId\<rparr> = Inr sn"
    using assms by (auto simp: maybeHandleMcpSafety_def Let_def split: sum.splits if_splits)
  define human where "human \<longleftrightarrow> (tool \<in> set HUMAN_UI_ONLY_TOOLS \<longrightarrow> tool = ''platform_cleanup_orphans'' \<and> js_get args ''dry_run'' \<noteq> Some (JBool False))"
  define always where "always \<longleftrightarrow> tool \<notin> {''remove_secret_file'', ''remove_git_credential'', ''remove_unused_docker_network''}"
  define access where "access \<longleftrightarrow> (tool \<in> set DATABASE_ACCESS_TOOLS \<longrightarrow> (\<exists>tgt sn. resolveMcpScopeTarget (scope_view db) args ident = Inr tgt \<and>
      getOperationPermissionSnapshot (m_settings db) \<lparr>pt_projectId = Option.bind tgt tg_projectId, pt_serviceId = Option.bind tgt tg_serviceId\<rparr> = Inr sn \<and>
      pv_database (sn_effective sn) = Db_allow))"
  have "human \<and> access \<and> always" if rn: "res = None"
  proof -
    obtain perm where P: "tool \<in> set HUMAN_UI_ONLY_TOOLS \<longrightarrow> isAllowedMcpPreview tool args"
      "tool \<in> set APPROVAL_HOLD_TOOLS \<longrightarrow> \<not> should_hold tool args perm perms"
      "tool \<in> set DATABASE_ACCESS_TOOLS \<longrightarrow> (\<forall>sn \<in> set_option perms. pv_database (sn_effective sn) = Db_allow)"
      using gate_None [OF g(2) [unfolded rn]] by blast
    have "always" using P(2) by (auto simp: always_def should_hold_def APPROVAL_HOLD_TOOLS_def)
    moreover have "human" using P(1) unfolding human_def isAllowedMcpPreview_def by blast
    moreover have "access" unfolding access_def
    proof
      assume t: "tool \<in> set DATABASE_ACCESS_TOOLS"
      from g(3) [OF t] P(3) t g(1) show "\<exists>tgt sn. resolveMcpScopeTarget (scope_view db) args ident = Inr tgt \<and>
        getOperationPermissionSnapshot (m_settings db) \<lparr>pt_projectId = Option.bind tgt tg_projectId, pt_serviceId = Option.bind tgt tg_serviceId\<rparr> = Inr sn \<and>
        pv_database (sn_effective sn) = Db_allow" by auto
    qed
    ultimately show ?thesis by simp
  qed
  with gate_writes [OF g(2)] show ?thesis
    unfolding human_def [symmetric] access_def [symmetric] always_def [symmetric] by simp
qed

theorem gate_holds_and_refuses_witness:
  "fst (maybeHandleMcpSafety ''recover_platform'' [] T_mcp None False ''r'' 0 ''t'' compose_db) \<noteq> Inr None \<and>
   fst (maybeHandleMcpSafety ''platform_cleanup_orphans'' [] T_mcp None False ''r'' 0 ''t'' compose_db) = Inr None"
proof -
  have none: "maybeHandleMcpSafety ''platform_cleanup_orphans'' [] T_mcp None False ''r'' 0 ''t'' compose_db = (Inr None, compose_db)"
    by (simp add: maybeHandleMcpSafety_def resolveMcpScopeTarget_def resolveMcpScopeTargets_def readString.simps if_given_def
        assertMcpActiveScope_def gate_def tool_key_def own_permission_def decide_def check_compose_def isAllowedMcpPreview_def
        POLICY_CONTROLLED_DESTRUCTIVE_TOOLS_def DATABASE_ACCESS_TOOLS_def HUMAN_UI_ONLY_TOOLS_def APPROVAL_HOLD_TOOLS_def Let_def)
  have "fst (maybeHandleMcpSafety ''recover_platform'' [] T_mcp None False ''r'' 0 ''t'' compose_db) \<noteq> Inr None"
  proof
    assume "fst (maybeHandleMcpSafety ''recover_platform'' [] T_mcp None False ''r'' 0 ''t'' compose_db) = Inr None"
    then obtain db' where "maybeHandleMcpSafety ''recover_platform'' [] T_mcp None False ''r'' 0 ''t'' compose_db = (Inr None, db')"
      by (metis prod.collapse)
    from gate_holds_and_refuses [OF this] show False by (simp add: HUMAN_UI_ONLY_TOOLS_def)
  qed
  with none show ?thesis by simp
qed

end
