(* ===== verification/Operation_Registry.thy ===== *)
theory Operation_Registry
  imports Json "HOL-Library.Sorting_Algorithms" "HOL-Library.List_Lexorder" "HOL-Library.Char_ord"
begin

text \<open>
  Application operations (\<open>src/src/operations/registry.ts\<close>, \<open>actor.ts\<close>, \<open>types.ts\<close>) and the table of their
  invocations (\<open>src/src/db/repos/application-operation.repo.ts\<close>): a command is executed under an idempotency key,
  a repeated request is answered from the recorded result.

  An operation is a record of what its definition does: the schemas and the body are functions, the body
  acting on a state of the world. The hash of the canonical request is a function \<open>hash\<close> of the canonical JSON value, and the order of
  keys in it a comparator \<open>collate\<close> (\<open>localeCompare\<close>); both are arguments. Ids and generated keys are arguments too.

  Shown: repeating a successful command returns its recorded result and does not run the body; a reused key with another request is refused;
  in every interleaving of callers, dying processes and new connections, an invocation that no connection disturbed is executed by one caller at a time
  and never after it succeeded; and a connection that finds it running breaks that.
\<close>

section \<open>Actors and definitions\<close>

datatype op_scope = Scope_instance | Scope_org | Scope_project | Scope_service

datatype op_kind = Query | Command

datatype op_idempotency = Idem_none | Idem_optional | Idem_required

record op_actor =
  oa_scope :: op_scope
  oa_instanceId :: string
  oa_projectId :: "string option"
  oa_serviceId :: "string option"

definition applicationOperationActorScopeKey :: "op_actor \<Rightarrow> string" where
  "applicationOperationActorScopeKey actor =
     (case oa_scope actor of
        Scope_service \<Rightarrow> ''service:'' @ (case oa_serviceId actor of Some s \<Rightarrow> s | None \<Rightarrow> ''missing'')
      | Scope_project \<Rightarrow> ''project:'' @ (case oa_projectId actor of Some p \<Rightarrow> p | None \<Rightarrow> ''missing'')
      | _ \<Rightarrow> ''instance:'' @ oa_instanceId actor)"

datatype op_error =
  Op_not_found string
| Op_validation string
| Op_scope_error string
| Op_contract string json
| Op_idempotency_required string
| Op_idempotency_conflict string string
| Op_in_progress string string
| Op_persistence string string
| Op_openlander json_record
| Op_foreign

record 'w op_definition =
  od_name :: string
  od_version :: int
  od_kind :: op_kind
  od_idempotency :: op_idempotency
  od_allowedScopes :: "op_scope list"
  od_projectIdField :: "string option"
  od_serviceIdField :: "string option"
  od_resolveScopeTarget :: "(json_record \<Rightarrow> string option \<times> string option) option"
  od_inputSchema :: "json \<Rightarrow> json + json_record"
  od_outputSchema :: "json_record \<Rightarrow> json + json_record"
  od_execute :: "json_record \<Rightarrow> op_actor \<Rightarrow> string option \<Rightarrow> 'w \<Rightarrow> (op_error + json_record) \<times> 'w"

section \<open>Requests\<close>

fun canonicalize :: "string comparator \<Rightarrow> json \<Rightarrow> json" where
  "canonicalize collate (JArr vs) = JArr (map (canonicalize collate) vs)"
| "canonicalize collate (JObj ms) =
     JObj (Sorting_Algorithms.sort (key fst collate) (map (\<lambda>(k, v). (k, canonicalize collate v)) ms))"
| "canonicalize collate v = v"

text \<open>The source sorts the entries before it maps their values; by key, in a stable sort, that is the same.\<close>

lemma sort_entries_map:
  "Sorting_Algorithms.sort (key fst collate) (map (\<lambda>(k, v). (k, f v)) ms) =
   map (\<lambda>(k, v). (k, f v)) (Sorting_Algorithms.sort (key fst collate) ms)"
proof -
  have ins: "Sorting_Algorithms.insort (key fst collate) (fst e, f (snd e)) (map (\<lambda>(k, v). (k, f v)) es) =
      map (\<lambda>(k, v). (k, f v)) (Sorting_Algorithms.insort (key fst collate) e es)" for e es
    by (cases e, induction es) auto
  show ?thesis
  proof (induction ms)
    case (Cons e ms)
    obtain k v where e: "e = (k, v)" by fastforce
    show ?case using Cons ins [of e] by (simp add: e)
  qed simp
qed

lemma canonicalize_sorts_first:
  "canonicalize collate (JObj ms) = JObj (map (\<lambda>(k, v). (k, canonicalize collate v)) (Sorting_Algorithms.sort (key fst collate) ms))"
  by (simp add: sort_entries_map)

definition requestSha256 :: "string comparator \<Rightarrow> (json \<Rightarrow> string) \<Rightarrow> json_record \<Rightarrow> string" where
  "requestSha256 collate hash input = hash (canonicalize collate (JObj input))"

definition failure_json :: "string \<Rightarrow> string \<Rightarrow> json_record \<Rightarrow> json_record" where
  "failure_json code message details =
     [(''error'', JStr code), (''code'', JStr code), (''message'', JStr message), (''details'', JObj details)]"

fun serializeFailure :: "op_error \<Rightarrow> json_record" where
  "serializeFailure (Op_openlander r) = r"
| "serializeFailure (Op_contract name issues) =
     failure_json ''OPERATION_CONTRACT_ERROR'' (''Application operation contract failed: '' @ name)
       [(''operationName'', JStr name), (''reason'', JStr ''output_schema_mismatch''), (''issues'', issues)]"
| "serializeFailure (Op_persistence entity ident) =
     failure_json ''REPO_PERSISTENCE_FAILED''
       (''Failed to persist '' @ entity @ '' '' @ ident @ '': insert succeeded but verification read returned no row'')
       [(''entity'', JStr entity), (''identifier'', JStr ident)]"
| "serializeFailure _ = [(''error'', JStr ''OPERATION_FAILED''), (''code'', JStr ''OPERATION_FAILED''),
     (''message'', JStr ''Application operation failed.'')]"

text \<open>The target of a scoped actor: a string member of the input, else what the definition resolves.\<close>

definition scope_field :: "string option \<Rightarrow> json_record \<Rightarrow> string option \<Rightarrow> string option" where
  "scope_field field input resolved =
     (case Option.bind field (str_member input) of Some s \<Rightarrow> Some s | None \<Rightarrow> resolved)"

definition assertScope :: "'w op_definition \<Rightarrow> json_record \<Rightarrow> op_actor \<Rightarrow> op_error + unit" where
  "assertScope d input actor =
     (let resolved = (case od_resolveScopeTarget d of Some f \<Rightarrow> f input | None \<Rightarrow> (None, None));
          project = scope_field (od_projectIdField d) input (fst resolved);
          service = scope_field (od_serviceIdField d) input (snd resolved)
      in if oa_scope actor \<notin> set (od_allowedScopes d) then Inl (Op_scope_error (od_name d))
         else if oa_scope actor = Scope_project \<and> (project = None \<or> project \<noteq> oa_projectId actor) then Inl (Op_scope_error (od_name d))
         else if oa_scope actor = Scope_service \<and> (service = None \<or> service \<noteq> oa_serviceId actor) then Inl (Op_scope_error (od_name d))
         else Inr ())"

section \<open>The table of invocations\<close>

datatype op_status = Op_running | Op_succeeded | Op_failed

record invocation =
  iv_id :: string
  iv_name :: string
  iv_version :: int
  iv_scope :: string
  iv_key :: string
  iv_hash :: string
  iv_status :: op_status
  iv_response :: "json_record option"
  iv_error :: "json_record option"
  iv_created_at :: int
  iv_updated_at :: int

type_synonym op_table = "invocation list"

record claim_input =
  ci_name :: string
  ci_version :: int
  ci_scope :: string
  ci_key :: string
  ci_hash :: string

text \<open>The columns of the unique index.\<close>

definition index_of :: "invocation \<Rightarrow> string \<times> int \<times> string \<times> string" where
  "index_of r = (iv_name r, iv_version r, iv_scope r, iv_key r)"

definition claim_index :: "claim_input \<Rightarrow> string \<times> int \<times> string \<times> string" where
  "claim_index c = (ci_name c, ci_version c, ci_scope c, ci_key c)"

definition findByKey :: "claim_input \<Rightarrow> op_table \<Rightarrow> invocation option" where
  "findByKey c t = row_of index_of (claim_index c) t"

definition op_findById :: "string \<Rightarrow> op_table \<Rightarrow> invocation option" where
  "op_findById ident t = row_of iv_id ident t"

definition new_invocation :: "claim_input \<Rightarrow> string \<Rightarrow> int \<Rightarrow> invocation" where
  "new_invocation c ident now = \<lparr>iv_id = ident, iv_name = ci_name c, iv_version = ci_version c, iv_scope = ci_scope c, iv_key = ci_key c,
     iv_hash = ci_hash c, iv_status = Op_running, iv_response = None, iv_error = None, iv_created_at = now,
     iv_updated_at = now\<rparr>"

text \<open>\<open>INSERT .. ON CONFLICT DO NOTHING\<close>, on the primary key or the unique index; then the row that is there.\<close>

definition op_claim :: "claim_input \<Rightarrow> string \<Rightarrow> int \<Rightarrow> op_table \<Rightarrow> (op_error + bool \<times> invocation) \<times> op_table" where
  "op_claim c ident now t =
     (if findByKey c t = None \<and> op_findById ident t = None
      then (Inr (True, new_invocation c ident now), t @ [new_invocation c ident now])
      else case findByKey c t of
             Some existing \<Rightarrow> (Inr (False, existing), t)
           | None \<Rightarrow> (Inl (Op_persistence ''application operation invocation'' ident), t))"

definition update_one :: "(invocation \<Rightarrow> bool) \<Rightarrow> (invocation \<Rightarrow> invocation) \<Rightarrow> string \<Rightarrow> string \<Rightarrow> op_table
    \<Rightarrow> (op_error + invocation) \<times> op_table" where
  "update_one p f entity ident t =
     (case sql_returning p f t of
        [] \<Rightarrow> (Inl (Op_persistence entity ident), sql_update p f t)
      | r # _ \<Rightarrow> (Inr r, sql_update p f t))"

definition retry_values :: "int \<Rightarrow> invocation \<Rightarrow> invocation" where
  "retry_values now r = r\<lparr>iv_status := Op_running, iv_response := None, iv_error := None, iv_updated_at := now\<rparr>"

definition success_values :: "json_record \<Rightarrow> int \<Rightarrow> invocation \<Rightarrow> invocation" where
  "success_values response now r = r\<lparr>iv_status := Op_succeeded, iv_response := Some response, iv_error := None, iv_updated_at := now\<rparr>"

definition failure_values :: "json_record \<Rightarrow> int \<Rightarrow> invocation \<Rightarrow> invocation" where
  "failure_values err now r = r\<lparr>iv_status := Op_failed, iv_error := Some err, iv_updated_at := now\<rparr>"

definition retryFailed :: "string \<Rightarrow> int \<Rightarrow> op_table \<Rightarrow> (op_error + invocation) \<times> op_table" where
  "retryFailed ident now t =
     update_one (\<lambda>r. iv_id r = ident \<and> iv_status r = Op_failed) (retry_values now) ''application operation invocation retry'' ident t"

definition op_succeed :: "string \<Rightarrow> json_record \<Rightarrow> int \<Rightarrow> op_table \<Rightarrow> (op_error + invocation) \<times> op_table" where
  "op_succeed ident response now t =
     update_one (\<lambda>r. iv_id r = ident) (success_values response now) ''application operation invocation success'' ident t"

definition op_fail :: "string \<Rightarrow> json_record \<Rightarrow> int \<Rightarrow> op_table \<Rightarrow> (op_error + invocation) \<times> op_table" where
  "op_fail ident err now t =
     update_one (\<lambda>r. iv_id r = ident) (failure_values err now) ''application operation invocation failure'' ident t"

definition interrupted :: json_record where
  "interrupted = [(''code'', JStr ''OPERATION_INTERRUPTED''),
     (''message'', JStr ''OpenLander restarted before the operation adapter recorded completion.'')]"

definition markRunningAsFailedOnStartup :: "int \<Rightarrow> op_table \<Rightarrow> nat \<times> op_table" where
  "markRunningAsFailedOnStartup now t =
     (length (filter (\<lambda>r. iv_status r = Op_running) t),
      sql_update (\<lambda>r. iv_status r = Op_running) (failure_values interrupted now) t)"

section \<open>The registry\<close>

type_synonym 'w registry = "(string, 'w op_definition) js_map"

fun build_registry :: "'w op_definition list \<Rightarrow> 'w registry \<Rightarrow> op_error + 'w registry" where
  "build_registry [] reg = Inr reg"
| "build_registry (d # ds) reg =
     (if js_has reg (od_name d) then Inl (Op_contract (od_name d) (JStr ''duplicate_registration''))
      else build_registry ds (js_set (od_name d) d reg))"

definition get_operation :: "'w registry \<Rightarrow> string \<Rightarrow> op_error + 'w op_definition" where
  "get_operation reg name = (case js_get reg name of Some d \<Rightarrow> Inr d | None \<Rightarrow> Inl (Op_not_found name))"

record op_options =
  oo_actor :: op_actor
  oo_idempotencyKey :: "string option"
  oo_version :: "int option"

record op_result =
  or_operation_id :: "string option"
  or_operation :: string
  or_version :: int
  or_replayed :: bool
  or_result :: json_record

text \<open>The body and the check of its output.\<close>

definition run_body :: "'w op_definition \<Rightarrow> json_record \<Rightarrow> op_actor \<Rightarrow> string option \<Rightarrow> 'w \<Rightarrow> (op_error + json_record) \<times> 'w" where
  "run_body d input actor ident w =
     (case od_execute d input actor ident w of
        (Inl e, w') \<Rightarrow> (Inl e, w')
      | (Inr result, w') \<Rightarrow>
          (case od_outputSchema d result of
             Inl issues \<Rightarrow> (Inl (Op_contract (od_name d) issues), w')
           | Inr out \<Rightarrow> (Inr out, w')))"

definition done_result :: "'w op_definition \<Rightarrow> string option \<Rightarrow> bool \<Rightarrow> json_record \<Rightarrow> op_result" where
  "done_result d ident replayed out =
     \<lparr>or_operation_id = ident, or_operation = od_name d, or_version = od_version d, or_replayed = replayed, or_result = out\<rparr>"

text \<open>The \<open>try\<close> block: run, record the success; whatever throws is recorded as the failure and thrown on.\<close>

definition run_claimed :: "'w op_definition \<Rightarrow> json_record \<Rightarrow> op_actor \<Rightarrow> string \<Rightarrow> int \<Rightarrow> op_table \<times> 'w
    \<Rightarrow> (op_error + op_result) \<times> op_table \<times> 'w" where
  "run_claimed d input actor ident now s =
     (case s of (t, w) \<Rightarrow>
        let (r, w') = run_body d input actor (Some ident) w;
            (r1, t1) = (case r of
               Inl e \<Rightarrow> (Inl e, t)
             | Inr out \<Rightarrow> (case op_succeed ident out now t of
                 (Inl e, t') \<Rightarrow> (Inl e, t')
               | (Inr _, t') \<Rightarrow> (Inr (done_result d (Some ident) False out), t')))
        in case r1 of
             Inr res \<Rightarrow> (Inr res, t1, w')
           | Inl e \<Rightarrow> (case op_fail ident (serializeFailure e) now t1 of
                 (Inl e', t2) \<Rightarrow> (Inl e', t2, w')
               | (Inr _, t2) \<Rightarrow> (Inl e, t2, w')))"

definition claim_of :: "'w op_definition \<Rightarrow> op_actor \<Rightarrow> string \<Rightarrow> string \<Rightarrow> claim_input" where
  "claim_of d actor ikey h = \<lparr>ci_name = od_name d, ci_version = od_version d,
     ci_scope = applicationOperationActorScopeKey actor, ci_key = ikey, ci_hash = h\<rparr>"

definition run_command :: "'w op_definition \<Rightarrow> json_record \<Rightarrow> op_actor \<Rightarrow> string \<Rightarrow> string \<Rightarrow> string \<Rightarrow> int \<Rightarrow> op_table \<times> 'w
    \<Rightarrow> (op_error + op_result) \<times> op_table \<times> 'w" where
  "run_command d input actor ikey h ident now s =
     (case s of (t, w) \<Rightarrow>
        (case op_claim (claim_of d actor ikey h) ident now t of
           (Inl e, t1) \<Rightarrow> (Inl e, t1, w)
         | (Inr (True, iv), t1) \<Rightarrow> run_claimed d input actor (iv_id iv) now (t1, w)
         | (Inr (False, iv), t1) \<Rightarrow>
             if iv_hash iv \<noteq> h then (Inl (Op_idempotency_conflict (od_name d) ikey), t1, w)
             else if iv_status iv = Op_succeeded \<and> iv_response iv \<noteq> None
             then (Inr (done_result d (Some (iv_id iv)) True (the (iv_response iv))), t1, w)
             else if iv_status iv = Op_running then (Inl (Op_in_progress (od_name d) (iv_id iv)), t1, w)
             else (case retryFailed (iv_id iv) now t1 of
                     (Inl e, t2) \<Rightarrow> (Inl e, t2, w)
                   | (Inr iv', t2) \<Rightarrow> run_claimed d input actor (iv_id iv') now (t2, w))))"

definition trimmed_key :: "op_options \<Rightarrow> string" where
  "trimmed_key opts = (case oo_idempotencyKey opts of Some k \<Rightarrow> js_trim k | None \<Rightarrow> [])"

definition op_execute :: "string comparator \<Rightarrow> (json \<Rightarrow> string) \<Rightarrow> 'w registry \<Rightarrow> string \<Rightarrow> json
    \<Rightarrow> op_options \<Rightarrow> string \<Rightarrow> string \<Rightarrow> int \<Rightarrow> op_table \<times> 'w \<Rightarrow> (op_error + op_result) \<times> op_table \<times> 'w" where
  "op_execute collate hash reg name rawInput opts ident uuid now s =
     (case get_operation reg name of
        Inl e \<Rightarrow> (Inl e, s)
      | Inr d \<Rightarrow>
          if oo_version opts \<noteq> None \<and> oo_version opts \<noteq> Some (od_version d) then (Inl (Op_validation name), s)
          else (case od_inputSchema d rawInput of
                  Inl issues \<Rightarrow> (Inl (Op_validation name), s)
                | Inr input \<Rightarrow>
                    (case assertScope d input (oo_actor opts) of
                       Inl e \<Rightarrow> (Inl e, s)
                     | Inr _ \<Rightarrow>
                         if od_kind d = Query
                         then (case s of (t, w) \<Rightarrow>
                                 (case run_body d input (oo_actor opts) None w of
                                    (Inl e, w') \<Rightarrow> (Inl e, t, w')
                                  | (Inr out, w') \<Rightarrow> (Inr (done_result d None False out), t, w')))
                         else if od_idempotency d = Idem_required \<and> trimmed_key opts = []
                         then (Inl (Op_idempotency_required name), s)
                         else run_command d input (oo_actor opts)
                                (if trimmed_key opts \<noteq> [] then trimmed_key opts else ''ephemeral:'' @ uuid)
                                (requestSha256 collate hash input) ident now s)))"

definition op_status_of :: "op_actor \<Rightarrow> string \<Rightarrow> op_table \<Rightarrow> op_error + invocation" where
  "op_status_of actor ident t =
     (case op_findById ident t of
        None \<Rightarrow> Inl (Op_not_found ident)
      | Some iv \<Rightarrow>
          if oa_scope actor \<noteq> Scope_instance \<and> iv_scope iv \<noteq> applicationOperationActorScopeKey actor
          then Inl (Op_scope_error (iv_name iv)) else Inr iv)"

section \<open>Lemmas on the table\<close>

definition op_ok :: "op_table \<Rightarrow> bool" where
  "op_ok t \<longleftrightarrow> keys_ok iv_id t \<and> keys_ok index_of t"

lemma values_keep [simp]:
  "iv_id (retry_values now r) = iv_id r" "iv_id (success_values out now r) = iv_id r" "iv_id (failure_values e now r) = iv_id r"
  "index_of (retry_values now r) = index_of r" "index_of (success_values out now r) = index_of r"
  "index_of (failure_values e now r) = index_of r"
  "iv_hash (retry_values now r) = iv_hash r" "iv_hash (success_values out now r) = iv_hash r"
  by (simp_all add: retry_values_def success_values_def failure_values_def index_of_def)

lemma op_ok_update:
  assumes "\<And>r. iv_id (f r) = iv_id r" and "\<And>r. index_of (f r) = index_of r"
  shows "op_ok (sql_update p f t) = op_ok t"
  using assms by (simp add: op_ok_def keys_sql_update)

lemma update_one_table: "snd (update_one p f entity ident t) = sql_update p f t"
  by (simp add: update_one_def split: list.splits)

lemma op_ok_ops [simp]:
  "op_ok (snd (retryFailed ident now t)) = op_ok t" "op_ok (snd (op_succeed ident out now t)) = op_ok t"
  "op_ok (snd (op_fail ident e now t)) = op_ok t" "op_ok (snd (markRunningAsFailedOnStartup now t)) = op_ok t"
  by (simp_all add: retryFailed_def op_succeed_def op_fail_def update_one_table markRunningAsFailedOnStartup_def op_ok_update)

lemma findByKey_mem: "findByKey c t = Some r \<Longrightarrow> r \<in> set t \<and> index_of r = claim_index c"
  by (auto simp: findByKey_def dest: row_of_key)

text \<open>A conditional update of one row by its id, seen through both keys.\<close>

lemma update_one_row:
  assumes "op_ok t" and "r \<in> set t" and "q r" and "\<And>x. iv_id (f x) = iv_id x" and "\<And>x. index_of (f x) = index_of x"
  shows "update_one (\<lambda>x. iv_id x = iv_id r \<and> q x) f entity ident t =
      (Inr (f r), sql_update (\<lambda>x. iv_id x = iv_id r \<and> q x) f t) \<and>
    (index_of r = claim_index c \<longrightarrow> findByKey c (sql_update (\<lambda>x. iv_id x = iv_id r \<and> q x) f t) = Some (f r))"
proof -
  have keys: "keys_ok iv_id t" "keys_ok index_of t" using assms(1) by (auto simp: op_ok_def)
  have "filter (\<lambda>x. iv_id x = iv_id r \<and> q x) t = [r]"
    using filter_by_key [OF keys(1), of "iv_id r" q] row_of_mem [OF keys(1) assms(2)] assms(3) by simp
  then have "update_one (\<lambda>x. iv_id x = iv_id r \<and> q x) f entity ident t =
      (Inr (f r), sql_update (\<lambda>x. iv_id x = iv_id r \<and> q x) f t)"
    by (simp add: update_one_def sql_returning_def)
  moreover have "findByKey c (sql_update (\<lambda>x. iv_id x = iv_id r \<and> q x) f t) = Some (f r)" if "index_of r = claim_index c"
    using row_of_mem [OF keys(2) assms(2)] that assms(3) by (simp add: findByKey_def row_of_sql_update assms(5))
  ultimately show ?thesis by blast
qed

lemma op_succeed_row:
  assumes "op_ok t" and "r \<in> set t" and "index_of r = claim_index c"
  shows "\<exists>t'. op_succeed (iv_id r) out now t = (Inr (success_values out now r), t') \<and> findByKey c t' = Some (success_values out now r)"
  using update_one_row [OF assms(1,2), of "\<lambda>_. True" "success_values out now" "''application operation invocation success''" "iv_id r" c] assms(3)
  by (simp add: op_succeed_def)

lemma retryFailed_row:
  assumes "op_ok t" and "r \<in> set t" and "index_of r = claim_index c" and "iv_status r = Op_failed"
  shows "\<exists>t'. retryFailed (iv_id r) now t = (Inr (retry_values now r), t') \<and> findByKey c t' = Some (retry_values now r) \<and> op_ok t'"
  using update_one_row [OF assms(1,2), of "\<lambda>x. iv_status x = Op_failed" "retry_values now" "''application operation invocation retry''" "iv_id r" c]
    assms by (simp add: retryFailed_def op_ok_update)

lemma op_claim_new:
  assumes "op_claim c ident now t = (Inr (True, iv), t')" and "op_ok t"
  shows "iv = new_invocation c ident now \<and> op_ok t' \<and> iv \<in> set t' \<and> index_of iv = claim_index c"
proof -
  have new: "findByKey c t = None" "op_findById ident t = None" "iv = new_invocation c ident now" "t' = t @ [iv]"
    using assms(1) by (auto simp: op_claim_def split: if_splits option.splits)
  have ix: "index_of (new_invocation c ident now) = claim_index c" "iv_id (new_invocation c ident now) = ident"
    by (simp_all add: index_of_def claim_index_def new_invocation_def)
  with new assms(2) show ?thesis
    by (auto simp: op_ok_def keys_ok_def findByKey_def op_findById_def row_of_None_iff)
qed

text \<open>After a success is recorded, the key finds it.\<close>

lemma run_claimed_success:
  assumes "run_claimed d input actor (iv_id r) now (t, w) = (Inr res, t', w')" and "op_ok t" and "r \<in> set t" and "index_of r = claim_index c"
  shows "\<exists>out. res = done_result d (Some (iv_id r)) False out \<and> findByKey c t' = Some (success_values out now r) \<and> op_ok t'"
proof -
  obtain b w1 where body: "run_body d input actor (Some (iv_id r)) w = (b, w1)" by fastforce
  show ?thesis
  proof (cases b)
    case (Inl e)
    with assms(1) body show ?thesis by (auto simp: run_claimed_def split: prod.splits sum.splits)
  next
    case (Inr out)
    obtain t1 where t1: "op_succeed (iv_id r) out now t = (Inr (success_values out now r), t1)"
      "findByKey c t1 = Some (success_values out now r)"
      using op_succeed_row [OF assms(2,3,4)] by blast
    have "op_ok t1" using op_ok_ops(2) [of "iv_id r" out now t] assms(2) t1(1) by simp
    with assms(1) body Inr t1 show ?thesis by (auto simp: run_claimed_def)
  qed
qed

lemma run_command_success:
  assumes "run_command d input actor ikey h ident now (t, w) = (Inr res, t', w')" and "op_ok t"
  shows "\<exists>r out b. res = done_result d (Some (iv_id r)) b out \<and> findByKey (claim_of d actor ikey h) t' = Some r \<and>
     iv_status r = Op_succeeded \<and> iv_response r = Some out \<and> iv_hash r = h \<and> op_ok t'"
proof -
  let ?c = "claim_of d actor ikey h"
  obtain cr t1 where cl: "op_claim ?c ident now t = (cr, t1)" by fastforce
  have sv: "iv_status (success_values out n r) = Op_succeeded" "iv_response (success_values out n r) = Some out" for out n r
    by (simp_all add: success_values_def)
  consider (err) e where "cr = Inl e" | (new) iv where "cr = Inr (True, iv)" | (old) iv where "cr = Inr (False, iv)"
    by (cases cr) auto
  then show ?thesis
  proof cases
    case err
    with assms(1) cl show ?thesis by (simp add: run_command_def)
  next
    case new
    note n = op_claim_new [OF cl [unfolded new] assms(2)]
    have "run_claimed d input actor (iv_id iv) now (t1, w) = (Inr res, t', w')"
      using assms(1) cl new by (simp add: run_command_def)
    from run_claimed_success [OF this, of ?c] n sv show ?thesis
      by (fastforce simp: new_invocation_def claim_of_def)
  next
    case old
    then have t1: "t1 = t" "findByKey ?c t = Some iv" using cl by (auto simp: op_claim_def split: if_splits option.splits)
    note iv = findByKey_mem [OF t1(2)]
    have h: "iv_hash iv = h" using assms(1) cl old by (auto simp: run_command_def split: if_splits)
    show ?thesis
    proof (cases "iv_status iv = Op_succeeded \<and> iv_response iv \<noteq> None")
      case True
      with assms cl old h t1 show ?thesis by (auto simp: run_command_def)
    next
      case False
      then obtain r' t2 where r: "retryFailed (iv_id iv) now t1 = (Inr r', t2)"
        "run_claimed d input actor (iv_id r') now (t2, w) = (Inr res, t', w')"
        using assms(1) cl old h by (auto simp: run_command_def split: if_splits sum.splits prod.splits)
      have failed: "iv_status iv = Op_failed"
      proof (rule ccontr)
        assume "iv_status iv \<noteq> Op_failed"
        then have "filter (\<lambda>x. iv_id x = iv_id iv \<and> iv_status x = Op_failed) t = []"
          using filter_by_key [of iv_id t "iv_id iv" "\<lambda>x. iv_status x = Op_failed"] row_of_mem [of iv_id t iv] iv assms(2)
          by (simp add: op_ok_def)
        with r(1) t1(1) show False by (simp add: retryFailed_def update_one_def sql_returning_def)
      qed
      obtain t3 where t3: "retryFailed (iv_id iv) now t = (Inr (retry_values now iv), t3)"
        "findByKey ?c t3 = Some (retry_values now iv)" "op_ok t3"
        using retryFailed_row [OF assms(2), of iv ?c now] iv failed by blast
      have r': "r' = retry_values now iv" "findByKey ?c t2 = Some r'" "op_ok t2" using t3 r(1) t1(1) by simp_all
      from run_claimed_success [OF r(2) r'(3), of ?c] findByKey_mem [OF r'(2)] r'(1) h sv show ?thesis by fastforce
    qed
  qed
qed

lemma run_command_repeat:
  assumes "findByKey (claim_of d actor ikey h) t = Some r" and "iv_status r = Op_succeeded" and "iv_response r = Some out" and "iv_hash r = h"
  shows "run_command d input actor ikey h ident now (t, w) = (Inr (done_result d (Some (iv_id r)) True out), t, w)"
    and "h' \<noteq> h \<Longrightarrow> run_command d input actor ikey h' ident now (t, w) = (Inl (Op_idempotency_conflict (od_name d) ikey), t, w)"
proof -
  have same: "findByKey (claim_of d actor ikey h') t = findByKey (claim_of d actor ikey h) t" for h'
    by (simp add: findByKey_def claim_index_def claim_of_def)
  show "run_command d input actor ikey h ident now (t, w) = (Inr (done_result d (Some (iv_id r)) True out), t, w)"
    using assms by (simp add: run_command_def op_claim_def)
  show "run_command d input actor ikey h' ident now (t, w) = (Inl (Op_idempotency_conflict (od_name d) ikey), t, w)" if "h' \<noteq> h"
    using assms that same [of h'] by (simp add: run_command_def op_claim_def)
qed

section \<open>Idempotent commands\<close>

lemma op_execute_command:
  assumes "get_operation reg name = Inr d" and "od_kind d = Command" and "trimmed_key opts \<noteq> []"
    and "oo_version opts = None \<or> oo_version opts = Some (od_version d)" and "od_inputSchema d raw = Inr input"
    and "assertScope d input (oo_actor opts) = Inr ()"
  shows "op_execute collate hash reg name raw opts ident uuid now s =
    run_command d input (oo_actor opts) (trimmed_key opts) (requestSha256 collate hash input) ident now s"
  using assms by (auto simp: op_execute_def)

lemma op_execute_passes:
  assumes "op_execute collate hash reg name raw opts ident uuid now s = (Inr res, s')" and "get_operation reg name = Inr d"
  shows "(oo_version opts = None \<or> oo_version opts = Some (od_version d)) \<and>
    (\<exists>input. od_inputSchema d raw = Inr input \<and> assertScope d input (oo_actor opts) = Inr ())"
  using assms by (auto simp: op_execute_def split: if_splits sum.splits)

text \<open>
  C15. A command is idempotent under its key: once it returned a result, the same request with the same key gives that result
  again, marked as replayed, and neither the table nor the world changes, so the body is not run; another request with the same key, that
  passes the schema and the scope check and has another hash, is refused as a conflict, and nothing changes.
\<close>

theorem command_is_idempotent:
  assumes "get_operation reg name = Inr d" and "od_kind d = Command" and "trimmed_key opts \<noteq> []" and "op_ok t"
    and "op_execute collate hash reg name raw opts ident uuid now (t, w) = (Inr res, t', w')"
  shows "op_execute collate hash reg name raw opts ident2 uuid2 now2 (t', w2) = (Inr (res\<lparr>or_replayed := True\<rparr>), t', w2) \<and>
    (\<forall>input input' raw'. od_inputSchema d raw = Inr input \<and> od_inputSchema d raw' = Inr input' \<and>
       assertScope d input' (oo_actor opts) = Inr () \<and> requestSha256 collate hash input' \<noteq> requestSha256 collate hash input \<longrightarrow>
       op_execute collate hash reg name raw' opts ident2 uuid2 now2 (t', w2) =
         (Inl (Op_idempotency_conflict (od_name d) (trimmed_key opts)), t', w2))"
proof -
  obtain input where v: "oo_version opts = None \<or> oo_version opts = Some (od_version d)"
    and input: "od_inputSchema d raw = Inr input" "assertScope d input (oo_actor opts) = Inr ()"
    using op_execute_passes [OF assms(5,1)] by blast
  note ex = op_execute_command [OF assms(1-3) v]
  let ?h = "requestSha256 collate hash input"
  have run: "run_command d input (oo_actor opts) (trimmed_key opts) ?h ident now (t, w) = (Inr res, t', w')"
    using assms(5) ex [OF input] by simp
  obtain r out b where r: "res = done_result d (Some (iv_id r)) b out"
    "findByKey (claim_of d (oo_actor opts) (trimmed_key opts) ?h) t' = Some r"
    "iv_status r = Op_succeeded" "iv_response r = Some out" "iv_hash r = ?h"
    using run_command_success [OF run assms(4)] by blast
  note again = run_command_repeat [OF r(2-5)]
  have "done_result d (Some (iv_id r)) True out = res\<lparr>or_replayed := True\<rparr>" using r(1) by (simp add: done_result_def)
  then have "op_execute collate hash reg name raw opts ident2 uuid2 now2 (t', w2) = (Inr (res\<lparr>or_replayed := True\<rparr>), t', w2)"
    using again(1) ex [OF input] by simp
  moreover have "op_execute collate hash reg name raw' opts ident2 uuid2 now2 (t', w2) =
      (Inl (Op_idempotency_conflict (od_name d) (trimmed_key opts)), t', w2)"
    if h: "od_inputSchema d raw' = Inr input'" "assertScope d input' (oo_actor opts) = Inr ()"
      "requestSha256 collate hash input' \<noteq> ?h" for raw' input'
    using again(2) [OF h(3)] ex [OF h(1,2)] by simp
  ultimately show ?thesis using input(1) by auto
qed

definition sample_operation :: "nat op_definition" where
  "sample_operation = \<lparr>od_name = ''scale'', od_version = 1, od_kind = Command, od_idempotency = Idem_required,
     od_allowedScopes = [Scope_instance], od_projectIdField = None, od_serviceIdField = None, od_resolveScopeTarget = None,
     od_inputSchema = (\<lambda>j. case j of JObj m \<Rightarrow> Inr m | _ \<Rightarrow> Inl JNull), od_outputSchema = Inr,
     od_execute = (\<lambda>input actor ident n. (Inr [(''replicas'', JNum (int n))], Suc n))\<rparr>"

definition sample_options :: op_options where
  "sample_options = \<lparr>oo_actor = \<lparr>oa_scope = Scope_instance, oa_instanceId = ''i'', oa_projectId = None, oa_serviceId = None\<rparr>,
     oo_idempotencyKey = Some ''k1'', oo_version = None\<rparr>"

definition sample_hash :: "json \<Rightarrow> string" where
  "sample_hash j = (case j of JObj ms \<Rightarrow> concat (map fst ms) | _ \<Rightarrow> [])"

theorem command_is_idempotent_witness:
  "let reg = [(''scale'', sample_operation)]; s = op_execute default sample_hash reg ''scale'' (JObj [(''a'', JNull)]) sample_options ''op1'' ''u1'' 5 ([], 3)
   in \<exists>res t'. s = (Inr res, t', 4) \<and> or_result res = [(''replicas'', JNum 3)] \<and>
     op_execute default sample_hash reg ''scale'' (JObj [(''a'', JNull)]) sample_options ''op2'' ''u2'' 9 (t', 7) =
       (Inr (res\<lparr>or_replayed := True\<rparr>), t', 7) \<and>
     op_execute default sample_hash reg ''scale'' (JObj [(''b'', JNull)]) sample_options ''op2'' ''u2'' 9 (t', 7) =
       (Inl (Op_idempotency_conflict ''scale'' ''k1''), t', 7)"
proof -
  let ?reg = "[(''scale'', sample_operation)]"
  have g: "get_operation ?reg ''scale'' = Inr sample_operation" by (simp add: get_operation_def)
  have k: "od_kind sample_operation = Command" "trimmed_key sample_options = ''k1''" "op_ok []"
    by (simp_all add: sample_operation_def trimmed_key_def sample_options_def op_ok_def keys_ok_def js_trim_def is_space_def)
  have scope: "assertScope sample_operation input (oo_actor sample_options) = Inr ()" for input
    by (simp add: assertScope_def sample_operation_def sample_options_def)
  have schema: "od_inputSchema sample_operation (JObj m) = Inr m" for m by (simp add: sample_operation_def)
  have hash: "requestSha256 default sample_hash [(''b'', JNull)] \<noteq> requestSha256 default sample_hash [(''a'', JNull)]"
    by (simp add: requestSha256_def sample_hash_def)
  obtain res t' where ex: "op_execute default sample_hash ?reg ''scale'' (JObj [(''a'', JNull)]) sample_options ''op1'' ''u1'' 5 ([], 3) = (Inr res, t', 4)"
      "or_result res = [(''replicas'', JNum 3)]"
    using op_execute_command [where opts = sample_options, OF g k(1) _ _ schema scope] k(2)
    by (simp add: sample_operation_def sample_options_def run_command_def op_claim_def findByKey_def op_findById_def row_of_def
      run_claimed_def run_body_def op_succeed_def update_one_def sql_returning_def new_invocation_def done_result_def)
  note c = command_is_idempotent [where ?ident2.0 = "''op2''" and ?uuid2.0 = "''u2''" and ?now2.0 = 9 and ?w2.0 = 7, OF g k(1) _ k(3) ex(1)]
  with ex schema scope hash k(2) show ?thesis by (auto simp: Let_def sample_operation_def)
qed

section \<open>Interleaved callers\<close>

text \<open>
  The table with the invocations that some caller is executing. Every query of \<open>execute\<close> is a step of its own, so callers interleave at each
  \<open>await\<close>; a retry may follow a read of any age. An execution may also end without a record, when its process dies or the query that records its
  end fails.
\<close>

record op_world =
  ow_table :: op_table
  ow_executing :: "string list"

inductive op_step :: "op_world \<Rightarrow> op_world \<Rightarrow> bool" where
  step_claim: "op_claim c ident now t = (Inr (True, iv), t') \<Longrightarrow>
     op_step \<lparr>ow_table = t, ow_executing = xs\<rparr> \<lparr>ow_table = t', ow_executing = iv_id iv # xs\<rparr>"
| step_retry: "retryFailed ident now t = (Inr iv, t') \<Longrightarrow>
     op_step \<lparr>ow_table = t, ow_executing = xs\<rparr> \<lparr>ow_table = t', ow_executing = iv_id iv # xs\<rparr>"
| step_succeed: "ident \<in> set xs \<Longrightarrow> op_succeed ident out now t = (Inr iv, t') \<Longrightarrow>
     op_step \<lparr>ow_table = t, ow_executing = xs\<rparr> \<lparr>ow_table = t', ow_executing = remove1 ident xs\<rparr>"
| step_fail: "ident \<in> set xs \<Longrightarrow> op_fail ident e now t = (Inr iv, t') \<Longrightarrow>
     op_step \<lparr>ow_table = t, ow_executing = xs\<rparr> \<lparr>ow_table = t', ow_executing = remove1 ident xs\<rparr>"
| step_die: "ident \<in> set xs \<Longrightarrow> op_step \<lparr>ow_table = t, ow_executing = xs\<rparr> \<lparr>ow_table = t, ow_executing = remove1 ident xs\<rparr>"

text \<open>
  Every process that connects to the database marks the running rows as failed (\<open>Database.connect\<close> of \<open>src/src/db/index.ts\<close>): the server when it
  starts, and also a command of the command line while the server runs. Connecting ends no execution: it disturbs those that are going on,
  whose identifiers the second component collects.
\<close>

inductive op_sys :: "op_world \<times> string list \<Rightarrow> op_world \<times> string list \<Rightarrow> bool" where
  caller: "op_step s s' \<Longrightarrow> op_sys (s, ds) (s', ds)"
| connect: "markRunningAsFailedOnStartup now t = (n, t') \<Longrightarrow>
     op_sys (\<lparr>ow_table = t, ow_executing = xs\<rparr>, ds) (\<lparr>ow_table = t', ow_executing = xs\<rparr>, xs @ ds)"

text \<open>The invariant speaks of the executions that no connection has disturbed.\<close>

definition op_inv :: "string list \<Rightarrow> op_world \<Rightarrow> bool" where
  "op_inv ds s \<longleftrightarrow> op_ok (ow_table s) \<and> distinct (filter (\<lambda>i. i \<notin> set ds) (ow_executing s)) \<and>
     (\<forall>i \<in> set (ow_executing s) - set ds. \<forall>r. row_of iv_id i (ow_table s) = Some r \<longrightarrow> iv_status r = Op_running) \<and>
     set (ow_executing s) \<subseteq> iv_id ` set (ow_table s)"

lemma update_one_Inr:
  assumes "update_one p f entity ident t = (Inr r, t')"
  shows "(\<exists>x \<in> set t. p x \<and> r = f x) \<and> t' = sql_update p f t"
proof -
  obtain x xs where x: "filter p t = x # xs" "r = f x" "t' = sql_update p f t"
    using assms by (cases "filter p t") (auto simp: update_one_def sql_returning_def)
  have "x \<in> set (filter p t)" using x(1) by simp
  then have "x \<in> set t" "p x" by simp_all
  with x(2,3) show ?thesis by blast
qed

text \<open>A succeeded row is not touched by a step that respects the invariant.\<close>

lemma sql_update_keeps: "r \<in> set t \<Longrightarrow> \<not> p r \<Longrightarrow> r \<in> set (sql_update p f t)"
  by (force simp: sql_update_def)

lemma status_values [simp]:
  "iv_status (retry_values now r) = Op_running" "iv_status (new_invocation c ident now) = Op_running"
  "iv_id (new_invocation c ident now) = ident"
  by (simp_all add: retry_values_def new_invocation_def)

lemma op_inv_id: "op_inv ds s \<Longrightarrow> keys_ok iv_id (ow_table s)"
  by (simp add: op_inv_def op_ok_def)

lemma sql_update_ids [simp]:
  assumes "\<And>r. iv_id (f r) = iv_id r"
  shows "iv_id ` set (sql_update p f t) = iv_id ` set t"
proof -
  have "map iv_id (sql_update p f t) = map iv_id t" by (simp add: sql_update_def assms)
  then show ?thesis by (metis set_map)
qed

lemma in_set_remove1D: "x \<in> set (remove1 y xs) \<Longrightarrow> x \<in> set xs"
  by (rule subsetD [OF set_remove1_subset])

lemma remove1_undisturbed:
  assumes "distinct (filter P xs)" and "P i" and "i \<in> set (remove1 j xs)"
  shows "i \<noteq> j"
proof
  assume "i = j"
  with assms(2,3) have "i \<in> set (remove1 i (filter P xs))" by (simp flip: filter_remove1)
  with assms(1) show False by simp
qed

text \<open>An execution that ends writes its own row and nothing else.\<close>

lemma op_inv_end:
  assumes inv: "op_inv ds \<lparr>ow_table = t, ow_executing = xs\<rparr>" and f: "\<And>r. iv_id (f r) = iv_id r" "\<And>r. index_of (f r) = index_of r"
  shows "op_inv ds \<lparr>ow_table = sql_update (\<lambda>r. iv_id r = ident) f t, ow_executing = remove1 ident xs\<rparr>"
proof -
  have d: "distinct (filter (\<lambda>i. i \<notin> set ds) xs)" using inv by (simp add: op_inv_def)
  have "iv_status r = Op_running"
    if i: "i \<in> set (remove1 ident xs)" "i \<notin> set ds" and r: "row_of iv_id i (sql_update (\<lambda>r. iv_id r = ident) f t) = Some r" for i r
  proof -
    have "i \<noteq> ident" using remove1_undisturbed [OF d _ i(1)] i(2) by simp
    then have "row_of iv_id i t = Some r" using r by (auto simp: row_of_sql_update f dest: row_of_key)
    moreover have "i \<in> set xs" using i(1) by (rule in_set_remove1D)
    ultimately show ?thesis using inv i(2) by (auto simp: op_inv_def)
  qed
  moreover have "op_ok (sql_update (\<lambda>r. iv_id r = ident) f t)" using inv f by (simp add: op_inv_def op_ok_update)
  moreover have "set (remove1 ident xs) \<subseteq> iv_id ` set (sql_update (\<lambda>r. iv_id r = ident) f t)"
    using inv by (auto simp: op_inv_def f dest!: in_set_remove1D)
  ultimately show ?thesis using d by (simp add: op_inv_def filter_remove1 del: set_remove1_eq) blast
qed

lemma op_step_inv: "op_step s s' \<Longrightarrow> op_inv ds s \<Longrightarrow> op_inv ds s'"
proof (induction rule: op_step.induct)
  case (step_claim c ident now t iv t' xs)
  have ok: "op_ok t" using step_claim.prems by (simp add: op_inv_def)
  have new: "row_of iv_id ident t = None" "iv = new_invocation c ident now" "t' = t @ [iv]"
    using step_claim.hyps by (auto simp: op_claim_def op_findById_def split: if_splits option.splits)
  have fresh: "ident \<notin> iv_id ` set t" using new(1) by (simp add: row_of_None_iff)
  have "op_ok t'" using op_claim_new [OF step_claim.hyps ok] by simp
  with step_claim.prems new fresh show ?case
    by (auto simp: op_inv_def row_of_append split: option.splits)
next
  case (step_retry ident now t iv t' xs)
  obtain x where x: "x \<in> set t" "iv_id x = ident" "iv_status x = Op_failed" "iv = retry_values now x"
    and t': "t' = sql_update (\<lambda>r. iv_id r = ident \<and> iv_status r = Op_failed) (retry_values now) t"
    using step_retry.hyps by (auto simp: retryFailed_def dest: update_one_Inr)
  have row: "row_of iv_id ident t = Some x" using row_of_mem [OF op_inv_id [OF step_retry.prems], of x] x by simp
  then have "ident \<notin> set xs - set ds" using step_retry.prems x(3) by (fastforce simp: op_inv_def)
  moreover have "iv \<noteq> x"
  proof
    assume "iv = x"
    moreover have "iv_status iv = Op_running" by (simp add: x(4))
    ultimately show False using x(3) by simp
  qed
  ultimately show ?case using step_retry.prems x t' row
    by (auto simp: op_inv_def op_ok_update row_of_sql_update)
next
  case (step_succeed ident xs out now t iv t')
  then have "t' = sql_update (\<lambda>r. iv_id r = ident) (success_values out now) t"
    by (auto simp: op_succeed_def dest: update_one_Inr)
  then show ?case using op_inv_end [OF step_succeed.prems, of "success_values out now" ident] by simp
next
  case (step_fail ident xs e now t iv t')
  then have "t' = sql_update (\<lambda>r. iv_id r = ident) (failure_values e now) t"
    by (auto simp: op_fail_def dest: update_one_Inr)
  then show ?case using op_inv_end [OF step_fail.prems, of "failure_values e now" ident] by simp
next
  case (step_die ident xs t)
  then show ?case by (auto simp: op_inv_def filter_remove1 dest!: in_set_remove1D)
qed

lemma op_inv_not_executing:
  assumes "op_inv ds s" and "r \<in> set (ow_table s)" and "iv_status r \<noteq> Op_running" and "iv_id r \<notin> set ds"
  shows "iv_id r \<notin> set (ow_executing s)"
  using assms row_of_mem [OF op_inv_id [OF assms(1)] assms(2)] by (auto simp: op_inv_def)

lemma op_step_keeps_success:
  "op_step s s' \<Longrightarrow> op_inv ds s \<Longrightarrow> r \<in> set (ow_table s) \<Longrightarrow> iv_status r = Op_succeeded \<Longrightarrow> iv_id r \<notin> set ds \<Longrightarrow> r \<in> set (ow_table s')"
proof (induction rule: op_step.induct)
  case (step_claim c ident now t iv t' xs)
  then show ?case by (auto simp: op_claim_def split: if_splits option.splits)
next
  case (step_retry ident now t iv t' xs)
  then show ?case by (auto simp: retryFailed_def dest!: update_one_Inr intro: sql_update_keeps)
next
  case (step_succeed ident xs out now t iv t')
  then have "iv_id r \<noteq> ident" using op_inv_not_executing [of ds _ r] by fastforce
  with step_succeed show ?case by (auto simp: op_succeed_def dest!: update_one_Inr intro: sql_update_keeps)
next
  case (step_fail ident xs e now t iv t')
  then have "iv_id r \<noteq> ident" using op_inv_not_executing [of ds _ r] by fastforce
  with step_fail show ?case by (auto simp: op_fail_def dest!: update_one_Inr intro: sql_update_keeps)
next
  case (step_die ident xs t)
  then show ?case by simp
qed

text \<open>The same for the steps of callers and connections together.\<close>

lemma op_sys_inv: "op_sys y z \<Longrightarrow> op_inv (snd y) (fst y) \<Longrightarrow> op_inv (snd z) (fst z)"
proof (induction rule: op_sys.induct)
  case (caller s s' ds)
  then show ?case using op_step_inv by simp
next
  case (connect now t n t' xs ds)
  then show ?case by (auto simp: op_inv_def op_ok_update markRunningAsFailedOnStartup_def)
qed

definition kept :: "invocation \<Rightarrow> op_world \<times> string list \<Rightarrow> bool" where
  "kept r y \<longleftrightarrow> r \<in> set (ow_table (fst y)) \<and> iv_id r \<notin> set (snd y)"

lemma op_sys_keeps:
  "op_sys y z \<Longrightarrow> op_inv (snd y) (fst y) \<Longrightarrow> iv_status r = Op_succeeded \<Longrightarrow> kept r y \<Longrightarrow> kept r z"
proof (induction rule: op_sys.induct)
  case (caller s s' ds)
  then show ?case using op_step_keeps_success [of s s' ds r] by (simp add: kept_def)
next
  case (connect now t n t' xs ds)
  then have "iv_id r \<notin> set xs" using op_inv_not_executing [of ds _ r] by (fastforce simp: kept_def)
  with connect show ?case by (auto simp: kept_def markRunningAsFailedOnStartup_def intro: sql_update_keeps)
qed

lemma op_run_inv: "op_sys\<^sup>*\<^sup>* y z \<Longrightarrow> op_inv (snd y) (fst y) \<Longrightarrow> op_inv (snd z) (fst z)"
  by (induction rule: rtranclp_induct) (auto dest: op_sys_inv)

lemma op_run_keeps:
  assumes "op_sys\<^sup>*\<^sup>* y z" and "op_inv (snd y) (fst y)" and "kept r y" and "iv_status r = Op_succeeded"
  shows "kept r z"
  using assms(1)
proof (induction rule: rtranclp_induct)
  case base
  show ?case by (rule assms(3))
next
  case (step z z')
  show ?case by (rule op_sys_keeps [OF step(2) op_run_inv [OF step(1) assms(2)] assms(4) step(3)])
qed

definition op_start :: "op_world \<times> string list" where
  "op_start = (\<lparr>ow_table = [], ow_executing = []\<rparr>, [])"

lemma op_inv_start: "op_inv (snd op_start) (fst op_start)"
  by (simp add: op_start_def op_inv_def op_ok_def keys_ok_def)

text \<open>
  C8. In every interleaving of callers, retries, deaths of processes and connections that starts from the empty table, an invocation whose execution no
  connection disturbed is not executed by two callers at a time; and an invocation that succeeded undisturbed keeps its row, with its recorded response, for ever,
  is never executed again, and no later connection disturbs it.
\<close>

theorem invocation_executed_once:
  assumes "op_sys\<^sup>*\<^sup>* op_start (s, ds)" and "op_sys\<^sup>*\<^sup>* (s, ds) (s', ds')"
  shows "distinct (filter (\<lambda>i. i \<notin> set ds') (ow_executing s')) \<and>
    (\<forall>r. r \<in> set (ow_table s) \<and> iv_status r = Op_succeeded \<and> iv_id r \<notin> set ds \<longrightarrow>
       r \<in> set (ow_table s') \<and> iv_id r \<notin> set (ow_executing s') \<and> iv_id r \<notin> set ds')"
proof -
  have i: "op_inv ds s" using op_run_inv [OF assms(1) op_inv_start] by simp
  then have i': "op_inv ds' s'" using op_run_inv [OF assms(2)] by simp
  have "r \<in> set (ow_table s') \<and> iv_id r \<notin> set (ow_executing s') \<and> iv_id r \<notin> set ds'"
    if h: "r \<in> set (ow_table s)" "iv_status r = Op_succeeded" "iv_id r \<notin> set ds" for r
  proof -
    have "kept r (s', ds')" using op_run_keeps [OF assms(2) _ _ h(2)] i h(1,3) by (simp add: kept_def)
    then show ?thesis using op_inv_not_executing [OF i', of r] h(2) by (simp add: kept_def)
  qed
  moreover have "distinct (filter (\<lambda>i. i \<notin> set ds') (ow_executing s'))" using i' by (simp add: op_inv_def)
  ultimately show ?thesis by blast
qed

definition sample_claim :: "string \<Rightarrow> claim_input" where
  "sample_claim k = \<lparr>ci_name = ''scale'', ci_version = 1, ci_scope = ''instance:i'', ci_key = k, ci_hash = ''h''\<rparr>"

definition sample_row :: invocation where
  "sample_row = new_invocation (sample_claim ''k'') ''op1'' 5"

definition other_row :: invocation where
  "other_row = new_invocation (sample_claim ''k2'') ''op2'' 9"

lemmas sample_steps = sample_row_def other_row_def sample_claim_def op_claim_def findByKey_def op_findById_def new_invocation_def
  index_of_def claim_index_def row_of_def op_succeed_def op_fail_def retryFailed_def update_one_def sql_returning_def sql_update_def
  success_values_def failure_values_def retry_values_def markRunningAsFailedOnStartup_def

lemma sample_claimed: "op_sys op_start (\<lparr>ow_table = [sample_row], ow_executing = [''op1'']\<rparr>, [])"
  unfolding op_start_def
  by (rule op_sys.caller, rule step_claim [of "sample_claim ''k''" "''op1''" 5 "[]" sample_row "[sample_row]" "[]", unfolded sample_row_def,
        unfolded status_values, folded sample_row_def])
    (simp add: sample_steps)

theorem invocation_executed_once_witness:
  "let fin = success_values [] 8 sample_row;
       s = \<lparr>ow_table = [fin], ow_executing = []\<rparr>;
       s' = \<lparr>ow_table = [fin, failure_values interrupted 10 other_row], ow_executing = [''op2'']\<rparr>
   in iv_status fin = Op_succeeded \<and> op_sys\<^sup>*\<^sup>* op_start (s, []) \<and> op_sys\<^sup>*\<^sup>* (s, []) (s', [''op2'']) \<and>
     fin \<in> set (ow_table s') \<and> iv_id fin \<notin> set (ow_executing s')"
proof -
  let ?fin = "success_values [] 8 sample_row"
  let ?s = "\<lparr>ow_table = [?fin], ow_executing = []\<rparr>"
  let ?m = "\<lparr>ow_table = [?fin, other_row], ow_executing = [''op2'']\<rparr>"
  let ?s' = "\<lparr>ow_table = [?fin, failure_values interrupted 10 other_row], ow_executing = [''op2'']\<rparr>"
  have "op_sys (\<lparr>ow_table = [sample_row], ow_executing = [''op1'']\<rparr>, []) (?s, [])"
    using step_succeed [of "''op1''" "[''op1'']" "[]" 8 "[sample_row]" ?fin "[?fin]"]
    by (intro op_sys.caller) (simp add: sample_steps)
  with sample_claimed have 1: "op_sys\<^sup>*\<^sup>* op_start (?s, [])" by (meson converse_rtranclp_into_rtranclp r_into_rtranclp)
  have "op_sys (?s, []) (?m, [])"
    using step_claim [of "sample_claim ''k2''" "''op2''" 9 "[?fin]" other_row "[?fin, other_row]" "[]"]
    by (intro op_sys.caller) (simp add: sample_steps)
  moreover have "op_sys (?m, []) (?s', [''op2''])"
    using op_sys.connect [of 10 "[?fin, other_row]" 1 "ow_table ?s'" "[''op2'']" "[]"] by (simp add: sample_steps)
  ultimately have 2: "op_sys\<^sup>*\<^sup>* (?s, []) (?s', [''op2''])" by (meson converse_rtranclp_into_rtranclp r_into_rtranclp)
  have "iv_status ?fin = Op_succeeded" by (simp add: success_values_def)
  with invocation_executed_once [OF 1 2] 1 2 show ?thesis by (simp add: Let_def)
qed

text \<open>
  What a connection breaks. A process that connects while an invocation is executed marks it as failed, so a repeated request executes it a second
  time at the same time; and the caller that fails later overwrites the recorded success of the other.
\<close>

theorem connect_breaks_single_execution:
  "\<exists>s1 s2 s3 ds r. op_sys\<^sup>*\<^sup>* op_start (s1, ds) \<and> ow_executing s1 = [''op1'', ''op1''] \<and>
     op_sys (s1, ds) (s2, ds) \<and> ow_table s2 = [r] \<and> iv_status r = Op_succeeded \<and>
     op_sys (s2, ds) (s3, ds) \<and> map iv_status (ow_table s3) = [Op_failed]"
proof -
  let ?x = "sample_row" let ?f = "failure_values interrupted 6 sample_row"
  let ?y = "retry_values 7 ?f" let ?g = "success_values [] 8 ?y" let ?b = "failure_values [] 9 ?g"
  let ?s1 = "\<lparr>ow_table = [?y], ow_executing = [''op1'', ''op1'']\<rparr>"
  have "op_sys (\<lparr>ow_table = [?x], ow_executing = [''op1'']\<rparr>, []) (\<lparr>ow_table = [?f], ow_executing = [''op1'']\<rparr>, [''op1''])"
    using op_sys.connect [of 6 "[?x]" 1 "[?f]" "[''op1'']" "[]"] by (simp add: sample_steps)
  moreover have "op_sys (\<lparr>ow_table = [?f], ow_executing = [''op1'']\<rparr>, [''op1'']) (?s1, [''op1''])"
    using step_retry [of "''op1''" 7 "[?f]" ?y "[?y]" "[''op1'']"] by (intro op_sys.caller) (simp add: sample_steps)
  ultimately have 1: "op_sys\<^sup>*\<^sup>* op_start (?s1, [''op1''])"
    using sample_claimed by (meson converse_rtranclp_into_rtranclp r_into_rtranclp)
  have 2: "op_sys (?s1, [''op1'']) (\<lparr>ow_table = [?g], ow_executing = [''op1'']\<rparr>, [''op1''])"
    using step_succeed [of "''op1''" "[''op1'', ''op1'']" "[]" 8 "[?y]" ?g "[?g]"] by (intro op_sys.caller) (simp add: sample_steps)
  have 3: "op_sys (\<lparr>ow_table = [?g], ow_executing = [''op1'']\<rparr>, [''op1'']) (\<lparr>ow_table = [?b], ow_executing = []\<rparr>, [''op1''])"
    using step_fail [of "''op1''" "[''op1'']" "[]" 9 "[?g]" ?b "[?b]"] by (intro op_sys.caller) (simp add: sample_steps)
  show ?thesis
    by (rule exI [of _ ?s1], rule exI, rule exI, rule exI [of _ "[''op1'']"], rule exI [of _ ?g])
      (use 1 2 3 in \<open>fastforce simp: success_values_def failure_values_def\<close>)
qed

text \<open>
  What one caller does is a run of these steps.
\<close>

lemma run_claimed_step:
  assumes "run_claimed d input actor (iv_id r) now (t, w) = (res, t', w')" and "op_ok t" and "r \<in> set t"
  shows "op_step \<lparr>ow_table = t, ow_executing = iv_id r # xs\<rparr> \<lparr>ow_table = t', ow_executing = xs\<rparr>"
proof -
  obtain b w1 where body: "run_body d input actor (Some (iv_id r)) w = (b, w1)" by fastforce
  show ?thesis
  proof (cases b)
    case (Inl e)
    obtain t1 where t1: "op_fail (iv_id r) (serializeFailure e) now t = (Inr (failure_values (serializeFailure e) now r), t1)"
      using update_one_row [OF assms(2,3), of "\<lambda>_. True" "failure_values (serializeFailure e) now"] by (auto simp: op_fail_def)
    then have "t' = t1" using assms(1) body Inl by (auto simp: run_claimed_def)
    with step_fail [OF _ t1, of "iv_id r # xs"] show ?thesis by simp
  next
    case (Inr out)
    obtain t1 where t1: "op_succeed (iv_id r) out now t = (Inr (success_values out now r), t1)"
      using update_one_row [OF assms(2,3), of "\<lambda>_. True" "success_values out now"] by (auto simp: op_succeed_def)
    then have "t' = t1" using assms(1) body Inr by (auto simp: run_claimed_def)
    with step_succeed [OF _ t1, of "iv_id r # xs"] show ?thesis by simp
  qed
qed

lemma retryFailed_Inl: "retryFailed ident now t = (Inl e, t2) \<Longrightarrow> t2 = t"
  by (auto simp: retryFailed_def update_one_def sql_returning_def sql_update_def filter_empty_conv intro!: map_idI split: list.splits)

lemma run_command_steps:
  assumes "run_command d input actor ikey h ident now (t, w) = (res, t', w')" and "op_ok t"
  shows "op_step\<^sup>*\<^sup>* \<lparr>ow_table = t, ow_executing = xs\<rparr> \<lparr>ow_table = t', ow_executing = xs\<rparr>"
proof -
  let ?c = "claim_of d actor ikey h"
  obtain cr t1 where cl: "op_claim ?c ident now t = (cr, t1)" by fastforce
  consider (new) iv where "cr = Inr (True, iv)" | (rest) "t1 = t" "\<forall>iv. cr \<noteq> Inr (True, iv)"
    using cl by (auto simp: op_claim_def split: if_splits option.splits)
  then show ?thesis
  proof cases
    case new
    note n = op_claim_new [OF cl [unfolded new] assms(2)]
    have run: "run_claimed d input actor (iv_id iv) now (t1, w) = (res, t', w')" using assms(1) cl new by (simp add: run_command_def)
    have "op_step \<lparr>ow_table = t, ow_executing = xs\<rparr> \<lparr>ow_table = t1, ow_executing = iv_id iv # xs\<rparr>"
      by (rule step_claim [OF cl [unfolded new]])
    with run_claimed_step [OF run, of xs] n show ?thesis by (meson converse_rtranclp_into_rtranclp r_into_rtranclp)
  next
    case rest
    show ?thesis
    proof (cases "t' = t")
      case False
      obtain i iv' t2 where r: "retryFailed i now t = (Inr iv', t2)" "run_claimed d input actor (iv_id iv') now (t2, w) = (res, t', w')"
        using assms(1) cl rest False by (auto simp: run_command_def dest: retryFailed_Inl split: if_splits sum.splits prod.splits bool.splits)
      have ok2: "op_ok t2" using op_ok_ops(1) [of i now t] r(1) assms(2) by simp
      have "iv' \<in> set t2" using update_one_Inr [OF r(1) [unfolded retryFailed_def]] by (auto simp: sql_update_def)
      then have "op_step \<lparr>ow_table = t2, ow_executing = iv_id iv' # xs\<rparr> \<lparr>ow_table = t', ow_executing = xs\<rparr>"
        by (rule run_claimed_step [OF r(2) ok2])
      with step_retry [OF r(1)] show ?thesis by (meson converse_rtranclp_into_rtranclp r_into_rtranclp)
    qed simp
  qed
qed

text \<open>
  C38. The sequential model of \<open>execute\<close> refines the interleaved one: whatever the other callers are executing, one call takes the table
  through steps of the relation, and at its end it executes no invocation any more.
\<close>

theorem execute_refines_steps:
  assumes "op_execute collate hash reg name raw opts ident uuid now (t, w) = (res, t', w')" and "op_ok t"
  shows "op_step\<^sup>*\<^sup>* \<lparr>ow_table = t, ow_executing = xs\<rparr> \<lparr>ow_table = t', ow_executing = xs\<rparr>"
proof (cases "t' = t")
  case False
  then obtain d input actor ikey h where "run_command d input actor ikey h ident now (t, w) = (res, t', w')"
    using assms(1) by (auto simp: op_execute_def split: if_splits sum.splits prod.splits)
  then show ?thesis by (rule run_command_steps [OF _ assms(2)])
qed simp

theorem execute_refines_steps_witness:
  "\<exists>res t' w'. op_execute default sample_hash [(''scale'', sample_operation)] ''scale'' (JObj []) sample_options ''op1'' ''u1'' 5 ([], 3) = (res, t', w') \<and>
     op_ok [] \<and> op_step\<^sup>*\<^sup>* \<lparr>ow_table = [], ow_executing = [''op9'']\<rparr> \<lparr>ow_table = t', ow_executing = [''op9'']\<rparr>"
proof -
  obtain res t' w' where ex: "op_execute default sample_hash [(''scale'', sample_operation)] ''scale'' (JObj []) sample_options ''op1'' ''u1'' 5 ([], 3) = (res, t', w')"
    by (metis prod_cases3)
  have ok: "op_ok []" by (simp add: op_ok_def keys_ok_def)
  show ?thesis using ex ok execute_refines_steps [OF ex ok] by blast
qed

section \<open>Canonical requests\<close>

text \<open>The same JSON value up to the order of the members of its objects.\<close>

inductive same_json :: "json \<Rightarrow> json \<Rightarrow> bool" where
  same_refl: "same_json v v"
| same_arr: "list_all2 same_json vs ws \<Longrightarrow> same_json (JArr vs) (JArr ws)"
| same_obj: "distinct (map fst ms) \<Longrightarrow> mset ms' = mset ms \<Longrightarrow> list_all2 (rel_prod (=) same_json) ms' ns \<Longrightarrow>
    same_json (JObj ms) (JObj ns)"

lemma sort_entries_perm:
  assumes "\<And>x y. compare collate x y = Equiv \<Longrightarrow> x = y" and "distinct (map fst ms)" and "mset ms' = mset ms"
  shows "Sorting_Algorithms.sort (key fst collate) ms' = Sorting_Algorithms.sort (key fst collate) ms"
proof (rule sort_eqI)
  have d: "distinct (map fst zs)" if "mset zs = mset ms" for zs
    using that assms(2) by (metis distinct_map mset_eq_imp_distinct_iff mset_eq_setD)
  have single: "filter (\<lambda>e. fst e = fst y) zs = [y]" if "mset zs = mset ms" "y \<in> set ms" for zs y
  proof -
    have "keys_ok fst zs" "y \<in> set zs" using d [OF that(1)] mset_eq_setD [OF that(1)] that(2) by (simp_all add: keys_ok_def)
    then show ?thesis using filter_by_key [of fst zs "fst y" "\<lambda>_. True"] row_of_mem [of fst zs y] by simp
  qed
  fix y assume "y \<in> set ms'"
  then have y: "y \<in> set ms" using mset_eq_setD [OF assms(3)] by simp
  have eq: "compare collate (fst y) (fst x) = Equiv \<longleftrightarrow> fst x = fst y" for x
    using assms(1) [of "fst y" "fst x"] by auto
  show "stable_segment (key fst collate) y ms' = stable_segment (key fst collate) y (Sorting_Algorithms.sort (key fst collate) ms)"
    using single [OF assms(3) y] single [of "Sorting_Algorithms.sort (key fst collate) ms", OF _ y] by (simp add: eq)
qed (simp_all add: assms(3))

lemma canonicalize_same:
  assumes "\<And>x y. compare collate x y = Equiv \<Longrightarrow> x = y"
  shows "same_json a b \<Longrightarrow> canonicalize collate a = canonicalize collate b"
proof (induction rule: same_json.induct)
  case (same_arr vs ws)
  then have "map (canonicalize collate) vs = map (canonicalize collate) ws"
    by (auto simp: list_all2_conv_all_nth intro!: nth_equalityI)
  then show ?case by simp
next
  case (same_obj ms ms' ns)
  let ?f = "\<lambda>(k, v). (k, canonicalize collate v)"
  have "map ?f ms' = map ?f ns"
    using same_obj(3) by (auto simp: list_all2_conv_all_nth rel_prod_sel case_prod_beta intro!: nth_equalityI)
  moreover have "canonicalize collate (JObj ms) = canonicalize collate (JObj ms')"
    using sort_entries_perm [OF assms same_obj(1,2)] by (simp add: canonicalize_sorts_first del: canonicalize.simps)
  ultimately show ?case by simp
qed simp

text \<open>
  Requests that differ only in the order of the members of their objects, at any depth, have the same request hash, whatever the
  hash function is, when the collation distinguishes different keys; so such a request is a repetition and not a conflict.
\<close>

theorem request_hash_ignores_order:
  assumes "\<And>x y. compare collate x y = Equiv \<Longrightarrow> x = y" and "same_json (JObj a) (JObj b)"
  shows "requestSha256 collate hash a = requestSha256 collate hash b"
  using canonicalize_same [OF assms] by (simp only: requestSha256_def)

theorem request_hash_ignores_order_witness:
  "requestSha256 default sample_hash [(''name'', JStr ''web''), (''env'', JObj [(''A'', JNum 1), (''B'', JNum 2)])] =
   requestSha256 default sample_hash [(''env'', JObj [(''B'', JNum 2), (''A'', JNum 1)]), (''name'', JStr ''web'')]"
proof (rule request_hash_ignores_order)
  show "x = y" if "compare default x y = Equiv" for x y :: string using that by simp
  have inner: "same_json (JObj [(''A'', JNum 1), (''B'', JNum 2)]) (JObj [(''B'', JNum 2), (''A'', JNum 1)])"
    by (rule same_obj [of _ "[(''B'', JNum 2), (''A'', JNum 1)]"]) (auto intro: same_refl)
  show "same_json (JObj [(''name'', JStr ''web''), (''env'', JObj [(''A'', JNum 1), (''B'', JNum 2)])])
      (JObj [(''env'', JObj [(''B'', JNum 2), (''A'', JNum 1)]), (''name'', JStr ''web'')])"
    by (rule same_obj [of _ "[(''env'', JObj [(''A'', JNum 1), (''B'', JNum 2)]), (''name'', JStr ''web'')]"]) (auto intro: same_refl inner)
qed

end
