(* ===== verification/Regex.thy ===== *)
theory Regex
  imports Prelude
begin

text \<open>
  The regular expressions that the code tests strings with, and \<open>RegExp.prototype.test\<close> by derivatives. An expression
  is written as the whole text it matches: a pattern without \<open>^\<close> and \<open>$\<close> is wrapped by \<open>anywhere\<close>.
\<close>

datatype regex = Never | Empty | Cls "string" | NotCls "string" | Alt regex regex | Cat regex regex | Rep regex

fun nullable :: "regex \<Rightarrow> bool" where
  "nullable Empty = True"
| "nullable (Rep _) = True"
| "nullable (Alt r s) \<longleftrightarrow> nullable r \<or> nullable s"
| "nullable (Cat r s) \<longleftrightarrow> nullable r \<and> nullable s"
| "nullable _ = False"

text \<open>Products and sums with \<open>Never\<close> are reduced so that derivatives stay small.\<close>

fun cat :: "regex \<Rightarrow> regex \<Rightarrow> regex" where
  "cat Never s = Never"
| "cat Empty s = s"
| "cat r s = Cat r s"

fun alt :: "regex \<Rightarrow> regex \<Rightarrow> regex" where
  "alt Never s = s"
| "alt r Never = r"
| "alt r s = (if r = s then r else Alt r s)"

fun deriv :: "char \<Rightarrow> regex \<Rightarrow> regex" where
  "deriv c (Cls cs) = (if c \<in> set cs then Empty else Never)"
| "deriv c (NotCls cs) = (if c \<in> set cs then Never else Empty)"
| "deriv c (Alt r s) = alt (deriv c r) (deriv c s)"
| "deriv c (Cat r s) = (if nullable r then alt (cat (deriv c r) s) (deriv c s) else cat (deriv c r) s)"
| "deriv c (Rep r) = cat (deriv c r) (Rep r)"
| "deriv c _ = Never"

fun matches :: "regex \<Rightarrow> string \<Rightarrow> bool" where
  "matches r [] = nullable r"
| "matches r (c # s) = matches (deriv c r) s"

section \<open>Abbreviations of the notation\<close>

fun cats :: "regex list \<Rightarrow> regex" where
  "cats [] = Empty"
| "cats [r] = r"
| "cats (r # rs) = Cat r (cats rs)"

fun alts :: "regex list \<Rightarrow> regex" where
  "alts [] = Never"
| "alts [r] = r"
| "alts (r # rs) = Alt r (alts rs)"

definition opt :: "regex \<Rightarrow> regex" where
  "opt r = Alt Empty r"

definition plus1 :: "regex \<Rightarrow> regex" where
  "plus1 r = Cat r (Rep r)"

definition lit :: "string \<Rightarrow> regex" where
  "lit s = cats (map (\<lambda>c. Cls [c]) s)"

definition lower_letters :: string where
  "lower_letters = ''abcdefghijklmnopqrstuvwxyz''"

definition upper_letters :: string where
  "upper_letters = ''ABCDEFGHIJKLMNOPQRSTUVWXYZ''"

definition digits :: string where
  "digits = ''0123456789''"

definition flip_case :: "char \<Rightarrow> string" where
  "flip_case c =
     (if c \<in> set lower_letters then [upper_letters ! (of_char c - 97)]
      else if c \<in> set upper_letters then [lower_letters ! (of_char c - 65)] else [])"

text \<open>The flag \<open>i\<close>.\<close>

fun nocase :: "regex \<Rightarrow> regex" where
  "nocase (Cls cs) = Cls (cs @ concat (map flip_case cs))"
| "nocase (NotCls cs) = NotCls (cs @ concat (map flip_case cs))"
| "nocase (Alt r s) = Alt (nocase r) (nocase s)"
| "nocase (Cat r s) = Cat (nocase r) (nocase s)"
| "nocase (Rep r) = Rep (nocase r)"
| "nocase r = r"

definition any :: regex where
  "any = Rep (NotCls [])"

definition anywhere :: "regex \<Rightarrow> regex" where
  "anywhere r = Cat any (Cat r any)"

definition at_start :: "regex \<Rightarrow> regex" where
  "at_start r = Cat r any"

definition at_end :: "regex \<Rightarrow> regex" where
  "at_end r = Cat any r"

lemmas regex_defs = lit_def opt_def plus1_def any_def anywhere_def at_start_def at_end_def digits_def lower_letters_def upper_letters_def flip_case_def

section \<open>The language\<close>

fun lang :: "regex \<Rightarrow> string set" where
  "lang Never = {}"
| "lang Empty = {[]}"
| "lang (Cls cs) = {[c] | c. c \<in> set cs}"
| "lang (NotCls cs) = {[c] | c. c \<notin> set cs}"
| "lang (Alt r s) = lang r \<union> lang s"
| "lang (Cat r s) = {u @ v | u v. u \<in> lang r \<and> v \<in> lang s}"
| "lang (Rep r) = {concat us | us. set us \<subseteq> lang r}"

lemma nullable_iff: "nullable r \<longleftrightarrow> [] \<in> lang r"
  by (induction r) (auto intro: exI [of _ "[]"])

lemma lang_cat [simp]: "lang (cat r s) = lang (Cat r s)"
  by (induction r s rule: cat.induct) auto

lemma lang_alt [simp]: "lang (alt r s) = lang (Alt r s)"
  by (induction r s rule: alt.induct) auto

lemma rep_Cons: "c # w \<in> lang (Rep r) \<longleftrightarrow> (\<exists>u v. w = u @ v \<and> c # u \<in> lang r \<and> v \<in> lang (Rep r))"
proof
  assume "c # w \<in> lang (Rep r)"
  then obtain us where us: "c # w = concat us" "set us \<subseteq> lang r" by auto
  then show "\<exists>u v. w = u @ v \<and> c # u \<in> lang r \<and> v \<in> lang (Rep r)"
  proof (induction us)
    case (Cons x us)
    show ?case
    proof (cases x)
      case Nil
      with Cons show ?thesis by simp
    next
      case (Cons d u)
      with Cons.prems have "w = u @ concat us" "c # u \<in> lang r" "concat us \<in> lang (Rep r)" by auto
      then show ?thesis by blast
    qed
  qed simp
next
  assume "\<exists>u v. w = u @ v \<and> c # u \<in> lang r \<and> v \<in> lang (Rep r)"
  then obtain u us where "w = u @ concat us" "c # u \<in> lang r" "set us \<subseteq> lang r" by auto
  then have "c # w = concat ((c # u) # us)" "set ((c # u) # us) \<subseteq> lang r" by auto
  then show "c # w \<in> lang (Rep r)" by (simp only: lang.simps) blast
qed

lemma lang_deriv: "w \<in> lang (deriv c r) \<longleftrightarrow> c # w \<in> lang r"
proof (induction r arbitrary: w)
  case (Cat r s)
  have "c # w \<in> lang (Cat r s) \<longleftrightarrow> (\<exists>u v. w = u @ v \<and> c # u \<in> lang r \<and> v \<in> lang s) \<or> ([] \<in> lang r \<and> c # w \<in> lang s)"
    by (auto simp: Cons_eq_append_conv)
  then show ?case using Cat by (auto simp: nullable_iff)
next
  case (Rep r)
  then show ?case using rep_Cons [of c w r] by (auto simp del: lang.simps(7))
qed auto

theorem matches_lang: "matches r s \<longleftrightarrow> s \<in> lang r"
  by (induction s arbitrary: r) (simp_all add: nullable_iff lang_deriv)

end
