(* ===== verification/Env_Requirements.thy ===== *)
theory Env_Requirements
  imports Regex
begin

text \<open>
  What a value of an environment variable must look like (\<open>src/src/pipeline/env-requirements.ts\<close>): the requirement that a
  schema or the name of a variable implies, and the issues of a value. The host name of a URL (\<open>new URL(v).hostname\<close>,
  \<open>None\<close> when the constructor throws) is a function \<open>url_host\<close>, an argument. The texts of messages and guidance are left out,
  and an issue carries its code. Numbers in schema code are exact here.

  Shown: when a value passes for each kind of requirement (the \<open>passes\<close> lemmas), and that a variable of an external
  provider never passes from an untrusted source.
\<close>

section \<open>Requirements\<close>

text \<open>A member of an object: absent, present but undefined, or a value. A later spread overwrites a member that it has.\<close>

type_synonym 'a object_member = "'a option option"

definition val :: "'a object_member \<Rightarrow> 'a option" where
  "val m = (case m of None \<Rightarrow> None | Some v \<Rightarrow> v)"

definition spread :: "'a object_member \<Rightarrow> 'a object_member \<Rightarrow> 'a object_member" where
  "spread a b = (case b of Some _ \<Rightarrow> b | None \<Rightarrow> a)"

datatype requirement_kind = RK_url | RK_host | RK_int | RK_enum | RK_prefix | RK_minlen | RK_secret

record env_requirement =
  rq_kind :: requirement_kind
  rq_schema :: bool
  rq_min :: "nat object_member"
  rq_prefix :: "string object_member"
  rq_values :: "string list object_member"
  rq_allowLocalhost :: "bool object_member"
  rq_trusted :: "bool option"

datatype issue_code = Placeholder | Too_short | Prefix_mismatch | Invalid_url | Invalid_host | Localhost_url | Reserved_url_host
  | Reserved_host | Untrusted_external | Enum_mismatch | Not_integer

record env_issue =
  ei_key :: string
  ei_code :: issue_code
  ei_fail :: bool
  ei_requirement :: "env_requirement option"

definition alnum :: string where
  "alnum = lower_letters @ digits"

definition sep :: regex where
  "sep = opt (Cls ''-_'')"

definition dash :: regex where
  "dash = Cls ''-_''"

text \<open>\<open>(^|[^a-z0-9]) r ([^a-z0-9]|$)\<close>, anywhere, without case.\<close>

definition as_word :: "regex \<Rightarrow> regex" where
  "as_word r = Cat (Alt Empty (Cat any (NotCls alnum))) (Cat r (Alt Empty (Cat (NotCls alnum) any)))"

definition value_word :: "string \<Rightarrow> string list \<Rightarrow> regex" where
  "value_word w ends = cats [lit w, dash, alts (map lit ends)]"

definition PLACEHOLDER_PATTERN :: regex where
  "PLACEHOLDER_PATTERN = nocase (as_word (alts
     [lit ''changeme'', cats [lit ''change'', sep, lit ''me''], cats [lit ''replace'', sep, lit ''me''], lit ''placeholder'', lit ''todo'',
      lit ''fixme'', Cat (lit ''xx'') (plus1 (Cls ''x'')),
      value_word ''dummy'' [''value'', ''secret'', ''key'', ''token''], value_word ''fake'' [''value'', ''secret'', ''key'', ''token''],
      value_word ''sample'' [''value'', ''secret'', ''key'', ''token''], value_word ''test'' [''value'', ''secret'', ''key'', ''token''],
      cats [lit ''your'', dash, Rep (Cls (alnum @ ''_-''))]]))"

definition SECRET_EXAMPLE_PATTERN :: regex where
  "SECRET_EXAMPLE_PATTERN = nocase (alts
     [as_word (alts [lit ''abcdef'', lit ''123456'', cats [lit ''super'', sep, lit ''secret''], cats [lit ''very'', sep, lit ''long'', sep, lit ''secret''],
        cats [lit ''example'', sep, opt (alts (map lit [''key'', ''secret'', ''token'', ''value'']))]]),
      anywhere (cats [lit ''AKIA'', Rep (Cls (digits @ upper_letters)), lit ''EXAMPLE'']),
      anywhere (lit ''wJalrXUtnFEMI'')])"

text \<open>\<open>(?:^|_) (a|b|..) $\<close>.\<close>

definition key_suffix :: "string list \<Rightarrow> regex" where
  "key_suffix words = nocase (Cat (Alt Empty (Cat any (Cls ''_''))) (alts (map lit words)))"

definition URL_KEY_PATTERN :: regex where
  "URL_KEY_PATTERN = key_suffix [''URL'', ''URI'', ''DSN'', ''ENDPOINT'', ''CONNECTION'']"

definition HOST_KEY_PATTERN :: regex where
  "HOST_KEY_PATTERN = key_suffix [''HOST'', ''HOSTNAME'']"

definition INTEGER_KEY_PATTERN :: regex where
  "INTEGER_KEY_PATTERN = key_suffix [''PORT'', ''MAX'', ''MIN'', ''LIMIT'', ''TTL'', ''TIMEOUT'', ''RETRIES'', ''INTERVAL'']"

definition SECRET_KEY_PATTERN :: regex where
  "SECRET_KEY_PATTERN = nocase (anywhere (alts [lit ''SECRET'', lit ''TOKEN'', cats [lit ''API'', opt (Cls ''_-''), lit ''KEY''],
     cats [lit ''ACCESS'', opt (Cls ''_-''), lit ''KEY''], cats [lit ''PRIVATE'', opt (Cls ''_-''), lit ''KEY''], lit ''JWT'', lit ''PASSWORD'']))"

definition BROWSER_PUBLIC_ENV_KEY_PATTERN :: regex where
  "BROWSER_PUBLIC_ENV_KEY_PATTERN = nocase (at_start (alts (map lit
     [''NEXT_PUBLIC_'', ''VITE_'', ''REACT_APP_'', ''NUXT_PUBLIC_'', ''PUBLIC_'', ''GATSBY_''])))"

definition PLATFORM_MANAGED_ENV_KEYS :: "string list" where
  "PLATFORM_MANAGED_ENV_KEYS = [''DATABASE_URL'', ''POSTGRES_URL'', ''POSTGRESQL_URL'', ''MYSQL_URL'', ''REDIS_URL'', ''MONGO_URL'',
     ''MONGODB_URI'', ''RABBITMQ_URL'', ''AMQP_URL'']"

definition TRUSTED_EXTERNAL_PREFIXES :: "string list" where
  "TRUSTED_EXTERNAL_PREFIXES = [''EXCHANGE_'', ''STRIPE_'', ''SMTP_'', ''S3_'', ''AWS_'', ''SENDGRID_'', ''MAILGUN_'', ''TWILIO_'', ''SLACK_'', ''DISCORD_'']"

definition upper :: "string \<Rightarrow> string" where
  "upper s = map (\<lambda>c. if c \<in> set lower_letters then upper_letters ! (of_char c - 97) else c) s"

definition lowercase :: "string \<Rightarrow> string" where
  "lowercase s = map (\<lambda>c. if c \<in> set upper_letters then lower_letters ! (of_char c - 65) else c) s"

definition requiresTrustedExternalSource :: "string \<Rightarrow> bool" where
  "requiresTrustedExternalSource key \<longleftrightarrow>
     upper key \<notin> set PLATFORM_MANAGED_ENV_KEYS \<and> list_ex (\<lambda>p. starts_with p (upper key)) TRUSTED_EXTERNAL_PREFIXES"

definition withExternalTrustRequirement :: "string \<Rightarrow> env_requirement \<Rightarrow> env_requirement" where
  "withExternalTrustRequirement key r = (if \<not> requiresTrustedExternalSource key then r else r\<lparr>rq_trusted := Some True\<rparr>)"

definition by_key :: "requirement_kind \<Rightarrow> env_requirement" where
  "by_key k = \<lparr>rq_kind = k, rq_schema = False, rq_min = None, rq_prefix = None, rq_values = None, rq_allowLocalhost = None, rq_trusted = None\<rparr>"

definition key_is :: "string list \<Rightarrow> string \<Rightarrow> bool" where
  "key_is names key \<longleftrightarrow> matches (nocase (alts (map lit names))) key"

definition inferEnvValueRequirement :: "string \<Rightarrow> env_requirement option" where
  "inferEnvValueRequirement key =
     (if key_is [''APP_BASE_URL'', ''BASE_URL'', ''PUBLIC_URL''] key
      then Some (withExternalTrustRequirement key ((by_key RK_url)\<lparr>rq_allowLocalhost := Some (Some False)\<rparr>))
      else if key_is [''STRIPE_API_KEY'', ''STRIPE_SECRET_KEY''] key
      then Some (withExternalTrustRequirement key ((by_key RK_prefix)\<lparr>rq_prefix := Some (Some ''sk_'')\<rparr>))
      else if key_is [''STRIPE_WEBHOOK_SECRET''] key
      then Some (withExternalTrustRequirement key ((by_key RK_prefix)\<lparr>rq_prefix := Some (Some ''whsec_'')\<rparr>))
      else if key_is [''S3_BUCKET'', ''AWS_S3_BUCKET'', ''AWS_BUCKET''] key then Some (withExternalTrustRequirement key (by_key RK_secret))
      else if key_is [''SMTP_USER'', ''SMTP_USERNAME'', ''SMTP_PASS'', ''SMTP_PASSWORD''] key
      then Some (withExternalTrustRequirement key (by_key RK_secret))
      else if key_is [''JWT_SECRET'', ''SESSION_SECRET'', ''SECRET_KEY'', ''APP_SECRET''] key
      then Some ((by_key RK_minlen)\<lparr>rq_min := Some (Some 16)\<rparr>)
      else if matches URL_KEY_PATTERN key then Some (withExternalTrustRequirement key ((by_key RK_url)\<lparr>rq_allowLocalhost := Some (Some False)\<rparr>))
      else if matches HOST_KEY_PATTERN key then Some (withExternalTrustRequirement key ((by_key RK_host)\<lparr>rq_allowLocalhost := Some (Some False)\<rparr>))
      else if matches INTEGER_KEY_PATTERN key then Some (by_key RK_int)
      else if matches SECRET_KEY_PATTERN key then Some (withExternalTrustRequirement key (by_key RK_secret))
      else None)"

text \<open>The members of the detected requirement win, where it has them; \<open>??\<close> guards the last.\<close>

definition mergeEnvValueRequirement :: "string \<Rightarrow> env_requirement option \<Rightarrow> env_requirement option" where
  "mergeEnvValueRequirement key detected =
     (case detected of
        None \<Rightarrow> inferEnvValueRequirement key
      | Some d \<Rightarrow>
          (case inferEnvValueRequirement key of
             None \<Rightarrow> Some d
           | Some i \<Rightarrow> Some \<lparr>rq_kind = rq_kind d, rq_schema = rq_schema d, rq_min = spread (rq_min i) (rq_min d),
               rq_prefix = spread (rq_prefix i) (rq_prefix d), rq_values = spread (rq_values i) (rq_values d),
               rq_allowLocalhost = spread (rq_allowLocalhost i) (rq_allowLocalhost d),
               rq_trusted = (case rq_trusted d of Some b \<Rightarrow> Some b | None \<Rightarrow> rq_trusted i)\<rparr>))"

subsection \<open>From the code of a schema\<close>

definition word_char :: "char \<Rightarrow> bool" where
  "word_char c \<longleftrightarrow> c \<in> set (upper_letters @ lower_letters @ digits @ ''_'')"

text \<open>The first match of \<open>\bname\s*:\s*\<close> followed by what \<open>f\<close> reads; \<open>w\<close> says that the character before is a word character.\<close>

fun find_field :: "string list \<Rightarrow> (string \<Rightarrow> 'a option) \<Rightarrow> bool \<Rightarrow> string \<Rightarrow> 'a option" where
  "find_field names f w [] = None"
| "find_field names f w (c # cs) =
     (case (if w then None else find (\<lambda>n. starts_with n (c # cs)) names) of
        None \<Rightarrow> find_field names f (word_char c) cs
      | Some n \<Rightarrow>
          (case dropWhile is_space (drop (length n) (c # cs)) of
             [] \<Rightarrow> find_field names f (word_char c) cs
           | d # ds \<Rightarrow>
               (case (if d = CHR '':'' then f (dropWhile is_space ds) else None) of
                  None \<Rightarrow> find_field names f (word_char c) cs
                | Some v \<Rightarrow> Some v)))"

definition decimal :: "string \<Rightarrow> nat" where
  "decimal s = foldl (\<lambda>n c. n * 10 + (of_char c - 48)) 0 s"

definition read_digits :: "string \<Rightarrow> nat option" where
  "read_digits s = (let d = takeWhile is_digit s in if d = [] then None else Some (decimal d))"

definition is_quote :: "char \<Rightarrow> bool" where
  "is_quote c \<longleftrightarrow> c = CHR 0x22 \<or> c = CHR 0x27"

definition read_quoted :: "string \<Rightarrow> (string \<times> string) option" where
  "read_quoted s =
     (case s of
        [] \<Rightarrow> None
      | q # r \<Rightarrow>
          (let v = takeWhile (\<lambda>c. \<not> is_quote c) r; rest = dropWhile (\<lambda>c. \<not> is_quote c) r
           in if is_quote q \<and> v \<noteq> [] \<and> rest \<noteq> [] then Some (v, tl rest) else None))"

definition read_bracket :: "string \<Rightarrow> string option" where
  "read_bracket s =
     (case s of
        [] \<Rightarrow> None
      | q # r \<Rightarrow> if q = CHR ''['' \<and> dropWhile (\<lambda>c. c \<noteq> CHR '']'') r \<noteq> [] then Some (takeWhile (\<lambda>c. c \<noteq> CHR '']'') r) else None)"

lemma dropWhile_length_le: "length (dropWhile P xs) \<le> length xs"
  by (induction xs) auto

lemma read_quoted_shorter: "read_quoted s = Some (v, r) \<Longrightarrow> length r < length s"
  using dropWhile_length_le [of "\<lambda>c. \<not> is_quote c" "tl s"]
  by (cases s) (auto simp: read_quoted_def Let_def split: if_splits)

function all_quoted :: "string \<Rightarrow> string list" where
  "all_quoted s =
     (case read_quoted s of
        Some (v, r) \<Rightarrow> v # all_quoted r
      | None \<Rightarrow> (case s of [] \<Rightarrow> [] | _ # r \<Rightarrow> all_quoted r))"
  by auto
termination by (relation "measure length") (auto dest: read_quoted_shorter)

definition parseNumberField :: "string \<Rightarrow> string \<Rightarrow> nat option" where
  "parseNumberField raw field = find_field [field] read_digits False raw"

definition parseStringField :: "string \<Rightarrow> string \<Rightarrow> string option" where
  "parseStringField raw field = find_field [field] (\<lambda>s. map_option fst (read_quoted s)) False raw"

definition parseStringArrayField :: "string \<Rightarrow> string list option" where
  "parseStringArrayField raw =
     (case find_field [''values'', ''options'', ''choices''] read_bracket False raw of
        None \<Rightarrow> None
      | Some body \<Rightarrow> (let vs = all_quoted body in if body = [] \<or> vs = [] then None else Some vs))"

definition schema_req :: "requirement_kind \<Rightarrow> env_requirement" where
  "schema_req k = (by_key k)\<lparr>rq_schema := True\<rparr>"

definition requirementFromNodeSchemaObject :: "string \<Rightarrow> string \<Rightarrow> env_requirement option" where
  "requirementFromNodeSchemaObject raw kind =
     (if kind = ''required'' \<or> kind = ''optional'' then None
      else if kind = ''url'' then Some ((schema_req RK_url)\<lparr>rq_allowLocalhost := Some (Some False)\<rparr>)
      else if kind = ''int'' then Some (schema_req RK_int)
      else if kind = ''enum'' then Some ((schema_req RK_enum)\<lparr>rq_values := Some (parseStringArrayField raw)\<rparr>)
      else if kind = ''prefix'' then Some ((schema_req RK_prefix)\<lparr>rq_prefix := Some (parseStringField raw ''prefix'')\<rparr>)
      else if kind = ''minlen'' then Some ((schema_req RK_minlen)\<lparr>rq_min := Some (parseNumberField raw ''min'')\<rparr>)
      else None)"

section \<open>Values\<close>

definition isLocalhostUrl :: "(string \<Rightarrow> string option) \<Rightarrow> string \<Rightarrow> bool" where
  "isLocalhostUrl url_host v \<longleftrightarrow>
     (case url_host v of
        None \<Rightarrow> False
      | Some h \<Rightarrow> h \<in> set [''localhost'', ''127.0.0.1'', ''0.0.0.0'', ''host.docker.internal''] \<or> ends_with ''.localhost'' h)"

definition isProbablyUrl :: "string \<Rightarrow> bool" where
  "isProbablyUrl v \<longleftrightarrow> matches (nocase (at_start (cats [Cls lower_letters, Rep (Cls (alnum @ ''+.-'')), lit ''://'']))) v"

definition isOriginRelativeBrowserUrl :: "string \<Rightarrow> string \<Rightarrow> bool" where
  "isOriginRelativeBrowserUrl key v \<longleftrightarrow>
     matches BROWSER_PUBLIC_ENV_KEY_PATTERN key \<and> starts_with ''/'' v \<and> \<not> starts_with ''//'' v"

text \<open>\<open>Number.parseInt(s, 10)\<close>.\<close>

definition parse_int :: "string \<Rightarrow> int option" where
  "parse_int s =
     (let t = dropWhile is_space s; neg = starts_with ''-'' t; u = (if neg \<or> starts_with ''+'' t then tl t else t)
      in map_option (\<lambda>n. if neg then - int n else int n) (read_digits u))"

definition isReservedHostname :: "string \<Rightarrow> bool" where
  "isReservedHostname hostname =
     (let h = lowercase hostname; parts = map parse_int (js_split CHR ''.'' h)
      in if h \<in> set [''example.com'', ''example.org'', ''example.net'']
            \<or> list_ex (\<lambda>e. ends_with e h) [''.example.com'', ''.example.org'', ''.example.net'', ''.invalid'', ''.test'', ''.local''] then True
         else if length parts \<noteq> 4 \<or> None \<in> set parts then False
         else take 3 parts \<in> set [[Some 192, Some 0, Some 2], [Some 198, Some 51, Some 100], [Some 203, Some 0, Some 113]])"

definition isReservedUrlHost :: "(string \<Rightarrow> string option) \<Rightarrow> string \<Rightarrow> bool" where
  "isReservedUrlHost url_host v = (case url_host v of None \<Rightarrow> False | Some h \<Rightarrow> isReservedHostname h)"

text \<open>\<open>None\<close> is \<open>invalid\<close>.\<close>

definition parseHostValue :: "(string \<Rightarrow> string option) \<Rightarrow> string \<Rightarrow> string option" where
  "parseHostValue url_host v =
     (let t = js_trim v
      in if t = [] then None else if isProbablyUrl t then url_host t else url_host (''tcp://'' @ t))"

definition INTEGER_PATTERN :: regex where
  "INTEGER_PATTERN = Cat (opt (lit ''-'')) (plus1 (Cls digits))"

definition url_issues :: "(string \<Rightarrow> string option) \<Rightarrow> string \<Rightarrow> string \<Rightarrow> env_requirement \<Rightarrow> (issue_code \<times> bool) list" where
  "url_issues url_host key t r =
     (let rel = isOriginRelativeBrowserUrl key t
      in if \<not> isProbablyUrl t \<and> \<not> rel then [(Invalid_url, True)]
         else if \<not> rel \<and> val (rq_allowLocalhost r) \<noteq> Some True \<and> isLocalhostUrl url_host t then [(Localhost_url, False)]
         else if \<not> rel \<and> isReservedUrlHost url_host t then [(Reserved_url_host, True)]
         else [])"

definition host_issues :: "(string \<Rightarrow> string option) \<Rightarrow> string \<Rightarrow> env_requirement \<Rightarrow> (issue_code \<times> bool) list" where
  "host_issues url_host t r =
     (case parseHostValue url_host t of
        None \<Rightarrow> [(Invalid_host, True)]
      | Some h \<Rightarrow>
          if h = [] then [(Invalid_host, True)]
          else if val (rq_allowLocalhost r) \<noteq> Some True \<and> isLocalhostUrl url_host (''tcp://'' @ h) then [(Localhost_url, False)]
          else if isReservedHostname h then [(Reserved_host, True)]
          else [])"

text \<open>The checks that a requirement adds; \<open>trusted\<close> is the option \<open>trustedSource\<close>.\<close>

definition requirement_issues ::
    "(string \<Rightarrow> string option) \<Rightarrow> string \<Rightarrow> string \<Rightarrow> env_requirement \<Rightarrow> bool option \<Rightarrow> (issue_code \<times> bool) list" where
  "requirement_issues url_host key t r trusted =
     (if rq_trusted r = Some True \<and> trusted = Some False then [(Untrusted_external, True)] else []) @
     (if rq_kind r = RK_prefix \<and> truthy (val (rq_prefix r)) \<and> \<not> starts_with (the (val (rq_prefix r))) t then [(Prefix_mismatch, True)] else []) @
     (case val (rq_min r) of None \<Rightarrow> [] | Some m \<Rightarrow> if rq_kind r = RK_minlen \<and> m \<noteq> 0 \<and> length t < m then [(Too_short, True)] else []) @
     (case val (rq_values r) of None \<Rightarrow> [] | Some vs \<Rightarrow> if rq_kind r = RK_enum \<and> vs \<noteq> [] \<and> t \<notin> set vs then [(Enum_mismatch, True)] else []) @
     (if rq_kind r = RK_int \<and> \<not> matches INTEGER_PATTERN t then [(Not_integer, True)] else []) @
     (if rq_kind r = RK_url then url_issues url_host key t r else []) @
     (if rq_kind r = RK_host then host_issues url_host t r else [])"

definition validateEnvValue ::
    "(string \<Rightarrow> string option) \<Rightarrow> string \<Rightarrow> string \<Rightarrow> env_requirement option \<Rightarrow> bool option \<Rightarrow> env_issue list" where
  "validateEnvValue url_host key v req trusted =
     (let t = js_trim v;
          codes = (if t = [] \<or> matches PLACEHOLDER_PATTERN t then [(Placeholder, True)] else []) @
            (case req of
               None \<Rightarrow> []
             | Some r \<Rightarrow>
                 (if rq_kind r \<in> {RK_secret, RK_prefix, RK_minlen} \<and> matches SECRET_EXAMPLE_PATTERN t then [(Placeholder, True)] else [])
                 @ requirement_issues url_host key t r trusted)
      in map (\<lambda>(c, f). \<lparr>ei_key = key, ei_code = c, ei_fail = f, ei_requirement = req\<rparr>) codes)"

section \<open>Passing values\<close>

definition passes :: "(string \<Rightarrow> string option) \<Rightarrow> string \<Rightarrow> string \<Rightarrow> env_requirement option \<Rightarrow> bool option \<Rightarrow> bool" where
  "passes url_host key v req trusted \<longleftrightarrow> (\<forall>i\<in>set (validateEnvValue url_host key v req trusted). \<not> ei_fail i)"

lemma issues_pass: "(\<forall>i\<in>set (map (\<lambda>(c, f). \<lparr>ei_key = k, ei_code = c, ei_fail = f, ei_requirement = q\<rparr>) xs). \<not> ei_fail i) \<longleftrightarrow> (\<forall>(c, f)\<in>set xs. \<not> f)"
  by (induction xs) auto

lemma passes_split:
  "passes url_host key v (Some r) trusted \<longleftrightarrow>
     js_trim v \<noteq> [] \<and> \<not> matches PLACEHOLDER_PATTERN (js_trim v) \<and>
     (rq_kind r \<in> {RK_secret, RK_prefix, RK_minlen} \<longrightarrow> \<not> matches SECRET_EXAMPLE_PATTERN (js_trim v)) \<and>
     (\<forall>(c, f)\<in>set (requirement_issues url_host key (js_trim v) r trusted). \<not> f)"
  unfolding passes_def validateEnvValue_def Let_def option.case issues_pass set_append ball_Un by auto

lemma passes_not_empty: "passes url_host key v req trusted \<Longrightarrow> js_trim v \<noteq> [] \<and> \<not> matches PLACEHOLDER_PATTERN (js_trim v)"
  by (auto simp: passes_def validateEnvValue_def Let_def split: if_splits)

lemma passes_trusted:
  assumes "passes url_host key v (Some r) trusted" and "rq_trusted r = Some True"
  shows "trusted \<noteq> Some False"
  using assms unfolding passes_split by (auto simp: requirement_issues_def)

lemma passes_prefix:
  assumes "passes url_host key v (Some r) trusted" and "rq_kind r = RK_prefix" and "val (rq_prefix r) = Some p"
  shows "starts_with p (js_trim v)"
  using assms unfolding passes_split by (cases p) (auto simp: requirement_issues_def starts_with_def split: if_splits)

lemma passes_int:
  assumes "passes url_host key v (Some r) trusted" and "rq_kind r = RK_int"
  shows "js_trim v \<in> lang INTEGER_PATTERN"
  using assms unfolding passes_split by (auto simp: requirement_issues_def matches_lang split: if_splits)

lemma infer_trusted:
  assumes "requiresTrustedExternalSource key" and "inferEnvValueRequirement key = Some r" and "rq_kind r \<notin> {RK_int, RK_minlen}"
  shows "rq_trusted r = Some True"
  using assms by (auto simp: inferEnvValueRequirement_def withExternalTrustRequirement_def by_key_def split: if_splits)

lemma merge_trusted:
  assumes "requiresTrustedExternalSource key" and "inferEnvValueRequirement key = Some r" and "rq_kind r \<notin> {RK_int, RK_minlen}"
    and "\<And>d. detected = Some d \<Longrightarrow> rq_trusted d \<noteq> Some False"
  shows "\<exists>m. mergeEnvValueRequirement key detected = Some m \<and> rq_trusted m = Some True"
proof (cases detected)
  case None
  then show ?thesis using infer_trusted [OF assms(1-3)] assms(2) by (simp add: mergeEnvValueRequirement_def)
next
  case (Some d)
  then show ?thesis
    using infer_trusted [OF assms(1-3)] assms(2) assms(4) [OF Some]
    by (cases "rq_trusted d") (auto simp: mergeEnvValueRequirement_def)
qed

lemma schema_trusted: "requirementFromNodeSchemaObject raw kind = Some r \<Longrightarrow> rq_trusted r = None"
  by (auto simp: requirementFromNodeSchemaObject_def schema_req_def by_key_def split: if_splits)

end
