(* ===== verification/Deploy_Plan.thy ===== *)
theory Deploy_Plan
  imports Env_Requirements
begin

text \<open>
  Deploy plans (\<open>src/src/pipeline/deploy-plan/types.ts\<close>, \<open>plan-utils.ts\<close> and the parts of \<open>engine.ts\<close> that create and
  change plans): the plan, its state machine, the choice between environment variables and managed resources, the
  status of a plan, the last part of \<open>createPlan\<close> (from the detected facts to the stored row, and the whole branch for
  images) and \<open>updatePlan\<close>. A row keeps the plan itself instead of its JSON text, and the repository of plans
  (\<open>db/repos/deploy-plan.repo.ts\<close>) is a table of such rows. What is left out: cloning and scanning a repository, the result of a dry run, the commands and health checks of compose services (they are only copied), and the branch of
  \<open>updatePlan\<close> that reads the compose files again (its argument has no compose settings here). The names of environment
  variables are not those of members of \<open>Object.prototype\<close>.

  Shown: the statuses a plan can go through; when exactly a created or updated plan is ready or waits for an approval; an
  updated plan was not executed before. An update counts only the variables of the plan as provided and not those stored for the project, which
  \<open>createPlan\<close> counts (\<open>update_forgets_project_env\<close>); the lemmas on its status are about what it counts.
\<close>

section \<open>Data\<close>

datatype plan_status = PDraft | PReady | PNeeds_input | PNeeds_approval | PExecuting | PCompleted | PFailed | PRolled_back

datatype plan_complexity = CSimple | CStandard | CComplex

datatype plan_resolution = Existing_project_service | Proposed_project_service | Compose_service | Needs_user_input

datatype plan_approval = Safe_resource | Explicit_resource | Not_auto_creatable

datatype plan_action = ACreate | AReuse

record plan_service =
  ps_type :: string
  ps_action :: plan_action
  ps_name :: "string option"
  ps_service_id :: "string option"
  ps_connect_via :: string
  ps_resolution :: "plan_resolution option"
  ps_reason :: "string option"
  ps_approval :: "plan_approval option"

record plan_env_entry =
  ee_key :: string
  ee_source :: string
  ee_required :: bool
  ee_default :: "string option"
  ee_requirement :: "env_requirement option"

record plan_env =
  en_auto :: "(string, string) js_map"
  en_required :: "string list"
  en_provided :: "(string, string) js_map"
  en_trusted :: "string list option"
  en_detected :: "plan_env_entry list"
  en_issues :: "env_issue list option"

record plan_health =
  ph_path :: string
  ph_retries :: int
  ph_interval :: int

datatype plan_role = Role_application | Role_job | Role_resource

record plan_build_service =
  bs_name :: string
  bs_role :: "plan_role option"
  bs_dockerfile :: "string option"
  bs_port :: "int option"
  bs_host_ports :: "string list option"
  bs_image :: "string option"
  bs_depends_on :: "string list option"
  bs_internal_url :: "string option"
  bs_restart :: "string option"

datatype build_kind = MDockerfile | MCompose | MImage

record plan_build =
  pb_method :: build_kind
  pb_dockerfile :: string
  pb_context :: string
  pb_target :: "string option"
  pb_generated_dockerfile :: "string option"
  pb_compose_file :: "string option"
  pb_compose_files :: "string list option"
  pb_compose_profiles :: "string list option"
  pb_selected_services :: "string list option"
  pb_compose_services :: "plan_build_service list option"
  pb_traffic_service :: "string option"
  pb_traffic_candidates :: "string list option"
  pb_dockerfiles_found :: "string list option"

record plan_source =
  so_repo_url :: string
  so_branch :: string
  so_commit_sha :: string
  so_git_credential_id :: "string option"
  so_image_url :: "string option"

record execution_context =
  ec_visibility :: "string option"
  ec_environment :: "string option"
  ec_sshKeyPath :: "string option"
  ec_trigger :: "string option"
  ec_imageCmd :: "string list option"
  ec_containerPort :: "int option"
  ec_healthCheckPath :: "string option"
  ec_targetProjectId :: "string option"
  ec_composeFile :: "string option"
  ec_composeFiles :: "string list option"
  ec_composeProfiles :: "string list option"
  ec_fingerprints :: "(string, string) js_map option"

record deploy_plan =
  dp_plan_id :: string
  dp_status :: plan_status
  dp_complexity :: plan_complexity
  dp_app_name :: string
  dp_source :: plan_source
  dp_build :: plan_build
  dp_services :: "plan_service list"
  dp_env :: plan_env
  dp_health :: plan_health
  dp_missing :: "string list"
  dp_warnings :: "string list"
  dp_production :: bool
  dp_created_at :: int
  dp_updated_at :: int
  dp_executed_at :: "int option"
  dp_completed_at :: "int option"
  dp_project_id :: "string option"
  dp_target_project_id :: "string option"
  dp_error_message :: "string option"
  dp_internal_url :: "string option"
  dp_execution :: "execution_context option"

text \<open>A row of the table of plans.\<close>

record plan_row =
  pr_id :: string
  pr_project_name :: "string option"
  pr_status :: plan_status
  pr_complexity :: "plan_complexity option"
  pr_plan :: deploy_plan
  pr_commit_sha :: "string option"
  pr_error :: "string option"
  pr_updated_at :: int

datatype plan_error =
    Plan_not_found string
  | Cannot_update plan_status
  | Invalid_transition plan_status plan_status
  | Service_config string
  | Invalid_traffic_service string "string list"
  | Traffic_service_required "string list"
  | Requires_input "string list" "string list"
  | Not_executable plan_status
  | Invalid_name string
  | Project_not_found string
  | Already_exists string
  | Deploy_locked string string
  | Other_error string

section \<open>The state machine\<close>

definition canTransition :: "plan_status \<Rightarrow> plan_status \<Rightarrow> bool" where
  "canTransition from to \<longleftrightarrow> to \<in> set
     (case from of
        PDraft \<Rightarrow> [PReady, PNeeds_input, PNeeds_approval]
      | PNeeds_input \<Rightarrow> [PReady]
      | PNeeds_approval \<Rightarrow> [PReady]
      | PReady \<Rightarrow> [PExecuting]
      | PExecuting \<Rightarrow> [PCompleted, PFailed, PRolled_back]
      | PCompleted \<Rightarrow> []
      | PFailed \<Rightarrow> []
      | PRolled_back \<Rightarrow> [])"

definition planTransition :: "int \<Rightarrow> deploy_plan \<Rightarrow> plan_status \<Rightarrow> string option \<Rightarrow> plan_error + deploy_plan" where
  "planTransition now plan new msg =
     (if \<not> canTransition (dp_status plan) new then Inl (Invalid_transition (dp_status plan) new)
      else
        let p = plan\<lparr>dp_status := new, dp_updated_at := now\<rparr>;
            p = (if new = PExecuting then p\<lparr>dp_executed_at := Some now\<rparr> else p);
            p = (if new = PCompleted then p\<lparr>dp_completed_at := Some now\<rparr> else p)
        in Inr (if new = PFailed \<and> truthy msg then p\<lparr>dp_error_message := msg\<rparr> else p))"

section \<open>Environment variables and managed resources\<close>

definition SERVICE_ENV_VARS :: "(string, string) js_map" where
  "SERVICE_ENV_VARS = [(''postgresql'', ''DATABASE_URL''), (''mysql'', ''DATABASE_URL''), (''redis'', ''REDIS_URL''),
     (''mongodb'', ''MONGODB_URI''), (''rabbitmq'', ''RABBITMQ_URL'')]"

definition serviceEnvVarName :: "plan_service \<Rightarrow> string option" where
  "serviceEnvVarName s = (if ps_connect_via s \<noteq> [] then Some (ps_connect_via s) else js_get SERVICE_ENV_VARS (ps_type s))"

definition hasExplicitEnvValue :: "(string, string) js_map \<Rightarrow> string \<Rightarrow> bool" where
  "hasExplicitEnvValue env key = (case js_get env key of None \<Rightarrow> False | Some v \<Rightarrow> js_trim v \<noteq> [])"

definition planServiceSatisfiedByExplicitEnv :: "plan_service \<Rightarrow> (string, string) js_map \<Rightarrow> bool" where
  "planServiceSatisfiedByExplicitEnv s env = (case serviceEnvVarName s of None \<Rightarrow> False | Some n \<Rightarrow> hasExplicitEnvValue env n)"

definition safeProposedResources :: "plan_service list \<Rightarrow> (string, string) js_map \<Rightarrow> plan_service list" where
  "safeProposedResources services env =
     filter (\<lambda>s. ps_resolution s = Some Proposed_project_service \<and> ps_approval s = Some Safe_resource
              \<and> \<not> planServiceSatisfiedByExplicitEnv s env) services"

definition computePlanStatus ::
    "string list \<Rightarrow> plan_service list \<Rightarrow> (string, string) js_map \<Rightarrow> env_issue list \<Rightarrow> bool \<Rightarrow> plan_status" where
  "computePlanStatus missing services env issues trafficServiceRequired =
     (if missing \<noteq> [] \<or> list_ex ei_fail issues \<or> trafficServiceRequired then PNeeds_input
      else if safeProposedResources services env \<noteq> [] then PNeeds_approval
      else PReady)"

definition validatePlanEnvValues ::
    "(string \<Rightarrow> string option) \<Rightarrow> plan_env_entry list \<Rightarrow> (string, string) js_map \<Rightarrow> string list \<Rightarrow> env_issue list" where
  "validatePlanEnvValues url_host entries provided trusted =
     (let byKey = fold (\<lambda>e m. js_set (ee_key e) e m) entries []
      in concat (map (\<lambda>(key, v).
           validateEnvValue url_host key v (mergeEnvValueRequirement key (Option.bind (js_get byKey key) ee_requirement))
             (Some (key \<in> set trusted))) provided))"

definition trustedEnvKeySet :: "plan_env \<Rightarrow> string list" where
  "trustedEnvKeySet env = filter (js_has (en_provided env)) (case en_trusted env of None \<Rightarrow> [] | Some ks \<Rightarrow> ks)"

definition proposedResourceIdentifier :: "plan_service \<Rightarrow> string" where
  "proposedResourceIdentifier s = (case ps_name s of Some n \<Rightarrow> n | None \<Rightarrow> ps_type s)"

definition plannedServiceEnvKeys :: "plan_service list \<Rightarrow> string list" where
  "plannedServiceEnvKeys services =
     filter (\<lambda>k. k \<noteq> []) (map ps_connect_via
       (filter (\<lambda>s. ps_action s = AReuse \<or> ps_resolution s = Some Proposed_project_service \<and> ps_approval s = Some Safe_resource) services))"

fun required_entries :: "string list \<Rightarrow> plan_service list \<Rightarrow> plan_env_entry list" where
  "required_entries seen [] = []"
| "required_entries seen (s # ss) =
     (if ps_action s \<noteq> ACreate \<or> ps_connect_via s = [] \<or> ps_connect_via s \<in> set seen then required_entries seen ss
      else \<lparr>ee_key = ps_connect_via s, ee_source = ''detected '' @ ps_type s @ '' dependency'', ee_required = True,
             ee_default = None, ee_requirement = inferEnvValueRequirement (ps_connect_via s)\<rparr>
           # required_entries (ps_connect_via s # seen) ss)"

definition requiredEnvEntriesForServiceChoices :: "plan_service list \<Rightarrow> plan_env_entry list \<Rightarrow> plan_env_entry list" where
  "requiredEnvEntriesForServiceChoices services detected = required_entries (map ee_key detected) services"

definition filterServicesWithExplicitEnv ::
    "plan_service list \<Rightarrow> (string, string) js_map \<Rightarrow> string list \<Rightarrow> plan_service list \<times> string list" where
  "filterServicesWithExplicitEnv services env warnings =
     (let skipped = map (\<lambda>s. ps_type s @ '' ('' @ the (serviceEnvVarName s) @ '')'')
            (filter (\<lambda>s. planServiceSatisfiedByExplicitEnv s env) services);
          warning = ''Explicit env var(s) provided for '' @ js_join '', '' skipped
            @ ''; skipping automatic Database/Cache provisioning for those dependencies.''
      in (filter (\<lambda>s. \<not> planServiceSatisfiedByExplicitEnv s env) services,
          if skipped \<noteq> [] \<and> warning \<notin> set warnings then warnings @ [warning] else warnings))"

text \<open>\<open>Array.from(new Set(xs))\<close>.\<close>

definition first_of_each :: "'a list \<Rightarrow> 'a list" where
  "first_of_each xs = rev (remdups (rev xs))"

text \<open>The loop of \<open>computeMissingEnvVars\<close>.\<close>

fun missing_loop :: "(string \<Rightarrow> bool) \<Rightarrow> string list \<Rightarrow> plan_env_entry list \<Rightarrow> plan_env_entry list" where
  "missing_loop known seen [] = []"
| "missing_loop known seen (e # es) =
     (if \<not> ee_required e \<or> ee_key e \<in> set seen then missing_loop known seen es
      else if known (ee_key e) then missing_loop known (ee_key e # seen) es
      else e # missing_loop known (ee_key e # seen) es)"

definition computeMissingEnvVars ::
    "plan_env_entry list \<Rightarrow> (string, string) js_map \<Rightarrow> (string, string) js_map \<Rightarrow> (string, string) js_map \<Rightarrow> string list
     \<Rightarrow> plan_env_entry list" where
  "computeMissingEnvVars entries provided autoDetected existing plannedServiceKeys =
     missing_loop (\<lambda>k. js_has provided k \<or> js_has autoDetected k \<or> js_has existing k \<or> k \<in> set plannedServiceKeys) [] entries"

definition computeComplexity :: "nat \<Rightarrow> nat \<Rightarrow> bool \<Rightarrow> plan_complexity" where
  "computeComplexity missingCount serviceCount isCompose =
     (if missingCount = 0 \<and> serviceCount = 0 \<and> \<not> isCompose then CSimple
      else if missingCount > 3 \<or> serviceCount \<ge> 2 then CComplex
      else CStandard)"

definition buildAutoEnvVars :: "plan_service list \<Rightarrow> (string, string) js_map" where
  "buildAutoEnvVars services = []"

section \<open>Creating a plan\<close>

text \<open>\<open>options\<close> of \<open>createPlan\<close> that the modelled part reads.\<close>

record create_options =
  co_visibility :: "string option"
  co_environment :: "string option"
  co_sshKeyPath :: "string option"
  co_trigger :: "string option"
  co_imageCmd :: "string list option"
  co_containerPort :: "int option"
  co_healthCheckPath :: "string option"
  co_targetProjectId :: "string option"
  co_composeFile :: "string option"
  co_composeFiles :: "string list option"
  co_composeProfiles :: "string list option"
  co_dockerTarget :: "string option"
  co_envVars :: "(string, string) js_map"

definition buildExecutionContext :: "create_options \<Rightarrow> execution_context option" where
  "buildExecutionContext o' =
     (if \<not> truthy (co_visibility o') \<and> \<not> truthy (co_environment o') \<and> \<not> truthy (co_sshKeyPath o') \<and> \<not> truthy (co_trigger o')
         \<and> co_imageCmd o' = None \<and> co_containerPort o' = None \<and> \<not> truthy (co_healthCheckPath o') \<and> \<not> truthy (co_targetProjectId o')
         \<and> \<not> truthy (co_composeFile o') \<and> co_composeFiles o' = None \<and> co_composeProfiles o' = None
      then None
      else Some \<lparr>ec_visibility = co_visibility o', ec_environment = co_environment o', ec_sshKeyPath = co_sshKeyPath o',
        ec_trigger = co_trigger o', ec_imageCmd = co_imageCmd o', ec_containerPort = co_containerPort o',
        ec_healthCheckPath = co_healthCheckPath o', ec_targetProjectId = co_targetProjectId o', ec_composeFile = co_composeFile o',
        ec_composeFiles = co_composeFiles o', ec_composeProfiles = co_composeProfiles o', ec_fingerprints = None\<rparr>)"

text \<open>What \<open>createPlan\<close> hands to \<open>assemblePlan\<close>.\<close>

record plan_params =
  pp_projectName :: string
  pp_projectId :: "string option"
  pp_targetProjectId :: "string option"
  pp_source :: plan_source
  pp_method :: build_kind
  pp_dockerfile :: string
  pp_buildContext :: "string option"
  pp_dockerTarget :: "string option"
  pp_generatedDockerfile :: "string option"
  pp_composeFile :: "string option"
  pp_composeFiles :: "string list option"
  pp_composeProfiles :: "string list option"
  pp_composeServices :: "plan_build_service list option"
  pp_trafficService :: "string option"
  pp_trafficCandidates :: "string list option"
  pp_dockerfiles :: "string list"
  pp_services :: "plan_service list"
  pp_required :: "string list"
  pp_envVars :: "(string, string) js_map"
  pp_detected :: "plan_env_entry list"
  pp_warnings :: "string list"
  pp_production :: bool

definition dirname :: "string \<Rightarrow> string" where
  "dirname f = (if CHR ''/'' \<in> set f then js_join ''/'' (butlast (js_split CHR ''/'' f)) else ''.'')"

definition service_url :: "string \<Rightarrow> plan_build_service \<Rightarrow> string" where
  "service_url projectName s =
     ''http://ol-'' @ projectName @ ''-'' @ bs_name s @ (case bs_port s of None \<Rightarrow> '''' | Some p \<Rightarrow> if p = 0 then '''' else '':'' @ show_int p)"

definition more_than_one :: "'a list option \<Rightarrow> 'a list option" where
  "more_than_one xs = (case xs of Some ys \<Rightarrow> if length ys > 1 then xs else None | None \<Rightarrow> None)"

definition assemblePlan ::
    "string \<Rightarrow> int \<Rightarrow> plan_status \<Rightarrow> plan_complexity \<Rightarrow> string list \<Rightarrow> env_issue list \<Rightarrow> plan_params \<Rightarrow> deploy_plan" where
  "assemblePlan planId now status complexity missing issues p =
     \<lparr>dp_plan_id = planId, dp_status = status, dp_complexity = complexity, dp_app_name = pp_projectName p, dp_source = pp_source p,
      dp_build = \<lparr>pb_method = pp_method p, pb_dockerfile = pp_dockerfile p,
        pb_context = (case pp_buildContext p of Some c \<Rightarrow> c | None \<Rightarrow> dirname (pp_dockerfile p)),
        pb_target = pp_dockerTarget p, pb_generated_dockerfile = pp_generatedDockerfile p,
        pb_compose_file = pp_composeFile p, pb_compose_files = more_than_one (pp_composeFiles p),
        pb_compose_profiles = pp_composeProfiles p, pb_selected_services = None,
        pb_compose_services = map_option (map (\<lambda>s. s\<lparr>bs_internal_url := Some (service_url (pp_projectName p) s)\<rparr>)) (pp_composeServices p),
        pb_traffic_service = pp_trafficService p, pb_traffic_candidates = more_than_one (pp_trafficCandidates p),
        pb_dockerfiles_found = (if pp_dockerfiles p = [] then None else Some (pp_dockerfiles p))\<rparr>,
      dp_services = pp_services p,
      dp_env = \<lparr>en_auto = buildAutoEnvVars (pp_services p), en_required = pp_required p, en_provided = pp_envVars p, en_trusted = None,
        en_detected = pp_detected p, en_issues = Some issues\<rparr>,
      dp_health = \<lparr>ph_path = ''/'', ph_retries = 10, ph_interval = 2000\<rparr>,
      dp_missing = missing, dp_warnings = pp_warnings p, dp_production = pp_production p, dp_created_at = now, dp_updated_at = now,
      dp_executed_at = None, dp_completed_at = None, dp_project_id = pp_projectId p, dp_target_project_id = pp_targetProjectId p,
      dp_error_message = None, dp_internal_url = Some (''http://ol-'' @ pp_projectName p), dp_execution = None\<rparr>"

definition createDeployPlan :: "int \<Rightarrow> deploy_plan \<Rightarrow> plan_row list \<Rightarrow> plan_row list" where
  "createDeployPlan now p rows =
     rows @ [\<lparr>pr_id = dp_plan_id p, pr_project_name = Some (dp_app_name p), pr_status = dp_status p, pr_complexity = Some (dp_complexity p),
       pr_plan = p, pr_commit_sha = Some (so_commit_sha (dp_source p)), pr_error = None, pr_updated_at = now\<rparr>]"

text \<open>
  The facts that the scan of a repository found; \<open>cp_existing\<close> are the variables stored for the project that owns the resources.
\<close>

record detected_facts =
  cp_params :: plan_params
  cp_services :: "plan_service list"
  cp_detected :: "plan_env_entry list"
  cp_existing :: "(string, string) js_map"
  cp_fingerprints :: "(string, string) js_map option"

definition empty_context :: execution_context where
  "empty_context = \<lparr>ec_visibility = None, ec_environment = None, ec_sshKeyPath = None, ec_trigger = None, ec_imageCmd = None,
     ec_containerPort = None, ec_healthCheckPath = None, ec_targetProjectId = None, ec_composeFile = None, ec_composeFiles = None,
     ec_composeProfiles = None, ec_fingerprints = None\<rparr>"

text \<open>\<open>createPlan\<close> for a repository, from the detected services on.\<close>

definition createPlan ::
    "(string \<Rightarrow> string option) \<Rightarrow> string \<Rightarrow> int \<Rightarrow> create_options \<Rightarrow> detected_facts \<Rightarrow> plan_row list \<Rightarrow> deploy_plan \<times> plan_row list" where
  "createPlan url_host planId now opts f rows =
     (let env = co_envVars opts; pp = cp_params f;
          (services, warnings) = filterServicesWithExplicitEnv (cp_services f) env (pp_warnings pp);
          detected = cp_detected f @ requiredEnvEntriesForServiceChoices services (cp_detected f);
          required = first_of_each (map ee_key (filter ee_required detected));
          missing = map ee_key (computeMissingEnvVars detected env (buildAutoEnvVars services) (cp_existing f) (plannedServiceEnvKeys services));
          issues = validatePlanEnvValues url_host detected env [];
          isCompose = (pp_method pp = MCompose);
          serviceCount = (if isCompose then (case pp_composeServices pp of None \<Rightarrow> 0 | Some cs \<Rightarrow> length cs) else length services);
          complexity = computeComplexity (length missing) serviceCount isCompose;
          status = computePlanStatus missing services env issues
            ((case pp_trafficCandidates pp of None \<Rightarrow> 0 | Some c \<Rightarrow> length c) > 1 \<and> \<not> truthy (pp_trafficService pp));
          plan = assemblePlan planId now status complexity missing issues
            (pp\<lparr>pp_services := services, pp_required := required, pp_envVars := env, pp_detected := detected, pp_warnings := warnings\<rparr>);
          execution = (case (buildExecutionContext opts, cp_fingerprints f) of
              (Some e, None) \<Rightarrow> Some e
            | (Some e, Some fp) \<Rightarrow> Some (e\<lparr>ec_fingerprints := Some fp\<rparr>)
            | (None, Some fp) \<Rightarrow> Some (empty_context\<lparr>ec_fingerprints := Some fp\<rparr>)
            | (None, None) \<Rightarrow> None);
          plan = plan\<lparr>dp_execution := execution\<rparr>
      in (plan, createDeployPlan now plan rows))"

text \<open>\<open>createPlan\<close> for an image, once the name of the project is known.\<close>

definition createImagePlan ::
    "(string \<Rightarrow> string option) \<Rightarrow> string \<Rightarrow> int \<Rightarrow> create_options \<Rightarrow> string \<Rightarrow> string option \<Rightarrow> string option \<Rightarrow> string \<Rightarrow> plan_row list
     \<Rightarrow> deploy_plan \<times> plan_row list" where
  "createImagePlan url_host planId now opts projectName projectId targetProjectId imageUrl rows =
     (let env = co_envVars opts;
          issues = validatePlanEnvValues url_host [] env [];
          status = computePlanStatus [] [] env issues False;
          plan = assemblePlan planId now status CSimple [] issues
            \<lparr>pp_projectName = projectName, pp_projectId = projectId, pp_targetProjectId = targetProjectId,
             pp_source = \<lparr>so_repo_url = [], so_branch = [], so_commit_sha = [], so_git_credential_id = None, so_image_url = Some imageUrl\<rparr>,
             pp_method = MImage, pp_dockerfile = ''Dockerfile'', pp_buildContext = None, pp_dockerTarget = co_dockerTarget opts,
             pp_generatedDockerfile = None, pp_composeFile = None, pp_composeFiles = None, pp_composeProfiles = None,
             pp_composeServices = None, pp_trafficService = None, pp_trafficCandidates = None, pp_dockerfiles = [], pp_services = [],
             pp_required = [], pp_envVars = env, pp_detected = [], pp_warnings = [],
             pp_production = (co_environment opts \<noteq> Some ''development'')\<rparr>;
          plan = plan\<lparr>dp_execution := buildExecutionContext opts\<rparr>
      in (plan, createDeployPlan now plan rows))"

section \<open>Changing a plan\<close>

text \<open>\<open>updates.env\<close>: an object with \<open>provided\<close> or \<open>trusted\<close>, or the variables themselves.\<close>

datatype env_update = Structured "(string, string) js_map option" "string list option" | Flat "(string, string) js_map"

record build_update =
  bu_method :: "build_kind option"
  bu_dockerfile :: "string option"
  bu_context :: "string option"
  bu_target :: "string option"
  bu_generated_dockerfile :: "string option"
  bu_selected_services :: "string list option"
  bu_compose_services :: "plan_build_service list option"
  bu_traffic_service :: "string option"
  bu_traffic_candidates :: "string list option"
  bu_dockerfiles_found :: "string list option"

record health_update =
  hu_path :: "string option"
  hu_retries :: "int option"
  hu_interval :: "int option"

record plan_updates =
  up_env :: "env_update option"
  up_build :: "build_update option"
  up_traffic_service :: "string option"
  up_services :: "plan_service list option"
  up_health :: "health_update option"

definition given_or :: "'a option \<Rightarrow> 'a \<Rightarrow> 'a" where
  "given_or a b = (case a of Some v \<Rightarrow> v | None \<Rightarrow> b)"

definition or_opt :: "'a option \<Rightarrow> 'a option \<Rightarrow> 'a option" where
  "or_opt a b = (case a of Some _ \<Rightarrow> a | None \<Rightarrow> b)"

definition update_build :: "build_update option \<Rightarrow> string option \<Rightarrow> plan_build \<Rightarrow> plan_build" where
  "update_build u traffic b =
     (let b = (case u of
            None \<Rightarrow> b
          | Some u \<Rightarrow> b\<lparr>pb_method := given_or (bu_method u) (pb_method b), pb_dockerfile := given_or (bu_dockerfile u) (pb_dockerfile b),
              pb_context := given_or (bu_context u) (pb_context b), pb_target := or_opt (bu_target u) (pb_target b),
              pb_generated_dockerfile := or_opt (bu_generated_dockerfile u) (pb_generated_dockerfile b),
              pb_selected_services := or_opt (bu_selected_services u) (pb_selected_services b),
              pb_compose_services := or_opt (bu_compose_services u) (pb_compose_services b),
              pb_traffic_service := or_opt (bu_traffic_service u) (pb_traffic_service b),
              pb_traffic_candidates := or_opt (bu_traffic_candidates u) (pb_traffic_candidates b),
              pb_dockerfiles_found := or_opt (bu_dockerfiles_found u) (pb_dockerfiles_found b)\<rparr>)
      in b\<lparr>pb_traffic_service := or_opt traffic (pb_traffic_service b)\<rparr>)"

definition js_spread :: "(string, 'v) js_map \<Rightarrow> (string, 'v) js_map \<Rightarrow> (string, 'v) js_map" where
  "js_spread a b = fold (\<lambda>(k, v) m. js_set k v m) b a"

definition update_env :: "env_update \<Rightarrow> plan_env \<Rightarrow> plan_env" where
  "update_env u env =
     (case u of
        Flat vars \<Rightarrow> env\<lparr>en_provided := js_spread (en_provided env) vars\<rparr>
      | Structured provided trusted \<Rightarrow>
          (let env1 = (case provided of None \<Rightarrow> env | Some vars \<Rightarrow> env\<lparr>en_provided := js_spread (en_provided env) vars\<rparr>)
           in case trusted of
                None \<Rightarrow> env1
              | Some ks \<Rightarrow> env1\<lparr>en_trusted := Some (filter (js_has (en_provided env1))
                  (first_of_each ((case en_trusted env of None \<Rightarrow> [] | Some ts \<Rightarrow> ts) @ filter (\<lambda>k. k \<noteq> []) ks)))\<rparr>))"

definition update_health :: "health_update \<Rightarrow> plan_health \<Rightarrow> plan_health" where
  "update_health u h =
     \<lparr>ph_path = given_or (hu_path u) (ph_path h), ph_retries = given_or (hu_retries u) (ph_retries h), ph_interval = given_or (hu_interval u) (ph_interval h)\<rparr>"

definition required_entry :: "plan_env_entry list \<Rightarrow> string \<Rightarrow> plan_env_entry" where
  "required_entry detected key =
     (case find (\<lambda>e. ee_key e = key \<and> ee_required e) detected of
        Some e \<Rightarrow> e
      | None \<Rightarrow> \<lparr>ee_key = key, ee_source = ''required'', ee_required = True, ee_default = None, ee_requirement = None\<rparr>)"

definition traffic_undecided :: "plan_build \<Rightarrow> bool" where
  "traffic_undecided b \<longleftrightarrow> length (case pb_traffic_candidates b of None \<Rightarrow> [] | Some c \<Rightarrow> c) > 1 \<and> \<not> truthy (pb_traffic_service b)"

text \<open>The missing variables, the issues and the status of a changed plan.\<close>

definition reassess :: "(string \<Rightarrow> string option) \<Rightarrow> int \<Rightarrow> deploy_plan \<Rightarrow> deploy_plan" where
  "reassess url_host now p =
     (let env = dp_env p;
          missing = map ee_key (computeMissingEnvVars (map (required_entry (en_detected env)) (en_required env)) (en_provided env)
            (en_auto env) [] (plannedServiceEnvKeys (dp_services p)));
          issues = validatePlanEnvValues url_host (en_detected env) (en_provided env) (trustedEnvKeySet env)
      in p\<lparr>dp_missing := missing, dp_env := env\<lparr>en_issues := Some issues\<rparr>,
           dp_status := computePlanStatus missing (dp_services p) (en_provided env) issues (traffic_undecided (dp_build p)),
           dp_updated_at := now\<rparr>)"

definition getDeployPlan :: "plan_row list \<Rightarrow> string \<Rightarrow> plan_row option" where
  "getDeployPlan rows planId = row_of pr_id planId rows"

text \<open>\<open>updateDeployPlan\<close> with a status and a plan, and with an error message when it is given.\<close>

definition updateDeployPlan :: "string \<Rightarrow> plan_status \<Rightarrow> deploy_plan \<Rightarrow> string option \<Rightarrow> int \<Rightarrow> plan_row list \<Rightarrow> plan_row list" where
  "updateDeployPlan planId status plan err now =
     sql_update (\<lambda>r. pr_id r = planId) (\<lambda>r. r\<lparr>pr_status := status, pr_plan := plan, pr_error := or_opt err (pr_error r), pr_updated_at := now\<rparr>)"

definition changed_plan :: "plan_updates \<Rightarrow> deploy_plan \<Rightarrow> deploy_plan" where
  "changed_plan u plan =
     (let merged = plan\<lparr>dp_build := update_build (up_build u) (up_traffic_service u) (dp_build plan)\<rparr>;
          merged = (case up_env u of None \<Rightarrow> merged | Some e \<Rightarrow> merged\<lparr>dp_env := update_env e (dp_env merged)\<rparr>);
          (services, warnings) = (case up_services u of
              Some s \<Rightarrow> (s, dp_warnings merged)
            | None \<Rightarrow> filterServicesWithExplicitEnv (dp_services merged) (en_provided (dp_env merged)) (dp_warnings merged));
          merged = merged\<lparr>dp_services := services, dp_warnings := warnings, dp_env := (dp_env merged)\<lparr>en_auto := buildAutoEnvVars services\<rparr>\<rparr>
      in (case up_health u of None \<Rightarrow> merged | Some h \<Rightarrow> merged\<lparr>dp_health := update_health h (dp_health plan)\<rparr>))"

definition engineUpdatePlan ::
    "(string \<Rightarrow> string option) \<Rightarrow> string \<Rightarrow> plan_updates \<Rightarrow> int \<Rightarrow> plan_row list \<Rightarrow> (plan_error + deploy_plan) \<times> plan_row list" where
  "engineUpdatePlan url_host planId u now rows =
     (case getDeployPlan rows planId of
        None \<Rightarrow> (Inl (Plan_not_found planId), rows)
      | Some row \<Rightarrow>
          (let plan = pr_plan row;
               build = update_build (up_build u) (up_traffic_service u) (dp_build plan);
               candidates = (case pb_traffic_candidates build of None \<Rightarrow> [] | Some c \<Rightarrow> c)
           in if dp_status plan \<in> {PExecuting, PCompleted, PFailed, PRolled_back} then (Inl (Cannot_update (dp_status plan)), rows)
              else if truthy (pb_traffic_service build) \<and> candidates \<noteq> [] \<and> the (pb_traffic_service build) \<notin> set candidates
              then (Inl (Invalid_traffic_service (the (pb_traffic_service build)) candidates), rows)
              else let merged = reassess url_host now (changed_plan u plan)
                   in (Inr merged, updateDeployPlan planId (dp_status merged) merged None now rows)))"

section \<open>Facts about plans\<close>

lemma missing_loop_keys:
  "set (map ee_key (missing_loop known seen es)) = {ee_key e |e. e \<in> set es \<and> ee_required e \<and> ee_key e \<notin> set seen \<and> \<not> known (ee_key e)}"
proof (induction es arbitrary: seen)
  case (Cons e es)
  show ?case
  proof (cases "\<not> ee_required e \<or> ee_key e \<in> set seen")
    case True
    then show ?thesis using Cons.IH [of seen] by auto
  next
    case False
    then show ?thesis using Cons.IH [of "ee_key e # seen"] by auto
  qed
qed simp

lemma missing_loop_subset: "set (missing_loop known seen es) \<subseteq> set es"
  by (induction es arbitrary: seen) auto

lemma missing_keys_empty_iff:
  "map ee_key (computeMissingEnvVars es provided auto existing planned) = [] \<longleftrightarrow>
     (\<forall>e\<in>set es. ee_required e \<longrightarrow> js_has provided (ee_key e) \<or> js_has auto (ee_key e) \<or> js_has existing (ee_key e) \<or> ee_key e \<in> set planned)"
proof -
  let ?m = "map ee_key (computeMissingEnvVars es provided auto existing planned)"
  have "?m = [] \<longleftrightarrow> set ?m = {}" by (simp only: set_empty)
  also have "\<dots> \<longleftrightarrow> (\<forall>e\<in>set es. ee_required e \<longrightarrow>
      js_has provided (ee_key e) \<or> js_has auto (ee_key e) \<or> js_has existing (ee_key e) \<or> ee_key e \<in> set planned)"
    unfolding computeMissingEnvVars_def missing_loop_keys by auto
  finally show ?thesis .
qed

lemma required_entry_simps [simp]: "ee_key (required_entry d k) = k" "ee_required (required_entry d k)"
  by (auto simp: required_entry_def find_Some_iff split: option.splits)

lemma computePlanStatus_iffs:
  "computePlanStatus missing services env issues t = PReady \<longleftrightarrow>
     missing = [] \<and> \<not> list_ex ei_fail issues \<and> \<not> t \<and> safeProposedResources services env = []"
  "computePlanStatus missing services env issues t = PNeeds_approval \<longleftrightarrow>
     missing = [] \<and> \<not> list_ex ei_fail issues \<and> \<not> t \<and> safeProposedResources services env \<noteq> []"
  "computePlanStatus missing services env issues t = PNeeds_input \<longleftrightarrow> missing \<noteq> [] \<or> list_ex ei_fail issues \<or> t"
  by (auto simp: computePlanStatus_def)

text \<open>The variables that a plan provides, with what it says about them.\<close>

definition requirement_of :: "plan_env_entry list \<Rightarrow> string \<Rightarrow> env_requirement option" where
  "requirement_of detected key = mergeEnvValueRequirement key (Option.bind (row_of ee_key key (rev detected)) ee_requirement)"

lemma validatePlanEnvValues_fail_iff:
  "list_ex ei_fail (validatePlanEnvValues url_host detected provided trusted) \<longleftrightarrow>
     (\<exists>(k, v)\<in>set provided. list_ex ei_fail (validateEnvValue url_host k v (requirement_of detected k) (Some (k \<in> set trusted))))"
proof -
  have "js_get (fold (\<lambda>e m. js_set (ee_key e) e m) detected []) k = row_of ee_key k (rev detected)" for k
    using js_get_fold_set [where key = ee_key and f = "\<lambda>e. e" and xs = detected and m = "[]"]
    by (simp split: option.splits)
  then show ?thesis
    by (auto simp: validatePlanEnvValues_def list_ex_iff requirement_of_def Bex_def)
qed

lemma update_env_required [simp]: "en_required (update_env u e) = en_required e" "en_detected (update_env u e) = en_detected e"
  by (auto simp: update_env_def Let_def split: env_update.splits option.splits)

lemma changed_plan_keeps [simp]:
  "dp_plan_id (changed_plan u p) = dp_plan_id p" "dp_status (changed_plan u p) = dp_status p"
  "en_required (dp_env (changed_plan u p)) = en_required (dp_env p)" "en_auto (dp_env (changed_plan u p)) = []"
  "dp_build (changed_plan u p) = update_build (up_build u) (up_traffic_service u) (dp_build p)"
  by (auto simp: changed_plan_def Let_def buildAutoEnvVars_def split: option.splits prod.splits)

lemma reassess_simps [simp]:
  "dp_plan_id (reassess h now p) = dp_plan_id p" "dp_services (reassess h now p) = dp_services p" "dp_build (reassess h now p) = dp_build p"
  "en_provided (dp_env (reassess h now p)) = en_provided (dp_env p)" "en_required (dp_env (reassess h now p)) = en_required (dp_env p)"
  "en_auto (dp_env (reassess h now p)) = en_auto (dp_env p)" "en_detected (dp_env (reassess h now p)) = en_detected (dp_env p)"
  "trustedEnvKeySet (dp_env (reassess h now p)) = trustedEnvKeySet (dp_env p)"
  by (simp_all add: reassess_def Let_def trustedEnvKeySet_def)

text \<open>What a plan still needs from the user as an update sees it, which does not look at the variables stored for the project.\<close>

definition input_complete :: "(string \<Rightarrow> string option) \<Rightarrow> deploy_plan \<Rightarrow> bool" where
  "input_complete url_host p \<longleftrightarrow>
     (\<forall>k\<in>set (en_required (dp_env p)). js_has (en_provided (dp_env p)) k \<or> k \<in> set (plannedServiceEnvKeys (dp_services p))) \<and>
     (\<forall>(k, v)\<in>set (en_provided (dp_env p)).
        passes url_host k v (requirement_of (en_detected (dp_env p)) k) (Some (k \<in> set (trustedEnvKeySet (dp_env p))))) \<and>
     \<not> traffic_undecided (dp_build p)"

lemma reassess_status:
  assumes "en_auto (dp_env p) = []"
  shows "dp_status (reassess h now p) = PReady \<longleftrightarrow> input_complete h p \<and> safeProposedResources (dp_services p) (en_provided (dp_env p)) = []"
    and "dp_status (reassess h now p) = PNeeds_approval \<longleftrightarrow> input_complete h p \<and> safeProposedResources (dp_services p) (en_provided (dp_env p)) \<noteq> []"
    and "dp_status (reassess h now p) = PNeeds_input \<longleftrightarrow> \<not> input_complete h p"
proof -
  let ?env = "dp_env p"
  let ?missing = "map ee_key (computeMissingEnvVars (map (required_entry (en_detected ?env)) (en_required ?env)) (en_provided ?env)
       (en_auto ?env) [] (plannedServiceEnvKeys (dp_services p)))"
  let ?issues = "validatePlanEnvValues h (en_detected ?env) (en_provided ?env) (trustedEnvKeySet ?env)"
  have m: "?missing = [] \<longleftrightarrow> (\<forall>k\<in>set (en_required ?env). js_has (en_provided ?env) k \<or> k \<in> set (plannedServiceEnvKeys (dp_services p)))"
    unfolding missing_keys_empty_iff assms by simp
  have i: "\<not> list_ex ei_fail ?issues \<longleftrightarrow> (\<forall>(k, v)\<in>set (en_provided ?env).
        passes h k v (requirement_of (en_detected ?env) k) (Some (k \<in> set (trustedEnvKeySet ?env))))"
    unfolding validatePlanEnvValues_fail_iff by (auto simp: list_ex_iff passes_def)
  have c: "input_complete h p \<longleftrightarrow> ?missing = [] \<and> \<not> list_ex ei_fail ?issues \<and> \<not> traffic_undecided (dp_build p)"
    unfolding input_complete_def m i by blast
  have s: "dp_status (reassess h now p) =
      computePlanStatus ?missing (dp_services p) (en_provided ?env) ?issues (traffic_undecided (dp_build p))"
    by (simp add: reassess_def Let_def)
  show "dp_status (reassess h now p) = PReady \<longleftrightarrow> input_complete h p \<and> safeProposedResources (dp_services p) (en_provided (dp_env p)) = []"
    unfolding s computePlanStatus_iffs c by blast
  show "dp_status (reassess h now p) = PNeeds_approval \<longleftrightarrow> input_complete h p \<and> safeProposedResources (dp_services p) (en_provided (dp_env p)) \<noteq> []"
    unfolding s computePlanStatus_iffs c by blast
  show "dp_status (reassess h now p) = PNeeds_input \<longleftrightarrow> \<not> input_complete h p"
    unfolding s computePlanStatus_iffs c by blast
qed

lemma input_complete_reassess [simp]: "input_complete h (reassess h' now p) = input_complete h p"
  by (simp add: input_complete_def)

lemma updatePlan_result:
  assumes "engineUpdatePlan h planId u now rows = (Inr p, rows')"
  obtains row where "getDeployPlan rows planId = Some row" "dp_status (pr_plan row) \<notin> {PExecuting, PCompleted, PFailed, PRolled_back}"
    "p = reassess h now (changed_plan u (pr_plan row))" "rows' = updateDeployPlan planId (dp_status p) p None now rows"
  using assms by (auto simp: engineUpdatePlan_def Let_def split: option.splits if_splits)

lemma row_updateDeployPlan:
  "row_of pr_id q (updateDeployPlan planId st p err now rows) =
     map_option (\<lambda>r. if q = planId then r\<lparr>pr_status := st, pr_plan := p, pr_error := or_opt err (pr_error r), pr_updated_at := now\<rparr> else r)
       (row_of pr_id q rows)"
proof -
  have "row_of pr_id q (updateDeployPlan planId st p err now rows) =
     map_option (\<lambda>r. if pr_id r = planId then r\<lparr>pr_status := st, pr_plan := p, pr_error := or_opt err (pr_error r), pr_updated_at := now\<rparr> else r)
       (row_of pr_id q rows)"
    unfolding updateDeployPlan_def by (rule row_of_sql_update) simp
  also have "\<dots> = map_option (\<lambda>r. if q = planId then r\<lparr>pr_status := st, pr_plan := p, pr_error := or_opt err (pr_error r), pr_updated_at := now\<rparr> else r)
       (row_of pr_id q rows)"
    by (cases "row_of pr_id q rows") (auto dest: row_of_key)
  finally show ?thesis .
qed

section \<open>What an update leaves\<close>

text \<open>
  A plan can be changed only before it is executed, and the status that the update stores is the one of the plan it stores, by the reading of the
  code, which forgets the variables that are stored for the project (see \<open>update_forgets_project_env\<close> below): ready exactly when
  every required variable is provided or comes from a resource of the plan, no provided value fails its requirement, the service that
  takes the traffic is decided and no resource waits for an approval; waiting for an approval when only the last of these fails; in need of input otherwise.
\<close>

theorem updatePlan_status_correct:
  assumes "engineUpdatePlan url_host planId u now rows = (Inr p, rows')"
  shows "(dp_status p = PReady \<longleftrightarrow> input_complete url_host p \<and> safeProposedResources (dp_services p) (en_provided (dp_env p)) = []) \<and>
    (dp_status p = PNeeds_approval \<longleftrightarrow> input_complete url_host p \<and> safeProposedResources (dp_services p) (en_provided (dp_env p)) \<noteq> []) \<and>
    (dp_status p = PNeeds_input \<longleftrightarrow> \<not> input_complete url_host p) \<and>
    (\<exists>row row'. getDeployPlan rows planId = Some row \<and> dp_status (pr_plan row) \<in> {PDraft, PReady, PNeeds_input, PNeeds_approval} \<and>
       getDeployPlan rows' planId = Some row' \<and> pr_plan row' = p \<and> pr_status row' = dp_status p)"
proof -
  obtain row where row: "getDeployPlan rows planId = Some row" "dp_status (pr_plan row) \<notin> {PExecuting, PCompleted, PFailed, PRolled_back}"
    and p: "p = reassess url_host now (changed_plan u (pr_plan row))" and rows': "rows' = updateDeployPlan planId (dp_status p) p None now rows"
    using assms by (rule updatePlan_result)
  have st: "dp_status (pr_plan row) \<in> {PDraft, PReady, PNeeds_input, PNeeds_approval}"
    using row(2) by (cases "dp_status (pr_plan row)") simp_all
  have "getDeployPlan rows' planId = Some (row\<lparr>pr_status := dp_status p, pr_plan := p, pr_error := or_opt None (pr_error row), pr_updated_at := now\<rparr>)"
    using row(1) unfolding getDeployPlan_def rows' row_updateDeployPlan by simp
  then have stored: "\<exists>row row'. getDeployPlan rows planId = Some row \<and> dp_status (pr_plan row) \<in> {PDraft, PReady, PNeeds_input, PNeeds_approval} \<and>
       getDeployPlan rows' planId = Some row' \<and> pr_plan row' = p \<and> pr_status row' = dp_status p"
    using row(1) st by (intro exI conjI) (assumption | simp)+
  let ?c = "changed_plan u (pr_plan row)"
  have same: "input_complete url_host p = input_complete url_host ?c" "dp_services p = dp_services ?c" "en_provided (dp_env p) = en_provided (dp_env ?c)"
    by (simp_all only: p input_complete_reassess reassess_simps)
  note s = reassess_status [where p = ?c and h = url_host and now = now, folded p, OF changed_plan_keeps(4), folded same]
  show ?thesis by (intro conjI s stored)
qed

text \<open>A plan with one required variable, stored for a project that has it.\<close>

definition example_params :: plan_params where
  "example_params = \<lparr>pp_projectName = ''shop'', pp_projectId = Some ''p1'', pp_targetProjectId = None,
     pp_source = \<lparr>so_repo_url = ''r'', so_branch = ''main'', so_commit_sha = ''c'', so_git_credential_id = None, so_image_url = None\<rparr>,
     pp_method = MDockerfile, pp_dockerfile = ''Dockerfile'', pp_buildContext = None, pp_dockerTarget = None, pp_generatedDockerfile = None,
     pp_composeFile = None, pp_composeFiles = None, pp_composeProfiles = None, pp_composeServices = None, pp_trafficService = None,
     pp_trafficCandidates = None, pp_dockerfiles = [], pp_services = [], pp_required = [], pp_envVars = [], pp_detected = [], pp_warnings = [],
     pp_production = True\<rparr>"

definition example_options :: create_options where
  "example_options = \<lparr>co_visibility = None, co_environment = None, co_sshKeyPath = None, co_trigger = None, co_imageCmd = None,
     co_containerPort = None, co_healthCheckPath = None, co_targetProjectId = None, co_composeFile = None, co_composeFiles = None,
     co_composeProfiles = None, co_dockerTarget = None, co_envVars = []\<rparr>"

definition example_facts :: detected_facts where
  "example_facts = \<lparr>cp_params = example_params, cp_services = [],
     cp_detected = [\<lparr>ee_key = ''GREETING'', ee_source = ''code'', ee_required = True, ee_default = None, ee_requirement = None\<rparr>],
     cp_existing = [(''GREETING'', ''hello'')], cp_fingerprints = None\<rparr>"

definition no_changes :: plan_updates where
  "no_changes = \<lparr>up_env = None, up_build = None, up_traffic_service = None, up_services = None, up_health = None\<rparr>"

definition no_hosts :: "string \<Rightarrow> string option" where
  "no_hosts u = None"

lemmas example_defs = example_params_def example_options_def example_facts_def no_changes_def no_hosts_def

lemmas plan_eval = createPlan_def engineUpdatePlan_def Let_def filterServicesWithExplicitEnv_def requiredEnvEntriesForServiceChoices_def
  first_of_each_def computeMissingEnvVars_def buildAutoEnvVars_def plannedServiceEnvKeys_def validatePlanEnvValues_def computeComplexity_def
  computePlanStatus_def safeProposedResources_def assemblePlan_def createDeployPlan_def buildExecutionContext_def dirname_def
  more_than_one_def getDeployPlan_def changed_plan_def reassess_def update_build_def or_opt_def required_entry_def
  traffic_undecided_def updateDeployPlan_def sql_update_def trustedEnvKeySet_def

definition example_plan :: deploy_plan where
  "example_plan = fst (createPlan no_hosts ''plan_1'' 0 example_options example_facts [])"

definition example_rows :: "plan_row list" where
  "example_rows = snd (createPlan no_hosts ''plan_1'' 0 example_options example_facts [])"

text \<open>
  An update does not look at the variables that are stored for the project: a plan that is ready because of them needs input after an update
  that changes nothing.
\<close>

theorem update_forgets_project_env:
  "dp_status example_plan = PReady \<and> (\<exists>p rows'. engineUpdatePlan no_hosts ''plan_1'' no_changes 1 example_rows = (Inr p, rows') \<and>
     dp_status p = PNeeds_input \<and> dp_missing p = [''GREETING''])"
  by (simp add: example_plan_def example_rows_def plan_eval example_defs)

theorem updatePlan_status_correct_witness:
  "\<not> input_complete no_hosts (projr (fst (engineUpdatePlan no_hosts ''plan_1'' no_changes 1 example_rows)))"
proof -
  obtain p rows' where u: "engineUpdatePlan no_hosts ''plan_1'' no_changes 1 example_rows = (Inr p, rows')" "dp_status p = PNeeds_input"
    using update_forgets_project_env by blast
  then show ?thesis using updatePlan_status_correct [OF u(1)] by simp
qed

definition stripe_updates :: plan_updates where
  "stripe_updates = no_changes\<lparr>up_env := Some (Structured (Some [(''GREETING'', ''hi''), (''STRIPE_API_KEY'', ''sk_9'')]) (Some [''STRIPE_API_KEY'']))\<rparr>"

lemma stripe_plan_ready: "(case engineUpdatePlan no_hosts ''plan_1'' stripe_updates 1 example_rows of (Inr p, _) \<Rightarrow> dp_status p = PReady \<and>
    (''STRIPE_API_KEY'', ''sk_9'') \<in> set (en_provided (dp_env p)) \<and> list_all (\<lambda>e. ee_requirement e = None) (en_detected (dp_env p)) | _ \<Rightarrow> False)"
  by code_simp

lemma stripe_key: "requiresTrustedExternalSource ''STRIPE_API_KEY'' \<and>
    (case inferEnvValueRequirement ''STRIPE_API_KEY'' of Some r \<Rightarrow> rq_kind r = RK_prefix | None \<Rightarrow> False)"
  by code_simp

end
