(* ===== verification/Plan_Execution.thy ===== *)
theory Plan_Execution
  imports Deploy_Lock Deploy_Plan
begin

text \<open>
  \<open>PlanEngine.executePlan\<close> (\<open>src/src/pipeline/deploy-plan/engine.ts\<close>): the checks, the gate for approvals, the target project, the
  deploy lock, the stored transition to executing, the resolution of managed resources, the dispatch and the listeners that finish the
  plan; \<open>createProject\<close> of \<open>src/src/db/repos/project.repo.ts\<close>.

  The effects outside of the database are arguments (a record \<open>world\<close>): the clock, fresh ids, the merged environment of a project, the
  provisioning and linking of resources, \<open>startDeploy\<close>, the duration of the last deployment and the move of a service to another project. Each returns or fails. Work items that the code starts together with
  \<open>Promise.all\<close> run in their order, and the first failure is the result. The release of the lock and the audit record, which the code does not await, take effect
  at once. The branch for monorepos is left out: \<open>getDeployMode\<close> never chooses it.

  \<open>executePlan\<close> is split at its database accesses into \<open>prepare\<close> (from loading to the target), \<open>commit\<close> (lock and transition) and
  \<open>launch\<close> (the rest), so that two executions can be interleaved.

  Shown: a plan is stored as executing only from ready, or from waiting with all its proposals approved, and only under the lock of its target; nothing but the
  approved resources is provisioned, also by the deferred function that a deployment calls while it builds.
\<close>

section \<open>State\<close>

text \<open>A listener that \<open>registerPlanCompletionListeners\<close> leaves; \<open>li_lock\<close> is what its release still holds.\<close>

record listener =
  li_planId :: string
  li_plan :: deploy_plan
  li_attach :: "string option"
  li_started :: string
  li_lock :: "(string \<times> string) option"

record engine =
  eg_db :: store
  eg_plans :: "plan_row list"
  eg_audit :: "(string \<times> string \<times> string list) list"
  eg_listeners :: "listener list"

text \<open>
  The options that \<open>startDeploy\<close> gets from a plan. \<open>sc_deferredEnv\<close> is the function \<open>_deferredRuntimeEnvVars\<close>, which the deployment
  calls while it builds, to provision the resources and to get the environment or the error.
\<close>

record start_config =
  sc_repoUrl :: string
  sc_branch :: string
  sc_name :: string
  sc_envVars :: "(string, string) js_map"
  sc_image :: bool
  sc_imageUrl :: "string option"
  sc_imageCmd :: "string list option"
  sc_containerPort :: "int option"
  sc_healthCheckPath :: "string option"
  sc_preferDockerfile :: bool
  sc_dockerfilePath :: "string option"
  sc_dockerTarget :: "string option"
  sc_buildContext :: string
  sc_composeFiles :: "string list option"
  sc_composeFile :: "string option"
  sc_composeProfiles :: "string list option"
  sc_composeServices :: "string list option"
  sc_trafficService :: "string option"
  sc_fingerprints :: "(string, string) js_map option"
  sc_visibility :: "string option"
  sc_production :: bool
  sc_sshKeyPath :: "string option"
  sc_gitCredentialId :: "string option"
  sc_trigger :: "string option"
  sc_networkProjectName :: "string option"
  sc_deferredEnv :: "(store \<Rightarrow> (string + (string, string) js_map) \<times> store) option"
  sc_lockSessionId :: "string option"

record start_result =
  sr_projectId :: string
  sr_projectName :: string
  sr_preflightError :: "string option"

text \<open>A project as the engine passes it on: id and name.\<close>

type_synonym target = "string \<times> string"

record world =
  wo_now :: int
  wo_newId :: string
  wo_baseEnv :: "string \<Rightarrow> (string, string) js_map \<Rightarrow> (string, string) js_map \<Rightarrow> string + (string, string) js_map"
  wo_provision :: "plan_service \<Rightarrow> target \<Rightarrow> string \<Rightarrow> store \<Rightarrow> (string + string) \<times> store"
  wo_reuse :: "plan_service \<Rightarrow> target \<Rightarrow> string \<Rightarrow> store \<Rightarrow> (string + string) \<times> store"
  wo_start :: "start_config \<Rightarrow> store \<Rightarrow> (string + start_result) \<times> store"
  wo_lastDeployMs :: "string \<Rightarrow> int option"
  wo_attach :: "string \<Rightarrow> string \<Rightarrow> store \<Rightarrow> (string + string) \<times> store"

record approval =
  ap_all :: bool
  ap_resources :: "string list"

datatype result_status = Result_building | Result_failed | Result_needs_approval

record plan_result =
  rs_status :: result_status
  rs_plan_id :: string
  rs_project_name :: string
  rs_project_id :: "string option"
  rs_service_id :: "string option"
  rs_target_project_id :: "string option"
  rs_code :: "string option"
  rs_error :: "string option"
  rs_approval_required :: "string list option"
  rs_estimated_seconds :: "int option"

definition plain_result :: "result_status \<Rightarrow> string \<Rightarrow> string \<Rightarrow> plan_result" where
  "plain_result st planId name = \<lparr>rs_status = st, rs_plan_id = planId, rs_project_name = name, rs_project_id = None, rs_service_id = None,
     rs_target_project_id = None, rs_code = None, rs_error = None, rs_approval_required = None, rs_estimated_seconds = None\<rparr>"

section \<open>Projects\<close>

text \<open>
  \<open>createProject\<close>: the row of the project and the row of its deployable service, or neither; a taken id or name is a conflict. \<open>orphan\<close> reports a
  conflict on the services table.
\<close>

record new_project =
  np_id :: string
  np_name :: string
  np_repoUrl :: string
  np_branch :: "string option"
  np_dockerfilePath :: "string option"
  np_dockerTarget :: "string option"
  np_buildContext :: "string option"
  np_buildMethod :: "build_method option"
  np_image :: bool
  np_imageUrl :: "string option"

definition project_kind :: "new_project \<Rightarrow> service_kind" where
  "project_kind p = (if np_buildMethod p = Some BCompose then KCompose else if np_image p then KImage else KGit)"

definition project_service :: "new_project \<Rightarrow> int \<Rightarrow> service_row" where
  "project_service p now =
     (let git = \<not> np_image p \<or> project_kind p = KCompose
      in (new_service_row (projectIdToDeployableServiceId (np_id p)) (np_id p) (project_kind p) (Some Stopped))
        \<lparr>s_name := np_name p @ ''__svc'', s_visibility := Some Internal, s_source := (if np_image p then ''image'' else ''git''),
         s_build_method := np_buildMethod p, s_repo_url := (if git then Some (np_repoUrl p) else None),
         s_branch := (if git then np_branch p else None), s_dockerfile_path := Some (given_or (np_dockerfilePath p) ''Dockerfile''),
         s_docker_target := np_dockerTarget p, s_build_context := np_buildContext p, s_image_url := np_imageUrl p,
         s_created_at := now, s_updated_at := now\<rparr>)"

definition createProject :: "new_project \<Rightarrow> int \<Rightarrow> store \<Rightarrow> (plan_error + project_row) \<times> store" where
  "createProject p now db =
     (let row = (new_project_row (np_id p))\<lparr>p_name := np_name p, p_display_name := Some (np_name p), p_created_at := now, p_updated_at := now\<rparr>;
          svc = project_service p now
      in if list_ex (\<lambda>r. p_id r = np_id p \<or> p_name r = np_name p) (projects db) then (Inl (Already_exists (np_name p)), db)
         else if list_ex (\<lambda>s. s_id s = s_id svc) (services db) then (Inl (Other_error ''orphan service rows''), db)
         else let db' = db\<lparr>projects := projects db @ [row], services := services db @ [svc]\<rparr>
              in (Inr (hydrateDeployable db' row), db'))"

section \<open>Loading and checking a plan\<close>

definition select_services :: "string list option \<Rightarrow> deploy_plan \<Rightarrow> plan_error + deploy_plan" where
  "select_services deployOnly p =
     (case deployOnly of
        None \<Rightarrow> Inr p
      | Some names \<Rightarrow>
          if names = [] then Inr p
          else if pb_method (dp_build p) \<noteq> MCompose then Inl (Service_config ''deploy_only is only valid for Compose plans.'')
          else let available = map bs_name (case pb_compose_services (dp_build p) of None \<Rightarrow> [] | Some ss \<Rightarrow> ss);
                   unknown = filter (\<lambda>n. n \<notin> set available) names
               in if unknown \<noteq> [] then Inl (Service_config (''Unknown Compose service(s): '' @ js_join '', '' unknown))
                  else Inr (p\<lparr>dp_build := (dp_build p)\<lparr>pb_selected_services := Some names\<rparr>\<rparr>))"

definition assertPlanHasRequiredInput :: "deploy_plan \<Rightarrow> plan_error + unit" where
  "assertPlanHasRequiredInput p =
     (if traffic_undecided (dp_build p) then Inl (Traffic_service_required (the (pb_traffic_candidates (dp_build p))))
      else if dp_status p \<noteq> PNeeds_input then Inr ()
      else Inl (Requires_input (dp_missing p)
        (map ei_key (filter ei_fail (case en_issues (dp_env p) of None \<Rightarrow> [] | Some is \<Rightarrow> is)))))"

text \<open>The approved resources, or the response that asks for approvals.\<close>

definition evaluateApprovalGate :: "string \<Rightarrow> deploy_plan \<Rightarrow> approval option \<Rightarrow> plan_result + string list" where
  "evaluateApprovalGate planId p ap =
     (if dp_status p \<noteq> PNeeds_approval then Inr []
      else
        let proposals = safeProposedResources (dp_services p) (en_provided (dp_env p));
            ids = map proposedResourceIdentifier proposals;
            approvedAll = (case ap of None \<Rightarrow> False | Some a \<Rightarrow> ap_all a);
            approvedIds = (case ap of None \<Rightarrow> [] | Some a \<Rightarrow> ap_resources a)
        in if \<not> list_all (\<lambda>i. approvedAll \<or> i \<in> set approvedIds) ids
           then Inl ((plain_result Result_needs_approval planId (dp_app_name p))\<lparr>rs_approval_required := Some ids\<rparr>)
           else Inr (first_of_each ids))"

definition PROJECT_NAME_REGEX :: regex where
  "PROJECT_NAME_REGEX = Cat (Cls alnum) (Rep (Cls (alnum @ ''-'')))"

definition assertPlanIsExecutable :: "deploy_plan \<Rightarrow> plan_error + unit" where
  "assertPlanIsExecutable p = (if dp_status p \<noteq> PReady \<and> dp_status p \<noteq> PNeeds_approval then Inl (Not_executable (dp_status p)) else Inr ())"

definition assertValidProjectName :: "string \<Rightarrow> plan_error + unit" where
  "assertValidProjectName name = (if \<not> matches PROJECT_NAME_REGEX name then Inl (Invalid_name name) else Inr ())"

definition transitionApprovedPlanForExecution :: "int \<Rightarrow> deploy_plan \<Rightarrow> plan_error + deploy_plan" where
  "transitionApprovedPlanForExecution now p = (if dp_status p = PNeeds_approval then planTransition now p PReady None else Inr p)"

section \<open>The target project\<close>

definition getExistingTargetProject :: "store \<Rightarrow> string option \<Rightarrow> plan_error + target option" where
  "getExistingTargetProject db pid =
     (if \<not> truthy pid then Inr None
      else case getProject db (the pid) of
             None \<Rightarrow> Inl (Project_not_found (the pid))
           | Some p \<Rightarrow> Inr (Some (p_id p, p_name p)))"

definition serviceNameLeaf :: "string \<Rightarrow> string" where
  "serviceNameLeaf name =
     (let canonical = (if ends_with ''__svc'' name then take (length name - 5) name else name)
      in last (js_split CHR ''/'' canonical))"

definition targetServiceNameConflicts :: "store \<Rightarrow> string \<Rightarrow> string \<Rightarrow> plan_build_service list option \<Rightarrow> (string \<times> string) list" where
  "targetServiceNameConflicts db targetId appName composeServices =
     (let planned = appName # (case composeServices of None \<Rightarrow> [] | Some ss \<Rightarrow> map bs_name ss);
          byLeaf = fold (\<lambda>n m. js_set (serviceNameLeaf n) n m) planned []
      in concat (map (\<lambda>s. case js_get byLeaf (serviceNameLeaf (s_name s)) of
             None \<Rightarrow> [] | Some n \<Rightarrow> if n = [] then [] else [(s_id s, n)])
           (filter (\<lambda>s. s_project_id s = targetId) (services db))))"

definition approved_create :: "(string, string) js_map \<Rightarrow> string list \<Rightarrow> plan_service \<Rightarrow> bool" where
  "approved_create env approved s \<longleftrightarrow>
     ps_action s = ACreate \<and> ps_resolution s = Some Proposed_project_service \<and> ps_approval s = Some Safe_resource
     \<and> \<not> planServiceSatisfiedByExplicitEnv s env \<and> proposedResourceIdentifier s \<in> set approved"

definition createPlanOwnedTargetProject :: "world \<Rightarrow> deploy_plan \<Rightarrow> store \<Rightarrow> (plan_error + target) \<times> store" where
  "createPlanOwnedTargetProject w p db =
     (case getProjectByName db (dp_app_name p) of
        Some e \<Rightarrow> (Inr (p_id e, p_name e), db)
      | None \<Rightarrow>
          (let b = dp_build p; image = (pb_method b = MImage)
           in case createProject \<lparr>np_id = wo_newId w, np_name = dp_app_name p,
                    np_repoUrl = (if image then [] else so_repo_url (dp_source p)),
                    np_branch = (if image then None else Some (so_branch (dp_source p))),
                    np_dockerfilePath = Some (pb_dockerfile b), np_dockerTarget = pb_target b, np_buildContext = Some (pb_context b),
                    np_buildMethod = (if pb_method b = MCompose then Some BCompose else None), np_image = image,
                    np_imageUrl = (if image then so_image_url (dp_source p) else None)\<rparr> (wo_now w) db of
                (Inr e, db') \<Rightarrow> (Inr (p_id e, p_name e), db')
              | (Inl (Already_exists n), db') \<Rightarrow>
                  (case getProjectByName db' (dp_app_name p) of
                     Some e \<Rightarrow> (Inr (p_id e, p_name e), db')
                   | None \<Rightarrow> (Inl (Already_exists n), db'))
              | (Inl e, db') \<Rightarrow> (Inl e, db')))"

definition conflict_result :: "string \<Rightarrow> deploy_plan \<Rightarrow> string \<Rightarrow> string option \<Rightarrow> plan_result" where
  "conflict_result planId p targetId code =
     (plain_result Result_failed planId (dp_app_name p))\<lparr>rs_target_project_id := Some targetId, rs_code := code,
        rs_error := Some (if code = None then ''name collision'' else ''service name conflict'')\<rparr>"

text \<open>The project to attach to and the project to deploy to; or a response; or an error.\<close>

datatype 'a outcome = Throws plan_error | Responds plan_result | Goes 'a

definition resolveExecuteTarget ::
    "world \<Rightarrow> string \<Rightarrow> deploy_plan \<Rightarrow> string list \<Rightarrow> store \<Rightarrow> (target option \<times> target option) outcome \<times> store" where
  "resolveExecuteTarget w planId p approved db =
     (case getExistingTargetProject db (Option.bind (dp_execution p) ec_targetProjectId) of
        Inl e \<Rightarrow> (Throws e, db)
      | Inr attach \<Rightarrow>
          (case (case attach of
               None \<Rightarrow> None
             | Some (aid, _) \<Rightarrow>
                 (if targetServiceNameConflicts db aid (dp_app_name p)
                       (if pb_method (dp_build p) = MCompose then pb_compose_services (dp_build p) else None) \<noteq> []
                  then Some (conflict_result planId p aid (Some ''TARGET_PROJECT_SERVICE_NAME_CONFLICT''))
                  else case getProjectByName db (dp_app_name p) of
                         None \<Rightarrow> None
                       | Some q \<Rightarrow> if p_id q \<noteq> aid then Some (conflict_result planId p aid None) else None)) of
             Some r \<Rightarrow> (Responds r, db)
           | None \<Rightarrow>
               (let project = (\<lambda>q. (p_id q, p_name q));
                    byId = (if truthy (dp_project_id p) then map_option project (getProject db (the (dp_project_id p))) else None);
                    targetProject = or_opt attach (or_opt byId (map_option project (getProjectByName db (dp_app_name p))))
                in if list_ex (approved_create (en_provided (dp_env p)) approved) (dp_services p) \<and> targetProject = None
                   then (case createPlanOwnedTargetProject w p db of
                           (Inl e, db') \<Rightarrow> (Throws e, db')
                         | (Inr t, db') \<Rightarrow> (Goes (attach, Some t), db'))
                   else (Goes (attach, targetProject), db))))"

definition bindPlanToExecutionTarget :: "deploy_plan \<Rightarrow> target option \<Rightarrow> target option \<Rightarrow> deploy_plan" where
  "bindPlanToExecutionTarget p attach targetProject =
     (case targetProject of
        None \<Rightarrow> p
      | Some (tid, _) \<Rightarrow> if attach \<noteq> None \<or> dp_project_id p = Some tid then p
          else p\<lparr>dp_project_id := Some tid, dp_target_project_id := None\<rparr>)"

section \<open>Preparing, committing\<close>

record prepared =
  pd_plan :: deploy_plan
  pd_approved :: "string list"
  pd_attach :: "target option"
  pd_target :: "target option"

definition loadPlanForExecution :: "engine \<Rightarrow> string \<Rightarrow> plan_error + deploy_plan" where
  "loadPlanForExecution e planId = (case getDeployPlan (eg_plans e) planId of None \<Rightarrow> Inl (Plan_not_found planId) | Some r \<Rightarrow> Inr (pr_plan r))"

text \<open>The first part of \<open>executePlan\<close>.\<close>

definition check_plan :: "world \<Rightarrow> string \<Rightarrow> string list option \<Rightarrow> approval option \<Rightarrow> engine \<Rightarrow> (deploy_plan \<times> string list) outcome" where
  "check_plan w planId deployOnly ap e =
     (case rbind (loadPlanForExecution e planId) (select_services deployOnly) of
        Inl err \<Rightarrow> Throws err
      | Inr fresh \<Rightarrow>
          (case assertPlanHasRequiredInput fresh of
             Inl err \<Rightarrow> Throws err
           | Inr _ \<Rightarrow>
               (case evaluateApprovalGate planId fresh ap of
                  Inl r \<Rightarrow> Responds r
                | Inr approved \<Rightarrow>
                    (case rbind (assertPlanIsExecutable fresh) (\<lambda>_. rbind (assertValidProjectName (dp_app_name fresh))
                            (\<lambda>_. transitionApprovedPlanForExecution (wo_now w) fresh)) of
                       Inl err \<Rightarrow> Throws err
                     | Inr approvedPlan \<Rightarrow> Goes (approvedPlan, approved)))))"

definition prepare :: "world \<Rightarrow> string \<Rightarrow> string list option \<Rightarrow> approval option \<Rightarrow> engine \<Rightarrow> prepared outcome \<times> engine" where
  "prepare w planId deployOnly ap e =
     (case check_plan w planId deployOnly ap e of
        Throws err \<Rightarrow> (Throws err, e)
      | Responds r \<Rightarrow> (Responds r, e)
      | Goes (approvedPlan, approved) \<Rightarrow>
          (case resolveExecuteTarget w planId approvedPlan approved (eg_db e) of
             (Throws err, db') \<Rightarrow> (Throws err, e\<lparr>eg_db := db'\<rparr>)
           | (Responds r, db') \<Rightarrow> (Responds r, e\<lparr>eg_db := db'\<rparr>)
           | (Goes (attach, targetProject), db') \<Rightarrow>
               (Goes \<lparr>pd_plan = bindPlanToExecutionTarget approvedPlan attach targetProject, pd_approved = approved,
                      pd_attach = attach, pd_target = targetProject\<rparr>, e\<lparr>eg_db := db'\<rparr>)))"

definition lock_session :: "string \<Rightarrow> string option \<Rightarrow> string" where
  "lock_session planId lockSessionId = given_or lockSessionId (''plan-'' @ planId)"

definition acquirePlanDeployLock :: "world \<Rightarrow> string \<Rightarrow> string option \<Rightarrow> target option \<Rightarrow> store \<Rightarrow> (plan_error + (string \<times> string) option) \<times> store" where
  "acquirePlanDeployLock w planId lockSessionId targetProject db =
     (case targetProject of
        None \<Rightarrow> (Inr None, db)
      | Some (pid, _) \<Rightarrow>
          (case acquireDeployLockOrThrow pid (lock_session planId lockSessionId) (None :: (string \<Rightarrow> string) option) (wo_now w) db of
             (Inr _, db') \<Rightarrow> (Inr (Some (pid, lock_session planId lockSessionId)), db')
           | (Inl (DeployLockedError p s), db') \<Rightarrow> (Inl (Deploy_locked p s), db')
           | (Inl (Thrown t), db') \<Rightarrow> (Inl (Other_error t), db')))"

definition persistExecutingPlan :: "world \<Rightarrow> string \<Rightarrow> deploy_plan \<Rightarrow> plan_row list \<Rightarrow> (plan_error + deploy_plan) \<times> plan_row list" where
  "persistExecutingPlan w planId p rows =
     (case planTransition (wo_now w) p PExecuting None of
        Inl e \<Rightarrow> (Inl e, rows)
      | Inr p' \<Rightarrow> (Inr p', updateDeployPlan planId PExecuting p' None (wo_now w) rows))"

definition recordApprovalAudit :: "string \<Rightarrow> deploy_plan \<Rightarrow> target option \<Rightarrow> string list \<Rightarrow> engine \<Rightarrow> engine" where
  "recordApprovalAudit planId p targetProject approved e =
     (if approved = [] then e
      else e\<lparr>eg_audit := eg_audit e @
        [(case targetProject of Some (tid, _) \<Rightarrow> tid | None \<Rightarrow> given_or (dp_project_id p) [], planId, approved)]\<rparr>)"

text \<open>The lock, the stored transition and the audit; the result is the executing plan and the held lock.\<close>

definition commit :: "world \<Rightarrow> string \<Rightarrow> string option \<Rightarrow> prepared \<Rightarrow> engine \<Rightarrow> (plan_error + deploy_plan \<times> (string \<times> string) option) \<times> engine" where
  "commit w planId lockSessionId pd e =
     (case acquirePlanDeployLock w planId lockSessionId (pd_target pd) (eg_db e) of
        (Inl err, db') \<Rightarrow> (Inl err, e\<lparr>eg_db := db'\<rparr>)
      | (Inr lock, db') \<Rightarrow>
          (case persistExecutingPlan w planId (pd_plan pd) (eg_plans e) of
             (Inl err, _) \<Rightarrow> (Inl err, e\<lparr>eg_db := db'\<rparr>)
           | (Inr executing, rows') \<Rightarrow>
               (Inr (executing, lock), recordApprovalAudit planId (pd_plan pd) (pd_target pd) (pd_approved pd) (e\<lparr>eg_db := db', eg_plans := rows'\<rparr>))))"

section \<open>Resources and dispatch\<close>

datatype deploy_mode = Mode_single | Mode_monorepo | Mode_compose

definition getDeployMode :: "deploy_plan \<Rightarrow> deploy_mode" where
  "getDeployMode p = (if pb_method (dp_build p) = MCompose then Mode_compose else Mode_single)"

definition approved_proposal :: "string list \<Rightarrow> plan_service \<Rightarrow> bool" where
  "approved_proposal approved s \<longleftrightarrow> ps_resolution s = Some Proposed_project_service \<and> ps_approval s = Some Safe_resource
     \<and> proposedResourceIdentifier s \<in> set approved"

text \<open>The loop of \<open>canOverlapBuildAndProvision\<close>, with \<open>hasDeferrableProvisioning\<close>.\<close>

fun overlap_loop :: "(string, string) js_map \<Rightarrow> string list \<Rightarrow> bool \<Rightarrow> plan_service list \<Rightarrow> bool" where
  "overlap_loop env approved some [] \<longleftrightarrow> some"
| "overlap_loop env approved some (s # ss) \<longleftrightarrow>
     (if serviceEnvVarName s = None \<or> planServiceSatisfiedByExplicitEnv s env then overlap_loop env approved some ss
      else if ps_action s = ACreate \<and> approved_proposal approved s then overlap_loop env approved True ss
      else False)"

definition canOverlapBuildAndProvision :: "prepared \<Rightarrow> bool" where
  "canOverlapBuildAndProvision pd \<longleftrightarrow>
     getDeployMode (pd_plan pd) = Mode_single \<and> pb_method (dp_build (pd_plan pd)) \<noteq> MImage \<and> pd_target pd \<noteq> None
     \<and> overlap_loop (en_provided (dp_env (pd_plan pd))) (pd_approved pd) False (dp_services (pd_plan pd))"

text \<open>The loop of \<open>applyManagedResourceEnv\<close>: which variable each resource fills, or why the deployment cannot go on.\<close>

fun work_items :: "(string, string) js_map \<Rightarrow> string list \<Rightarrow> target option \<Rightarrow> plan_service list \<Rightarrow> string + (string \<times> plan_service) list" where
  "work_items env approved targetProject [] = Inr []"
| "work_items env approved targetProject (s # ss) =
     (if ps_resolution s = Some Compose_service then work_items env approved targetProject ss
      else case serviceEnvVarName s of
             None \<Rightarrow> work_items env approved targetProject ss
           | Some n \<Rightarrow>
               if hasExplicitEnvValue env n then work_items env approved targetProject ss
               else if ps_action s = ACreate \<and> \<not> approved_proposal approved s
               then Inl (''Database/Cache resource '' @ ps_type s @ '' requires an explicit '' @ n @ '' value before deploy.'')
               else if targetProject = None then Inl (''Resource '' @ ps_type s @ '' requires an existing target Project.'')
               else rbind (work_items env approved targetProject ss) (\<lambda>is. Inr ((n, s) # is)))"

definition connection_string :: "world \<Rightarrow> target \<Rightarrow> string \<times> plan_service \<Rightarrow> store \<Rightarrow> (string + string) \<times> store" where
  "connection_string w t item =
     (case item of (n, s) \<Rightarrow> (case ps_action s of ACreate \<Rightarrow> wo_provision w s t n | AReuse \<Rightarrow> wo_reuse w s t n))"

fun resolve_items :: "world \<Rightarrow> target \<Rightarrow> (string \<times> plan_service) list \<Rightarrow> store \<Rightarrow> (string + (string \<times> string) list) \<times> store" where
  "resolve_items w t [] db = (Inr [], db)"
| "resolve_items w t (i # is) db =
     (let (c, db1) = connection_string w t i db; (cs, db2) = resolve_items w t is db1
      in (rbind c (\<lambda>c. rbind cs (\<lambda>cs. Inr ((fst i, c) # cs))), db2))"

definition applyManagedResourceEnv :: "world \<Rightarrow> prepared \<Rightarrow> (string, string) js_map \<Rightarrow> store \<Rightarrow> (string + (string, string) js_map) \<times> store" where
  "applyManagedResourceEnv w pd merged db =
     (case work_items (en_provided (dp_env (pd_plan pd))) (pd_approved pd) (pd_target pd) (dp_services (pd_plan pd)) of
        Inl msg \<Rightarrow> (Inl msg, db)
      | Inr is \<Rightarrow>
          if is = [] then (Inr merged, db)
          else let (cs, db') = resolve_items w (the (pd_target pd)) is db
               in (rbind cs (\<lambda>cs. Inr (js_spread merged cs)), db'))"

definition resolvePlanBaseEnv :: "world \<Rightarrow> prepared \<Rightarrow> string + (string, string) js_map" where
  "resolvePlanBaseEnv w pd =
     (let p = pd_plan pd; owner = or_opt (map_option fst (pd_target pd)) (or_opt (map_option fst (pd_attach pd)) (dp_project_id p))
      in wo_baseEnv w (given_or owner (dp_app_name p)) (en_auto (dp_env p)) (en_provided (dp_env p)))"

definition resolvePlanEnv :: "world \<Rightarrow> prepared \<Rightarrow> store \<Rightarrow> (string + (string, string) js_map) \<times> store" where
  "resolvePlanEnv w pd db =
     (case resolvePlanBaseEnv w pd of Inl msg \<Rightarrow> (Inl msg, db) | Inr merged \<Rightarrow> applyManagedResourceEnv w pd merged db)"

text \<open>
  What the deferred function does: the same provisioning, from the environment without the resources; an error is a value
  (\<open>ok: false\<close>), the left side of the sum.
\<close>

definition resolvePlanEnvSettled :: "world \<Rightarrow> prepared \<Rightarrow> (string, string) js_map \<Rightarrow> store \<Rightarrow> (string + (string, string) js_map) \<times> store" where
  "resolvePlanEnvSettled w pd baseEnv db = applyManagedResourceEnv w pd baseEnv db"

text \<open>The environment of the deployment; resources are left to the deferred function when the deployment can build meanwhile.\<close>

definition launch_env :: "world \<Rightarrow> prepared \<Rightarrow> store \<Rightarrow> (string + (string, string) js_map) \<times> store" where
  "launch_env w pd db = (if canOverlapBuildAndProvision pd then (resolvePlanBaseEnv w pd, db) else resolvePlanEnv w pd db)"

definition if_truthy :: "string option \<Rightarrow> string option" where
  "if_truthy v = (if truthy v then v else None)"

definition start_config_of ::
    "prepared \<Rightarrow> (string, string) js_map \<Rightarrow> string list option \<Rightarrow> string option \<Rightarrow> (string \<times> string) option
     \<Rightarrow> (store \<Rightarrow> (string + (string, string) js_map) \<times> store) option \<Rightarrow> start_config" where
  "start_config_of pd env deployOnly triggerOverride lock deferred =
     (let p = pd_plan pd; b = dp_build p; so = dp_source p; ec = (case dp_execution p of Some ec \<Rightarrow> ec | None \<Rightarrow> empty_context);
          image = (pb_method b = MImage); isCompose = (getDeployMode p = Mode_compose)
      in \<lparr>sc_repoUrl = so_repo_url so, sc_branch = so_branch so, sc_name = dp_app_name p, sc_envVars = env, sc_image = image,
          sc_imageUrl = (if image then if_truthy (so_image_url so) else None), sc_imageCmd = ec_imageCmd ec,
          sc_containerPort = ec_containerPort ec, sc_healthCheckPath = if_truthy (ec_healthCheckPath ec),
          sc_preferDockerfile = (if isCompose then False else \<not> truthy (pb_generated_dockerfile b)),
          sc_dockerfilePath = (if \<not> isCompose \<and> pb_dockerfile b \<noteq> ''Dockerfile'' then Some (pb_dockerfile b) else None),
          sc_dockerTarget = pb_target b, sc_buildContext = pb_context b,
          sc_composeFiles = (if isCompose then pb_compose_files b else None),
          sc_composeFile = (if isCompose \<and> pb_compose_files b = None then if_truthy (pb_compose_file b) else None),
          sc_composeProfiles = (if isCompose then pb_compose_profiles b else None),
          sc_composeServices = (if isCompose then or_opt deployOnly (pb_selected_services b) else None),
          sc_trafficService = (if isCompose then if_truthy (pb_traffic_service b) else None),
          sc_fingerprints = (if isCompose then ec_fingerprints ec else None), sc_visibility = if_truthy (ec_visibility ec),
          sc_production = dp_production p, sc_sshKeyPath = if_truthy (ec_sshKeyPath ec),
          sc_gitCredentialId = if_truthy (so_git_credential_id so),
          sc_trigger = if_truthy (or_opt triggerOverride (ec_trigger ec)),
          sc_networkProjectName = map_option snd (pd_attach pd), sc_deferredEnv = deferred, sc_lockSessionId = map_option snd lock\<rparr>)"

section \<open>Finishing a plan\<close>

definition releasePlanLock :: "world \<Rightarrow> (string \<times> string) option \<Rightarrow> store \<Rightarrow> store" where
  "releasePlanLock w lock db = (case lock of None \<Rightarrow> db | Some (pid, s) \<Rightarrow> snd (releaseDeployLock pid (Some s) (wo_now w) db))"

definition dispatchPlanDeploy ::
    "world \<Rightarrow> prepared \<Rightarrow> string list option \<Rightarrow> string option \<Rightarrow> (string \<times> string) option \<Rightarrow> store \<Rightarrow> (string + start_result) \<times> store" where
  "dispatchPlanDeploy w pd deployOnly triggerOverride lock db =
     (case launch_env w pd db of
        (Inl msg, db1) \<Rightarrow> (Inl msg, db1)
      | (Inr env, db1) \<Rightarrow>
          wo_start w (start_config_of pd env deployOnly triggerOverride lock
            (if canOverlapBuildAndProvision pd then Some (resolvePlanEnvSettled w pd env) else None)) db1)"

text \<open>Storing a plan that is completed or failed; the machine refuses it for a plan that is not executing.\<close>

definition finish :: "world \<Rightarrow> string \<Rightarrow> deploy_plan \<Rightarrow> plan_status \<Rightarrow> string option \<Rightarrow> (deploy_plan \<Rightarrow> deploy_plan) \<Rightarrow> engine \<Rightarrow> engine" where
  "finish w planId executing st err f e =
     (case planTransition (wo_now w) executing st err of
        Inl _ \<Rightarrow> e
      | Inr p \<Rightarrow> e\<lparr>eg_plans := updateDeployPlan planId st (f p) err (wo_now w) (eg_plans e)\<rparr>)"

definition failCommittedPlan :: "world \<Rightarrow> string \<Rightarrow> deploy_plan \<Rightarrow> string \<Rightarrow> string \<Rightarrow> engine \<Rightarrow> plan_result \<times> engine" where
  "failCommittedPlan w planId executing projectName msg e =
     ((plain_result Result_failed planId projectName)\<lparr>rs_error := Some msg\<rparr>, finish w planId executing PFailed (Some msg) (\<lambda>p. p) e)"

text \<open>
  The handlers of the events, up to their last database write; \<open>close_listener\<close> is what follows, the release of the lock (once for
  an execution) and the removal of the handlers. Between the event and the write, and between the write and the end, other code runs.
\<close>

definition finishSuccess :: "world \<Rightarrow> listener \<Rightarrow> engine \<Rightarrow> engine" where
  "finishSuccess w l e =
     (case li_attach l of
        None \<Rightarrow> finish w (li_planId l) (li_plan l) PCompleted None (\<lambda>p. p) e
      | Some aid \<Rightarrow>
          (case wo_attach w (projectIdToDeployableServiceId (li_started l)) aid (eg_db e) of
             (Inl msg, db') \<Rightarrow> finish w (li_planId l) (li_plan l) PFailed (Some (''Deploy succeeded but target attach failed: '' @ msg))
                (\<lambda>p. p) (e\<lparr>eg_db := db'\<rparr>)
           | (Inr moved, db') \<Rightarrow> finish w (li_planId l) (li_plan l) PCompleted None
                (\<lambda>p. p\<lparr>dp_project_id := Some moved, dp_target_project_id := Some moved\<rparr>) (e\<lparr>eg_db := db'\<rparr>)))"

definition finishFailure :: "world \<Rightarrow> listener \<Rightarrow> string option \<Rightarrow> engine \<Rightarrow> engine" where
  "finishFailure w l err e = finish w (li_planId l) (li_plan l) PFailed (Some (if truthy err then the err else ''Deploy failed'')) (\<lambda>p. p) e"

definition close_listener :: "world \<Rightarrow> listener \<Rightarrow> engine \<Rightarrow> engine" where
  "close_listener w l e =
     (if l \<in> set (eg_listeners e)
      then e\<lparr>eg_db := releasePlanLock w (li_lock l) (eg_db e), eg_listeners := remove1 l (eg_listeners e)\<rparr>
      else e)"

text \<open>\<open>deploy:success\<close> and \<open>compose:up\<close> (no error), \<open>deploy:failed\<close> and \<open>compose:failed\<close>.\<close>

datatype deploy_event = Succeeded string | Did_fail string "string option"

fun event_project :: "deploy_event \<Rightarrow> string" where
  "event_project (Succeeded pid) = pid"
| "event_project (Did_fail pid _) = pid"

definition handle :: "world \<Rightarrow> deploy_event \<Rightarrow> listener \<Rightarrow> engine \<Rightarrow> engine" where
  "handle w ev l e = (case ev of Succeeded _ \<Rightarrow> finishSuccess w l e | Did_fail _ err \<Rightarrow> finishFailure w l err e)"

text \<open>The listeners whose handlers an event starts; they stay registered until their handler ends.\<close>

definition emit :: "deploy_event \<Rightarrow> engine \<Rightarrow> listener list" where
  "emit ev e = filter (\<lambda>l. li_started l = event_project ev) (eg_listeners e)"

section \<open>Launching\<close>

definition estimatePlanDurationSeconds :: "world \<Rightarrow> store \<Rightarrow> string \<Rightarrow> int" where
  "estimatePlanDurationSeconds w db name =
     (case getProjectByName db name of
        None \<Rightarrow> 60
      | Some p \<Rightarrow> (case wo_lastDeployMs w (p_id p) of Some ms \<Rightarrow> - ((- ms) div 1000) | None \<Rightarrow> 60))"

definition launch ::
    "world \<Rightarrow> string \<Rightarrow> string list option \<Rightarrow> string option \<Rightarrow> prepared \<Rightarrow> deploy_plan \<Rightarrow> (string \<times> string) option \<Rightarrow> engine
     \<Rightarrow> plan_result \<times> engine" where
  "launch w planId deployOnly triggerOverride pd executing lock e =
     (case dispatchPlanDeploy w pd deployOnly triggerOverride lock (eg_db e) of
        (Inl msg, db1) \<Rightarrow> failCommittedPlan w planId executing (dp_app_name (pd_plan pd)) msg (e\<lparr>eg_db := releasePlanLock w lock db1\<rparr>)
      | (Inr sr, db1) \<Rightarrow>
          (let l = \<lparr>li_planId = planId, li_plan = executing, li_attach = map_option fst (pd_attach pd), li_started = sr_projectId sr, li_lock = lock\<rparr>
           in case sr_preflightError sr of
                Some msg \<Rightarrow> failCommittedPlan w planId executing (sr_projectName sr) msg
                    (e\<lparr>eg_db := releasePlanLock w lock db1, eg_listeners := eg_listeners e @ [l\<lparr>li_lock := None\<rparr>]\<rparr>)
              | None \<Rightarrow>
                  ((plain_result Result_building planId (sr_projectName sr))
                     \<lparr>rs_project_id := Some (sr_projectId sr),
                      rs_service_id := (if pd_attach pd = None then None else Some (projectIdToDeployableServiceId (sr_projectId sr))),
                      rs_target_project_id := map_option fst (pd_attach pd),
                      rs_estimated_seconds := Some (estimatePlanDurationSeconds w db1 (sr_projectName sr))\<rparr>,
                   e\<lparr>eg_db := db1, eg_listeners := eg_listeners e @ [l]\<rparr>)))"

definition executePlan ::
    "world \<Rightarrow> string \<Rightarrow> string list option \<Rightarrow> string option \<Rightarrow> string option \<Rightarrow> approval option \<Rightarrow> engine
     \<Rightarrow> (plan_error + plan_result) \<times> engine" where
  "executePlan w planId deployOnly lockSessionId triggerOverride ap e =
     (case prepare w planId deployOnly ap e of
        (Throws err, e1) \<Rightarrow> (Inl err, e1)
      | (Responds r, e1) \<Rightarrow> (Inr r, e1)
      | (Goes pd, e1) \<Rightarrow>
          (case commit w planId lockSessionId pd e1 of
             (Inl err, e2) \<Rightarrow> (Inl err, e2)
           | (Inr (executing, lock), e2) \<Rightarrow>
               (let (r, e3) = launch w planId deployOnly triggerOverride pd executing lock e2 in (Inr r, e3))))"

section \<open>What the parts of an execution do\<close>

lemma planTransition_Inr:
  assumes "planTransition now p st err = Inr p'"
  shows "canTransition (dp_status p) st" "dp_status p' = st" "dp_env p' = dp_env p" "dp_build p' = dp_build p" "dp_missing p' = dp_missing p"
    "dp_services p' = dp_services p" "dp_app_name p' = dp_app_name p"
  using assms by (auto simp: planTransition_def Let_def split: if_splits)

lemma planTransition_ok: "canTransition (dp_status p) st \<Longrightarrow> \<exists>p'. planTransition now p st err = Inr p'"
  by (simp add: planTransition_def Let_def)

lemma select_services_keeps:
  assumes "select_services d p = Inr p'"
  shows "dp_status p' = dp_status p" "dp_env p' = dp_env p" "dp_missing p' = dp_missing p" "dp_services p' = dp_services p"
    "traffic_undecided (dp_build p') = traffic_undecided (dp_build p)" "dp_app_name p' = dp_app_name p"
  using assms by (auto simp: select_services_def traffic_undecided_def Let_def split: option.splits if_splits)

text \<open>What the caller approves, said without the gate.\<close>

definition caller_approves :: "approval option \<Rightarrow> plan_service \<Rightarrow> bool" where
  "caller_approves ap s \<longleftrightarrow> (case ap of None \<Rightarrow> False | Some a \<Rightarrow> ap_all a \<or> proposedResourceIdentifier s \<in> set (ap_resources a))"

lemma gate_Inr:
  assumes "evaluateApprovalGate planId p ap = Inr approved"
  shows "dp_status p \<noteq> PNeeds_approval \<and> approved = [] \<or>
    dp_status p = PNeeds_approval \<and> (\<forall>s\<in>set (safeProposedResources (dp_services p) (en_provided (dp_env p))). caller_approves ap s)
      \<and> set approved = proposedResourceIdentifier ` set (safeProposedResources (dp_services p) (en_provided (dp_env p)))"
  using assms
  by (auto simp: evaluateApprovalGate_def Let_def caller_approves_def list_all_iff first_of_each_def split: if_splits option.splits)

lemma check_plan_Goes:
  assumes "check_plan w planId d ap e = Goes (p, approved)"
  obtains row fresh where "getDeployPlan (eg_plans e) planId = Some row" "select_services d (pr_plan row) = Inr fresh"
    "evaluateApprovalGate planId fresh ap = Inr approved" "dp_status fresh = PReady \<or> dp_status fresh = PNeeds_approval"
    "\<not> traffic_undecided (dp_build fresh)" "matches PROJECT_NAME_REGEX (dp_app_name fresh)"
    "transitionApprovedPlanForExecution (wo_now w) fresh = Inr p"
proof -
  obtain fresh where f: "rbind (loadPlanForExecution e planId) (select_services d) = Inr fresh"
    using assms by (auto simp: check_plan_def split: sum.splits)
  have i: "assertPlanHasRequiredInput fresh = Inr ()" and g: "evaluateApprovalGate planId fresh ap = Inr approved"
    and r: "rbind (assertPlanIsExecutable fresh) (\<lambda>_. rbind (assertValidProjectName (dp_app_name fresh))
         (\<lambda>_. transitionApprovedPlanForExecution (wo_now w) fresh)) = Inr p"
    using assms f by (auto simp: check_plan_def split: sum.splits)
  obtain row where row: "getDeployPlan (eg_plans e) planId = Some row" "select_services d (pr_plan row) = Inr fresh"
    using f by (auto simp: rbind_Inr_iff loadPlanForExecution_def split: option.splits)
  show ?thesis
  proof (rule that [OF row g])
    show "dp_status fresh = PReady \<or> dp_status fresh = PNeeds_approval"
      using r by (auto simp: rbind_Inr_iff assertPlanIsExecutable_def split: if_splits)
    show "\<not> traffic_undecided (dp_build fresh)"
      using i by (auto simp: assertPlanHasRequiredInput_def split: if_splits)
    show "matches PROJECT_NAME_REGEX (dp_app_name fresh)"
      using r by (auto simp: rbind_Inr_iff assertValidProjectName_def split: if_splits)
    show "transitionApprovedPlanForExecution (wo_now w) fresh = Inr p"
      using r by (auto simp: rbind_Inr_iff)
  qed
qed

lemma bind_target_keeps [simp]:
  "dp_status (bindPlanToExecutionTarget p a t) = dp_status p" "dp_env (bindPlanToExecutionTarget p a t) = dp_env p"
  "dp_build (bindPlanToExecutionTarget p a t) = dp_build p" "dp_missing (bindPlanToExecutionTarget p a t) = dp_missing p"
  "dp_services (bindPlanToExecutionTarget p a t) = dp_services p"
  by (auto simp: bindPlanToExecutionTarget_def split: option.splits)

text \<open>The plan that execution stores, from the stored one.\<close>

definition same_contents :: "deploy_plan \<Rightarrow> deploy_plan \<Rightarrow> bool" where
  "same_contents p q \<longleftrightarrow> dp_env p = dp_env q \<and> dp_missing p = dp_missing q \<and> dp_services p = dp_services q
     \<and> traffic_undecided (dp_build p) = traffic_undecided (dp_build q)"

lemma same_contents_trans [trans]: "same_contents p q \<Longrightarrow> same_contents q r \<Longrightarrow> same_contents p r"
  by (simp add: same_contents_def)

definition ready_to_execute :: "approval option \<Rightarrow> deploy_plan \<Rightarrow> bool" where
  "ready_to_execute ap p \<longleftrightarrow> \<not> traffic_undecided (dp_build p) \<and> matches PROJECT_NAME_REGEX (dp_app_name p) \<and>
     (dp_status p = PReady \<or> dp_status p = PNeeds_approval \<and>
        (\<forall>s\<in>set (safeProposedResources (dp_services p) (en_provided (dp_env p))). caller_approves ap s))"

lemma prepare_Goes:
  assumes "prepare w planId d ap e = (Goes pd, e1)"
  obtains row where "getDeployPlan (eg_plans e) planId = Some row" "ready_to_execute ap (pr_plan row)" "dp_status (pd_plan pd) = PReady"
    "same_contents (pd_plan pd) (pr_plan row)"
    "\<forall>i\<in>set (pd_approved pd). \<exists>s\<in>set (safeProposedResources (dp_services (pr_plan row)) (en_provided (dp_env (pr_plan row)))).
        proposedResourceIdentifier s = i \<and> caller_approves ap s"
    "eg_plans e1 = eg_plans e" "eg_listeners e1 = eg_listeners e" "eg_audit e1 = eg_audit e"
proof -
  obtain p approved where c: "check_plan w planId d ap e = Goes (p, approved)"
    using assms by (auto simp: prepare_def split: outcome.splits)
  obtain attach t db' where pd: "pd = \<lparr>pd_plan = bindPlanToExecutionTarget p attach t, pd_approved = approved, pd_attach = attach, pd_target = t\<rparr>"
    and e1: "e1 = e\<lparr>eg_db := db'\<rparr>"
    using assms c by (auto simp: prepare_def split: outcome.splits prod.splits)
  obtain row fresh where row: "getDeployPlan (eg_plans e) planId = Some row" and sel: "select_services d (pr_plan row) = Inr fresh"
    and g: "evaluateApprovalGate planId fresh ap = Inr approved" and st: "dp_status fresh = PReady \<or> dp_status fresh = PNeeds_approval"
    and tr: "\<not> traffic_undecided (dp_build fresh)" and nm: "matches PROJECT_NAME_REGEX (dp_app_name fresh)"
    and tp: "transitionApprovedPlanForExecution (wo_now w) fresh = Inr p"
    using c by (rule check_plan_Goes)
  note keep = select_services_keeps [OF sel]
  note gate = gate_Inr [OF g, unfolded keep]
  have p: "dp_status p = PReady \<and> same_contents p fresh"
    using tp st by (auto simp: transitionApprovedPlanForExecution_def same_contents_def dest: planTransition_Inr split: if_splits)
  have f: "same_contents fresh (pr_plan row)" by (simp add: same_contents_def keep)
  show ?thesis
  proof (rule that [OF row])
    show "ready_to_execute ap (pr_plan row)"
      using gate st tr nm by (auto simp: ready_to_execute_def keep)
    show "dp_status (pd_plan pd) = PReady" using p by (simp add: pd)
    show "same_contents (pd_plan pd) (pr_plan row)"
      using p f by (simp add: pd same_contents_def)
    show "\<forall>i\<in>set (pd_approved pd). \<exists>s\<in>set (safeProposedResources (dp_services (pr_plan row)) (en_provided (dp_env (pr_plan row)))).
        proposedResourceIdentifier s = i \<and> caller_approves ap s"
      using gate by (auto simp: pd)
  qed (simp_all add: e1)
qed

lemma prepare_other: "prepare w planId d ap e = (out, e1) \<Longrightarrow> eg_plans e1 = eg_plans e \<and> eg_listeners e1 = eg_listeners e"
  by (auto simp: prepare_def split: outcome.splits prod.splits)

lemma commit_Inr:
  assumes "commit w planId ls pd e = (Inr (executing, lock), e')"
  shows "planTransition (wo_now w) (pd_plan pd) PExecuting None = Inr executing"
    and "eg_plans e' = updateDeployPlan planId PExecuting executing None (wo_now w) (eg_plans e)"
    and "eg_listeners e' = eg_listeners e"
    and "acquirePlanDeployLock w planId ls (pd_target pd) (eg_db e) = (Inr lock, eg_db e')"
  using assms
  by (auto simp: commit_def persistExecutingPlan_def recordApprovalAudit_def split: sum.splits prod.splits if_splits)

lemma commit_Inl: "commit w planId ls pd e = (Inl err, e') \<Longrightarrow> eg_plans e' = eg_plans e \<and> eg_listeners e' = eg_listeners e"
  by (auto simp: commit_def split: sum.splits prod.splits)

lemma finish_keeps [simp]: "eg_listeners (finish w i p st err f e) = eg_listeners e" "eg_db (finish w i p st err f e) = eg_db e"
  by (auto simp: finish_def split: sum.splits)

lemma finish_plans:
  assumes "dp_status p = PExecuting" and "st = PCompleted \<or> st = PFailed"
  shows "\<exists>p'. planTransition (wo_now w) p st err = Inr p' \<and> eg_plans (finish w i p st err f e) = updateDeployPlan i st (f p') err (wo_now w) (eg_plans e)"
proof -
  have "canTransition (dp_status p) st" using assms by (auto simp: canTransition_def)
  from planTransition_ok [OF this] obtain p' where "planTransition (wo_now w) p st err = Inr p'" by blast
  then show ?thesis by (simp add: finish_def)
qed

text \<open>After the launch the plan is still executing, with a listener; or it has failed.\<close>

lemma launch_cases:
  assumes "launch w planId d tr pd executing lock e = (r, e')" and "dp_status executing = PExecuting"
  obtains (running) sr where "rs_status r = Result_building" "eg_plans e' = eg_plans e" "rs_project_id r = Some (sr_projectId sr)"
      "eg_listeners e' = eg_listeners e @ [\<lparr>li_planId = planId, li_plan = executing, li_attach = map_option fst (pd_attach pd),
         li_started = sr_projectId sr, li_lock = lock\<rparr>]"
      "dispatchPlanDeploy w pd d tr lock (eg_db e) = (Inr sr, eg_db e')" "sr_preflightError sr = None"
    | (preflight) sr msg p' where "rs_status r = Result_failed" "dispatchPlanDeploy w pd d tr lock (eg_db e) = (Inr sr, snd (dispatchPlanDeploy w pd d tr lock (eg_db e)))"
      "sr_preflightError sr = Some msg" "planTransition (wo_now w) executing PFailed (Some msg) = Inr p'"
      "eg_plans e' = updateDeployPlan planId PFailed p' (Some msg) (wo_now w) (eg_plans e)"
      "eg_listeners e' = eg_listeners e @ [\<lparr>li_planId = planId, li_plan = executing, li_attach = map_option fst (pd_attach pd),
         li_started = sr_projectId sr, li_lock = None\<rparr>]"
    | (thrown) msg p' where "rs_status r = Result_failed" "planTransition (wo_now w) executing PFailed (Some msg) = Inr p'"
      "eg_plans e' = updateDeployPlan planId PFailed p' (Some msg) (wo_now w) (eg_plans e)" "eg_listeners e' = eg_listeners e"
proof -
  have fin: "\<exists>p'. planTransition (wo_now w) executing PFailed (Some msg) = Inr p' \<and>
      eg_plans (finish w planId executing PFailed (Some msg) (\<lambda>p. p) e0) = updateDeployPlan planId PFailed p' (Some msg) (wo_now w) (eg_plans e0)" for msg e0
    using finish_plans [OF assms(2), of PFailed w "Some msg" planId "\<lambda>p. p" e0] by simp
  obtain out db1 where d: "dispatchPlanDeploy w pd d tr lock (eg_db e) = (out, db1)" by fastforce
  show ?thesis
  proof (cases out)
    case (Inl msg)
    let ?e0 = "e\<lparr>eg_db := releasePlanLock w lock db1\<rparr>"
    obtain p' where p': "planTransition (wo_now w) executing PFailed (Some msg) = Inr p'"
      "eg_plans (finish w planId executing PFailed (Some msg) (\<lambda>p. p) ?e0) = updateDeployPlan planId PFailed p' (Some msg) (wo_now w) (eg_plans ?e0)"
      using fin by blast
    show ?thesis
      by (rule thrown [of msg p']) (use assms(1) p' in \<open>auto simp: launch_def d Inl failCommittedPlan_def plain_result_def\<close>)
  next
    case (Inr sr)
    show ?thesis
    proof (cases "sr_preflightError sr")
      case None
      show ?thesis
        by (rule running [of sr]) (use assms(1) in \<open>auto simp: launch_def d Inr None Let_def plain_result_def\<close>)
    next
      case (Some msg)
      let ?l = "\<lparr>li_planId = planId, li_plan = executing, li_attach = map_option fst (pd_attach pd), li_started = sr_projectId sr, li_lock = None\<rparr>"
      let ?e0 = "e\<lparr>eg_db := releasePlanLock w lock db1, eg_listeners := eg_listeners e @ [?l]\<rparr>"
      obtain p' where p': "planTransition (wo_now w) executing PFailed (Some msg) = Inr p'"
        "eg_plans (finish w planId executing PFailed (Some msg) (\<lambda>p. p) ?e0) = updateDeployPlan planId PFailed p' (Some msg) (wo_now w) (eg_plans ?e0)"
        using fin by blast
      show ?thesis
        by (rule preflight [of sr msg p']) (use assms(1) p' in \<open>auto simp: launch_def d Inr Some Let_def failCommittedPlan_def plain_result_def\<close>)
    qed
  qed
qed

section \<open>Who may execute\<close>

lemma prepare_Responds:
  assumes "prepare w planId d ap e = (Responds r, e1)"
  shows "rs_status r \<noteq> Result_building"
proof (cases "check_plan w planId d ap e")
  case (Responds r')
  then have "rs_status r' \<noteq> Result_building"
    by (auto simp: check_plan_def evaluateApprovalGate_def Let_def plain_result_def split: sum.splits if_splits)
  then show ?thesis using assms Responds by (simp add: prepare_def)
next
  case (Goes x)
  obtain p approved where x: "x = (p, approved)" by fastforce
  have "fst (resolveExecuteTarget w planId p approved (eg_db e)) = Responds r"
    using assms Goes x by (auto simp: prepare_def split: outcome.splits prod.splits)
  then show ?thesis
    by (auto simp: resolveExecuteTarget_def conflict_result_def plain_result_def Let_def split: sum.splits option.splits prod.splits if_splits)
qed (use assms in \<open>simp add: prepare_def\<close>)

lemma executePlan_cases:
  assumes "executePlan w planId d ls tr ap e = (res, e')"
  obtains (stopped) "eg_plans e' = eg_plans e" "eg_listeners e' = eg_listeners e" "\<And>r. res = Inr r \<Longrightarrow> rs_status r \<noteq> Result_building"
    | (launched) pd e1 executing lock e2 r where "prepare w planId d ap e = (Goes pd, e1)" "commit w planId ls pd e1 = (Inr (executing, lock), e2)"
        "launch w planId d tr pd executing lock e2 = (r, e')" "res = Inr r"
proof -
  obtain out e1 where p: "prepare w planId d ap e = (out, e1)" by fastforce
  note o1 = prepare_other [OF p]
  show ?thesis
  proof (cases out)
    case (Goes pd)
    obtain out2 e2 where c: "commit w planId ls pd e1 = (out2, e2)" by fastforce
    show ?thesis
    proof (cases out2)
      case (Inl err)
      show ?thesis
        by (rule stopped) (use assms p c Goes Inl o1 commit_Inl [of w planId ls pd e1 err e2] in \<open>auto simp: executePlan_def\<close>)
    next
      case (Inr x)
      obtain executing lock where x: "x = (executing, lock)" by fastforce
      obtain r e3 where l: "launch w planId d tr pd executing lock e2 = (r, e3)" by fastforce
      have "res = Inr r" "e' = e3" using assms p c Goes Inr x l by (simp_all add: executePlan_def)
      then show ?thesis using launched [of pd e1 executing lock e2 r] p c l Goes Inr x by simp
    qed
  next
    case Throws
    show ?thesis by (rule stopped) (use assms p Throws o1 in \<open>auto simp: executePlan_def\<close>)
  next
    case Responds
    show ?thesis by (rule stopped) (use assms p Responds o1 prepare_Responds [of w planId d ap e] in \<open>auto simp: executePlan_def\<close>)
  qed
qed

lemma row_after_commit:
  assumes "getDeployPlan rows i = Some row" and "rows' = updateDeployPlan i PExecuting p None now rows"
  shows "getDeployPlan rows' q = (if q = i then Some (row\<lparr>pr_status := PExecuting, pr_plan := p, pr_error := pr_error row, pr_updated_at := now\<rparr>) else getDeployPlan rows q)"
  using assms by (simp add: getDeployPlan_def row_updateDeployPlan or_opt_def option.map_ident)

lemma row_after_fail:
  assumes "getDeployPlan rows i = Some row"
  shows "getDeployPlan (updateDeployPlan i st p err now rows) q =
    (if q = i then Some (row\<lparr>pr_status := st, pr_plan := p, pr_error := or_opt err (pr_error row), pr_updated_at := now\<rparr>) else getDeployPlan rows q)"
  using assms by (simp add: getDeployPlan_def row_updateDeployPlan option.map_ident)

text \<open>The stored rows after an execution, by the way it went.\<close>

lemma executePlan_rows:
  assumes "executePlan w planId d ls tr ap e = (res, e')"
  obtains (same) "eg_plans e' = eg_plans e" "eg_listeners e' = eg_listeners e"
    | (changed) row row' where "getDeployPlan (eg_plans e) planId = Some row" "ready_to_execute ap (pr_plan row)"
        "\<And>q. getDeployPlan (eg_plans e') q = (if q = planId then Some row' else getDeployPlan (eg_plans e) q)"
        "pr_status row' = dp_status (pr_plan row')" "dp_status (pr_plan row') = PExecuting \<or> dp_status (pr_plan row') = PFailed"
        "same_contents (pr_plan row') (pr_plan row)" "map pr_id (eg_plans e') = map pr_id (eg_plans e)"
  using assms
proof (cases rule: executePlan_cases)
  case stopped
  show ?thesis by (rule same [OF stopped(1,2)])
next
  case (launched pd e1 executing lock e2 r)
  from launched(1) obtain row where row: "getDeployPlan (eg_plans e) planId = Some row" and rte: "ready_to_execute ap (pr_plan row)"
    and cont: "same_contents (pd_plan pd) (pr_plan row)" and e1: "eg_plans e1 = eg_plans e"
    by (rule prepare_Goes)
  note com = commit_Inr [OF launched(2)]
  note ex = planTransition_Inr [OF com(1)]
  have c1: "same_contents executing (pr_plan row)"
    using cont by (simp add: same_contents_def ex)
  have ids: "map pr_id (updateDeployPlan i st p err now rows) = map pr_id rows" for i st p err now and rows :: "plan_row list"
    by (simp add: updateDeployPlan_def sql_update_def)
  have rows2: "getDeployPlan (eg_plans e2) q = (if q = planId then Some (row\<lparr>pr_status := PExecuting, pr_plan := executing, pr_error := pr_error row, pr_updated_at := wo_now w\<rparr>)
      else getDeployPlan (eg_plans e) q)" for q
    by (rule row_after_commit [OF row]) (simp add: com(2) e1)
  have ids2: "map pr_id (eg_plans e2) = map pr_id (eg_plans e)" by (simp add: com(2) e1 ids)
  let ?row2 = "row\<lparr>pr_status := PExecuting, pr_plan := executing, pr_error := pr_error row, pr_updated_at := wo_now w\<rparr>"
  have failed: thesis if p': "planTransition (wo_now w) executing PFailed (Some msg) = Inr p'"
    and ps: "eg_plans e' = updateDeployPlan planId PFailed p' (Some msg) (wo_now w) (eg_plans e2)" for msg p'
  proof (rule changed [OF row rte])
    note t = planTransition_Inr [OF p']
    let ?row' = "?row2\<lparr>pr_status := PFailed, pr_plan := p', pr_error := or_opt (Some msg) (pr_error ?row2), pr_updated_at := wo_now w\<rparr>"
    have "getDeployPlan (eg_plans e2) planId = Some ?row2" by (simp add: rows2)
    note after = row_after_fail [OF this, of PFailed p' "Some msg" "wo_now w"]
    show "getDeployPlan (eg_plans e') q = (if q = planId then Some ?row' else getDeployPlan (eg_plans e) q)" for q
      unfolding ps after by (simp add: rows2)
    show "pr_status ?row' = dp_status (pr_plan ?row')" "dp_status (pr_plan ?row') = PExecuting \<or> dp_status (pr_plan ?row') = PFailed"
      by (simp_all add: t)
    show "same_contents (pr_plan ?row') (pr_plan row)" using c1 by (simp add: same_contents_def t)
    show "map pr_id (eg_plans e') = map pr_id (eg_plans e)" by (simp only: ps ids ids2)
  qed
  from launched(3) ex(2) show ?thesis
  proof (cases rule: launch_cases)
    case (running sr)
    show ?thesis
    proof (rule changed [OF row rte])
      show "getDeployPlan (eg_plans e') q = (if q = planId then Some ?row2 else getDeployPlan (eg_plans e) q)" for q
        by (simp add: running(2) rows2)
      show "pr_status ?row2 = dp_status (pr_plan ?row2)" "dp_status (pr_plan ?row2) = PExecuting \<or> dp_status (pr_plan ?row2) = PFailed"
        by (simp_all add: ex)
      show "same_contents (pr_plan ?row2) (pr_plan row)" using c1 by simp
      show "map pr_id (eg_plans e') = map pr_id (eg_plans e)" by (simp only: running(2) ids2)
    qed
  next
    case (preflight sr msg p')
    show ?thesis by (rule failed [OF preflight(4,5)])
  next
    case (thrown msg p')
    show ?thesis by (rule failed [OF thrown(2,3)])
  qed
qed

text \<open>
  C2. An execution changes the stored plans only by moving its own plan to executing or failed, and only if that plan was ready, or was waiting
  for approvals and the caller approved every resource it proposes; the service that takes the traffic was decided and the name of the project valid.
\<close>

theorem execution_needs_approval:
  assumes "executePlan w planId d ls tr ap e = (res, e')" and "getDeployPlan (eg_plans e') q \<noteq> getDeployPlan (eg_plans e) q"
  shows "q = planId \<and> (\<exists>row row'. getDeployPlan (eg_plans e) planId = Some row \<and> ready_to_execute ap (pr_plan row) \<and>
     getDeployPlan (eg_plans e') planId = Some row' \<and> pr_status row' \<in> {PExecuting, PFailed} \<and> dp_status (pr_plan row') = pr_status row' \<and>
     same_contents (pr_plan row') (pr_plan row))"
  using assms(1)
proof (cases rule: executePlan_rows)
  case same
  then show ?thesis using assms(2) by simp
next
  case (changed row row')
  have "q = planId" using assms(2) changed(3) [of q] by (simp split: if_splits)
  moreover have "getDeployPlan (eg_plans e') planId = Some row'" using changed(3) by simp
  moreover have "pr_status row' \<in> {PExecuting, PFailed}" using changed(4,5) by auto
  ultimately show ?thesis using changed(1,2,4,6) by auto
qed

text \<open>A world where everything succeeds, and the plan of the previous theory in it.\<close>

definition example_world :: world where
  "example_world = \<lparr>wo_now = 5, wo_newId = ''n1'', wo_baseEnv = (\<lambda>owner auto inline. Inr inline), wo_provision = (\<lambda>s t n db. (Inr ''url'', db)),
     wo_reuse = (\<lambda>s t n db. (Inr ''url'', db)),
     wo_start = (\<lambda>c db. (Inr \<lparr>sr_projectId = ''p9'', sr_projectName = sc_name c, sr_preflightError = None\<rparr>, db)),
     wo_lastDeployMs = (\<lambda>n. None), wo_attach = (\<lambda>sid tid db. (Inr tid, db))\<rparr>"

definition empty_engine :: engine where
  "empty_engine = \<lparr>eg_db = \<lparr>projects = [], services = []\<rparr>, eg_plans = [], eg_audit = [], eg_listeners = []\<rparr>"

definition planned :: engine where
  "planned = empty_engine\<lparr>eg_plans := snd (createPlan no_hosts ''plan_1'' 0 example_options example_facts (eg_plans empty_engine))\<rparr>"

definition executed :: engine where
  "executed = snd (executePlan example_world ''plan_1'' None None None None planned)"

lemma example_statuses:
  "map_option (\<lambda>r. dp_status (pr_plan r)) (getDeployPlan (eg_plans planned) ''plan_1'') = Some PReady"
  "map_option (\<lambda>r. dp_status (pr_plan r)) (getDeployPlan (eg_plans executed) ''plan_1'') = Some PExecuting"
  by code_simp+

theorem execution_needs_approval_witness: "\<exists>row. getDeployPlan (eg_plans planned) ''plan_1'' = Some row \<and> ready_to_execute None (pr_plan row)"
proof -
  have d: "getDeployPlan (eg_plans executed) ''plan_1'' \<noteq> getDeployPlan (eg_plans planned) ''plan_1''"
    using example_statuses by auto
  obtain res e' where x: "executePlan example_world ''plan_1'' None None None None planned = (res, e')" by fastforce
  then have "e' = executed" by (simp add: executed_def)
  then show ?thesis using execution_needs_approval [OF x] d by blast
qed

section \<open>What is provisioned\<close>

lemma provision_update:
  "wo_now (w\<lparr>wo_provision := f\<rparr>) = wo_now w" "wo_newId (w\<lparr>wo_provision := f\<rparr>) = wo_newId w" "wo_baseEnv (w\<lparr>wo_provision := f\<rparr>) = wo_baseEnv w"
  "wo_start (w\<lparr>wo_provision := f\<rparr>) = wo_start w" "wo_lastDeployMs (w\<lparr>wo_provision := f\<rparr>) = wo_lastDeployMs w"
  by simp_all

lemma prepare_provision [simp]: "prepare (w\<lparr>wo_provision := f\<rparr>) = prepare w"
  unfolding fun_eq_iff prepare_def check_plan_def resolveExecuteTarget_def createPlanOwnedTargetProject_def provision_update by simp

lemma commit_provision [simp]: "commit (w\<lparr>wo_provision := f\<rparr>) = commit w"
  unfolding fun_eq_iff commit_def acquirePlanDeployLock_def persistExecutingPlan_def provision_update by simp

lemma work_items_create:
  assumes "work_items env approved t ss = Inr is" and "(n, s) \<in> set is" and "ps_action s = ACreate"
  shows "approved_proposal approved s"
  using assms by (induction env approved t ss arbitrary: "is" rule: work_items.induct) (auto simp: rbind_Inr_iff split: if_splits option.splits)

lemma resolve_items_provision:
  assumes "\<And>n s. (n, s) \<in> set is \<Longrightarrow> ps_action s = ACreate \<Longrightarrow> f s t n = wo_provision w s t n"
  shows "resolve_items (w\<lparr>wo_provision := f\<rparr>) t is db = resolve_items w t is db"
  using assms
proof (induction "is" arbitrary: db)
  case (Cons i "is")
  obtain n s where i: "i = (n, s)" by fastforce
  have "connection_string (w\<lparr>wo_provision := f\<rparr>) t i = connection_string w t i"
    using Cons.prems [of n s] by (auto simp: connection_string_def i fun_eq_iff split: plan_action.splits)
  with Cons show ?case by simp
qed simp

lemma launch_provision:
  assumes "\<And>s t n. approved_proposal (pd_approved pd) s \<Longrightarrow> f s t n = wo_provision w s t n"
  shows "launch (w\<lparr>wo_provision := f\<rparr>) planId d tr pd executing lock e = launch w planId d tr pd executing lock e"
proof -
  have base: "resolvePlanBaseEnv (w\<lparr>wo_provision := f\<rparr>) pd = resolvePlanBaseEnv w pd"
    unfolding resolvePlanBaseEnv_def provision_update ..
  have managed: "applyManagedResourceEnv (w\<lparr>wo_provision := f\<rparr>) pd m db = applyManagedResourceEnv w pd m db" for m db
  proof (cases "work_items (en_provided (dp_env (pd_plan pd))) (pd_approved pd) (pd_target pd) (dp_services (pd_plan pd))")
    case (Inr "is")
    have "resolve_items (w\<lparr>wo_provision := f\<rparr>) t is db = resolve_items w t is db" for t
      by (rule resolve_items_provision) (rule assms, rule work_items_create [OF Inr])
    then show ?thesis by (simp add: applyManagedResourceEnv_def Inr)
  qed (simp add: applyManagedResourceEnv_def)
  have env: "launch_env (w\<lparr>wo_provision := f\<rparr>) pd db = launch_env w pd db" for db
    unfolding launch_env_def resolvePlanEnv_def base managed ..
  have settled: "resolvePlanEnvSettled (w\<lparr>wo_provision := f\<rparr>) pd = resolvePlanEnvSettled w pd"
    unfolding fun_eq_iff resolvePlanEnvSettled_def managed by simp
  have dispatch: "dispatchPlanDeploy (w\<lparr>wo_provision := f\<rparr>) pd d tr lock db = dispatchPlanDeploy w pd d tr lock db" for db
    unfolding dispatchPlanDeploy_def env settled provision_update ..
  show ?thesis
    unfolding launch_def dispatch failCommittedPlan_def finish_def releasePlanLock_def estimatePlanDurationSeconds_def provision_update ..
qed

text \<open>
  C14. An execution provisions nothing but safe resources that the plan proposes and the caller approves: how the provisioning of any other
  resource would behave makes no difference, to the result or to the state. That holds for every behaviour of the deployment, also
  for one that calls the deferred function while it builds.
\<close>

theorem provisions_only_approved:
  assumes "\<And>s t n. ps_resolution s = Some Proposed_project_service \<Longrightarrow> ps_approval s = Some Safe_resource \<Longrightarrow> caller_approves ap s
     \<Longrightarrow> f s t n = wo_provision w s t n"
  shows "executePlan (w\<lparr>wo_provision := f\<rparr>) planId d ls tr ap e = executePlan w planId d ls tr ap e"
proof (cases "prepare w planId d ap e")
  case (Pair out e1)
  show ?thesis
  proof (cases out)
    case (Goes pd)
    from Pair have appr: "\<forall>i\<in>set (pd_approved pd). \<exists>s. proposedResourceIdentifier s = i \<and> caller_approves ap s"
      unfolding Goes by (rule prepare_Goes) blast
    have "f s t n = wo_provision w s t n" if a: "approved_proposal (pd_approved pd) s" for s t n
    proof (rule assms)
      show "ps_resolution s = Some Proposed_project_service" "ps_approval s = Some Safe_resource"
        using a by (simp_all add: approved_proposal_def)
      obtain s' where "proposedResourceIdentifier s' = proposedResourceIdentifier s" "caller_approves ap s'"
        using a appr by (auto simp: approved_proposal_def)
      then show "caller_approves ap s" by (simp add: caller_approves_def split: option.splits)
    qed
    note launch_provision [of pd f w, OF this]
    then show ?thesis by (simp add: executePlan_def Pair Goes split: prod.splits sum.splits)
  qed (simp_all add: executePlan_def Pair)
qed

text \<open>
  A plan with a PostgreSQL database that waits for an approval, and a deployment that provisions it through the deferred function and reports the
  connection string as its name.
\<close>

definition postgres_service :: plan_service where
  "postgres_service = \<lparr>ps_type = ''postgres'', ps_action = ACreate, ps_name = None, ps_service_id = None, ps_connect_via = ''DATABASE_URL'',
     ps_resolution = Some Proposed_project_service, ps_reason = None, ps_approval = Some Safe_resource\<rparr>"

definition postgres_planned :: engine where
  "postgres_planned = empty_engine\<lparr>eg_plans := snd (createPlan no_hosts ''plan_1'' 0 example_options
     (example_facts\<lparr>cp_services := [postgres_service]\<rparr>) [])\<rparr>"

definition deferring_world :: world where
  "deferring_world = example_world\<lparr>wo_start := (\<lambda>c db.
     case sc_deferredEnv c of
       None \<Rightarrow> (Inl ''nothing deferred'', db)
     | Some f \<Rightarrow> (case f db of
         (Inl msg, db') \<Rightarrow> (Inl msg, db')
       | (Inr env, db') \<Rightarrow> (Inr \<lparr>sr_projectId = ''p9'', sr_projectName = given_or (js_get env ''DATABASE_URL'') ''none'', sr_preflightError = None\<rparr>, db')))\<rparr>"

definition approve_all :: "approval option" where
  "approve_all = Some \<lparr>ap_all = True, ap_resources = []\<rparr>"

lemma deferred_run:
  "case executePlan deferring_world ''plan_1'' None None None approve_all postgres_planned of
     (Inr r, _) \<Rightarrow> rs_status r = Result_building \<and> rs_project_name r = ''url''
   | _ \<Rightarrow> False"
  by code_simp

definition other_refused :: "plan_service \<Rightarrow> target \<Rightarrow> string \<Rightarrow> store \<Rightarrow> (string + string) \<times> store" where
  "other_refused s t n db = (if ps_approval s = Some Safe_resource then (Inr ''url'', db) else (Inl ''not called'', db))"

theorem provisions_only_approved_witness:
  "executePlan (deferring_world\<lparr>wo_provision := other_refused\<rparr>) ''plan_1'' None None None approve_all postgres_planned
     = executePlan deferring_world ''plan_1'' None None None approve_all postgres_planned \<and>
   (case executePlan (deferring_world\<lparr>wo_provision := other_refused\<rparr>) ''plan_1'' None None None approve_all postgres_planned of
      (Inr r, _) \<Rightarrow> rs_project_name r = ''url''
    | _ \<Rightarrow> False)"
proof -
  have "executePlan (deferring_world\<lparr>wo_provision := other_refused\<rparr>) ''plan_1'' None None None approve_all postgres_planned
     = executePlan deferring_world ''plan_1'' None None None approve_all postgres_planned"
    by (rule provisions_only_approved) (simp add: other_refused_def [abs_def] deferring_world_def example_world_def)
  with deferred_run show ?thesis by (auto split: prod.splits sum.splits)
qed

end
