(* ===== verification/Plan_Lifecycle.thy ===== *)
theory Plan_Lifecycle
  imports Plan_Execution
begin

text \<open>
  The life of deploy plans when the operations of the engine interleave (\<open>src/src/pipeline/deploy-plan/engine.ts\<close>). The operations are cut where they
  await: an update reads the plan and stores the changed one later; an execution prepares, commits and launches; an event starts the handlers of the
  listeners, each of which writes the plan and later takes its listener away. What an operation carries from one part to the next is an
  activity. The rollback watcher (\<open>src/src/monitor/rollback-watcher.ts\<close>) writes the status column alone (\<open>updateDeployPlanStatus\<close> of
  \<open>src/src/db/repos/deploy-plan.repo.ts\<close>).

  Shown: in every interleaving a stored plan beyond \<open>needs_input\<close> has its input, and the status column differs from the plan only where the watcher wrote
  it; the sequential operations are runs of the relation; a success completes its plan, and the end of its handler frees the lock. The last section shows what the interleaving
  breaks: a plan launched twice, a completed plan that fails afterwards.
\<close>

section \<open>Steps\<close>

text \<open>The issues of a plan are those of its provided values, for some reading of the hosts of URLs.\<close>

definition values_checked :: "deploy_plan \<Rightarrow> bool" where
  "values_checked p \<longleftrightarrow> (\<exists>h. en_issues (dp_env p) =
     Some (validatePlanEnvValues h (en_detected (dp_env p)) (en_provided (dp_env p)) (trustedEnvKeySet (dp_env p))))"

definition settled :: "deploy_plan \<Rightarrow> bool" where
  "settled p \<longleftrightarrow> dp_missing p = [] \<and> values_checked p \<and> \<not> list_ex ei_fail (given_or (en_issues (dp_env p)) []) \<and> \<not> traffic_undecided (dp_build p)"

definition updateDeployPlanStatus :: "string \<Rightarrow> plan_status \<Rightarrow> int \<Rightarrow> plan_row list \<Rightarrow> plan_row list" where
  "updateDeployPlanStatus planId status now =
     sql_update (\<lambda>r. pr_id r = planId) (\<lambda>r. r\<lparr>pr_status := status, pr_updated_at := now\<rparr>)"

text \<open>
  What is under way: a changed plan that is not stored yet, an execution that is prepared or committed, a handler that has not written yet, one that has
  not taken its listener away yet.
\<close>

datatype activity =
    Storing string deploy_plan
  | Preparing string "string list option" "string option" "string option" prepared
  | Committed string "string list option" "string option" prepared deploy_plan "(string \<times> string) option"
  | Handling deploy_event listener
  | Closing listener

type_synonym plan_system = "engine \<times> activity list"

text \<open>
  An update stores what \<open>reassess\<close> makes of the changed plan; here \<open>merged\<close> is any plan, so the changes that are left out of \<open>engineUpdatePlan\<close> (the new
  services of a Compose file) are covered. \<open>crash\<close> ends the process; \<open>other\<close> is any write to the tables of projects and services.
\<close>

inductive plan_step :: "plan_system \<Rightarrow> plan_system \<Rightarrow> bool" where
  create: "getDeployPlan (eg_plans e) i = None \<Longrightarrow>
     plan_step (e, acts) (e\<lparr>eg_plans := snd (createPlan h i now opts f (eg_plans e))\<rparr>, acts)"
| create_image: "getDeployPlan (eg_plans e) i = None \<Longrightarrow>
     plan_step (e, acts) (e\<lparr>eg_plans := snd (createImagePlan h i now opts name pid tid url (eg_plans e))\<rparr>, acts)"
| update_read: "getDeployPlan (eg_plans e) i = Some row \<Longrightarrow> dp_status (pr_plan row) \<notin> {PExecuting, PCompleted, PFailed, PRolled_back} \<Longrightarrow>
     plan_step (e, acts) (e, Storing i (reassess h now merged) # acts)"
| update_write: "Storing i p \<in> set acts \<Longrightarrow>
     plan_step (e, acts) (e\<lparr>eg_plans := updateDeployPlan i (dp_status p) p None now (eg_plans e)\<rparr>, remove1 (Storing i p) acts)"
| prepare: "prepare w i d ap e = (Goes pd, e') \<Longrightarrow> plan_step (e, acts) (e', Preparing i d ls tr pd # acts)"
| refused: "prepare w i d ap e = (out, e') \<Longrightarrow> plan_step (e, acts) (e', acts)"
| commit: "Preparing i d ls tr pd \<in> set acts \<Longrightarrow> commit w i ls pd e = (Inr (executing, lock), e') \<Longrightarrow>
     plan_step (e, acts) (e', Committed i d tr pd executing lock # remove1 (Preparing i d ls tr pd) acts)"
| locked: "Preparing i d ls tr pd \<in> set acts \<Longrightarrow> commit w i ls pd e = (Inl err, e') \<Longrightarrow>
     plan_step (e, acts) (e', remove1 (Preparing i d ls tr pd) acts)"
| launch: "Committed i d tr pd executing lock \<in> set acts \<Longrightarrow> launch w i d tr pd executing lock e = (r, e') \<Longrightarrow>
     plan_step (e, acts) (e', remove1 (Committed i d tr pd executing lock) acts)"
| event: "plan_step (e, acts) (e, map (Handling ev) (emit ev e) @ acts)"
| handled: "Handling ev l \<in> set acts \<Longrightarrow> plan_step (e, acts) (handle w ev l e, Closing l # remove1 (Handling ev l) acts)"
| closed: "Closing l \<in> set acts \<Longrightarrow> plan_step (e, acts) (close_listener w l e, remove1 (Closing l) acts)"
| rolled_back: "plan_step (e, acts) (e\<lparr>eg_plans := updateDeployPlanStatus i PRolled_back now (eg_plans e)\<rparr>, acts)"
| crash: "plan_step (e, acts) (e\<lparr>eg_listeners := []\<rparr>, [])"
| other: "plan_step (e, acts) (e\<lparr>eg_db := db\<rparr>, acts)"

inductive plan_reachable :: "plan_system \<Rightarrow> bool" where
  start: "plan_reachable (\<lparr>eg_db = db, eg_plans = [], eg_audit = [], eg_listeners = []\<rparr>, [])"
| step: "plan_reachable y \<Longrightarrow> plan_step y z \<Longrightarrow> plan_reachable z"

section \<open>The invariant\<close>

abbreviation stored :: "engine \<Rightarrow> string \<Rightarrow> plan_row option" where
  "stored e q \<equiv> getDeployPlan (eg_plans e) q"

text \<open>What a plan may say, and what is carried along: every plan that is written later was settled when it was read.\<close>

definition plan_ok :: "deploy_plan \<Rightarrow> bool" where
  "plan_ok p \<longleftrightarrow> dp_status p \<in> {PNeeds_input, PReady, PNeeds_approval, PExecuting, PCompleted, PFailed} \<and>
     (dp_status p \<noteq> PNeeds_input \<longrightarrow> settled p)"

definition row_ok :: "plan_row \<Rightarrow> bool" where
  "row_ok r \<longleftrightarrow> (pr_status r = dp_status (pr_plan r) \<or> pr_status r = PRolled_back) \<and> plan_ok (pr_plan r)"

definition listener_ok :: "listener \<Rightarrow> bool" where
  "listener_ok l \<longleftrightarrow> dp_status (li_plan l) = PExecuting \<and> settled (li_plan l)"

fun activity_ok :: "activity \<Rightarrow> bool" where
  "activity_ok (Storing i p) = plan_ok p"
| "activity_ok (Preparing i d ls tr pd) \<longleftrightarrow> dp_status (pd_plan pd) = PReady \<and> settled (pd_plan pd)"
| "activity_ok (Committed i d tr pd executing lock) \<longleftrightarrow> dp_status executing = PExecuting \<and> settled executing"
| "activity_ok (Handling ev l) = listener_ok l"
| "activity_ok (Closing l) = listener_ok l"

definition engine_ok :: "engine \<Rightarrow> bool" where
  "engine_ok e \<longleftrightarrow> (\<forall>r\<in>set (eg_plans e). row_ok r) \<and> (\<forall>l\<in>set (eg_listeners e). listener_ok l)"

definition plan_inv :: "plan_system \<Rightarrow> bool" where
  "plan_inv y \<longleftrightarrow> engine_ok (fst y) \<and> (\<forall>a\<in>set (snd y). activity_ok a)"

lemma settled_same: "same_contents p q \<Longrightarrow> settled p = settled q"
  by (simp add: same_contents_def settled_def values_checked_def)

lemma stored_mem: "stored e q = Some r \<Longrightarrow> r \<in> set (eg_plans e)"
  by (auto simp: getDeployPlan_def dest: row_of_key)

subsection \<open>Creating and updating\<close>

lemma status_settled:
  assumes "computePlanStatus missing svs env issues t \<in> {PReady, PNeeds_approval}"
  shows "missing = []" "\<not> list_ex ei_fail issues" "\<not> t"
  using assms by (auto simp: computePlanStatus_def split: if_splits)

lemma computePlanStatus_range: "computePlanStatus missing svs env issues t \<in> {PNeeds_input, PReady, PNeeds_approval}"
  by (simp add: computePlanStatus_def)

lemma traffic_more_than_one:
  "length (case more_than_one c of None \<Rightarrow> [] | Some ys \<Rightarrow> ys) > 1 \<longleftrightarrow> (case c of None \<Rightarrow> 0 | Some ys \<Rightarrow> length ys) > 1"
  by (auto simp: more_than_one_def split: option.splits)

text \<open>A plan whose parts and status fit together, as creating and updating make it.\<close>

lemma fresh_plan_ok:
  assumes "dp_status p = computePlanStatus (dp_missing p) svs env issues t" and "en_issues (dp_env p) = Some issues"
    and "t = traffic_undecided (dp_build p)"
    and "values_checked p"
  shows "plan_ok p"
proof -
  have "settled p" if "dp_status p \<noteq> PNeeds_input"
    using that assms computePlanStatus_iffs(3) [of "dp_missing p" svs env issues t] by (simp add: settled_def given_or_def)
  moreover have "dp_status p \<in> {PNeeds_input, PReady, PNeeds_approval}"
    using computePlanStatus_range assms(1) by simp
  ultimately show ?thesis by (auto simp: plan_ok_def)
qed

lemma createPlan_spec:
  assumes "createPlan h i now opts f rows = (p, rows')"
  shows "rows' = createDeployPlan now p rows" "dp_plan_id p = i"
    "\<exists>svs env issues. dp_status p = computePlanStatus (dp_missing p) svs env issues (traffic_undecided (dp_build p)) \<and>
       en_issues (dp_env p) = Some issues"
    "values_checked p"
proof -
  have 1: "rows' = createDeployPlan now p rows \<and> dp_plan_id p = i"
    using assms by (auto simp: createPlan_def assemblePlan_def Let_def split: prod.splits)
  then show "rows' = createDeployPlan now p rows" "dp_plan_id p = i" by simp_all
  have t: "traffic_undecided (dp_build p) \<longleftrightarrow>
      (case pp_trafficCandidates (cp_params f) of None \<Rightarrow> 0 | Some c \<Rightarrow> length c) > 1 \<and> \<not> truthy (pp_trafficService (cp_params f))"
    using assms traffic_more_than_one [of "pp_trafficCandidates (cp_params f)"]
    by (auto simp: createPlan_def assemblePlan_def traffic_undecided_def Let_def split: prod.splits)
  show "\<exists>svs env issues. dp_status p = computePlanStatus (dp_missing p) svs env issues (traffic_undecided (dp_build p)) \<and>
       en_issues (dp_env p) = Some issues"
    unfolding t using assms by (auto simp: createPlan_def assemblePlan_def Let_def split: prod.splits) (rule exI, rule exI, rule refl)
  show "values_checked p"
    using assms by (auto simp: createPlan_def assemblePlan_def values_checked_def trustedEnvKeySet_def Let_def split: prod.splits)
qed

lemma createImagePlan_spec:
  assumes "createImagePlan h i now opts name pid tid url rows = (p, rows')"
  shows "rows' = createDeployPlan now p rows" "dp_plan_id p = i"
    "\<exists>svs env issues. dp_status p = computePlanStatus (dp_missing p) svs env issues (traffic_undecided (dp_build p)) \<and>
       en_issues (dp_env p) = Some issues"
    "values_checked p"
proof -
  show "rows' = createDeployPlan now p rows" "dp_plan_id p = i"
    using assms by (auto simp: createImagePlan_def assemblePlan_def Let_def)
  have "dp_status p = computePlanStatus [] [] (co_envVars opts) (validatePlanEnvValues h [] (co_envVars opts) []) False"
    "en_issues (dp_env p) = Some (validatePlanEnvValues h [] (co_envVars opts) [])" "dp_missing p = []" "traffic_undecided (dp_build p) = False"
    using assms by (auto simp: createImagePlan_def assemblePlan_def traffic_undecided_def more_than_one_def Let_def)
  then show "\<exists>svs env issues. dp_status p = computePlanStatus (dp_missing p) svs env issues (traffic_undecided (dp_build p)) \<and>
       en_issues (dp_env p) = Some issues"
    by auto
  show "values_checked p"
    using assms by (auto simp: createImagePlan_def assemblePlan_def values_checked_def trustedEnvKeySet_def Let_def)
qed

text \<open>Writing a good plan with its status, and writing the status of a rollback.\<close>

lemma update_rows_ok:
  assumes "\<forall>r\<in>set rows. row_ok r" and "plan_ok p"
  shows "\<forall>r\<in>set (updateDeployPlan i (dp_status p) p err now rows). row_ok r"
  using assms by (auto simp: updateDeployPlan_def sql_update_def row_ok_def)

lemma rollback_rows_ok:
  assumes "\<forall>r\<in>set rows. row_ok r"
  shows "\<forall>r\<in>set (updateDeployPlanStatus i PRolled_back now rows). row_ok r"
  using assms by (auto simp: updateDeployPlanStatus_def sql_update_def row_ok_def)

lemma reassess_ok: "plan_ok (reassess h now merged)"
proof -
  let ?p = "reassess h now merged"
  obtain svs env issues where s: "dp_status ?p = computePlanStatus (dp_missing ?p) svs env issues (traffic_undecided (dp_build ?p))"
    "en_issues (dp_env ?p) = Some issues"
    by (simp add: reassess_def Let_def)
  have "values_checked ?p" unfolding values_checked_def by (rule exI [of _ h]) (simp add: reassess_def trustedEnvKeySet_def Let_def)
  then show ?thesis using fresh_plan_ok [OF s refl] by simp
qed

lemma create_rows_ok:
  assumes "\<forall>r\<in>set rows. row_ok r" and "rows' = createDeployPlan now p rows"
    and "\<exists>svs env issues. dp_status p = computePlanStatus (dp_missing p) svs env issues (traffic_undecided (dp_build p)) \<and>
       en_issues (dp_env p) = Some issues"
    and "values_checked p"
  shows "\<forall>r\<in>set rows'. row_ok r"
proof -
  have "plan_ok p" using assms(3,4) fresh_plan_ok by blast
  then show ?thesis using assms(1,2) by (auto simp: createDeployPlan_def row_ok_def)
qed

text \<open>A transition of an executing plan to its end keeps what the plan holds.\<close>

lemma transition_plan_ok:
  assumes "planTransition now p st err = Inr p'" and "st \<in> {PExecuting, PCompleted, PFailed}" and "settled p"
  shows "plan_ok p'" and "dp_status p' = st" and "settled p'"
proof -
  note t = planTransition_Inr [OF assms(1)]
  have "same_contents p' p" by (simp add: same_contents_def t)
  then show "settled p'" using assms(3) settled_same by blast
  then show "plan_ok p'" using assms(2) t by (auto simp: plan_ok_def)
  show "dp_status p' = st" by (rule t)
qed

subsection \<open>Executing\<close>

lemma prepare_ok:
  assumes "prepare w i d ap e = (Goes pd, e')" and "engine_ok e"
  shows "dp_status (pd_plan pd) = PReady \<and> settled (pd_plan pd)"
  using assms(1)
proof (cases rule: prepare_Goes)
  case (1 row)
  have "row_ok row" using assms(2) stored_mem [OF 1(1)] by (simp add: engine_ok_def)
  then have "settled (pr_plan row)" using 1(2) by (auto simp: row_ok_def plan_ok_def ready_to_execute_def)
  then show ?thesis using 1(3) settled_same [OF 1(4)] by simp
qed

lemma engine_ok_same: "eg_plans e' = eg_plans e \<Longrightarrow> eg_listeners e' = eg_listeners e \<Longrightarrow> engine_ok e' = engine_ok e"
  by (simp add: engine_ok_def)

lemma commit_ok:
  assumes "commit w i ls pd e = (Inr (executing, lock), e')" and "engine_ok e" and "settled (pd_plan pd)"
  shows "engine_ok e' \<and> dp_status executing = PExecuting \<and> settled executing"
proof -
  note c = commit_Inr [OF assms(1)]
  have ok: "plan_ok executing" "dp_status executing = PExecuting" "settled executing"
    using transition_plan_ok [OF c(1) _ assms(3)] by simp_all
  have "\<forall>r\<in>set (eg_plans e'). row_ok r"
    using update_rows_ok [of "eg_plans e" executing i None "wo_now w"] assms(2) ok by (simp add: c(2) engine_ok_def)
  then show ?thesis using assms(2) ok by (simp add: engine_ok_def c(3))
qed

lemma launch_ok:
  assumes "launch w i d tr pd executing lock e = (r, e')" and "engine_ok e" and "dp_status executing = PExecuting" and "settled executing"
  shows "engine_ok e'"
proof -
  have failed: "\<forall>r\<in>set (updateDeployPlan i PFailed p' err now (eg_plans e)). row_ok r"
    if "planTransition (wo_now w) executing PFailed err' = Inr p'" for p' err err' now
    using transition_plan_ok [OF that _ assms(4)] update_rows_ok [of "eg_plans e" p' i err now] assms(2) by (simp add: engine_ok_def)
  from assms(1,3) show ?thesis
  proof (cases rule: launch_cases)
    case (running sr)
    then show ?thesis using assms(2-4) by (simp add: engine_ok_def listener_ok_def)
  next
    case (preflight sr msg p')
    then show ?thesis using failed [OF preflight(4)] assms(2-4) by (simp add: engine_ok_def listener_ok_def)
  next
    case (thrown msg p')
    then show ?thesis using failed [OF thrown(2)] assms(2) by (simp add: engine_ok_def)
  qed
qed

subsection \<open>Events\<close>

text \<open>A handler writes its own plan once, completed or failed, and touches no listener.\<close>

lemma handle_plans:
  assumes "dp_status (li_plan l) = PExecuting"
  obtains st p' err where "st \<in> {PCompleted, PFailed}" "dp_status p' = st" "same_contents p' (li_plan l)"
    "eg_plans (handle w ev l e) = updateDeployPlan (li_planId l) st p' err (wo_now w) (eg_plans e)"
proof -
  note result = that
  have fin: thesis if h: "handle w ev l e = finish w (li_planId l) (li_plan l) st err f e0" and e0: "eg_plans e0 = eg_plans e"
    and st: "st = PCompleted \<or> st = PFailed" and f: "\<And>p. dp_status (f p) = dp_status p \<and> same_contents (f p) p" for st err f e0
  proof -
    obtain p' where p': "planTransition (wo_now w) (li_plan l) st err = Inr p'"
      "eg_plans (finish w (li_planId l) (li_plan l) st err f e0) = updateDeployPlan (li_planId l) st (f p') err (wo_now w) (eg_plans e0)"
      using finish_plans [OF assms st] by blast
    note t = planTransition_Inr [OF p'(1)]
    have "same_contents p' (li_plan l)" by (simp add: same_contents_def t)
    then have "same_contents (f p') (li_plan l)" using f same_contents_trans by blast
    then show thesis using result [of st "f p'" err] f [of p'] st t(2) p'(2) h e0 by auto
  qed
  show thesis
  proof (cases ev)
    case (Succeeded pid)
    show thesis
    proof (cases "li_attach l")
      case None
      show thesis by (rule fin [of PCompleted None "\<lambda>p. p" e]) (simp_all add: handle_def Succeeded finishSuccess_def None same_contents_def)
    next
      case (Some aid)
      obtain out db' where a: "wo_attach w (projectIdToDeployableServiceId (li_started l)) aid (eg_db e) = (out, db')" by fastforce
      show thesis
      proof (cases out)
        case (Inl msg)
        show thesis
          by (rule fin [of PFailed "Some (''Deploy succeeded but target attach failed: '' @ msg)" "\<lambda>p. p" "e\<lparr>eg_db := db'\<rparr>"])
            (simp_all add: handle_def Succeeded finishSuccess_def Some a Inl same_contents_def)
      next
        case (Inr moved)
        show thesis
          by (rule fin [of PCompleted None "\<lambda>p. p\<lparr>dp_project_id := Some moved, dp_target_project_id := Some moved\<rparr>" "e\<lparr>eg_db := db'\<rparr>"])
            (simp_all add: handle_def Succeeded finishSuccess_def Some a Inr same_contents_def)
      qed
    qed
  next
    case (Did_fail pid err)
    show thesis
      by (rule fin [of PFailed "Some (if truthy err then the err else ''Deploy failed'')" "\<lambda>p. p" e])
        (simp_all add: handle_def Did_fail finishFailure_def same_contents_def)
  qed
qed

lemma handle_listeners [simp]: "eg_listeners (handle w ev l e) = eg_listeners e"
  by (simp add: handle_def finishSuccess_def finishFailure_def split: deploy_event.splits option.splits prod.splits sum.splits)

lemma handle_ok:
  assumes "listener_ok l" and "engine_ok e"
  shows "engine_ok (handle w ev l e)"
proof -
  obtain st p' err where p': "st \<in> {PCompleted, PFailed}" "dp_status p' = st" "same_contents p' (li_plan l)"
    "eg_plans (handle w ev l e) = updateDeployPlan (li_planId l) st p' err (wo_now w) (eg_plans e)"
    using handle_plans assms(1) unfolding listener_ok_def by metis
  have "plan_ok p'" using p' assms(1) settled_same [OF p'(3)] by (auto simp: plan_ok_def listener_ok_def)
  then show ?thesis using update_rows_ok [of "eg_plans e" p' "li_planId l" err "wo_now w"] assms(2) p'(2,4) by (simp add: engine_ok_def)
qed

lemma close_listener_ok: "engine_ok e \<Longrightarrow> engine_ok (close_listener w l e)"
  by (auto simp: engine_ok_def close_listener_def dest: subsetD [OF set_remove1_subset])

section \<open>Every step keeps the invariant\<close>

lemma activities_rest: "Ball (set acts) activity_ok \<Longrightarrow> Ball (set (remove1 b acts)) activity_ok"
  using set_remove1_subset by fastforce

lemma plan_step_inv: "plan_step y z \<Longrightarrow> plan_inv y \<Longrightarrow> plan_inv z"
proof (induction rule: plan_step.induct)
  case (create e i acts h now opts f)
  obtain p rows' where p: "createPlan h i now opts f (eg_plans e) = (p, rows')" by fastforce
  from create.prems show ?case
    using create_rows_ok [OF _ createPlan_spec(1) [OF p] createPlan_spec(3,4) [OF p]] by (simp add: plan_inv_def engine_ok_def p)
next
  case (create_image e i acts h now opts name pid tid url)
  obtain p rows' where p: "createImagePlan h i now opts name pid tid url (eg_plans e) = (p, rows')" by fastforce
  from create_image.prems show ?case
    using create_rows_ok [OF _ createImagePlan_spec(1) [OF p] createImagePlan_spec(3,4) [OF p]] by (simp add: plan_inv_def engine_ok_def p)
next
  case (update_read e i row acts h now merged)
  then show ?case by (simp add: plan_inv_def reassess_ok)
next
  case (update_write i p acts e now)
  then have "plan_ok p" by (fastforce simp: plan_inv_def)
  with update_write.prems show ?case
    using update_rows_ok [of "eg_plans e" p i None now] activities_rest [of acts "Storing i p"] by (simp add: plan_inv_def engine_ok_def)
next
  case (prepare w i d ap e pd e' acts ls tr)
  then show ?case using prepare_ok [OF prepare.hyps] prepare_other [OF prepare.hyps] engine_ok_same [of e' e] by (simp add: plan_inv_def)
next
  case (refused w i d ap e out e' acts)
  then show ?case using prepare_other [OF refused.hyps] engine_ok_same [of e' e] by (simp add: plan_inv_def)
next
  case (commit i d ls tr pd acts w e executing lock e')
  then have "activity_ok (Preparing i d ls tr pd)" by (simp only: plan_inv_def snd_conv)
  then show ?case using commit_ok [OF commit.hyps(2)] commit.prems activities_rest [of acts "Preparing i d ls tr pd"] by (simp add: plan_inv_def)
next
  case (locked i d ls tr pd acts w e err e')
  then show ?case using commit_Inl [OF locked.hyps(2)] engine_ok_same [of e' e] locked.prems activities_rest [of acts "Preparing i d ls tr pd"] by (simp add: plan_inv_def)
next
  case (launch i d tr pd executing lock acts w e r e')
  then have "activity_ok (Committed i d tr pd executing lock)" by (simp only: plan_inv_def snd_conv)
  then show ?case using launch_ok [OF launch.hyps(2)] launch.prems activities_rest [of acts "Committed i d tr pd executing lock"] by (simp add: plan_inv_def)
next
  case (event e acts ev)
  then show ?case by (auto simp: plan_inv_def engine_ok_def emit_def)
next
  case (handled ev l acts e w)
  then have "activity_ok (Handling ev l)" by (simp only: plan_inv_def snd_conv)
  then show ?case using handle_ok handled.prems activities_rest [of acts "Handling ev l"] by (simp add: plan_inv_def)
next
  case (closed l acts e w)
  then show ?case using close_listener_ok activities_rest [of acts "Closing l"] by (simp add: plan_inv_def)
next
  case (rolled_back e acts i now)
  then show ?case using rollback_rows_ok [of "eg_plans e" i now] by (simp add: plan_inv_def engine_ok_def)
next
  case (crash e acts)
  then show ?case by (simp add: plan_inv_def engine_ok_def)
next
  case (other e acts db)
  then show ?case by (simp add: plan_inv_def engine_ok_def)
qed

lemma plan_reachable_inv: "plan_reachable y \<Longrightarrow> plan_inv y"
proof (induction rule: plan_reachable.induct)
  case (start db)
  show ?case by (simp add: plan_inv_def engine_ok_def)
next
  case (step y z)
  then show ?case by (blast intro: plan_step_inv)
qed

lemma plan_run_reachable: "plan_step\<^sup>*\<^sup>* y z \<Longrightarrow> plan_reachable y \<Longrightarrow> plan_reachable z"
  by (induction rule: rtranclp_induct) (auto intro: plan_reachable.step)

section \<open>The sequential operations are runs\<close>

lemma engineUpdatePlan_is_run:
  assumes "engineUpdatePlan h i u now (eg_plans e) = (res, rows')"
  shows "plan_step\<^sup>*\<^sup>* (e, acts) (e\<lparr>eg_plans := rows'\<rparr>, acts)"
proof (cases res)
  case (Inl err)
  then have "rows' = eg_plans e" using assms by (auto simp: engineUpdatePlan_def Let_def split: option.splits if_splits)
  then show ?thesis by simp
next
  case (Inr p)
  with assms obtain row where row: "stored e i = Some row" "dp_status (pr_plan row) \<notin> {PExecuting, PCompleted, PFailed, PRolled_back}"
    and p: "p = reassess h now (changed_plan u (pr_plan row))" and rows': "rows' = updateDeployPlan i (dp_status p) p None now (eg_plans e)"
    using updatePlan_result by metis
  have "plan_step (e, acts) (e, Storing i p # acts)" unfolding p by (rule plan_step.update_read [OF row])
  moreover have "plan_step (e, Storing i p # acts) (e\<lparr>eg_plans := rows'\<rparr>, acts)"
    using plan_step.update_write [of i p "Storing i p # acts" e now] by (simp add: rows')
  ultimately show ?thesis by (meson converse_rtranclp_into_rtranclp r_into_rtranclp)
qed

lemma executePlan_is_run:
  assumes "executePlan w i d ls tr ap e = (res, e')"
  shows "plan_step\<^sup>*\<^sup>* (e, acts) (e', acts)"
proof -
  obtain out e1 where p: "prepare w i d ap e = (out, e1)" by fastforce
  show ?thesis
  proof (cases "\<exists>pd. out = Goes pd")
    case False
    then have "e' = e1" using assms p by (cases out) (simp_all add: executePlan_def)
    then show ?thesis using plan_step.refused [OF p] by (simp add: r_into_rtranclp)
  next
    case True
    then obtain pd where pd: "out = Goes pd" by blast
    obtain out2 e2 where c: "commit w i ls pd e1 = (out2, e2)" by fastforce
    have 1: "plan_step (e, acts) (e1, Preparing i d ls tr pd # acts)" by (rule plan_step.prepare [OF p [unfolded pd]])
    show ?thesis
    proof (cases out2)
      case (Inl err)
      have "plan_step (e1, Preparing i d ls tr pd # acts) (e2, acts)"
        using plan_step.locked [of i d ls tr pd "Preparing i d ls tr pd # acts" w e1 err e2] c Inl by simp
      moreover have "e' = e2" using assms p pd c Inl by (simp add: executePlan_def)
      ultimately show ?thesis using 1 by (meson converse_rtranclp_into_rtranclp r_into_rtranclp)
    next
      case (Inr x)
      obtain executing lock where x: "x = (executing, lock)" by fastforce
      let ?c = "Committed i d tr pd executing lock"
      obtain r e3 where l: "launch w i d tr pd executing lock e2 = (r, e3)" by fastforce
      have 2: "plan_step (e1, Preparing i d ls tr pd # acts) (e2, ?c # acts)"
        using plan_step.commit [of i d ls tr pd "Preparing i d ls tr pd # acts" w e1 executing lock e2] c Inr x by simp
      have 3: "plan_step (e2, ?c # acts) (e3, acts)" using plan_step.launch [OF _ l, of "?c # acts"] by simp
      have "e' = e3" using assms p pd c Inr x l by (simp add: executePlan_def)
      then show ?thesis using 1 2 3 by (meson converse_rtranclp_into_rtranclp r_into_rtranclp)
    qed
  qed
qed

section \<open>Guarantees\<close>

definition completed :: engine where
  "completed = (case eg_listeners executed of [] \<Rightarrow> executed | l # _ \<Rightarrow> handle example_world (Succeeded ''p9'') l executed)"

definition undone :: engine where
  "undone = completed\<lparr>eg_plans := updateDeployPlanStatus ''plan_1'' PRolled_back 9 (eg_plans completed)\<rparr>"

lemma example_listener: "\<exists>l. eg_listeners executed = [l] \<and> li_started l = ''p9''"
proof -
  have "(case eg_listeners executed of [l] \<Rightarrow> li_started l = ''p9'' | _ \<Rightarrow> False)" by code_simp
  then show ?thesis by (auto split: list.splits)
qed

lemma example_reachable: "plan_reachable (planned, [])" "plan_reachable (executed, [])" "\<exists>acts. plan_reachable (undone, acts)"
proof -
  have "plan_reachable (empty_engine, [])" unfolding empty_engine_def by (rule plan_reachable.start)
  moreover have "plan_step (empty_engine, []) (planned, [])"
    unfolding planned_def by (rule plan_step.create) (simp add: empty_engine_def getDeployPlan_def)
  ultimately show 1: "plan_reachable (planned, [])" by (rule plan_reachable.step)
  obtain res where "executePlan example_world ''plan_1'' None None None None planned = (res, executed)"
    unfolding executed_def by (metis prod.collapse)
  then show 2: "plan_reachable (executed, [])" using plan_run_reachable [OF executePlan_is_run 1] by blast
  obtain l where l: "eg_listeners executed = [l]" "li_started l = ''p9''" using example_listener by blast
  have "plan_step (executed, []) (executed, [Handling (Succeeded ''p9'') l])"
    using plan_step.event [of executed "[]" "Succeeded ''p9''"] by (simp add: emit_def l)
  then have 3: "plan_reachable (executed, [Handling (Succeeded ''p9'') l])" by (rule plan_reachable.step [OF 2])
  have "plan_step (executed, [Handling (Succeeded ''p9'') l]) (completed, [Closing l])"
    using plan_step.handled [of "Succeeded ''p9''" l "[Handling (Succeeded ''p9'') l]" executed example_world] by (simp add: completed_def l)
  then have "plan_reachable (completed, [Closing l])" by (rule plan_reachable.step [OF 3])
  moreover have "plan_step (completed, [Closing l]) (undone, [Closing l])" unfolding undone_def by (rule plan_step.rolled_back)
  ultimately have "plan_reachable (undone, [Closing l])" by (rule plan_reachable.step)
  then show "\<exists>acts. plan_reachable (undone, acts)" by blast
qed

lemma undone_status: "map_option (\<lambda>r. (pr_status r, dp_status (pr_plan r))) (stored undone ''plan_1'') = Some (PRolled_back, PCompleted)"
  by code_simp

text \<open>
  C19. In every interleaving of creations, updates, executions, events, crashes and rollbacks, a stored plan that is ready, waits for an approval, is
  executing or has finished lacks no variable, has no failing value and knows which service takes the traffic; and the status column is the
  status of the plan, unless the rollback watcher set it to rolled back.
\<close>

theorem stored_plans_ok:
  assumes "plan_reachable (e, acts)" and "stored e q = Some r"
  shows "(pr_status r = dp_status (pr_plan r) \<or> pr_status r = PRolled_back) \<and>
    dp_status (pr_plan r) \<in> {PNeeds_input, PReady, PNeeds_approval, PExecuting, PCompleted, PFailed} \<and>
    (dp_status (pr_plan r) = PNeeds_input \<or> settled (pr_plan r))"
  using plan_reachable_inv [OF assms(1)] stored_mem [OF assms(2)] by (auto simp: plan_inv_def engine_ok_def row_ok_def plan_ok_def)

theorem stored_plans_ok_witness: "\<exists>r. stored undone ''plan_1'' = Some r \<and> pr_status r = PRolled_back \<and> settled (pr_plan r)"
proof -
  obtain acts where a: "plan_reachable (undone, acts)" using example_reachable(3) by blast
  obtain r where r: "stored undone ''plan_1'' = Some r" "pr_status r = PRolled_back" "dp_status (pr_plan r) = PCompleted"
    using undone_status by auto
  then show ?thesis using stored_plans_ok [OF a r(1)] by simp
qed

text \<open>
  C22. In every interleaving, a stored plan that is ready, waits for an approval, is executing or has finished provides no empty value and no
  placeholder; and every variable it provides that needs a trusted source was marked as coming from one. A variable needs one when its name is that of an
  external provider and its requirement is inferred from the name as a URL, a host, a secret or a prefix, unless a requirement detected in the repository says
  otherwise. The code does not ask it of integers (\<open>SMTP_PORT\<close>) and of names without an inferred requirement (\<open>AWS_REGION\<close>).
\<close>

theorem settled_plan_values:
  assumes "plan_reachable (e, acts)" and "stored e q = Some r" and "dp_status (pr_plan r) \<noteq> PNeeds_input"
    and "(k, v) \<in> set (en_provided (dp_env (pr_plan r)))"
  shows "js_trim v \<noteq> [] \<and> \<not> matches PLACEHOLDER_PATTERN (js_trim v) \<and>
    (requiresTrustedExternalSource k \<and> (\<exists>d. inferEnvValueRequirement k = Some d \<and> rq_kind d \<notin> {RK_int, RK_minlen}) \<and>
       (\<forall>x\<in>set (en_detected (dp_env (pr_plan r))). \<forall>d. ee_requirement x = Some d \<longrightarrow> rq_trusted d \<noteq> Some False)
     \<longrightarrow> k \<in> set (trustedEnvKeySet (dp_env (pr_plan r))))"
proof -
  let ?env = "dp_env (pr_plan r)"
  have "settled (pr_plan r)"
    using plan_reachable_inv [OF assms(1)] stored_mem [OF assms(2)] assms(3) by (auto simp: plan_inv_def engine_ok_def row_ok_def plan_ok_def)
  then obtain h where h: "\<not> list_ex ei_fail (validatePlanEnvValues h (en_detected ?env) (en_provided ?env) (trustedEnvKeySet ?env))"
    by (auto simp: settled_def values_checked_def given_or_def)
  have ok: "passes h k v (requirement_of (en_detected ?env) k) (Some (k \<in> set (trustedEnvKeySet ?env)))"
    using h [unfolded validatePlanEnvValues_fail_iff] assms(4) unfolding passes_def list_ex_iff by blast
  have "k \<in> set (trustedEnvKeySet ?env)"
    if t: "requiresTrustedExternalSource k" and i: "inferEnvValueRequirement k = Some d" "rq_kind d \<notin> {RK_int, RK_minlen}"
      and n: "\<forall>x\<in>set (en_detected ?env). \<forall>d. ee_requirement x = Some d \<longrightarrow> rq_trusted d \<noteq> Some False" for d
  proof -
    have "rq_trusted d \<noteq> Some False" if "Option.bind (row_of ee_key k (rev (en_detected ?env))) ee_requirement = Some d" for d
      using that n by (auto simp: bind_eq_Some_conv dest: row_of_key)
    from merge_trusted [OF t i this] obtain m where m: "requirement_of (en_detected ?env) k = Some m" "rq_trusted m = Some True"
      unfolding requirement_of_def by blast
    then show ?thesis using passes_trusted [OF _ m(2)] ok by fastforce
  qed
  then show ?thesis using passes_not_empty [OF ok] by blast
qed

definition stripe_engine :: engine where
  "stripe_engine = planned\<lparr>eg_plans := snd (engineUpdatePlan no_hosts ''plan_1'' stripe_updates 1 example_rows)\<rparr>"

theorem settled_plan_values_witness:
  "\<exists>r. stored stripe_engine ''plan_1'' = Some r \<and> ''STRIPE_API_KEY'' \<in> set (trustedEnvKeySet (dp_env (pr_plan r)))"
proof -
  obtain p rows' where u: "engineUpdatePlan no_hosts ''plan_1'' stripe_updates 1 example_rows = (Inr p, rows')" and st: "dp_status p = PReady"
    and v: "(''STRIPE_API_KEY'', ''sk_9'') \<in> set (en_provided (dp_env p))" and d: "list_all (\<lambda>e. ee_requirement e = None) (en_detected (dp_env p))"
    using stripe_plan_ready by (auto split: prod.splits sum.splits)
  have rows: "eg_plans planned = example_rows" by (simp add: planned_def example_rows_def empty_engine_def)
  have e: "stripe_engine = planned\<lparr>eg_plans := rows'\<rparr>" by (simp add: stripe_engine_def u)
  have reach: "plan_reachable (stripe_engine, [])"
    using plan_run_reachable [OF engineUpdatePlan_is_run [of no_hosts "''plan_1''" stripe_updates 1 planned "Inr p" rows' "[]"] example_reachable(1)] u
    by (simp add: rows e)
  obtain row where "getDeployPlan example_rows ''plan_1'' = Some row" "rows' = updateDeployPlan ''plan_1'' (dp_status p) p None 1 example_rows"
    using updatePlan_result [OF u] by metis
  then obtain r where r: "stored stripe_engine ''plan_1'' = Some r" "pr_plan r = p"
    by (simp add: e getDeployPlan_def row_updateDeployPlan)
  obtain x where x: "inferEnvValueRequirement ''STRIPE_API_KEY'' = Some x" "rq_kind x \<notin> {RK_int, RK_minlen}"
    using stripe_key by (auto split: option.splits)
  have st': "dp_status (pr_plan r) \<noteq> PNeeds_input" unfolding r(2) st by simp
  have d': "\<forall>x\<in>set (en_detected (dp_env (pr_plan r))). \<forall>d. ee_requirement x = Some d \<longrightarrow> rq_trusted d \<noteq> Some False"
    using d unfolding r(2) list_all_iff by (metis option.distinct(1))
  note c = settled_plan_values [OF reach r(1) st' v [folded r(2)]]
  have "''STRIPE_API_KEY'' \<in> set (trustedEnvKeySet (dp_env (pr_plan r)))"
    using c stripe_key x d' by blast
  with r(1) show ?thesis by blast
qed






section \<open>Where the guarantees end\<close>

text \<open>
  The stored transition does not look at the stored status: what was prepared commits in every later state, if no lock is in the way. The lock is taken only when
  the target project exists already.
\<close>

theorem commit_ignores_stored_status:
  assumes "prepare w i d ap e = (Goes pd, e1)" and "pd_target pd = None"
  shows "\<exists>x e3. commit w' i ls pd e2 = (Inr x, e3)"
proof -
  have "dp_status (pd_plan pd) = PReady" using assms(1) by (rule prepare_Goes)
  then have "\<exists>p'. planTransition (wo_now w') (pd_plan pd) PExecuting None = Inr p'"
    by (intro planTransition_ok) (simp add: canTransition_def)
  then show ?thesis using assms(2) by (auto simp: commit_def acquirePlanDeployLock_def persistExecutingPlan_def)
qed

text \<open>So a plan is launched twice when the second execution has loaded it before the first one stores the transition.\<close>

definition launched_twice :: "world \<Rightarrow> string \<Rightarrow> engine \<Rightarrow> bool" where
  "launched_twice w i e =
     (case (prepare w i None None e) of
        (Goes pd1, e1) \<Rightarrow>
          (case prepare w i None None e1 of
             (Goes pd2, e2) \<Rightarrow>
               (case commit w i (Some ''s1'') pd1 e2 of
                  (Inr (x1, l1), e3) \<Rightarrow>
                    (case commit w i (Some ''s2'') pd2 (snd (launch w i None None pd1 x1 l1 e3)) of
                       (Inr (x2, l2), e5) \<Rightarrow>
                         rs_status (fst (launch w i None None pd1 x1 l1 e3)) = Result_building
                         \<and> rs_status (fst (launch w i None None pd2 x2 l2 e5)) = Result_building
                     | _ \<Rightarrow> False)
                | _ \<Rightarrow> False)
           | _ \<Rightarrow> False)
      | _ \<Rightarrow> False)"

theorem plan_launched_twice: "launched_twice example_world ''plan_1'' planned"
  by code_simp

text \<open>
  Two events of one deployment whose handlers overlap: both listeners are still registered, both write from the plan as it was when the execution started, and the
  plan that is completed fails afterwards.
\<close>

theorem completed_plan_fails_again:
  "(case emit (Succeeded ''p9'') executed of
      [l] \<Rightarrow> emit (Did_fail ''p9'' None) (handle example_world (Succeeded ''p9'') l executed) = [l] \<and>
        map_option (\<lambda>r. dp_status (pr_plan r)) (stored (handle example_world (Succeeded ''p9'') l executed) ''plan_1'') = Some PCompleted \<and>
        map_option (\<lambda>r. dp_status (pr_plan r))
          (stored (handle example_world (Did_fail ''p9'' None) l (handle example_world (Succeeded ''p9'') l executed)) ''plan_1'') = Some PFailed
    | _ \<Rightarrow> False)"
  by code_simp

text \<open>
  A dependency that the plan cannot create (RabbitMQ) and whose variable is listed as optional: the plan is ready, and its execution fails for want of the variable.
\<close>

definition rabbit_facts :: detected_facts where
  "rabbit_facts = example_facts
     \<lparr>cp_services := [\<lparr>ps_type = ''rabbitmq'', ps_action = ACreate, ps_name = None, ps_service_id = None, ps_connect_via = ''RABBITMQ_URL'',
        ps_resolution = Some Needs_user_input, ps_reason = None, ps_approval = Some Not_auto_creatable\<rparr>],
      cp_detected := [\<lparr>ee_key = ''RABBITMQ_URL'', ee_source = ''.env.example'', ee_required = False, ee_default = None, ee_requirement = None\<rparr>]\<rparr>"

definition rabbit_planned :: engine where
  "rabbit_planned = empty_engine\<lparr>eg_plans := snd (createPlan no_hosts ''plan_1'' 0 example_options rabbit_facts [])\<rparr>"

theorem ready_plan_cannot_run:
  "map_option (\<lambda>r. dp_status (pr_plan r)) (stored rabbit_planned ''plan_1'') = Some PReady \<and>
   (case executePlan example_world ''plan_1'' None None None None rabbit_planned of
      (Inr r, _) \<Rightarrow> rs_status r = Result_failed
        \<and> rs_error r = Some ''Database/Cache resource rabbitmq requires an explicit RABBITMQ_URL value before deploy.''
    | _ \<Rightarrow> False)"
  by code_simp

end
