(* ===== verification/Health_Probe.thy ===== *)
theory Health_Probe
  imports Project_Store
begin

text \<open>
  Health of a deployed service.

  \<^item> \<open>resolveMonitoringProfile\<close> (\<open>src/src/health/profile-resolver.ts\<close>): how a service is watched.
  \<^item> The probe runner (\<open>src/src/health/probe-runner.ts\<close>) with its strategies
    (\<open>src/src/health/strategies/\<close>): what one probe asks and how it reads the answers. What Docker,
    the HTTP server, the socket and the command answer to one attempt are the fields of
    \<open>probe_answers\<close>; \<open>runProbe\<close> takes the answers of each attempt.
  \<^item> \<open>src/src/health/compose-runtime.ts\<close>: the status of a Compose stack from those of its children.

  The lemmas say when a probe is healthy, and that the aggregate status of a stack is the worst of
  its children.
\<close>

section \<open>Monitoring profile\<close>

datatype docker_health_policy = Prefer | Ignore

record health_config =
  hc_strategy :: health_check_strategy
  hc_path :: "string option"
  hc_port :: "int option"
  hc_command :: "string list option"
  hc_timeoutMs :: int
  hc_intervalMs :: int
  hc_failureThreshold :: int
  hc_dockerHealthPolicy :: docker_health_policy

record monitoring_profile =
  mp_projectType :: project_type
  mp_exposeViaTraefik :: bool
  mp_health :: health_config

definition default_health :: "health_check_strategy \<Rightarrow> string option \<Rightarrow> health_config" where
  "default_health strategy path = \<lparr>hc_strategy = strategy, hc_path = path, hc_port = None, hc_command = None,
     hc_timeoutMs = 5000, hc_intervalMs = 30000, hc_failureThreshold = 3, hc_dockerHealthPolicy = Prefer\<rparr>"

definition resolveMonitoringProfile :: "project_row \<Rightarrow> service_row option \<Rightarrow> monitoring_profile" where
  "resolveMonitoringProfile project deployable =
     (let view = serviceViewFromRows project deployable;
          runtimeRole = (case deployable of Some s \<Rightarrow> s_runtime_role s | None \<Rightarrow> RApplication)
      in if runtimeRole = RJob \<or> runtimeRole = RResource
         then \<lparr>mp_projectType = TWorker, mp_exposeViaTraefik = False, mp_health = default_health HNone None\<rparr>
         else let projectType = (case v_projectType view of Some t \<Rightarrow> t | None \<Rightarrow> TWeb);
                  strategy = (case v_healthCheckStrategy view of Some s \<Rightarrow> s
                              | None \<Rightarrow> (case projectType of TWeb \<Rightarrow> HHttp | TWorker \<Rightarrow> HNone));
                  path0 = (case v_healthCheckPath view of Some p \<Rightarrow> p | None \<Rightarrow> ''/'');
                  path = (if path0 \<noteq> [] \<and> \<not> starts_with ''/'' path0 then ''/'' @ path0 else path0)
              in \<lparr>mp_projectType = projectType, mp_exposeViaTraefik = (projectType = TWeb),
                  mp_health = default_health strategy (if strategy = HHttp then Some path else None)\<rparr>)"

section \<open>One probe\<close>

datatype probe_source = Src_docker | Src_http | Src_tcp | Src_exec | Src_none

record probe_result =
  pr_healthy :: bool
  pr_source :: probe_source
  pr_error :: "string option"
  pr_responseTimeMs :: "int option"

text \<open>What the code reads of Docker's inspection of a container.\<close>

record inspection =
  in_running :: bool
  in_restarting :: bool
  in_exitCode :: "int option"
  in_health :: "string option"
  in_restartCount :: "int option"

datatype tcp_event = Connected | Tcp_timeout | Socket_error "string option" string

record probe_answers =
  pa_inspect :: "string + inspection"
  pa_fetch :: "string \<Rightarrow> string + (bool \<times> int)"
  pa_connect :: "string \<Rightarrow> int \<Rightarrow> tcp_event"
  pa_exec :: "string list \<Rightarrow> string + int"
  pa_ms :: int

definition isTruthyEnv :: "string option \<Rightarrow> bool" where
  "isTruthyEnv v = (case v of None \<Rightarrow> False | Some s \<Rightarrow> lower (js_trim s) \<in> {''1'', ''true'', ''yes''})"

definition resolveContainerHost :: "(string \<Rightarrow> string option) \<Rightarrow> string" where
  "resolveContainerHost penv =
     (if isTruthyEnv (penv ''OPENLANDER_CONTAINERIZED'')
      then (case map_option js_trim (penv ''OPENLANDER_CONTAINER_HOST'') of
              Some configuredHost \<Rightarrow> if configuredHost \<noteq> [] then configuredHost else ''host.docker.internal''
            | None \<Rightarrow> ''host.docker.internal'')
      else ''localhost'')"

definition resolveContainerUrl :: "(string \<Rightarrow> string option) \<Rightarrow> int \<Rightarrow> string" where
  "resolveContainerUrl penv port = ''http://'' @ resolveContainerHost penv @ '':'' @ show_int port"

definition httpProbe :: "(string \<Rightarrow> string option) \<Rightarrow> health_config \<Rightarrow> int \<Rightarrow> probe_answers \<Rightarrow> probe_result" where
  "httpProbe penv config port ans =
     (let path = (case hc_path config of Some p \<Rightarrow> p | None \<Rightarrow> ''/'')
      in case pa_fetch ans (resolveContainerUrl penv port @ path) of
           Inl errorMessage \<Rightarrow> \<lparr>pr_healthy = False, pr_source = Src_http, pr_error = Some errorMessage, pr_responseTimeMs = None\<rparr>
         | Inr (ok, status) \<Rightarrow>
             if ok then \<lparr>pr_healthy = True, pr_source = Src_http, pr_error = None, pr_responseTimeMs = Some (pa_ms ans)\<rparr>
             else \<lparr>pr_healthy = False, pr_source = Src_http, pr_error = Some (''HTTP '' @ show_int status),
                   pr_responseTimeMs = Some (pa_ms ans)\<rparr>)"

definition tcpProbe :: "(string \<Rightarrow> string option) \<Rightarrow> health_config \<Rightarrow> int \<Rightarrow> probe_answers \<Rightarrow> probe_result" where
  "tcpProbe penv config port ans =
     (case pa_connect ans (resolveContainerHost penv) port of
        Connected \<Rightarrow> \<lparr>pr_healthy = True, pr_source = Src_tcp, pr_error = None, pr_responseTimeMs = Some (pa_ms ans)\<rparr>
      | Tcp_timeout \<Rightarrow> \<lparr>pr_healthy = False, pr_source = Src_tcp, pr_error = Some ''TCP connection timed out'', pr_responseTimeMs = None\<rparr>
      | Socket_error code message \<Rightarrow> \<lparr>pr_healthy = False, pr_source = Src_tcp,
          pr_error = Some (if truthy code then the code else message), pr_responseTimeMs = None\<rparr>)"

definition execProbe :: "health_config \<Rightarrow> probe_answers \<Rightarrow> probe_result" where
  "execProbe config ans =
     (case hc_command config of
        Some (c # cs) \<Rightarrow>
          (case pa_exec ans (c # cs) of
             Inl message \<Rightarrow> \<lparr>pr_healthy = False, pr_source = Src_exec, pr_error = Some message, pr_responseTimeMs = None\<rparr>
           | Inr exitCode \<Rightarrow>
               if exitCode = 0 then \<lparr>pr_healthy = True, pr_source = Src_exec, pr_error = None, pr_responseTimeMs = Some (pa_ms ans)\<rparr>
               else \<lparr>pr_healthy = False, pr_source = Src_exec,
                     pr_error = Some (''exec probe failed with exit code '' @ show_int exitCode), pr_responseTimeMs = None\<rparr>)
      | _ \<Rightarrow> \<lparr>pr_healthy = True, pr_source = Src_none, pr_error = None, pr_responseTimeMs = None\<rparr>)"

definition isValidProbePort :: "int option \<Rightarrow> bool" where
  "isValidProbePort port = (case port of Some p \<Rightarrow> p > 0 \<and> p \<le> 65535 | None \<Rightarrow> False)"

text \<open>\<open>String(state.ExitCode)\<close>.\<close>

definition show_exit_code :: "int option \<Rightarrow> string" where
  "show_exit_code code = (case code of Some c \<Rightarrow> show_int c | None \<Rightarrow> ''undefined'')"

definition containerStateProbeResult :: "inspection \<Rightarrow> probe_result" where
  "containerStateProbeResult state =
     (if in_restarting state
      then \<lparr>pr_healthy = False, pr_source = Src_docker,
            pr_error = Some (''Container is restarting (exit code: '' @ show_exit_code (in_exitCode state) @ '')''), pr_responseTimeMs = None\<rparr>
      else if in_running state
      then \<lparr>pr_healthy = True, pr_source = Src_docker, pr_error = None, pr_responseTimeMs = None\<rparr>
      else \<lparr>pr_healthy = False, pr_source = Src_docker, pr_error = Some ''Container is not running'', pr_responseTimeMs = None\<rparr>)"

definition portlessProbeResult :: "health_check_strategy \<Rightarrow> inspection option \<Rightarrow> probe_result" where
  "portlessProbeResult strategy inspectedState =
     (case inspectedState of
        Some st \<Rightarrow> containerStateProbeResult st
      | None \<Rightarrow> \<lparr>pr_healthy = False, pr_source = (if strategy = HHttp then Src_http else Src_tcp),
          pr_error = Some (''No assigned port available for '' @ (if strategy = HHttp then ''HTTP'' else ''TCP'') @ '' health probe''),
          pr_responseTimeMs = None\<rparr>)"

text \<open>The part of the runner behind Docker's own verdict.\<close>

definition strategyProbe :: "(string \<Rightarrow> string option) \<Rightarrow> health_config \<Rightarrow> int option \<Rightarrow> inspection option \<Rightarrow> probe_answers \<Rightarrow> probe_result" where
  "strategyProbe penv config assignedPort inspectedState ans =
     (let port = coalesce (hc_port config) assignedPort
      in case hc_strategy config of
           HHttp \<Rightarrow> if \<not> isValidProbePort port then portlessProbeResult HHttp inspectedState else httpProbe penv config (the port) ans
         | HTcp \<Rightarrow> if \<not> isValidProbePort port then portlessProbeResult HTcp inspectedState else tcpProbe penv config (the port) ans
         | HExec \<Rightarrow> execProbe config ans
         | HNone \<Rightarrow> \<lparr>pr_healthy = True, pr_source = Src_none, pr_error = None, pr_responseTimeMs = None\<rparr>)"

text \<open>\<open>Inl\<close>: the inspection threw, which the runner does not catch.\<close>

definition runSingleProbe :: "(string \<Rightarrow> string option) \<Rightarrow> health_config \<Rightarrow> string \<Rightarrow> int option \<Rightarrow> probe_answers \<Rightarrow> string + probe_result" where
  "runSingleProbe penv config containerId assignedPort ans =
     (if hc_dockerHealthPolicy config = Prefer \<and> containerId \<noteq> []
      then rbind (pa_inspect ans) (\<lambda>state.
             let stateResult = containerStateProbeResult state
             in if \<not> pr_healthy stateResult then Inr stateResult
                else case in_health state of
                       Some status \<Rightarrow> Inr \<lparr>pr_healthy = (status = ''healthy''), pr_source = Src_docker,
                         pr_error = (if status \<noteq> ''healthy'' then Some (''Docker health status: '' @ status) else None),
                         pr_responseTimeMs = None\<rparr>
                     | None \<Rightarrow> Inr (strategyProbe penv config assignedPort (Some state) ans))
      else Inr (strategyProbe penv config assignedPort None ans))"

text \<open>The retry loop of \<open>runProbe\<close>: attempts \<open>k, k + 1, ..\<close>, \<open>n\<close> of them left.\<close>

fun probe_attempts :: "nat \<Rightarrow> nat \<Rightarrow> (nat \<Rightarrow> string + probe_result) \<Rightarrow> probe_result \<Rightarrow> string + probe_result" where
  "probe_attempts k 0 single lastResult = Inr lastResult"
| "probe_attempts k (Suc n) single lastResult =
     rbind (single k) (\<lambda>r. if pr_healthy r then Inr r else probe_attempts (Suc k) n single r)"

definition runProbe :: "(string \<Rightarrow> string option) \<Rightarrow> health_config \<Rightarrow> string \<Rightarrow> int option \<Rightarrow> (nat \<Rightarrow> probe_answers) \<Rightarrow> string + probe_result" where
  "runProbe penv config containerId assignedPort ans =
     probe_attempts 0 (nat (max (hc_failureThreshold config) 1))
       (\<lambda>k. runSingleProbe penv config containerId assignedPort (ans k))
       \<lparr>pr_healthy = False, pr_source = Src_none, pr_error = None, pr_responseTimeMs = None\<rparr>"

section \<open>Compose stacks\<close>

datatype service_lifecycle = Long_running | One_shot

datatype service_health = SH_http | SH_tcp | SH_docker_health | SH_exit_code | SH_none

datatype aggregate_status = Agg_running | Agg_degraded | Agg_error

datatype deploy_log_status = Log_success | Log_failed | Log_cancelled

definition composeChildServiceName :: "service_row \<Rightarrow> string" where
  "composeChildServiceName s =
     last (js_split CHR ''/'' (if ends_with ''__svc'' (s_name s) then take (length (s_name s) - 5) (s_name s) else s_name s))"

definition group_children :: "service_row list \<Rightarrow> (string, service_row list) js_map" where
  "group_children composeChildren =
     fold (\<lambda>child m. if \<not> truthy (s_parent_service_id child) then m
                     else let parent = the (s_parent_service_id child);
                              siblings = (case js_get m parent of Some cs \<Rightarrow> cs | None \<Rightarrow> [])
                          in js_set parent (siblings @ [child]) m) composeChildren []"

definition push_unseen :: "service_row \<Rightarrow> service_row list \<Rightarrow> service_row list" where
  "push_unseen candidate expanded =
     (if s_id candidate \<in> s_id ` set expanded then expanded else expanded @ [candidate])"

definition expandComposeRuntimeServices :: "service_row list \<Rightarrow> service_row list \<Rightarrow> service_row list" where
  "expandComposeRuntimeServices deployables composeChildren =
     (let childrenByParent = group_children composeChildren
      in fold (\<lambda>service expanded.
           let candidates = (case (if s_kind service = KCompose then js_get childrenByParent (s_id service) else None) of
                               Some (c # cs) \<Rightarrow> c # cs | _ \<Rightarrow> [service])
           in fold push_unseen candidates expanded) deployables [])"

definition isHttpRoutableRuntimeService :: "runtime_role option \<Rightarrow> bool" where
  "isHttpRoutableRuntimeService role \<longleftrightarrow> role = None \<or> role = Some RApplication"

definition isSuccessfulComposeJob :: "service_row \<Rightarrow> deploy_log_status option \<Rightarrow> bool" where
  "isSuccessfulComposeJob s lastDeployStatus \<longleftrightarrow>
     s_runtime_role s = RJob \<and> s_status s = Some Stopped \<and> lastDeployStatus = Some Log_success"

definition resolveComposeTrafficTargetId :: "service_row list \<Rightarrow> string option \<Rightarrow> string option" where
  "resolveComposeTrafficTargetId children trafficService =
     (if truthy trafficService
      then map_option s_id (find (\<lambda>c. composeChildServiceName c = the trafficService) children)
      else case filter (\<lambda>c. s_runtime_role c = RApplication \<and> s_assigned_port c \<noteq> None) children of
             [c] \<Rightarrow> Some (s_id c) | _ \<Rightarrow> None)"

definition serviceLifecycle :: "service_row \<Rightarrow> service_lifecycle" where
  "serviceLifecycle s = (if s_runtime_role s = RJob then One_shot else Long_running)"

definition serviceHealthStrategy :: "service_row \<Rightarrow> service_health" where
  "serviceHealthStrategy s =
     (if s_runtime_role s = RJob then SH_exit_code
      else if s_runtime_role s = RResource
      then (if s_health_check_strategy s = Some HExec then SH_docker_health
            else if s_container_port s = None then SH_none else SH_tcp)
      else if s_container_port s = None then SH_none else SH_http)"

definition aggregateComposeStatus :: "service_row list \<Rightarrow> (string, deploy_log_status) js_map \<Rightarrow> aggregate_status option" where
  "aggregateComposeStatus children lastDeployStatus =
     (if children = [] then None
      else if list_ex (\<lambda>c. s_status c = Some Failed) children then Some Agg_error
      else let jobs = filter (\<lambda>c. s_runtime_role c = RJob) children
           in if list_ex (\<lambda>j. js_get lastDeployStatus (s_id j) \<in> {Some Log_failed, Some Log_cancelled}) jobs then Some Agg_error
              else let longRunning = filter (\<lambda>c. s_runtime_role c \<noteq> RJob) children;
                       longRunningHealthy = list_all (\<lambda>c. s_status c = Some Running) longRunning;
                       jobsCompleted = list_all (\<lambda>j. s_status j = Some Stopped \<and> js_get lastDeployStatus (s_id j) = Some Log_success) jobs
                   in Some (if longRunningHealthy \<and> jobsCompleted then Agg_running else Agg_degraded))"

section \<open>The severity order\<close>

text \<open>Statuses of a stack from good to bad, so that the worst of some children is their maximum.\<close>

fun severity :: "aggregate_status \<Rightarrow> nat" where
  "severity Agg_running = 0"
| "severity Agg_degraded = 1"
| "severity Agg_error = 2"

lemma severity_inj: "severity a = severity b \<longleftrightarrow> a = b"
  by (cases a; cases b) simp_all

instantiation aggregate_status :: linorder
begin

definition less_eq_aggregate_status :: "aggregate_status \<Rightarrow> aggregate_status \<Rightarrow> bool" where
  "a \<le> b \<longleftrightarrow> severity a \<le> severity b"

definition less_aggregate_status :: "aggregate_status \<Rightarrow> aggregate_status \<Rightarrow> bool" where
  "a < b \<longleftrightarrow> severity a < severity b"

instance
  by standard (auto simp: less_eq_aggregate_status_def less_aggregate_status_def severity_inj)

end

text \<open>The specification: what one child contributes.\<close>

definition child_severity :: "(string, deploy_log_status) js_map \<Rightarrow> service_row \<Rightarrow> aggregate_status" where
  "child_severity logs c =
     (if s_status c = Some Failed then Agg_error
      else if s_runtime_role c = RJob
      then (case js_get logs (s_id c) of
              Some Log_success \<Rightarrow> if s_status c = Some Stopped then Agg_running else Agg_degraded
            | None \<Rightarrow> Agg_degraded
            | _ \<Rightarrow> Agg_error)
      else if s_status c = Some Running then Agg_running else Agg_degraded)"

lemma Max_severity:
  assumes "finite A" and "A \<noteq> {}"
  shows "Max A = (if Agg_error \<in> A then Agg_error else if A \<subseteq> {Agg_running} then Agg_running else Agg_degraded)"
proof -
  have le: "a \<le> Agg_error" "Agg_running \<le> a" for a
    by (cases a; simp add: less_eq_aggregate_status_def)+
  consider "Agg_error \<in> A" | "Agg_error \<notin> A" "A \<subseteq> {Agg_running}" | "Agg_error \<notin> A" "Agg_degraded \<in> A"
    using assms(2) by (metis aggregate_status.exhaust insertI1 subsetI)
  then show ?thesis
  proof cases
    case 1
    with assms(1) le show ?thesis by (auto intro!: Max_eqI)
  next
    case 2
    with assms(2) have "A = {Agg_running}" by auto
    with 2 show ?thesis by simp
  next
    case 3
    have "a \<le> Agg_degraded" if "a \<in> A" for a
      using that 3(1) by (cases a) (auto simp: less_eq_aggregate_status_def)
    with 3 assms(1) have "Max A = Agg_degraded" by (auto intro!: Max_eqI)
    with 3 show ?thesis by auto
  qed
qed

lemma child_severity_error:
  "child_severity logs c = Agg_error \<longleftrightarrow> s_status c = Some Failed \<or>
     (s_runtime_role c = RJob \<and> js_get logs (s_id c) \<in> {Some Log_failed, Some Log_cancelled})"
  by (auto simp: child_severity_def split: option.splits deploy_log_status.splits)

lemma child_severity_running:
  "child_severity logs c = Agg_running \<longleftrightarrow>
     (if s_runtime_role c = RJob then s_status c = Some Stopped \<and> js_get logs (s_id c) = Some Log_success
      else s_status c = Some Running)"
  by (auto simp: child_severity_def split: option.splits deploy_log_status.splits)

section \<open>Lemmas\<close>

lemma probe_attempts_healthy:
  "probe_attempts k n single lst = Inr r \<and> pr_healthy r \<longleftrightarrow>
     (n = 0 \<and> r = lst \<and> pr_healthy lst) \<or>
     (\<exists>j<n. single (k + j) = Inr r \<and> pr_healthy r \<and> (\<forall>i<j. \<exists>r'. single (k + i) = Inr r' \<and> \<not> pr_healthy r'))"
proof (induction n arbitrary: k lst)
  case 0
  then show ?case by auto
next
  case (Suc n)
  show ?case
  proof (cases "single k")
    case (Inl e)
    have "\<not> (\<exists>j<Suc n. single (k + j) = Inr r \<and> pr_healthy r \<and> (\<forall>i<j. \<exists>r'. single (k + i) = Inr r' \<and> \<not> pr_healthy r'))"
    proof (rule notI, elim exE conjE)
      fix j assume "single (k + j) = Inr r" "\<forall>i<j. \<exists>r'. single (k + i) = Inr r' \<and> \<not> pr_healthy r'"
      with Inl show False by (cases j) auto
    qed
    with Inl show ?thesis by simp
  next
    case (Inr r0)
    have split: "(\<exists>j<Suc n. P j) \<longleftrightarrow> P 0 \<or> (\<exists>j<n. P (Suc j))" for P by (metis less_Suc_eq_0_disj)
    show ?thesis
      unfolding split
      using Suc.IH [of "Suc k" r0] Inr by (auto simp: All_less_Suc2)
  qed
qed

lemma docker_healthy:
  assumes "runSingleProbe penv config cid port ans = Inr r" and "pr_healthy r"
    and "hc_dockerHealthPolicy config = Prefer" and "cid \<noteq> []"
  obtains st where "pa_inspect ans = Inr st" and "in_running st" and "\<not> in_restarting st"
    and "in_health st \<in> {None, Some ''healthy''}"
  using assms
  by (auto simp: runSingleProbe_def rbind_Inr_iff Let_def containerStateProbeResult_def split: if_splits option.splits)

section \<open>Properties\<close>

text \<open>
  The status of a Compose stack is the worst of its children: \<open>aggregateComposeStatus\<close> is the
  maximum, in the order running, degraded, error, of what each child contributes (a service that runs and a job that
  completed nothing, a failed child or a failed or cancelled job an error); a stack without children has none.
\<close>

theorem aggregate_is_worst_child:
  "aggregateComposeStatus children logs =
     (if children = [] then None else Some (Max (child_severity logs ` set children)))"
proof (cases "children = []")
  case False
  let ?job = "\<lambda>c. s_runtime_role c = RJob"
  have err: "Agg_error \<in> child_severity logs ` set children \<longleftrightarrow>
      list_ex (\<lambda>c. s_status c = Some Failed) children \<or>
      list_ex (\<lambda>j. js_get logs (s_id j) \<in> {Some Log_failed, Some Log_cancelled}) (filter ?job children)"
    (is "_ \<longleftrightarrow> ?e")
    by (auto simp: image_iff list_ex_iff child_severity_error eq_commute [of Agg_error])
  have run: "child_severity logs ` set children \<subseteq> {Agg_running} \<longleftrightarrow>
      list_all (\<lambda>c. s_status c = Some Running) (filter (\<lambda>c. \<not> ?job c) children) \<and>
      list_all (\<lambda>j. s_status j = Some Stopped \<and> js_get logs (s_id j) = Some Log_success) (filter ?job children)"
    by (auto simp: image_subset_iff list_all_iff child_severity_running split: if_splits)
  show ?thesis
  proof (cases ?e)
    case True
    with False err show ?thesis by (auto simp: aggregateComposeStatus_def Max_severity Let_def)
  next
    case ne: False
    show ?thesis using False err run ne by (simp add: aggregateComposeStatus_def Max_severity Let_def)
  qed
qed (simp add: aggregateComposeStatus_def)

end
