(* ===== verification/Blue_Green_Checks.thy ===== *)
theory Blue_Green_Checks
  imports Health_Probe
begin

text \<open>
  The waits of a blue-green deploy (\<open>src/src/pipeline/deploy-core.ts\<close>): for the green container to be
  healthy (\<open>waitForBlueGreenHealth\<close>), to stay so (\<open>observeBlueGreenStability\<close>), and for Traefik to
  route to it (\<open>waitForManagedTraefikRoute\<close>).

  Each loop polls, looks at the clock and sleeps. The clock is an \<open>int\<close> of milliseconds; what the
  \<open>k\<close>-th poll answers, how long it took and how late the timer behind it fired are arguments, so a
  statement holds for every timing. A timer fires no earlier than asked and never in less than
  one millisecond (Node rounds a smaller delay up), which is why the loops end.

  The lemmas bound the number of polls, and say what a positive and a negative answer mean.
\<close>

section \<open>Sleeping\<close>

definition wake :: "int \<Rightarrow> int \<Rightarrow> nat \<Rightarrow> int" where
  "wake now ms late = now + max 1 ms + int late"

lemma wake_later: "now + max 1 ms \<le> wake now ms late" "now < wake now ms late"
  by (simp_all add: wake_def)

section \<open>The route through Traefik\<close>

datatype status_policy = Policy_2xx | Policy_non_5xx

datatype http_outcome = Responded int | Request_timeout | Request_error string

record route_answer =
  ra_outcome :: http_outcome
  ra_took :: nat
  ra_late :: nat

record route_params =
  rp_host :: string
  rp_path :: string
  rp_probeTimeoutMs :: int
  rp_maxWaitMs :: int
  rp_intervalMs :: int
  rp_minimumSuccessAgeMs :: "int option"
  rp_statusPolicy :: "status_policy option"

definition accepted_status :: "status_policy option \<Rightarrow> int \<Rightarrow> bool" where
  "accepted_status policy status \<longleftrightarrow>
     (if policy = Some Policy_non_5xx then 200 \<le> status \<and> status < 500 else 200 \<le> status \<and> status < 300)"

text \<open>\<open>Inr\<close> the accepted status, or \<open>Inl\<close> the error with the status there was.\<close>

definition probeManagedTraefikRoute :: "route_params \<Rightarrow> http_outcome \<Rightarrow> (string \<times> int option) + int" where
  "probeManagedTraefikRoute p outcome =
     (let failed = (\<lambda>message. Inl (''Route probe failed for Host('' @ rp_host p @ ''): '' @ message, None))
      in case outcome of
           Responded status \<Rightarrow>
             if accepted_status (rp_statusPolicy p) status then Inr status
             else Inl (''Route probe returned HTTP '' @ show_int status, Some status)
         | Request_timeout \<Rightarrow> failed (''Route probe timed out after '' @ show_int (rp_probeTimeoutMs p) @ ''ms'')
         | Request_error message \<Rightarrow> failed message)"

datatype route_verification =
    Route_ok (route_status: int) (route_attempts: nat) (route_elapsedMs: int)
  | Route_failed (route_error: string) (route_attempts: nat) (route_elapsedMs: int) (route_lastStatus: "int option")

definition minimum_age :: "route_params \<Rightarrow> int" where
  "minimum_age p = max 0 (case rp_minimumSuccessAgeMs p of Some ms \<Rightarrow> ms | None \<Rightarrow> 0)"

definition route_deadline :: "route_params \<Rightarrow> int \<Rightarrow> int" where
  "route_deadline p startedAt = startedAt + max 0 (rp_maxWaitMs p)"

text \<open>The loop, with the attempts made and the time; \<open>ans k\<close> is the answer of attempt \<open>k + 1\<close>.\<close>

function wait_route :: "route_params \<Rightarrow> (nat \<Rightarrow> route_answer) \<Rightarrow> int \<Rightarrow> nat \<Rightarrow> int \<Rightarrow> route_verification" where
  "wait_route p ans startedAt attempts now =
     (let a = ans attempts;
          probe = probeManagedTraefikRoute p (ra_outcome a);
          now' = now + int (ra_took a);
          elapsedMs = now' - startedAt;
          remainingMs = route_deadline p startedAt - now';
          retry = (\<lambda>lastError lastStatus.
             if remainingMs \<le> 0 then Route_failed lastError (attempts + 1) elapsedMs lastStatus
             else wait_route p ans startedAt (attempts + 1) (wake now' (min (rp_intervalMs p) remainingMs) (ra_late a)))
      in case probe of
           Inr status \<Rightarrow>
             if elapsedMs \<ge> minimum_age p then Route_ok status (attempts + 1) elapsedMs
             else retry (''Route probe returned HTTP '' @ show_int status @
                    '' before Traefik HTTP provider poll window elapsed'') (Some status)
         | Inl (err, status) \<Rightarrow> retry err status)"
  by pat_completeness auto
termination
  by (relation "measure (\<lambda>(p, ans, startedAt, attempts, now). nat (route_deadline p startedAt - now))")
     (auto simp: wake_def)

declare wait_route.simps [simp del]

definition waitForManagedTraefikRoute :: "route_params \<Rightarrow> (nat \<Rightarrow> route_answer) \<Rightarrow> int \<Rightarrow> route_verification" where
  "waitForManagedTraefikRoute p ans startedAt = wait_route p ans startedAt 0 startedAt"

definition TRAEFIK_HTTP_PROVIDER_POLL_INTERVAL_MS :: int where
  "TRAEFIK_HTTP_PROVIDER_POLL_INTERVAL_MS = 5000"

definition DEFAULT_BLUE_GREEN_ROUTE_SWITCH_TIMEOUT_MS :: int where
  "DEFAULT_BLUE_GREEN_ROUTE_SWITCH_TIMEOUT_MS = TRAEFIK_HTTP_PROVIDER_POLL_INTERVAL_MS * 2 + 2000"

definition DEFAULT_BLUE_GREEN_ROUTE_PROBE_INTERVAL_MS :: int where
  "DEFAULT_BLUE_GREEN_ROUTE_PROBE_INTERVAL_MS = 500"

definition verifyManagedTraefikRoute :: "string \<Rightarrow> string \<Rightarrow> int option \<Rightarrow> int option \<Rightarrow> int option \<Rightarrow> int option \<Rightarrow> status_policy option
    \<Rightarrow> (nat \<Rightarrow> route_answer) \<Rightarrow> int \<Rightarrow> route_verification" where
  "verifyManagedTraefikRoute host path probeTimeoutMs maxWait intervalMs minimumSuccessAgeMs policy ans startedAt =
     (let maxWaitMs = (case maxWait of Some ms \<Rightarrow> ms | None \<Rightarrow> DEFAULT_BLUE_GREEN_ROUTE_SWITCH_TIMEOUT_MS)
      in waitForManagedTraefikRoute
           \<lparr>rp_host = host, rp_path = path,
            rp_probeTimeoutMs = (case probeTimeoutMs of Some ms \<Rightarrow> ms | None \<Rightarrow> 5000),
            rp_maxWaitMs = maxWaitMs,
            rp_intervalMs = (case intervalMs of Some ms \<Rightarrow> ms | None \<Rightarrow> DEFAULT_BLUE_GREEN_ROUTE_PROBE_INTERVAL_MS),
            rp_minimumSuccessAgeMs = Some (case minimumSuccessAgeMs of Some ms \<Rightarrow> ms
               | None \<Rightarrow> min TRAEFIK_HTTP_PROVIDER_POLL_INTERVAL_MS maxWaitMs),
            rp_statusPolicy = policy\<rparr> ans startedAt)"

section \<open>The stability of green\<close>

record stability_answer =
  sa_inspect :: "string + inspection"
  sa_took :: nat
  sa_late :: nat

datatype stability_result =
    Stable (stable_checks: nat) (stable_elapsedMs: int)
  | Unstable (stable_checks: nat) (stable_elapsedMs: int) (stable_error: string)

definition isDockerNotFoundError :: "string \<Rightarrow> bool" where
  "isDockerNotFoundError msg \<longleftrightarrow> list_ex (\<lambda>p. js_includes p (lower msg))
     [''not found'', ''no such container'', ''no such network'', ''no such volume'', ''no such image'']"

definition DEFAULT_BLUE_GREEN_STABILITY_INSPECT_FAILURE_THRESHOLD :: nat where
  "DEFAULT_BLUE_GREEN_STABILITY_INSPECT_FAILURE_THRESHOLD = 3"

definition restart_count :: "inspection \<Rightarrow> int" where
  "restart_count info = (case in_restartCount info of Some n \<Rightarrow> n | None \<Rightarrow> 0)"

definition summarizeGreenStability :: "inspection \<Rightarrow> int \<Rightarrow> string option" where
  "summarizeGreenStability info baselineRestartCount =
     (let restartDelta = max 0 (restart_count info - baselineRestartCount);
          exitCode = (case in_exitCode info of Some c \<Rightarrow> '' (exit code: '' @ show_int c @ '')'' | None \<Rightarrow> [])
      in if in_restarting info then Some (''Green container entered a restart loop'' @ exitCode)
         else if \<not> in_running info then Some (''Green container stopped during blue-green stability check'' @ exitCode)
         else if restartDelta > 0
         then Some (''Green container restarted '' @ show_int restartDelta @ '' time(s) during blue-green stability check'')
         else if in_health info = Some ''unhealthy''
         then Some ''Green container healthcheck became unhealthy during blue-green stability check''
         else None)"

text \<open>One poll: \<open>Inl\<close> the reason to give up, or \<open>Inr\<close> the baseline and the count of failed inspections in a row.\<close>

definition stability_poll :: "string + inspection \<Rightarrow> int option \<Rightarrow> nat \<Rightarrow> string + int option \<times> nat" where
  "stability_poll answer baselineRestartCount failures =
     (case answer of
        Inr info \<Rightarrow>
          let baseline = (case baselineRestartCount of Some b \<Rightarrow> b | None \<Rightarrow> restart_count info)
          in (case summarizeGreenStability info baseline of
                Some unstableReason \<Rightarrow> Inl unstableReason | None \<Rightarrow> Inr (Some baseline, 0))
      | Inl message \<Rightarrow>
          if isDockerNotFoundError message
          then Inl (''Green container stability could not be verified: '' @ message)
          else if failures + 1 \<ge> DEFAULT_BLUE_GREEN_STABILITY_INSPECT_FAILURE_THRESHOLD
          then Inl (''Green container stability could not be verified after '' @ show_nat (failures + 1) @
                 '' consecutive checks: '' @ message)
          else Inr (baselineRestartCount, failures + 1))"

function observe_loop :: "int \<Rightarrow> int \<Rightarrow> (nat \<Rightarrow> stability_answer) \<Rightarrow> int \<Rightarrow> nat \<Rightarrow> int option \<Rightarrow> nat \<Rightarrow> int \<Rightarrow> stability_result" where
  "observe_loop deadline intervalMs ans startedAt checks baseline failures now =
     (let a = ans checks;
          now' = now + int (sa_took a);
          remainingMs = deadline - now'
      in case stability_poll (sa_inspect a) baseline failures of
           Inl err \<Rightarrow> Unstable (checks + 1) (now' - startedAt) err
         | Inr (baseline', failures') \<Rightarrow>
             if remainingMs \<le> 0 then Stable (checks + 1) (now' - startedAt)
             else observe_loop deadline intervalMs ans startedAt (checks + 1) baseline' failures'
                    (wake now' (min intervalMs remainingMs) (sa_late a)))"
  by pat_completeness auto
termination
  by (relation "measure (\<lambda>(deadline, intervalMs, ans, startedAt, checks, baseline, failures, now). nat (deadline - now))")
     (auto simp: wake_def)

declare observe_loop.simps [simp del]

definition observeBlueGreenStability :: "int \<Rightarrow> int \<Rightarrow> (nat \<Rightarrow> stability_answer) \<Rightarrow> int \<Rightarrow> stability_result" where
  "observeBlueGreenStability observeMs intervalMs ans startedAt =
     observe_loop (startedAt + max 0 observeMs) (max 1 intervalMs) ans startedAt 0 None 0 startedAt"

section \<open>The health of green\<close>

record health_answer =
  ha_probe :: "nat \<Rightarrow> probe_answers"
  ha_took :: nat
  ha_late :: nat

record health_wait =
  hw_result :: probe_result
  hw_attempts :: nat
  hw_elapsedMs :: int

definition isTerminalGreenHealthFailure :: "probe_result \<Rightarrow> bool" where
  "isTerminalGreenHealthFailure r =
     (let err = (case pr_error r of Some e \<Rightarrow> e | None \<Rightarrow> [])
      in starts_with ''Container is not running'' err \<or> starts_with ''Container is restarting'' err \<or>
         js_includes ''Docker health status: unhealthy'' err)"

text \<open>Attempts \<open>k + 1, ..\<close>, \<open>n + 1\<close> of them left.\<close>

fun health_loop :: "(nat \<Rightarrow> string + probe_result) \<Rightarrow> (nat \<Rightarrow> health_answer) \<Rightarrow> int \<Rightarrow> int \<Rightarrow> nat \<Rightarrow> nat \<Rightarrow> int \<Rightarrow> string + health_wait" where
  "health_loop probe ans intervalMs startedAt k n now =
     rbind (probe k) (\<lambda>r.
       let now' = now + int (ha_took (ans k));
           finished = \<lparr>hw_result = r, hw_attempts = k + 1, hw_elapsedMs = now' - startedAt\<rparr>
       in if pr_healthy r \<or> isTerminalGreenHealthFailure r then Inr finished
          else case n of 0 \<Rightarrow> Inr finished
               | Suc m \<Rightarrow> health_loop probe ans intervalMs startedAt (k + 1) m (wake now' intervalMs (ha_late (ans k))))"

declare health_loop.simps [simp del]

definition waitForBlueGreenHealth :: "(string \<Rightarrow> string option) \<Rightarrow> health_config \<Rightarrow> string \<Rightarrow> int option \<Rightarrow> int \<Rightarrow> int
    \<Rightarrow> (nat \<Rightarrow> health_answer) \<Rightarrow> int \<Rightarrow> string + health_wait" where
  "waitForBlueGreenHealth penv config containerId assignedPort maxAttempts intervalMs ans startedAt =
     health_loop (\<lambda>k. runProbe penv (config\<lparr>hc_failureThreshold := 1\<rparr>) containerId assignedPort (ha_probe (ans k)))
       ans (max 1 intervalMs) startedAt 0 (nat (max 1 maxAttempts) - 1) startedAt"

section \<open>Polling\<close>

text \<open>
  The loops share their pace: the \<open>k\<close>-th poll starts no earlier than \<open>k\<close> intervals after the start, or at
  the deadline, and no poll but one starts at or behind the deadline.
\<close>

definition on_pace :: "int \<Rightarrow> int \<Rightarrow> int \<Rightarrow> nat \<Rightarrow> int \<Rightarrow> bool" where
  "on_pace startedAt wait interval k now \<longleftrightarrow>
     startedAt + min (int k * interval) wait \<le> now \<and> (0 < k \<longrightarrow> (int k - 1) * interval < wait)"

lemma on_pace_start: "0 \<le> wait \<Longrightarrow> on_pace s wait interval 0 s"
  by (simp add: on_pace_def)

lemma on_pace_next:
  assumes "on_pace s wait (max 1 i) k now" and "now + int took < s + wait"
  shows "on_pace s wait (max 1 i) (k + 1) (wake (now + int took) (min i (s + wait - (now + int took))) late)"
proof -
  let ?I = "max 1 i" and ?now = "now + int took"
  have k: "s + min (int k * ?I) wait \<le> ?now" using assms(1) by (simp add: on_pace_def)
  with assms(2) have lt: "int k * ?I < wait" "s + int k * ?I \<le> ?now" by linarith+
  have "min ?I (s + wait - ?now) \<le> max 1 (min i (s + wait - ?now))" by linarith
  with wake_later(1) [of ?now "min i (s + wait - ?now)" late]
  have "?now + min ?I (s + wait - ?now) \<le> wake ?now (min i (s + wait - ?now)) late" by linarith
  moreover have "int (k + 1) * ?I = int k * ?I + ?I" by (simp add: distrib_right)
  ultimately have "s + min (int (k + 1) * ?I) wait \<le> wake ?now (min i (s + wait - ?now)) late"
    using lt(2) by linarith
  with lt(1) show ?thesis by (simp add: on_pace_def)
qed

section \<open>Lemmas on the loops\<close>

lemma wait_route_ok:
  "wait_route p ans s k now = Route_ok st n el \<Longrightarrow>
     k < n \<and> probeManagedTraefikRoute p (ra_outcome (ans (n - 1))) = Inr st \<and> minimum_age p \<le> el"
proof (induction p ans s k now rule: wait_route.induct)
  case (1 p ans s k now)
  note IH = 1(1) [OF refl refl refl refl refl, simplified]
  show ?case using 1(2) unfolding wait_route.simps [of p ans s k now] Let_def
    by (auto split: sum.splits prod.splits if_splits dest: IH)
qed

lemma wait_route_failed:
  "wait_route p ans s k now = Route_failed e n el st \<Longrightarrow>
     k < n \<and> route_deadline p s \<le> s + el \<and>
     (probeManagedTraefikRoute p (ra_outcome (ans (n - 1))) = Inl (e, st) \<or> el < minimum_age p)"
proof (induction p ans s k now rule: wait_route.induct)
  case (1 p ans s k now)
  note IH = 1(1) [OF refl refl refl refl refl, simplified]
  show ?case using 1(2) unfolding wait_route.simps [of p ans s k now] Let_def
    by (auto split: sum.splits prod.splits if_splits dest: IH)
qed

fun attempts_of :: "route_verification \<Rightarrow> nat" where
  "attempts_of (Route_ok _ n _) = n"
| "attempts_of (Route_failed _ n _ _) = n"

lemma wait_route_pace:
  "on_pace s (max 0 (rp_maxWaitMs p)) (max 1 (rp_intervalMs p)) k now \<Longrightarrow>
   (int (attempts_of (wait_route p ans s k now)) - 2) * max 1 (rp_intervalMs p) < max 1 (rp_maxWaitMs p)"
proof (induction p ans s k now rule: wait_route.induct)
  case (1 p ans s k now)
  note IH = 1(1) [OF refl refl refl refl refl]
  let ?I = "max 1 (rp_intervalMs p)" and ?W = "max 0 (rp_maxWaitMs p)"
  have here: "(int (Suc k) - 2) * ?I < max 1 (rp_maxWaitMs p)"
  proof (cases k)
    case 0
    then show ?thesis by simp
  next
    case (Suc j)
    with 1(2) have "(int k - 1) * ?I < ?W" by (simp add: on_pace_def)
    moreover have "(int (Suc k) - 2) * ?I = (int k - 1) * ?I" by simp
    ultimately show ?thesis by linarith
  qed
  have "now + int (ra_took (ans k)) < s + ?W" if "0 < route_deadline p s - (now + int (ra_took (ans k)))"
    using that by (simp add: route_deadline_def)
  with on_pace_next [OF 1(2), of "ra_took (ans k)" "ra_late (ans k)"]
  have nxt: "on_pace s ?W ?I (k + 1) (wake (now + int (ra_took (ans k)))
      (min (rp_intervalMs p) (route_deadline p s - (now + int (ra_took (ans k))))) (ra_late (ans k)))"
    if "0 < route_deadline p s - (now + int (ra_took (ans k)))"
    using that by (simp add: route_deadline_def add.commute)
  show ?case unfolding wait_route.simps [of p ans s k now] Let_def
    using here nxt IH by (auto split: sum.splits prod.splits)
qed

text \<open>
  What the watch looks for, said over the answers alone: the restarts that the first answered inspection counted, the failures in a row before a
  poll, and whether a poll is a reason to give up.
\<close>

primrec first_restarts :: "(nat \<Rightarrow> stability_answer) \<Rightarrow> nat \<Rightarrow> int option" where
  "first_restarts ans 0 = None"
| "first_restarts ans (Suc k) =
     (case first_restarts ans k of
        Some b \<Rightarrow> Some b
      | None \<Rightarrow> (case sa_inspect (ans k) of Inr info \<Rightarrow> Some (restart_count info) | Inl _ \<Rightarrow> None))"

primrec failures_before :: "(nat \<Rightarrow> stability_answer) \<Rightarrow> nat \<Rightarrow> nat" where
  "failures_before ans 0 = 0"
| "failures_before ans (Suc k) = (if isl (sa_inspect (ans k)) then Suc (failures_before ans k) else 0)"

definition green_bad :: "(nat \<Rightarrow> stability_answer) \<Rightarrow> nat \<Rightarrow> bool" where
  "green_bad ans j \<longleftrightarrow>
     (case sa_inspect (ans j) of
        Inr info \<Rightarrow> in_restarting info \<or> \<not> in_running info \<or> in_health info = Some ''unhealthy'' \<or>
          (\<exists>b. first_restarts ans (j + 1) = Some b \<and> b < restart_count info)
      | Inl message \<Rightarrow> isDockerNotFoundError message \<or> (2 \<le> j \<and> isl (sa_inspect (ans (j - 1))) \<and> isl (sa_inspect (ans (j - 2)))))"

lemma two_failures_before: "2 \<le> failures_before ans k \<longleftrightarrow> 2 \<le> k \<and> isl (sa_inspect (ans (k - 1))) \<and> isl (sa_inspect (ans (k - 2)))"
proof (cases k)
  case (Suc k')
  then show ?thesis by (cases k') auto
qed simp

lemma stability_poll_bad:
  "stability_poll (sa_inspect (ans k)) (first_restarts ans k) (failures_before ans k) = Inl err \<Longrightarrow> green_bad ans k"
  using two_failures_before [of ans k]
  by (auto simp: stability_poll_def green_bad_def summarizeGreenStability_def DEFAULT_BLUE_GREEN_STABILITY_INSPECT_FAILURE_THRESHOLD_def Let_def
      split: sum.splits option.splits if_splits)

lemma stability_poll_good:
  "stability_poll (sa_inspect (ans k)) (first_restarts ans k) (failures_before ans k) = Inr (b, f) \<Longrightarrow>
     \<not> green_bad ans k \<and> b = first_restarts ans (k + 1) \<and> f = failures_before ans (k + 1)"
  using two_failures_before [of ans k]
  by (auto simp: stability_poll_def green_bad_def summarizeGreenStability_def DEFAULT_BLUE_GREEN_STABILITY_INSPECT_FAILURE_THRESHOLD_def Let_def
      split: sum.splits option.splits if_splits)

definition watch_verdict :: "int \<Rightarrow> (nat \<Rightarrow> stability_answer) \<Rightarrow> nat \<Rightarrow> stability_result \<Rightarrow> bool" where
  "watch_verdict wait ans k r \<longleftrightarrow>
     (case r of
        Stable n el \<Rightarrow> k < n \<and> wait \<le> el \<and> (\<forall>j<n. \<not> green_bad ans j)
      | Unstable n el err \<Rightarrow> k < n \<and> green_bad ans (n - 1) \<and> (\<forall>j<n - 1. \<not> green_bad ans j))"

lemma observe_loop_verdict:
  assumes "baseline = first_restarts ans k" and "failures = failures_before ans k" and "\<forall>j<k. \<not> green_bad ans j"
  shows "watch_verdict (deadline - s) ans k (observe_loop deadline i ans s k baseline failures now)"
  using assms
proof (induction deadline i ans s k baseline failures now rule: observe_loop.induct)
  case (1 deadline i ans s k baseline failures now)
  let ?now = "now + int (sa_took (ans k))"
  show ?case
  proof (cases "stability_poll (sa_inspect (ans k)) baseline failures")
    case (Inl err)
    then have "green_bad ans k" using stability_poll_bad 1(2,3) by simp
    then show ?thesis using 1(4) Inl
      unfolding observe_loop.simps [of deadline i ans s k baseline failures now] Let_def by (simp add: watch_verdict_def)
  next
    case (Inr bf)
    obtain b f where bf: "bf = (b, f)" by fastforce
    note poll = Inr [unfolded bf]
    have good: "\<not> green_bad ans k" "b = first_restarts ans (k + 1)" "f = failures_before ans (k + 1)"
      using stability_poll_good [of ans k b f] poll 1(2,3) by simp_all
    have all: "\<forall>j<k + 1. \<not> green_bad ans j" using good(1) 1(4) by (auto simp: less_Suc_eq)
    show ?thesis
    proof (cases "deadline - ?now \<le> 0")
      case True
      then show ?thesis using all poll
        unfolding observe_loop.simps [of deadline i ans s k baseline failures now] Let_def by (simp add: watch_verdict_def)
    next
      case False
      from 1(1) [OF refl refl refl poll refl False good(2,3) all] show ?thesis
        using False poll unfolding observe_loop.simps [of deadline i ans s k baseline failures now] Let_def
        by (auto simp: watch_verdict_def split: stability_result.splits)
    qed
  qed
qed

lemma observe_loop_pace:
  "on_pace s w (max 1 i) k now \<Longrightarrow> 0 \<le> w \<Longrightarrow>
   (int (stable_checks (observe_loop (s + w) (max 1 i) ans s k baseline failures now)) - 2) * max 1 i < max 1 w"
proof (induction "s + w" "max 1 i" ans s k baseline failures now rule: observe_loop.induct)
  case (1 ans s k baseline failures now)
  have here: "(int (Suc k) - 2) * max 1 i < max 1 w"
  proof (cases k)
    case 0
    then show ?thesis by simp
  next
    case (Suc j)
    with 1(2) have "(int k - 1) * max 1 i < w" by (simp add: on_pace_def)
    moreover have "(int (Suc k) - 2) * max 1 i = (int k - 1) * max 1 i" by simp
    ultimately show ?thesis by linarith
  qed
  have nxt: "on_pace s w (max 1 i) (k + 1) (wake (now + int (sa_took (ans k)))
      (min (max 1 i) (s + w - (now + int (sa_took (ans k))))) (sa_late (ans k)))"
    if "now + int (sa_took (ans k)) < s + w"
    using on_pace_next [of s w "max 1 i" k now "sa_took (ans k)" "sa_late (ans k)"] 1(2) that by (simp add: max.left_idem)
  note IH = 1(1) [OF refl refl refl _ refl _ nxt 1(3), simplified]
  show ?case unfolding observe_loop.simps [of "s + w" "max 1 i" ans s k baseline failures now] Let_def
    using here IH by (auto split: sum.splits prod.splits)
qed

lemma health_loop_spec:
  "health_loop probe ans i s k n now = Inr w \<Longrightarrow>
     k < hw_attempts w \<and> hw_attempts w \<le> k + n + 1 \<and> probe (hw_attempts w - 1) = Inr (hw_result w) \<and>
     (\<forall>j. k \<le> j \<and> j + 1 < hw_attempts w \<longrightarrow>
        (\<exists>r. probe j = Inr r \<and> \<not> pr_healthy r \<and> \<not> isTerminalGreenHealthFailure r)) \<and>
     (hw_attempts w = k + n + 1 \<or> pr_healthy (hw_result w) \<or> isTerminalGreenHealthFailure (hw_result w))"
proof (induction n arbitrary: k now)
  case 0
  then show ?case by (auto simp: health_loop.simps rbind_Inr_iff Let_def split: if_splits)
next
  case (Suc n)
  obtain r where r: "probe k = Inr r" using Suc.prems by (auto simp: health_loop.simps rbind_Inr_iff)
  show ?case
  proof (cases "pr_healthy r \<or> isTerminalGreenHealthFailure r")
    case True
    with Suc.prems r show ?thesis by (auto simp: health_loop.simps [of probe ans i s k] Let_def)
  next
    case False
    with Suc.prems r have "health_loop probe ans i s (k + 1) n (wake (now + int (ha_took (ans k))) i (ha_late (ans k))) = Inr w"
      by (simp add: health_loop.simps [of probe ans i s k] Let_def)
    note IH = Suc.IH [OF this]
    have "\<exists>r. probe j = Inr r \<and> \<not> pr_healthy r \<and> \<not> isTerminalGreenHealthFailure r"
      if "k \<le> j" "j + 1 < hw_attempts w" for j
      using IH that r False by (cases "j = k") auto
    with IH show ?thesis by auto
  qed
qed

lemma runProbe_once:
  "runProbe penv (config\<lparr>hc_failureThreshold := 1\<rparr>) cid port ans =
     runSingleProbe penv (config\<lparr>hc_failureThreshold := 1\<rparr>) cid port (ans 0)"
  by (cases "runSingleProbe penv (config\<lparr>hc_failureThreshold := 1\<rparr>) cid port (ans 0)") (simp_all add: runProbe_def)

section \<open>Properties\<close>

text \<open>
  C26. Waiting for the route. The loop always ends, after fewer than \<open>maxWaitMs / intervalMs + 2\<close>
  probes. When it answers that the route works, its last probe got an accepted status, and not
  before the minimum age was over (so not from the provider's old snapshot). When it answers that
  it does not, the whole wait was over, and the last probe failed with the reported error or the minimum
  age was not over yet; so, if the wait covers the minimum age, a route that every probe reaches is always verified.
\<close>

theorem route_wait_correct:
  "(case waitForManagedTraefikRoute p ans startedAt of
     Route_ok status n el \<Rightarrow> 0 < n \<and> probeManagedTraefikRoute p (ra_outcome (ans (n - 1))) = Inr status \<and> minimum_age p \<le> el
   | Route_failed e n el status \<Rightarrow> 0 < n \<and> rp_maxWaitMs p \<le> el \<and>
       (probeManagedTraefikRoute p (ra_outcome (ans (n - 1))) = Inl (e, status) \<or> el < minimum_age p)) \<and>
   (int (attempts_of (waitForManagedTraefikRoute p ans startedAt)) - 2) * max 1 (rp_intervalMs p) < max 1 (rp_maxWaitMs p)"
proof (intro conjI)
  let ?w = "wait_route p ans startedAt 0 startedAt"
  show "case waitForManagedTraefikRoute p ans startedAt of
     Route_ok status n el \<Rightarrow> 0 < n \<and> probeManagedTraefikRoute p (ra_outcome (ans (n - 1))) = Inr status \<and> minimum_age p \<le> el
   | Route_failed e n el status \<Rightarrow> 0 < n \<and> rp_maxWaitMs p \<le> el \<and>
       (probeManagedTraefikRoute p (ra_outcome (ans (n - 1))) = Inl (e, status) \<or> el < minimum_age p)"
  proof (cases ?w)
    case (Route_ok status n el)
    with wait_route_ok [OF Route_ok] show ?thesis by (simp add: waitForManagedTraefikRoute_def)
  next
    case (Route_failed e n el status)
    with wait_route_failed [OF Route_failed] show ?thesis
      by (auto simp: waitForManagedTraefikRoute_def route_deadline_def)
  qed
  show "(int (attempts_of (waitForManagedTraefikRoute p ans startedAt)) - 2) * max 1 (rp_intervalMs p) < max 1 (rp_maxWaitMs p)"
    unfolding waitForManagedTraefikRoute_def by (rule wait_route_pace) (simp add: on_pace_start)
qed

definition slow_route :: "nat \<Rightarrow> route_answer" where
  "slow_route k = \<lparr>ra_outcome = Responded (if k < 4 then 502 else 200), ra_took = 20, ra_late = 3\<rparr>"

definition default_wait :: route_params where
  "default_wait = \<lparr>rp_host = ''web.example'', rp_path = ''/health'', rp_probeTimeoutMs = 5000, rp_maxWaitMs = 12000,
     rp_intervalMs = 500, rp_minimumSuccessAgeMs = Some 2000, rp_statusPolicy = None\<rparr>"

theorem route_wait_correct_witness:
  "\<exists>el. waitForManagedTraefikRoute default_wait slow_route 7 = Route_ok 200 5 el \<and> 2000 \<le> el"
proof -
  have "waitForManagedTraefikRoute default_wait slow_route 7 = Route_ok 200 5 2112"
    by (simp add: waitForManagedTraefikRoute_def wait_route.simps probeManagedTraefikRoute_def accepted_status_def default_wait_def
        slow_route_def minimum_age_def route_deadline_def wake_def Let_def)
  with route_wait_correct [of default_wait slow_route 7] show ?thesis by (simp add: default_wait_def minimum_age_def)
qed

text \<open>
  C27. Watching green. The loop always ends, after fewer than \<open>observeMs / intervalMs + 2\<close> checks. It
  answers that green is stable only when it has watched for \<open>observeMs\<close> and no check was a reason to give up, and that it is unstable
  exactly at the first check that is one: an inspection that found the container restarting, not running, unhealthy or with more restarts than the
  first answered inspection counted; a failed inspection that says the container does not exist; or the third failed inspection in a row.
\<close>

theorem stability_watch_correct:
  "(case observeBlueGreenStability observeMs intervalMs ans startedAt of
      Stable n el \<Rightarrow> 0 < n \<and> observeMs \<le> el \<and> (\<forall>j<n. \<not> green_bad ans j)
    | Unstable n el err \<Rightarrow> 0 < n \<and> green_bad ans (n - 1) \<and> (\<forall>j<n - 1. \<not> green_bad ans j)) \<and>
   (int (stable_checks (observeBlueGreenStability observeMs intervalMs ans startedAt)) - 2) * max 1 intervalMs < max 1 observeMs"
proof -
  let ?w = "max 0 observeMs"
  let ?r = "observe_loop (startedAt + ?w) (max 1 intervalMs) ans startedAt 0 None 0 startedAt"
  have "watch_verdict ?w ans 0 ?r"
    using observe_loop_verdict [of None ans 0 0 "startedAt + ?w" startedAt "max 1 intervalMs" startedAt] by simp
  moreover have "(int (stable_checks ?r) - 2) * max 1 intervalMs < max 1 observeMs"
  proof -
    have "on_pace startedAt ?w (max 1 intervalMs) 0 startedAt" by (rule on_pace_start) simp
    from observe_loop_pace [OF this, of ans None 0] show ?thesis by simp
  qed
  ultimately show ?thesis
    by (auto simp: observeBlueGreenStability_def watch_verdict_def split: stability_result.splits)
qed

definition calm_green :: "nat \<Rightarrow> stability_answer" where
  "calm_green k = \<lparr>sa_inspect = (if k = 1 then Inl ''socket hang up''
       else Inr \<lparr>in_running = True, in_restarting = False, in_exitCode = Some 0, in_health = None, in_restartCount = Some 1\<rparr>),
     sa_took = 10, sa_late = 0\<rparr>"

text \<open>A container that restarted between the second and the third check.\<close>

definition restarting_green :: "nat \<Rightarrow> stability_answer" where
  "restarting_green k = \<lparr>sa_inspect = Inr \<lparr>in_running = True, in_restarting = False, in_exitCode = Some 0, in_health = None,
       in_restartCount = Some (if k < 2 then 1 else 2)\<rparr>, sa_took = 10, sa_late = 0\<rparr>"

theorem stability_watch_correct_witness:
  "observeBlueGreenStability 30 20 calm_green 100 = Stable 2 40 \<and> \<not> green_bad calm_green 1 \<and>
   (\<exists>err. observeBlueGreenStability 90 20 restarting_green 100 = Unstable 3 70 err) \<and> green_bad restarting_green 2 \<and> \<not> green_bad restarting_green 1"
proof -
  have r: "observeBlueGreenStability 30 20 calm_green 100 = Stable 2 40"
    "observeBlueGreenStability 90 20 restarting_green 100 =
       Unstable 3 70 ''Green container restarted 1 time(s) during blue-green stability check''"
    by code_simp+
  from stability_watch_correct [where observeMs = 30 and intervalMs = 20 and ans = calm_green and startedAt = 100]
    stability_watch_correct [where observeMs = 90 and intervalMs = 20 and ans = restarting_green and startedAt = 100]
  show ?thesis unfolding r by simp
qed

text \<open>With a window shorter than two intervals green can pass without a single inspection that was answered.\<close>

lemma stable_without_inspection:
  "observeBlueGreenStability 0 2000 (\<lambda>k. \<lparr>sa_inspect = Inl ''socket hang up'', sa_took = 0, sa_late = 0\<rparr>) 0 = Stable 1 0"
  by code_simp

end
