(* ===== verification/Blue_Green.thy ===== *)
theory Blue_Green
  imports Blue_Green_Checks Project_State Deploy_Lock
begin

text \<open>
  The blue-green redeploy of \<open>src/src/pipeline/deploy-core.ts\<close>: a new container (green) is started
  beside the one that serves (blue), checked, promoted by writing it into the service row that
  Traefik's provider reads, and blue is stopped only then; any failure goes back to blue.

  The state of a run is the database (\<open>bg_db\<close>, \<open>bg_envs\<close>), the local variables of the function and
  the history of what it did: every awaited call that can fail, and what each wait answered. What the
  services outside answer (Docker, git, the registry, the database connection, the clock) is the
  context: \<open>c_fails\<close> says, from the history, whether a call throws. The theorems hold for every
  context, so for every failure at every point.

  Left out: the texts of build and runtime logs, the resolved variables, secrets and limits that are
  only passed on to the container (the calls that read them are kept, since they can throw),
  durations and URLs of the result. The job manager is taken to be configured.
\<close>

section \<open>The deploy configuration (\<open>src/src/pipeline/build-deploy-config.ts\<close>, \<open>redeploy-source.ts\<close>)\<close>

definition hasText :: "string option \<Rightarrow> bool" where
  "hasText v \<longleftrightarrow> (case v of Some s \<Rightarrow> js_trim s \<noteq> [] | None \<Rightarrow> False)"

definition isLocalOpenLanderImage :: "string option \<Rightarrow> bool" where
  "isLocalOpenLanderImage imageUrl \<longleftrightarrow> hasText imageUrl \<and>
     (let normalized = lower (js_trim (the imageUrl))
      in normalized = ''openlander'' \<or> starts_with ''openlander:'' normalized \<or> starts_with ''openlander/'' normalized)"

text \<open>The message of the error, if the source is incomplete.\<close>

definition source_missing :: "string \<Rightarrow> string \<Rightarrow> string \<Rightarrow> string" where
  "source_missing serviceId missingField source = ''Service '' @ serviceId @ '' is missing required source configuration ('' @
     missingField @ (if source \<noteq> [] then '' for '' @ source @ '' source'' else []) @ '')''"

definition getRedeploySourceMissingError :: "string \<Rightarrow> string option \<Rightarrow> string option \<Rightarrow> string option \<Rightarrow> string option" where
  "getRedeploySourceMissingError sid src repo_url image_url =
     (let source = (case src of Some s \<Rightarrow> s | None \<Rightarrow> ''git'')
      in if source = ''image''
         then (if hasText image_url \<and> \<not> isLocalOpenLanderImage image_url then None
               else Some (source_missing sid ''image_url'' ''image''))
         else (if hasText repo_url then None else Some (source_missing sid ''repo_url'' source)))"

definition isValidDockerfilePath :: "string \<Rightarrow> bool" where
  "isValidDockerfilePath path \<longleftrightarrow> path \<noteq> ''Dockerfile'' \<and> \<not> starts_with ''/'' path \<and>
     \<not> ends_with ''.yml'' path \<and> \<not> ends_with ''.yaml'' path"

record deploy_config =
  dc_repoUrl :: string
  dc_branch :: "string option"
  dc_gitCredentialId :: "string option"
  dc_name :: string
  dc_source :: "string option"
  dc_imageUrl :: "string option"
  dc_containerPort :: "int option"
  dc_dockerfilePath :: "string option"
  dc_dockerTarget :: "string option"
  dc_buildContext :: "string option"
  dc_preferDockerfile :: bool
  dc_serviceId :: "string option"
  dc_preferredPort :: "int option"

text \<open>
  The part of the configuration that comes from the rows; a stored snapshot adds only keys that are
  not among these. \<open>Inl\<close> the message of the error.
\<close>

definition buildDeployConfig :: "project_row \<Rightarrow> service_row option \<Rightarrow> service_view \<Rightarrow> string + deploy_config" where
  "buildDeployConfig project deployable view =
     (let repoUrl = (case Option.bind deployable s_repo_url of Some u \<Rightarrow> u | None \<Rightarrow> []);
          isCompose = (v_buildMethod view = Some BCompose)
      in case getRedeploySourceMissingError (case deployable of Some d \<Rightarrow> s_id d | None \<Rightarrow> p_id project @ ''__svc'')
                (Some (case v_source view of Some src \<Rightarrow> src | None \<Rightarrow> ''git'')) (Some repoUrl) (v_imageUrl view) of
           Some message \<Rightarrow> Inl message
         | None \<Rightarrow> Inr \<lparr>dc_repoUrl = repoUrl, dc_branch = Option.bind deployable s_branch,
             dc_gitCredentialId = Option.bind deployable s_git_credential_id, dc_name = p_name project,
             dc_source = v_source view, dc_imageUrl = v_imageUrl view, dc_containerPort = v_containerPort view,
             dc_dockerfilePath = (case v_dockerfilePath view of
                Some path \<Rightarrow> if \<not> isCompose \<and> isValidDockerfilePath path then Some path else None | None \<Rightarrow> None),
             dc_dockerTarget = (if isCompose then None else v_dockerTarget view),
             dc_buildContext = v_buildContext view, dc_preferDockerfile = (v_buildMethod view \<noteq> Some BCompose),
             dc_serviceId = map_option s_id deployable, dc_preferredPort = v_assignedPort view\<rparr>)"

section \<open>Eligibility\<close>

definition normalizeHealthCheckPath :: "string \<Rightarrow> string" where
  "normalizeHealthCheckPath path = (if starts_with ''/'' path then path else ''/'' @ path)"

definition explicitHealthCheckPath :: "service_view \<Rightarrow> string option \<Rightarrow> string option" where
  "explicitHealthCheckPath view override =
     (case find (\<lambda>c. hasText c) [override, v_healthCheckPath view] of
        Some (Some found) \<Rightarrow> Some (if starts_with ''/'' found then found else ''/'' @ found)
      | _ \<Rightarrow> None)"

datatype bg_reason = Project_not_found | No_workload | Compose_not_eligible | Source_not_eligible
  | Not_running | No_container | Not_managed_traefik | Not_exposed | No_health_path

fun reason_text :: "bg_reason \<Rightarrow> string" where
  "reason_text Project_not_found = ''Project not found.''"
| "reason_text No_workload = ''No Application or Compose workload found.''"
| "reason_text Compose_not_eligible = ''Compose stacks are not eligible for blue-green deploys in v0.1.3.''"
| "reason_text Source_not_eligible = ''Blue-green deploys require a git or image Application.''"
| "reason_text Not_running = ''The current service must be running before blue-green can preserve it.''"
| "reason_text No_container = ''The current service has no active container to keep serving as blue.''"
| "reason_text Not_managed_traefik = ''Managed Traefik HTTP-provider routing is required for route-target flips.''"
| "reason_text Not_exposed = ''The service is not exposed through OpenLander/Traefik routes.''"
| "reason_text No_health_path =
     ''An explicit health_check_path is required; the default \"/\" probe is not enough for blue-green promotion.''"

record bg_eligibility =
  el_reasons :: "bg_reason list"
  el_status :: "service_status option"

definition el_supported :: "bg_eligibility \<Rightarrow> bool" where
  "el_supported e \<longleftrightarrow> el_reasons e = []"

definition getBlueGreenEligibility :: "store \<Rightarrow> bool \<Rightarrow> string \<Rightarrow> string option \<Rightarrow> bg_eligibility" where
  "getBlueGreenEligibility db managed projectId override =
     (let project = getProject db projectId;
          record = map_option (loadServiceViewRecord db) project;
          deployable = Option.bind record vr_service;
          view = map_option vr_view record;
          when = (\<lambda>b r. if b then [r] else [])
      in \<lparr>el_reasons =
            when (project = None) Project_not_found @
            when (deployable = None) No_workload @
            (case (deployable, view) of
               (Some _, Some v) \<Rightarrow>
                 when (v_kind v = Some KCompose \<or> v_kind v = Some KComposeChild) Compose_not_eligible @
                 when (v_source v \<noteq> Some ''git'' \<and> v_source v \<noteq> Some ''image'') Source_not_eligible @
                 when (v_status v \<noteq> Status Running) Not_running @
                 when (\<not> truthy (v_containerId v)) No_container
             | _ \<Rightarrow> []) @
            when (\<not> managed) Not_managed_traefik @
            (case (project, deployable, view) of
               (Some p, Some d, Some v) \<Rightarrow>
                 when (\<not> mp_exposeViaTraefik (resolveMonitoringProfile p (Some d))) Not_exposed @
                 when (explicitHealthCheckPath v override = None) No_health_path
             | _ \<Rightarrow> []),
          el_status = (case deployable of None \<Rightarrow> None | Some d \<Rightarrow> map_option v_status view)\<rparr>)"

section \<open>The state of a run\<close>

datatype bg_call =
    Read string
  | DoTransition project_status
  | DoUpdateProject
  | DoUpdateEnvironment
  | Prepare string
  | PullImage string
  | CloneRepo
  | BuildImage string
  | RunContainer string
  | Disconnect string
  | Connect string
  | StopContainer string
  | RemoveContainer string
  | RestartContainer string
  | InspectContainer string
  | WriteDeployLog deploy_log_status
  | DoUpdateService

text \<open>An error: its message, and whether it is Docker's cancellation of the build.\<close>

record bg_error =
  be_message :: string
  be_cancelled :: bool

datatype bg_event =
    Did bg_call
  | Threw bg_call bg_error
  | Probed health_wait
  | Watched stability_result
  | Routed route_verification
  | Emitted string
  | Phase string

record blue_state =
  bs_containerId :: string
  bs_containerName :: "string option"
  bs_assignedPort :: "int option"
  bs_containerPort :: "int option"
  bs_imageTag :: "string option"
  bs_previousImageTag :: "string option"

record bg_options =
  o_healthCheckPath :: "string option"
  o_healthCheckRetries :: "int option"
  o_healthCheckIntervalMs :: "int option"
  o_routeSwitchDelayMs :: "int option"
  o_routeProbeIntervalMs :: "int option"
  o_routeProbeTimeoutMs :: "int option"
  o_routeProbePath :: "string option"
  o_postSwitchStabilityMs :: "int option"
  o_postSwitchStabilityPollIntervalMs :: "int option"

record managed_container =
  mc_id :: string
  mc_name :: string
  mc_labels :: "(string, string) js_map"

record bg_ctx =
  c_projectId :: string
  c_options :: bg_options
  c_traefikManaged :: bool
  c_penv :: "string \<Rightarrow> string option"
  c_hostname :: "string \<Rightarrow> string"
  c_fails :: "bg_event list \<Rightarrow> bg_call \<Rightarrow> bg_error option"
  c_clock :: "nat \<Rightarrow> int"
  c_containers :: "managed_container list"
  c_cloned :: "string \<times> string option"
  c_builtTag :: string
  c_port :: int
  c_exposedPort :: "int option"
  c_suffix :: string
  c_greenId :: string
  c_health :: "nat \<Rightarrow> health_answer"
  c_watch :: "nat \<Rightarrow> stability_answer"
  c_route :: "nat \<Rightarrow> route_answer"
  c_routeAgain :: "nat \<Rightarrow> route_answer"
  c_running :: "bg_event list \<Rightarrow> bool"

record bg_state =
  bg_db :: store
  bg_envs :: "environment_row list"
  bg_hist :: "bg_event list"
  l_projectName :: string
  l_record :: "service_view_record option"
  l_routeProbePath :: "string option"
  l_blue :: "blue_state option"
  l_prodEnv :: "environment_row option"
  l_environmentId :: "string option"
  l_config :: "deploy_config option"
  l_fromImage :: bool
  l_imageTag :: "string option"
  l_commitSha :: "string option"
  l_cloned :: bool
  l_newPort :: "int option"
  l_containerPort :: "int option"
  l_green :: "string option"
  l_shouldCleanupGreen :: bool
  l_routeTargetUpdated :: bool
  l_routeSwitched :: bool
  l_blueServing :: bool
  l_warnings :: "string list"

definition bg_init :: "store \<Rightarrow> environment_row list \<Rightarrow> bg_options \<Rightarrow> bg_state" where
  "bg_init db envs options = \<lparr>bg_db = db, bg_envs = envs, bg_hist = [], l_projectName = ''unknown'', l_record = None,
     l_routeProbePath = o_routeProbePath options, l_blue = None, l_prodEnv = None, l_environmentId = None,
     l_config = None, l_fromImage = False, l_imageTag = None, l_commitSha = None, l_cloned = False,
     l_newPort = None, l_containerPort = None, l_green = None, l_shouldCleanupGreen = False,
     l_routeTargetUpdated = False, l_routeSwitched = False, l_blueServing = False, l_warnings = []\<rparr>"

datatype readiness = Blocked | Healthy | Unhealthy | Unknown_readiness

record deploy_result =
  dr_success :: bool
  dr_projectName :: string
  dr_code :: "string option"
  dr_readiness :: "readiness option"
  dr_route_switched :: bool
  dr_previous_version_still_serving :: bool
  dr_warnings :: "string list"
  dr_previousImageTag :: "string option"
  dr_containerId :: "string option"
  dr_port :: "int option"
  dr_commitSha :: "string option"
  dr_error :: "string option"
  dr_cancelled :: bool

text \<open>Abrupt completion of a step: an exception or an early \<open>return\<close>.\<close>

datatype bg_abrupt = Throws bg_error | Returns deploy_result

type_synonym bg_action = "bg_state \<Rightarrow> bg_abrupt option \<times> bg_state"

section \<open>Steps\<close>

definition bg_note :: "bg_event \<Rightarrow> bg_action" where
  "bg_note ev st = (None, st\<lparr>bg_hist := bg_hist st @ [ev]\<rparr>)"

definition bg_set :: "(bg_state \<Rightarrow> bg_state) \<Rightarrow> bg_action" where
  "bg_set f st = (None, f st)"

text \<open>A step that looks at the state first.\<close>

definition bg_with :: "(bg_state \<Rightarrow> bg_action) \<Rightarrow> bg_action" where
  "bg_with f st = f st st"

definition bg_throw :: "string \<Rightarrow> bg_action" where
  "bg_throw message st = (Some (Throws \<lparr>be_message = message, be_cancelled = False\<rparr>), st)"

definition bg_return :: "(bg_state \<Rightarrow> deploy_result) \<Rightarrow> bg_action" where
  "bg_return r st = (Some (Returns (r st)), st)"

text \<open>One awaited call.\<close>

definition bg_do :: "bg_ctx \<Rightarrow> bg_call \<Rightarrow> bg_action" where
  "bg_do c x st =
     (case c_fails c (bg_hist st) x of
        Some e \<Rightarrow> (Some (Throws e), st\<lparr>bg_hist := bg_hist st @ [Threw x e]\<rparr>)
      | None \<Rightarrow> (None, st\<lparr>bg_hist := bg_hist st @ [Did x]\<rparr>))"

fun bg_run :: "bg_action list \<Rightarrow> bg_action" where
  "bg_run [] st = (None, st)"
| "bg_run (a # rest) st = (case a st of (None, st') \<Rightarrow> bg_run rest st' | (Some x, st') \<Rightarrow> (Some x, st'))"

definition bg_if :: "(bg_state \<Rightarrow> bool) \<Rightarrow> bg_action list \<Rightarrow> bg_action list \<Rightarrow> bg_action" where
  "bg_if b as bs st = (if b st then bg_run as st else bg_run bs st)"

text \<open>\<open>try { .. } catch (e) { .. }\<close>.\<close>

definition bg_try :: "bg_action list \<Rightarrow> (bg_error \<Rightarrow> bg_action list) \<Rightarrow> bg_action" where
  "bg_try as handler st =
     (case bg_run as st of (Some (Throws e), st') \<Rightarrow> bg_run (handler e) st' | r \<Rightarrow> r)"

definition bg_now :: "bg_ctx \<Rightarrow> bg_state \<Rightarrow> int" where
  "bg_now c st = c_clock c (length (bg_hist st))"

definition option_ms :: "int option \<Rightarrow> int \<Rightarrow> int" where
  "option_ms v d = (case v of Some ms \<Rightarrow> ms | None \<Rightarrow> d)"

text \<open>The result of \<open>transition\<close> is not looked at: a move the state machine refuses changes nothing.\<close>

definition transitionProjectState :: "bg_ctx \<Rightarrow> project_status \<Rightarrow> string \<Rightarrow> project_updates \<Rightarrow> bg_action" where
  "transitionProjectState c target reason updates = bg_run
     ([bg_do c (DoTransition target),
       bg_set (\<lambda>st. st\<lparr>bg_db := snd (snd (transition (c_projectId c) target reason False (bg_now c st) (bg_db st)))\<rparr>)] @
      (if updates = no_updates then []
       else [bg_do c DoUpdateProject,
             bg_set (\<lambda>st. st\<lparr>bg_db := updateProject (c_projectId c) updates (bg_now c st) (bg_db st)\<rparr>)]))"

definition write_environment :: "bg_ctx \<Rightarrow> string \<Rightarrow> env_updates \<Rightarrow> bg_action" where
  "write_environment c eid u = bg_run
     [bg_do c DoUpdateEnvironment,
      bg_with (\<lambda>st. case updateEnvironment eid u (bg_now c st) (bg_envs st) of
             Inr t \<Rightarrow> bg_set (\<lambda>st. st\<lparr>bg_envs := t\<rparr>)
           | Inl _ \<Rightarrow> bg_throw ''duplicate key value violates unique constraint'')]"

definition environment_status :: "env_status \<Rightarrow> env_updates" where
  "environment_status s = no_env_updates\<lparr>eu_status := Some s\<rparr>"

definition blue_updates :: "blue_state \<Rightarrow> project_updates" where
  "blue_updates blue = no_updates\<lparr>u_containerId := Some (Some (bs_containerId blue)),
     u_containerName := Some (bs_containerName blue), u_assignedPort := Some (bs_assignedPort blue),
     u_containerPort := Some (bs_containerPort blue), u_imageTag := Some (bs_imageTag blue),
     u_previousImageTag := Some (bs_previousImageTag blue)\<rparr>"

definition blue_env_updates :: "blue_state \<Rightarrow> env_updates" where
  "blue_env_updates blue = no_env_updates\<lparr>eu_status := Some ERunning, eu_containerId := Some (Some (bs_containerId blue)),
     eu_assignedPort := Some (bs_assignedPort blue), eu_containerPort := Some (bs_containerPort blue),
     eu_imageTag := Some (bs_imageTag blue), eu_previousImageTag := Some (bs_previousImageTag blue)\<rparr>"

definition restoreBlueState :: "bg_ctx \<Rightarrow> string option \<Rightarrow> blue_state \<Rightarrow> bg_action" where
  "restoreBlueState c environmentId blue = bg_run
     (transitionProjectState c Running ''deploy-running'' (blue_updates blue) #
      (if truthy environmentId then [write_environment c (the environmentId) (blue_env_updates blue)] else []))"

definition cleanupGreenContainer :: "bg_ctx \<Rightarrow> string \<Rightarrow> bg_action" where
  "cleanupGreenContainer c cid = bg_run
     [bg_try [bg_do c (StopContainer cid)] (\<lambda>e. []), bg_try [bg_do c (RemoveContainer cid)] (\<lambda>e. [])]"

definition projectContainerName :: "string \<Rightarrow> string" where
  "projectContainerName name = ''ol-'' @ name"

definition ROLE_LABEL :: string where "ROLE_LABEL = ''openlander.blue_green.role''"
definition PROJECT_ID_LABEL :: string where "PROJECT_ID_LABEL = ''openlander.blue_green.project_id''"
definition SERVICE_ID_LABEL :: string where "SERVICE_ID_LABEL = ''openlander.blue_green.service_id''"

definition makeGreenContainerName :: "string \<Rightarrow> string \<Rightarrow> string" where
  "makeGreenContainerName projectName suffix = projectContainerName (projectName @ ''-green-'' @ suffix)"

definition makeGreenContainerLabels :: "string \<Rightarrow> string \<Rightarrow> string \<Rightarrow> (string, string) js_map" where
  "makeGreenContainerLabels projectName projectId serviceId =
     [(''openlander.managed'', ''true''), (PROJECT_LABEL, projectName), (ROLE_LABEL, ''green''),
      (PROJECT_ID_LABEL, projectId), (SERVICE_ID_LABEL, serviceId), (''traefik.enable'', ''false'')]"

definition stale_greens :: "string \<Rightarrow> string \<Rightarrow> string \<Rightarrow> managed_container list \<Rightarrow> managed_container list" where
  "stale_greens projectName projectId activeContainerId containers =
     filter (\<lambda>mc. mc_id mc \<noteq> activeContainerId \<and>
        ((js_get (mc_labels mc) ROLE_LABEL = Some ''green'' \<and> js_get (mc_labels mc) PROJECT_ID_LABEL = Some projectId) \<or>
         starts_with (projectContainerName (projectName @ ''-green-'')) (mc_name mc))) containers"

definition cleanupStaleGreenContainers :: "bg_ctx \<Rightarrow> string \<Rightarrow> string \<Rightarrow> bg_action" where
  "cleanupStaleGreenContainers c projectName activeContainerId =
     bg_try (bg_do c (Read ''listManagedContainers'') #
        map (\<lambda>mc. cleanupGreenContainer c (mc_id mc)) (stale_greens projectName (c_projectId c) activeContainerId (c_containers c)))
       (\<lambda>e. [])"

section \<open>The deploy, step by step\<close>

definition no_result :: "bg_state \<Rightarrow> deploy_result" where
  "no_result st = \<lparr>dr_success = False, dr_projectName = l_projectName st, dr_code = None, dr_readiness = None,
     dr_route_switched = False, dr_previous_version_still_serving = False, dr_warnings = [], dr_previousImageTag = None,
     dr_containerId = None, dr_port = None, dr_commitSha = None, dr_error = None, dr_cancelled = False\<rparr>"

definition valid_project_name :: "string \<Rightarrow> bool" where
  "valid_project_name name \<longleftrightarrow> name \<noteq> [] \<and> (is_lower (hd name) \<or> is_digit (hd name)) \<and>
     list_all (\<lambda>ch. is_lower ch \<or> is_digit ch \<or> ch = CHR ''-'') name"

text \<open>Load the project and what serves it, up to the default path of the route probe.\<close>

definition bg_load :: "bg_ctx \<Rightarrow> bg_action" where
  "bg_load c = bg_run
     [bg_do c (Read ''getProject''),
      bg_with (\<lambda>st. case getProject (bg_db st) (c_projectId c) of
             None \<Rightarrow> bg_return (\<lambda>st. (no_result st)\<lparr>dr_error := Some (''Project not found: '' @ c_projectId c)\<rparr>)
           | Some project \<Rightarrow> bg_run
               [bg_set (\<lambda>st. st\<lparr>l_projectName := p_name project\<rparr>),
                bg_if (\<lambda>st. valid_project_name (p_name project)) [] [bg_throw (''Invalid project name: \"'' @ p_name project @
                   ''\". Project names must start with a lowercase letter or number, and contain only lowercase letters, numbers, and hyphens.'')],
                bg_do c (Read ''loadServiceViewRecord''),
                bg_set (\<lambda>st. st\<lparr>l_record := Some (loadServiceViewRecord (bg_db st) project)\<rparr>)]),
      bg_if (\<lambda>st. Option.bind (l_record st) vr_service \<noteq> None)
        [bg_do c (Read ''resolveRuntimeProjectForService''),
         bg_if (\<lambda>st. getProject (bg_db st) (s_project_id (the (vr_service (the (l_record st))))) = None)
           [bg_with (\<lambda>st. bg_throw (''Project not found: '' @ s_project_id (the (vr_service (the (l_record st))))))] []] [],
      bg_set (\<lambda>st. st\<lparr>l_routeProbePath := Some (case l_routeProbePath st of
           Some p \<Rightarrow> p
         | None \<Rightarrow> (case (if Option.bind (l_record st) vr_service \<noteq> None
                     then explicitHealthCheckPath (vr_view (the (l_record st))) (o_healthCheckPath (c_options c)) else None) of
                      Some p \<Rightarrow> p | None \<Rightarrow> ''/''))\<rparr>)]"

definition buildBlueGreenUnsupportedResult :: "bg_eligibility \<Rightarrow> bg_state \<Rightarrow> deploy_result" where
  "buildBlueGreenUnsupportedResult e st = (no_result st)\<lparr>dr_code := Some ''BLUE_GREEN_UNSUPPORTED'',
     dr_readiness := Some Blocked, dr_previous_version_still_serving := (el_status e = Some (Status Running)),
     dr_error := Some (''Blue-green deploy unsupported: '' @ js_join '' '' (map reason_text (el_reasons e)))\<rparr>"

definition blue_of_view :: "string \<Rightarrow> service_view \<Rightarrow> string \<Rightarrow> blue_state" where
  "blue_of_view projectName view cid = \<lparr>bs_containerId = cid,
     bs_containerName = Some (case v_containerName view of Some n \<Rightarrow> n | None \<Rightarrow> projectContainerName projectName),
     bs_assignedPort = v_assignedPort view, bs_containerPort = v_containerPort view,
     bs_imageTag = v_imageTag view, bs_previousImageTag = v_previousImageTag view\<rparr>"

definition bg_pick_blue :: "bg_ctx \<Rightarrow> bg_action" where
  "bg_pick_blue c = bg_with (\<lambda>st.
     let e = getBlueGreenEligibility (bg_db st) (c_traefikManaged c) (c_projectId c) (o_healthCheckPath (c_options c));
         view = vr_view (the (l_record st))
     in if \<not> el_supported e
        then bg_return (buildBlueGreenUnsupportedResult e)
        else if vr_service (the (l_record st)) = None \<or> \<not> truthy (v_containerId view)
        then bg_return (buildBlueGreenUnsupportedResult \<lparr>el_reasons = [No_container], el_status = None\<rparr>)
        else bg_set (\<lambda>st. st\<lparr>l_blue := Some (blue_of_view (l_projectName st) view (the (v_containerId view)))\<rparr>))"

definition bg_choose_blue :: "bg_ctx \<Rightarrow> bg_action" where
  "bg_choose_blue c = bg_run
     [bg_do c (Read ''getBlueGreenEligibility''),
      bg_pick_blue c,
      bg_with (\<lambda>st. cleanupStaleGreenContainers c (l_projectName st) (bs_containerId (the (l_blue st))))]"

text \<open>\<open>src/src/pipeline/image-utils.ts\<close>.\<close>

definition mapPullError :: "string \<Rightarrow> string" where
  "mapPullError err =
     (let message = lower err
      in if isDockerNotFoundError err \<or> js_includes ''repository does not exist'' message
         then ''Image not found. Check the image name and try again.''
         else if js_includes ''denied'' message \<or> js_includes ''unauthorized'' message
         then ''This appears to be a private image. Only public images are supported in the current version.''
         else if js_includes ''no such host'' message \<or> js_includes ''connection refused'' message
         then ''Cannot reach the registry. Check your network connection.''
         else ''Failed to pull image: '' @ err)"

text \<open>Find the production environment, assemble the configuration and enter \<open>building\<close>.\<close>

definition bg_begin :: "bg_ctx \<Rightarrow> bg_action" where
  "bg_begin c = bg_run
     [bg_do c (Read ''getEnvironmentsByProject''),
      bg_set (\<lambda>st. let prodEnv = find (\<lambda>e. ev_type e = Production_env) (getEnvironmentsByProject (c_projectId c) (bg_envs st))
         in st\<lparr>l_prodEnv := prodEnv, l_environmentId := map_option ev_id prodEnv\<rparr>),
      bg_do c (Read ''buildDeployConfig''),
      bg_with (\<lambda>st. case buildDeployConfig (vr_project (the (l_record st))) (vr_service (the (l_record st)))
                          (vr_view (the (l_record st))) of
                Inl message \<Rightarrow> bg_throw message
              | Inr cfg \<Rightarrow> bg_set (\<lambda>st. st\<lparr>l_config := Some cfg\<rparr>)),
      bg_note (Phase ''tracking''),
      transitionProjectState c Building ''deploy-started'' no_updates,
      bg_with (\<lambda>st. case l_prodEnv st of
             None \<Rightarrow> bg_run [] | Some e \<Rightarrow> write_environment c (ev_id e) (environment_status EBuilding))]"

definition bg_image :: "bg_ctx \<Rightarrow> bg_action" where
  "bg_image c = bg_run
     [bg_set (\<lambda>st. st\<lparr>l_fromImage := (dc_source (the (l_config st)) = Some ''image'' \<or>
          v_source (vr_view (the (l_record st))) = Some ''image'')\<rparr>),
      bg_do c (Prepare ''preflightProjectNetwork''),
      bg_note (Emitted ''deploy:start''),
      bg_if l_fromImage
        [bg_with (\<lambda>st.
            let imageUrl = coalesce (dc_imageUrl (the (l_config st))) (v_imageUrl (vr_view (the (l_record st))))
            in if \<not> truthy imageUrl then bg_throw ''Missing image URL for image deployment source''
                 else bg_run [bg_note (Phase ''building''), bg_try [bg_do c (PullImage (the imageUrl))] (\<lambda>e. [bg_throw (mapPullError (be_message e))]),
                        bg_set (\<lambda>st. st\<lparr>l_imageTag := imageUrl\<rparr>)])]
        [bg_note (Phase ''cloning''), bg_do c CloneRepo,
         bg_set (\<lambda>st. st\<lparr>l_config := map_option (\<lambda>cfg. cfg\<lparr>dc_gitCredentialId := snd (c_cloned c)\<rparr>) (l_config st),
            l_cloned := True, l_commitSha := Some (fst (c_cloned c))\<rparr>),
         bg_note (Phase ''building''),
         bg_set (\<lambda>st. st\<lparr>l_imageTag := Some (c_builtTag c)\<rparr>),
         bg_do c (Read ''createDependencyCacheKey''),
         bg_do c (BuildImage (c_builtTag c))],
      bg_note (Emitted ''deploy:build'')]"

definition green_name :: "bg_ctx \<Rightarrow> bg_state \<Rightarrow> string" where
  "green_name c st = makeGreenContainerName (l_projectName st) (c_suffix c)"

definition bg_start_green :: "bg_ctx \<Rightarrow> bg_action" where
  "bg_start_green c = bg_run
     [bg_note (Phase ''starting''),
      bg_do c (Read ''allocatePort''),
      bg_set (\<lambda>st. st\<lparr>l_newPort := Some (c_port c)\<rparr>),
      bg_do c (Read ''getImageExposedPort''),
      bg_set (\<lambda>st. st\<lparr>l_containerPort := Some (case c_exposedPort c of Some p \<Rightarrow> p | None \<Rightarrow> c_port c)\<rparr>),
      bg_do c (Read ''resolveEnvVars''),
      bg_do c (Read ''getSecretFilesForDeploy''),
      bg_do c (Prepare ''ensureProjectNetwork''),
      bg_do c (Prepare ''ensureManagedTraefikNetwork''),
      bg_do c (Read ''loadResourceLimits''),
      bg_with (\<lambda>st. bg_do c (RunContainer (green_name c st))),
      bg_set (\<lambda>st. st\<lparr>l_green := Some (c_greenId c), l_shouldCleanupGreen := True\<rparr>),
      bg_note (Emitted ''deploy:run'')]"

definition green_probe_config :: "bg_ctx \<Rightarrow> bg_state \<Rightarrow> health_config" where
  "green_probe_config c st =
     (let record = the (l_record st);
          health = mp_health (resolveMonitoringProfile (vr_project record) (vr_service record));
          overridden = (case o_healthCheckPath (c_options c) of
             Some p \<Rightarrow> if p \<noteq> [] then health\<lparr>hc_strategy := HHttp, hc_path := Some (normalizeHealthCheckPath p)\<rparr> else health
           | None \<Rightarrow> health)
      in overridden\<lparr>hc_failureThreshold := option_ms (o_healthCheckRetries (c_options c)) 30,
           hc_intervalMs := option_ms (o_healthCheckIntervalMs (c_options c)) 2000\<rparr>)"

definition bg_probe_green :: "bg_ctx \<Rightarrow> bg_action" where
  "bg_probe_green c = bg_with (\<lambda>st.
     case waitForBlueGreenHealth (c_penv c) (green_probe_config c st) (c_greenId c) (l_newPort st)
            (option_ms (o_healthCheckRetries (c_options c)) 30) (option_ms (o_healthCheckIntervalMs (c_options c)) 2000)
            (c_health c) (bg_now c st) of
       Inl message \<Rightarrow> bg_throw message
     | Inr w \<Rightarrow> bg_run [bg_note (Probed w),
           if pr_healthy (hw_result w) then bg_run []
           else bg_throw (''Health check failed for '' @ l_projectName st @ '' on port '' @
               (case l_newPort st of Some p \<Rightarrow> show_int p | None \<Rightarrow> ''undefined'') @ '': '' @ (case pr_error (hw_result w) of Some e \<Rightarrow> e | None \<Rightarrow> ''no details''))])"

definition bg_watch_green :: "bg_ctx \<Rightarrow> bg_action" where
  "bg_watch_green c = bg_with (\<lambda>st.
     let stability = observeBlueGreenStability (option_ms (o_postSwitchStabilityMs (c_options c)) 30000)
            (option_ms (o_postSwitchStabilityPollIntervalMs (c_options c)) 2000) (c_watch c) (bg_now c st)
     in bg_run [bg_note (Watched stability),
           case stability of
             Stable n el \<Rightarrow> bg_run []
           | Unstable n el err \<Rightarrow> bg_run [bg_set (\<lambda>st. st\<lparr>l_shouldCleanupGreen := True\<rparr>), bg_throw err]])"

text \<open>Point the service row at green.\<close>

definition green_updates :: "bg_ctx \<Rightarrow> bg_state \<Rightarrow> project_updates" where
  "green_updates c st = no_updates\<lparr>u_containerId := Some (Some (c_greenId c)),
     u_containerName := Some (Some (green_name c st)), u_assignedPort := Some (l_newPort st),
     u_containerPort := Some (l_containerPort st), u_imageTag := Some (l_imageTag st),
     u_previousImageTag := Some (bs_imageTag (the (l_blue st)))\<rparr>"

definition green_env_updates :: "bg_ctx \<Rightarrow> environment_row \<Rightarrow> bg_state \<Rightarrow> env_updates" where
  "green_env_updates c prodEnv st = no_env_updates\<lparr>eu_status := Some ERunning,
     eu_containerId := Some (Some (c_greenId c)), eu_assignedPort := Some (l_newPort st),
     eu_containerPort := Some (l_containerPort st), eu_imageTag := Some (l_imageTag st),
     eu_previousImageTag := Some (ev_image_tag prodEnv),
     eu_branch := Some (if l_fromImage st then None else dc_branch (the (l_config st)))\<rparr>"

definition bg_promote :: "bg_ctx \<Rightarrow> bg_action" where
  "bg_promote c = bg_run
     [bg_do c (Disconnect (c_greenId c)),
      bg_do c (Connect (c_greenId c)),
      bg_with (\<lambda>st. transitionProjectState c Running ''deploy-success'' (green_updates c st)),
      bg_with (\<lambda>st. case l_prodEnv st of None \<Rightarrow> bg_run [] | Some e \<Rightarrow> write_environment c (ev_id e) (green_env_updates c e st)),
      bg_set (\<lambda>st. st\<lparr>l_routeTargetUpdated := True\<rparr>)]"

definition route_params_of :: "bg_ctx \<Rightarrow> int \<Rightarrow> bg_state \<Rightarrow> route_params" where
  "route_params_of c minimumSuccessAgeMs st =
     \<lparr>rp_host = c_hostname c (l_projectName st), rp_path = the (l_routeProbePath st),
      rp_probeTimeoutMs = option_ms (o_routeProbeTimeoutMs (c_options c)) 5000,
      rp_maxWaitMs = option_ms (o_routeSwitchDelayMs (c_options c)) DEFAULT_BLUE_GREEN_ROUTE_SWITCH_TIMEOUT_MS,
      rp_intervalMs = option_ms (o_routeProbeIntervalMs (c_options c)) DEFAULT_BLUE_GREEN_ROUTE_PROBE_INTERVAL_MS,
      rp_minimumSuccessAgeMs = Some minimumSuccessAgeMs, rp_statusPolicy = None\<rparr>"

definition bg_verify_route :: "bg_ctx \<Rightarrow> bg_action" where
  "bg_verify_route c = bg_with (\<lambda>st.
     let delay = option_ms (o_routeSwitchDelayMs (c_options c)) DEFAULT_BLUE_GREEN_ROUTE_SWITCH_TIMEOUT_MS;
         routeProbe = waitForManagedTraefikRoute
            (route_params_of c (min TRAEFIK_HTTP_PROVIDER_POLL_INTERVAL_MS delay) st) (c_route c) (bg_now c st)
     in bg_run [bg_note (Routed routeProbe),
           case routeProbe of
             Route_ok status n el \<Rightarrow> bg_run []
           | Route_failed err n el status \<Rightarrow> bg_run
               [bg_with (\<lambda>st. restoreBlueState c (l_environmentId st) (the (l_blue st))),
                bg_set (\<lambda>st. st\<lparr>l_routeTargetUpdated := False\<rparr>),
                bg_throw err]])"

definition bg_stop_blue :: "bg_ctx \<Rightarrow> bg_action" where
  "bg_stop_blue c =
     bg_try [bg_with (\<lambda>st. bg_do c (StopContainer (bs_containerId (the (l_blue st)))))]
       (\<lambda>e. [bg_throw (''Failed to stop previous container before route cutover verification: '' @ be_message e)])"

definition bg_verify_again :: "bg_ctx \<Rightarrow> bg_action" where
  "bg_verify_again c = bg_with (\<lambda>st.
     let routeProbe = waitForManagedTraefikRoute (route_params_of c 0 st) (c_routeAgain c) (bg_now c st)
     in bg_run [bg_note (Routed routeProbe),
           case routeProbe of
             Route_ok status n el \<Rightarrow> bg_set (\<lambda>st. st\<lparr>l_routeSwitched := True, l_shouldCleanupGreen := False\<rparr>)
           | Route_failed err n el status \<Rightarrow>
               bg_throw (''Route did not remain reachable after previous container stopped: '' @ err)])"

text \<open>\<open>updateService\<close> with the credential that cloned.\<close>

definition set_git_credential :: "string \<Rightarrow> string \<Rightarrow> int \<Rightarrow> store \<Rightarrow> store" where
  "set_git_credential sid cred now db =
     db\<lparr>services := sql_update (\<lambda>r. s_id r = sid) (\<lambda>r. r\<lparr>s_git_credential_id := Some cred, s_updated_at := now\<rparr>) (services db)\<rparr>"

definition bg_finish :: "bg_ctx \<Rightarrow> bg_action" where
  "bg_finish c = bg_run
     [bg_try [bg_with (\<lambda>st. bg_do c (RemoveContainer (bs_containerId (the (l_blue st)))))]
        (\<lambda>e. [bg_set (\<lambda>st. st\<lparr>l_warnings := l_warnings st @
             [''Blue cleanup warning: failed to remove previous container: '' @ be_message e]\<rparr>)]),
      bg_do c (WriteDeployLog Log_success),
      bg_if (\<lambda>st. truthy (dc_gitCredentialId (the (l_config st))))
        [bg_do c DoUpdateService,
         bg_set (\<lambda>st. st\<lparr>bg_db := set_git_credential
             (case dc_serviceId (the (l_config st)) of Some sid \<Rightarrow> sid | None \<Rightarrow> s_id (the (vr_service (the (l_record st)))))
             (the (dc_gitCredentialId (the (l_config st)))) (bg_now c st) (bg_db st)\<rparr>)] [],
      bg_note (Phase ''done''),
      bg_note (Emitted ''deploy:success'')]"

definition success_result :: "bg_ctx \<Rightarrow> bg_state \<Rightarrow> deploy_result" where
  "success_result c st = (no_result st)\<lparr>dr_success := True, dr_readiness := Some Healthy, dr_route_switched := True,
     dr_warnings := l_warnings st, dr_previousImageTag := bs_imageTag (the (l_blue st)), dr_containerId := l_green st,
     dr_port := l_newPort st, dr_commitSha := l_commitSha st\<rparr>"

text \<open>The body of the \<open>try\<close>, in order.\<close>

definition bg_before_promotion :: "bg_ctx \<Rightarrow> bg_action list" where
  "bg_before_promotion c = [bg_load c, bg_choose_blue c, bg_begin c, bg_image c, bg_start_green c, bg_probe_green c, bg_watch_green c]"

definition bg_promotion :: "bg_ctx \<Rightarrow> bg_action list" where
  "bg_promotion c = [bg_promote c, bg_verify_route c, bg_stop_blue c, bg_verify_again c, bg_finish c]"

section \<open>Failure\<close>

definition bg_recover :: "bg_ctx \<Rightarrow> bool \<Rightarrow> bg_action" where
  "bg_recover c isCancelled = bg_run
     [bg_if (\<lambda>st. l_routeTargetUpdated st \<and> \<not> l_routeSwitched st \<and> l_blue st \<noteq> None)
        [bg_try [bg_with (\<lambda>st. restoreBlueState c (l_environmentId st) (the (l_blue st))),
                 bg_set (\<lambda>st. st\<lparr>l_routeTargetUpdated := False\<rparr>)] (\<lambda>e. [])] [],
      bg_set (\<lambda>st. st\<lparr>l_blueServing := False\<rparr>),
      bg_if (\<lambda>st. l_blue st \<noteq> None \<and> bs_containerId (the (l_blue st)) \<noteq> [])
        [bg_try [bg_with (\<lambda>st. bg_do c (InspectContainer (bs_containerId (the (l_blue st))))),
                 bg_set (\<lambda>st. st\<lparr>l_blueServing := c_running c (bg_hist st)\<rparr>)] (\<lambda>e. [])] [],
      bg_if (\<lambda>st. \<not> isCancelled \<and> \<not> l_blueServing st \<and> l_blue st \<noteq> None \<and> bs_containerId (the (l_blue st)) \<noteq> [])
        [bg_try [bg_with (\<lambda>st. bg_do c (RestartContainer (bs_containerId (the (l_blue st))))),
                 bg_set (\<lambda>st. st\<lparr>l_blueServing := True\<rparr>)] (\<lambda>e. [])] []]"

text \<open>Back to blue, or to \<open>target\<close> if nothing serves.\<close>

definition bg_settle :: "bg_ctx \<Rightarrow> project_status \<Rightarrow> string \<Rightarrow> env_status \<Rightarrow> bg_action" where
  "bg_settle c target reason envTarget = bg_if (\<lambda>st. l_blueServing st \<and> l_blue st \<noteq> None)
     [bg_with (\<lambda>st. restoreBlueState c (l_environmentId st) (the (l_blue st)))]
     [transitionProjectState c target reason no_updates,
      bg_if (\<lambda>st. truthy (l_environmentId st))
        [bg_do c (Read ''getEnvironment''),
         bg_if (\<lambda>st. getEnvironment (the (l_environmentId st)) (bg_envs st) \<noteq> None)
           [bg_with (\<lambda>st. write_environment c (the (l_environmentId st)) (environment_status envTarget))] []] []]"

definition blue_port :: "bg_state \<Rightarrow> int option" where
  "blue_port st = coalesce (Option.bind (l_blue st) bs_assignedPort) (l_newPort st)"

definition cancelled_result :: "bg_state \<Rightarrow> deploy_result" where
  "cancelled_result st = (no_result st)\<lparr>dr_readiness := Some Unknown_readiness,
     dr_previous_version_still_serving := l_blueServing st, dr_port := (if l_blueServing st then blue_port st else None),
     dr_error := Some ''Build cancelled by user'', dr_cancelled := True\<rparr>"

definition failure_result :: "bg_error \<Rightarrow> bg_state \<Rightarrow> deploy_result" where
  "failure_result e st = (no_result st)\<lparr>dr_readiness := Some Unhealthy, dr_route_switched := l_routeSwitched st,
     dr_previous_version_still_serving := l_blueServing st, dr_port := (if l_blueServing st then blue_port st else l_newPort st),
     dr_error := Some (if l_blueServing st \<and> l_blue st \<noteq> None
       then ''Blue-green deploy failed; previous version still serving. Inspect diagnostics and fix source/config before trying another update. Do not immediately retry with force: '' @ be_message e
       else be_message e)\<rparr>"

definition bg_catch :: "bg_ctx \<Rightarrow> bg_error \<Rightarrow> bg_action" where
  "bg_catch c e = bg_run
     (if be_cancelled e
      then [bg_recover c True,
            bg_settle c Stopped ''deploy-cancelled'' EStopped,
            bg_do c (WriteDeployLog Log_cancelled), bg_note (Phase ''failed''), bg_note (Emitted ''deploy:failed''),
            bg_return cancelled_result]
      else [bg_recover c False,
            bg_settle c Failed ''deploy-runtime-error'' EError,
            bg_do c (WriteDeployLog Log_failed), bg_note (Phase ''failed''), bg_note (Emitted ''deploy:failed''),
            bg_return (failure_result e)])"

text \<open>\<open>finally\<close>; the removal of the clone never throws.\<close>

definition bg_finally :: "bg_ctx \<Rightarrow> bg_state \<Rightarrow> bg_state" where
  "bg_finally c st =
     (let st1 = (case l_green st of
                   Some g \<Rightarrow> if l_shouldCleanupGreen st \<and> g \<noteq> [] then snd (cleanupGreenContainer c g st) else st
                 | None \<Rightarrow> st)
      in st1\<lparr>l_cloned := False\<rparr>)"

definition blueGreenRedeployInner :: "bg_ctx \<Rightarrow> bg_state \<Rightarrow> (bg_error + deploy_result) \<times> bg_state" where
  "blueGreenRedeployInner c st0 =
     (let (r, st) = (case bg_run (bg_before_promotion c @ bg_promotion c @ [bg_return (success_result c)]) st0 of
                       (Some (Throws e), st) \<Rightarrow> bg_catch c e st
                     | other \<Rightarrow> other)
      in (case r of Some (Returns res) \<Rightarrow> Inr res | Some (Throws e) \<Rightarrow> Inl e
          | None \<Rightarrow> Inl \<lparr>be_message = [], be_cancelled = False\<rparr>, bg_finally c st))"

section \<open>The lock around it\<close>

text \<open>
  \<open>fresh\<close> is the session id that is minted; a caller that already holds the lock passes its own.
  An empty session counts as none. The outcome keeps the state, for the environments and the history.
\<close>

definition runWithDeployLockIfTopLevel :: "string \<Rightarrow> string option \<Rightarrow> string \<Rightarrow> int \<Rightarrow> int
    \<Rightarrow> (store \<Rightarrow> ('e thrown + 'a) \<times> store) \<Rightarrow> store \<Rightarrow> ('e thrown + 'a) \<times> store" where
  "runWithDeployLockIfTopLevel projectId existingSessionId fresh now later fn db =
     (if truthy existingSessionId then fn db
      else withDeployLock projectId fresh None now later fn db)"

definition blueGreenRedeploy :: "bg_ctx \<Rightarrow> string option \<Rightarrow> string \<Rightarrow> int \<Rightarrow> int \<Rightarrow> environment_row list
    \<Rightarrow> store \<Rightarrow> ((bg_error \<times> bg_state) thrown + deploy_result \<times> bg_state) \<times> store" where
  "blueGreenRedeploy c lockSessionId fresh now later envs db =
     runWithDeployLockIfTopLevel (c_projectId c) lockSessionId (''deploy-'' @ fresh) now later
       (\<lambda>db. case blueGreenRedeployInner c (bg_init db envs (c_options c)) of
          (Inl e, st) \<Rightarrow> (Inl (Thrown (e, st)), bg_db st)
        | (Inr res, st) \<Rightarrow> (Inr (res, st), bg_db st)) db"

end
