(* ===== verification/Blue_Green_Props.thy ===== *)
theory Blue_Green_Props
  imports Blue_Green
begin

text \<open>
  Properties of the blue-green redeploy, for every behaviour of the services outside.

  \<open>keeps I a\<close> (a step preserves \<open>I\<close> however it ends) and \<open>hoare P a Q E\<close> (a step that starts in \<open>P\<close>
  ends in \<open>Q\<close>, or abruptly in \<open>E\<close>) carry the proofs: the rules in \<open>bg_rules\<close> follow the
  structure of the steps, and each invariant is checked against the few steps that can touch it.

  Shown: blue is stopped only when green was healthy, stable and routed, and removed only when the
  route was verified without it; a failed deploy that reports the previous version as serving
  leaves the service row on blue; a success leaves it on green; and a deploy whose calls all succeed does succeed.
\<close>

section \<open>Rules\<close>

named_theorems bg_rules \<open>preservation by the combinators of steps\<close>

definition keeps :: "(bg_state \<Rightarrow> bool) \<Rightarrow> bg_action \<Rightarrow> bool" where
  "keeps I a \<longleftrightarrow> (\<forall>st. I st \<longrightarrow> I (snd (a st)))"

lemma keepsD: "keeps I a \<Longrightarrow> a st = (r, st') \<Longrightarrow> I st \<Longrightarrow> I st'"
  unfolding keeps_def by (metis snd_conv)

lemma keeps_set [bg_rules]: "(\<And>st. I st \<Longrightarrow> I (f st)) \<Longrightarrow> keeps I (bg_set f)"
  by (simp add: keeps_def bg_set_def)

lemma keeps_note [bg_rules]: "(\<And>st. I st \<Longrightarrow> I (st\<lparr>bg_hist := bg_hist st @ [ev]\<rparr>)) \<Longrightarrow> keeps I (bg_note ev)"
  by (simp add: keeps_def bg_note_def)

lemma keeps_throw [bg_rules]: "keeps I (bg_throw m)"
  by (simp add: keeps_def bg_throw_def)

lemma keeps_return [bg_rules]: "keeps I (bg_return f)"
  by (simp add: keeps_def bg_return_def)

lemma keeps_do [bg_rules]:
  "(\<And>st. I st \<Longrightarrow> I (st\<lparr>bg_hist := bg_hist st @ [Did x]\<rparr>)) \<Longrightarrow>
   (\<And>st e. I st \<Longrightarrow> I (st\<lparr>bg_hist := bg_hist st @ [Threw x e]\<rparr>)) \<Longrightarrow> keeps I (bg_do c x)"
  by (auto simp: keeps_def bg_do_def split: option.splits)

lemma keeps_Nil [bg_rules]: "keeps I (bg_run [])"
  by (simp add: keeps_def)

lemma keeps_Cons [bg_rules]: "keeps I a \<Longrightarrow> keeps I (bg_run as) \<Longrightarrow> keeps I (bg_run (a # as))"
  unfolding keeps_def by (auto split: prod.splits option.splits)

lemma keeps_map: "(\<And>x. x \<in> set xs \<Longrightarrow> keeps I (f x)) \<Longrightarrow> keeps I (bg_run (map f xs))"
  by (induction xs) (auto intro: bg_rules)

lemma run_append:
  "bg_run (as @ bs) st = (case bg_run as st of (None, st') \<Rightarrow> bg_run bs st' | r \<Rightarrow> r)"
  by (induction as arbitrary: st) (auto split: prod.splits option.splits)

lemma keeps_append [bg_rules]: "keeps I (bg_run as) \<Longrightarrow> keeps I (bg_run bs) \<Longrightarrow> keeps I (bg_run (as @ bs))"
  unfolding keeps_def run_append by (auto split: prod.splits option.splits)

lemma keeps_if [bg_rules]: "keeps I (bg_run as) \<Longrightarrow> keeps I (bg_run bs) \<Longrightarrow> keeps I (bg_if b as bs)"
  by (simp add: keeps_def bg_if_def)

lemma keeps_try [bg_rules]: "keeps I (bg_run as) \<Longrightarrow> (\<And>e. keeps I (bg_run (h e))) \<Longrightarrow> keeps I (bg_try as h)"
  unfolding keeps_def bg_try_def by (auto split: prod.splits option.splits bg_abrupt.splits)

lemma keeps_with [bg_rules]: "(\<And>s. keeps I (f s)) \<Longrightarrow> keeps I (bg_with f)"
  by (simp add: keeps_def bg_with_def)

lemma keeps_cases [bg_rules]:
  "keeps I a \<Longrightarrow> (\<And>x. keeps I (b x)) \<Longrightarrow> keeps I (case v of None \<Rightarrow> a | Some x \<Rightarrow> b x)"
  "(\<And>x. keeps I (f x)) \<Longrightarrow> (\<And>y. keeps I (g y)) \<Longrightarrow> keeps I (case w of Inl x \<Rightarrow> f x | Inr y \<Rightarrow> g y)"
  "keeps I d \<Longrightarrow> keeps I e \<Longrightarrow> keeps I (if q then d else e)"
  "(\<And>n l. keeps I (h n l)) \<Longrightarrow> (\<And>n l m. keeps I (k n l m)) \<Longrightarrow> keeps I (case r of Stable n l \<Rightarrow> h n l | Unstable n l m \<Rightarrow> k n l m)"
  "(\<And>n l m. keeps I (u n l m)) \<Longrightarrow> (\<And>n l m s. keeps I (v' n l m s)) \<Longrightarrow>
     keeps I (case t of Route_ok n l m \<Rightarrow> u n l m | Route_failed n l m s \<Rightarrow> v' n l m s)"
  by (auto split: option.splits sum.splits stability_result.splits route_verification.splits)

lemma keeps_run_if [bg_rules]:
  "keeps I (bg_run xs) \<Longrightarrow> keeps I (bg_run ys) \<Longrightarrow> keeps I (bg_run (if q then xs else ys))"
  by simp

definition hoare :: "(bg_state \<Rightarrow> bool) \<Rightarrow> bg_action \<Rightarrow> (bg_state \<Rightarrow> bool) \<Rightarrow> (bg_abrupt \<Rightarrow> bg_state \<Rightarrow> bool) \<Rightarrow> bool" where
  "hoare P a Q E \<longleftrightarrow> (\<forall>st r st'. P st \<longrightarrow> a st = (r, st') \<longrightarrow> (case r of None \<Rightarrow> Q st' | Some x \<Rightarrow> E x st'))"

lemma hoareD: "hoare P a Q E \<Longrightarrow> P st \<Longrightarrow> a st = (r, st') \<Longrightarrow> (case r of None \<Rightarrow> Q st' | Some x \<Rightarrow> E x st')"
  unfolding hoare_def by blast

lemma hoareI: "(\<And>st r st'. P st \<Longrightarrow> a st = (r, st') \<Longrightarrow> (case r of None \<Rightarrow> Q st' | Some x \<Rightarrow> E x st')) \<Longrightarrow> hoare P a Q E"
  unfolding hoare_def by blast

lemma hoare_append:
  assumes "hoare P (bg_run as) R E" and "hoare R (bg_run bs) Q E"
  shows "hoare P (bg_run (as @ bs)) Q E"
proof (rule hoareI)
  fix st r st' assume h: "P st" "bg_run (as @ bs) st = (r, st')"
  obtain r1 st1 where one: "bg_run as st = (r1, st1)" by (cases "bg_run as st")
  show "case r of None \<Rightarrow> Q st' | Some x \<Rightarrow> E x st'"
  proof (cases r1)
    case None
    with hoareD [OF assms(1) h(1) one] have "R st1" by simp
    moreover have "bg_run bs st1 = (r, st')" using h(2) one None by (simp add: run_append)
    ultimately show ?thesis by (rule hoareD [OF assms(2)])
  next
    case (Some x)
    then show ?thesis using hoareD [OF assms(1) h(1) one] h(2) one by (auto simp: run_append)
  qed
qed

lemma run_single: "bg_run [a] = a"
  by (rule ext) (auto split: prod.splits option.splits)

lemma hoare_Cons: "hoare P a R E \<Longrightarrow> hoare R (bg_run as) Q E \<Longrightarrow> hoare P (bg_run (a # as)) Q E"
  using hoare_append [of P "[a]" R E as Q] by (simp add: run_single)

lemma hoare_Nil: "(\<And>st. P st \<Longrightarrow> Q st) \<Longrightarrow> hoare P (bg_run []) Q E"
  by (simp add: hoare_def)

lemma hoare_keeps: "keeps I a \<Longrightarrow> hoare I a I (\<lambda>_. I)"
  by (rule hoareI) (auto split: option.splits dest: keepsD)

lemma hoare_post: "hoare P a Q E \<Longrightarrow> (\<And>st. P' st \<Longrightarrow> P st) \<Longrightarrow> (\<And>st. Q st \<Longrightarrow> Q' st) \<Longrightarrow> (\<And>x st. E x st \<Longrightarrow> E' x st) \<Longrightarrow> hoare P' a Q' E'"
  by (rule hoareI) (force split: option.splits dest: hoareD)

lemma keeps_conj: "keeps I a \<Longrightarrow> keeps J a \<Longrightarrow> keeps (\<lambda>st. I st \<and> J st) a"
  by (simp add: keeps_def)

section \<open>Invariants of a run\<close>

text \<open>
  What the steps need of a property to preserve it: the events in \<open>ok\<close> may be added to the history,
  it does not look at the local variables (except which container is blue), and it survives the writes
  of a deploy that goes well.
\<close>

named_theorems step_rules \<open>the steps preserve the invariant at hand\<close>

locale bg_invariant =
  fixes I :: "bg_state \<Rightarrow> bool" and c :: bg_ctx and ok :: "bg_event \<Rightarrow> bool"
  assumes event: "I st \<Longrightarrow> ok ev \<Longrightarrow> I (st\<lparr>bg_hist := bg_hist st @ [ev]\<rparr>)"
    and quiet: "(\<And>x. ev \<noteq> Did (StopContainer x) \<and> ev \<noteq> Did (RemoveContainer x)) \<Longrightarrow> ok ev"
    and locals: "I st \<Longrightarrow> bg_db st' = bg_db st \<Longrightarrow> bg_hist st' = bg_hist st \<Longrightarrow> l_blue st' = l_blue st \<Longrightarrow> I st'"
    and move: "I st \<Longrightarrow> t \<in> {Running, Building} \<Longrightarrow>
       I (st\<lparr>bg_db := snd (snd (transition (c_projectId c) t r False now (bg_db st)))\<rparr>)"
    and "write": "I st \<Longrightarrow> u_status u = None \<Longrightarrow> I (st\<lparr>bg_db := updateProject (c_projectId c) u now (bg_db st)\<rparr>)"
    and cred: "I st \<Longrightarrow> I (st\<lparr>bg_db := set_git_credential sid g now (bg_db st)\<rparr>)"
begin

lemma keeps_local [step_rules]:
  "(\<And>st. bg_db (f st) = bg_db st \<and> bg_hist (f st) = bg_hist st \<and> l_blue (f st) = l_blue st) \<Longrightarrow> keeps I (bg_set f)"
  by (rule keeps_set) (rule locals, auto)

lemma keeps_event [step_rules]: "ok ev \<Longrightarrow> keeps I (bg_note ev)"
  by (rule keeps_note) (rule event)

lemma keeps_call [step_rules]: "ok (Did x) \<Longrightarrow> keeps I (bg_do c x)"
  by (rule keeps_do) (rule event, assumption, simp add: quiet)+

lemmas structural = keeps_throw keeps_return keeps_Nil keeps_Cons keeps_append keeps_if keeps_try keeps_with keeps_cases
  keeps_run_if keeps_local keeps_event keeps_call

lemma keeps_transition:
  assumes "t \<in> {Running, Building}" and "u_status u = None"
  shows "keeps I (transitionProjectState c t r u)"
proof -
  have move': "keeps I (bg_set (\<lambda>st. st\<lparr>bg_db := snd (snd (transition (c_projectId c) t r False (bg_now c st) (bg_db st)))\<rparr>))"
    by (rule keeps_set) (rule move [OF _ assms(1)])
  have write': "keeps I (bg_set (\<lambda>st. st\<lparr>bg_db := updateProject (c_projectId c) u (bg_now c st) (bg_db st)\<rparr>))"
    by (rule keeps_set) (rule "write" [OF _ assms(2)])
  show ?thesis unfolding transitionProjectState_def by (rule move' write' structural | (rule quiet; simp))+
qed

lemma keeps_write_environment: "keeps I (write_environment c eid eu)"
  unfolding write_environment_def by (intro structural quiet) auto

lemma keeps_restore: "keeps I (restoreBlueState c eo blue)"
  unfolding restoreBlueState_def
  by (intro structural keeps_transition keeps_write_environment) (auto simp: blue_updates_def no_updates_def)

lemma keeps_load: "keeps I (bg_load c)"
  unfolding bg_load_def by (intro structural quiet) auto

lemma keeps_begin: "keeps I (bg_begin c)"
  unfolding bg_begin_def Let_def
  by (intro structural quiet keeps_transition keeps_write_environment) (auto simp: no_updates_def)

lemma keeps_image: "keeps I (bg_image c)"
  unfolding bg_image_def Let_def by (intro structural quiet) auto

lemma keeps_start_green: "keeps I (bg_start_green c)"
  unfolding bg_start_green_def by (intro structural quiet) auto

lemma keeps_probe_green: "keeps I (bg_probe_green c)"
  unfolding bg_probe_green_def by (intro structural quiet) auto

lemma keeps_watch_green: "keeps I (bg_watch_green c)"
  unfolding bg_watch_green_def Let_def by (intro structural quiet) auto

lemma keeps_promote: "keeps I (bg_promote c)"
  unfolding bg_promote_def
  by (intro structural quiet keeps_transition keeps_write_environment) (auto simp: green_updates_def no_updates_def)

lemma keeps_verify_route: "keeps I (bg_verify_route c)"
  unfolding bg_verify_route_def Let_def by (intro structural quiet keeps_restore) auto

lemma keeps_verify_again: "keeps I (bg_verify_again c)"
  unfolding bg_verify_again_def Let_def by (intro structural quiet) auto

lemma keeps_recover: "keeps I (bg_recover c canc)"
  unfolding bg_recover_def by (intro structural quiet keeps_restore) auto

lemma keeps_cleanup:
  assumes "ok (Did (StopContainer g))" and "ok (Did (RemoveContainer g))"
  shows "keeps I (cleanupGreenContainer c g)"
  unfolding cleanupGreenContainer_def by (intro structural assms)

lemma keeps_stale:
  assumes "\<And>mc. mc \<in> set (stale_greens n (c_projectId c) b (c_containers c)) \<Longrightarrow>
     ok (Did (StopContainer (mc_id mc))) \<and> ok (Did (RemoveContainer (mc_id mc)))"
  shows "keeps I (cleanupStaleGreenContainers c n b)"
proof -
  have "keeps I (bg_run (map (\<lambda>mc. cleanupGreenContainer c (mc_id mc)) (stale_greens n (c_projectId c) b (c_containers c))))"
    by (rule keeps_map) (use assms in \<open>auto intro: keeps_cleanup\<close>)
  then show ?thesis unfolding cleanupStaleGreenContainers_def by (intro structural quiet) auto
qed

lemma keeps_stop_blue:
  assumes "\<And>st :: bg_state. ok (Did (StopContainer (bs_containerId (the (l_blue st)))))"
  shows "keeps I (bg_stop_blue c)"
  unfolding bg_stop_blue_def by (intro structural assms)

lemma keeps_finish:
  assumes "\<And>st :: bg_state. ok (Did (RemoveContainer (bs_containerId (the (l_blue st)))))"
  shows "keeps I (bg_finish c)"
proof -
  have cred': "keeps I (bg_set (\<lambda>st. st\<lparr>bg_db := set_git_credential
             (case dc_serviceId (the (l_config st)) of Some sid \<Rightarrow> sid | None \<Rightarrow> s_id (the (vr_service (the (l_record st)))))
             (the (dc_gitCredentialId (the (l_config st)))) (bg_now c st) (bg_db st)\<rparr>))"
    by (rule keeps_set) (rule cred)
  show ?thesis unfolding bg_finish_def by (rule cred' assms structural | (rule quiet; simp) | simp)+
qed

end

text \<open>A property of the history alone also survives the writes of a deploy that goes wrong.\<close>

locale bg_trace_invariant = bg_invariant +
  assumes any_db: "I st \<Longrightarrow> I (st\<lparr>bg_db := d\<rparr>)"
begin

lemma keeps_any_transition: "keeps I (transitionProjectState c t r u)"
proof -
  have move': "keeps I (bg_set (\<lambda>st. st\<lparr>bg_db := snd (snd (transition (c_projectId c) t r False (bg_now c st) (bg_db st)))\<rparr>))"
    by (rule keeps_set) (rule any_db)
  have write': "keeps I (bg_set (\<lambda>st. st\<lparr>bg_db := updateProject (c_projectId c) u (bg_now c st) (bg_db st)\<rparr>))"
    by (rule keeps_set) (rule any_db)
  show ?thesis unfolding transitionProjectState_def by (rule move' write' structural | (rule quiet; simp))+
qed

lemma keeps_settle: "keeps I (bg_settle c t r es)"
  unfolding bg_settle_def by (rule structural keeps_restore keeps_any_transition keeps_write_environment | (rule quiet; simp))+

lemma keeps_catch: "keeps I (bg_catch c e)"
proof -
  have "keeps I (bg_run [bg_recover c b, bg_settle c t r es, bg_do c (WriteDeployLog l), bg_note (Phase ph), bg_note (Emitted em), bg_return f])"
    for b t r es l ph em f
    by (rule structural keeps_recover keeps_settle | (rule quiet; simp))+
  then show ?thesis by (simp add: bg_catch_def)
qed

end

section \<open>The service row\<close>

text \<open>The project is there with its service row, which is running or building.\<close>

definition live :: "store \<Rightarrow> string \<Rightarrow> bool" where
  "live db pid \<longleftrightarrow> row_of p_id pid (projects db) \<noteq> None \<and>
     (\<exists>svc. getDeployableForProject db pid = Some svc \<and> s_status svc \<in> {Some Running, Some Building})"

definition serves :: "store \<Rightarrow> string \<Rightarrow> (service_row \<Rightarrow> bool) \<Rightarrow> bool" where
  "serves db pid P \<longleftrightarrow> (\<exists>svc. getDeployableForProject db pid = Some svc \<and> s_status svc = Some Running \<and> P svc)"

definition is_blue :: "blue_state \<Rightarrow> service_row \<Rightarrow> bool" where
  "is_blue blue svc \<longleftrightarrow> s_container_id svc = Some (bs_containerId blue) \<and> s_container_name svc = bs_containerName blue \<and>
     s_assigned_port svc = bs_assignedPort blue \<and> s_container_port svc = bs_containerPort blue \<and>
     s_image_tag svc = bs_imageTag blue \<and> s_previous_image_tag svc = bs_previousImageTag blue"

lemma status_of_service:
  assumes "plain_id pid" and "row_of p_id pid (projects db) \<noteq> None" and "getDeployableForProject db pid = Some svc"
  shows "Option.bind (getProject db pid) p_status = s_status svc"
proof -
  obtain y where y: "row_of p_id pid (projects db) = Some y" using assms(2) by blast
  then have "p_id y = pid" by (auto dest: row_of_key)
  with y assms(3) service_id_plain [OF assms(1)] show ?thesis
    by (simp add: getProject_def hydrateDeployable_def getDeployableForProject_def getService_def)
qed

lemma updateProject_service:
  assumes "plain_id pid" and "getDeployableForProject db pid = Some svc"
  shows "getDeployableForProject (updateProject pid u now db) pid =
     Some (if has_service_updates u then svcSetValues u now svc else svc)"
  using assms service_id_plain [OF assms(1)]
  by (auto simp: getDeployableForProject_def getService_def updateProject_services row_of_sql_update dest: row_of_key)

lemma updateProject_keeps_project:
  "row_of p_id pid (projects (updateProject q u now db)) = None \<longleftrightarrow> row_of p_id pid (projects db) = None"
  by (auto simp: updateProject_projects row_of_sql_update)

lemma svc_status_update: "s_status (svcSetValues (status_update t now) later svc) = Some t"
  by (simp add: svcSetValues_def status_update_def no_updates_def)

lemma has_status_update: "has_service_updates (status_update t now)"
  by (simp add: has_service_updates_def status_update_def no_updates_def)

lemma transition_live:
  assumes "plain_id pid" and "live db pid" and "t \<in> {Running, Building}"
  shows "row_of p_id pid (projects (snd (snd (transition pid t r False now db)))) \<noteq> None \<and>
     (\<exists>svc. getDeployableForProject (snd (snd (transition pid t r False now db))) pid = Some svc \<and> s_status svc = Some t)"
proof -
  obtain svc where svc: "row_of p_id pid (projects db) \<noteq> None" "getDeployableForProject db pid = Some svc"
    "s_status svc \<in> {Some Running, Some Building}"
    using assms(2) by (auto simp: live_def)
  have st: "Option.bind (getProject db pid) p_status = s_status svc" by (rule status_of_service [OF assms(1) svc(1,2)])
  show ?thesis
  proof (cases "s_status svc = Some t")
    case True
    with st svc show ?thesis by (simp add: transition_def)
  next
    case False
    with svc(3) assms(3) st have "snd (snd (transition pid t r False now db)) = updateProject pid (status_update t now) now db"
      by (auto simp: transition_def transition_allowed_def)
    then show ?thesis
      using svc(1) updateProject_service [OF assms(1) svc(2), of "status_update t now" now]
      by (simp add: updateProject_keeps_project has_status_update svc_status_update)
  qed
qed

lemma update_live:
  assumes "plain_id pid" and "live db pid" and "u_status u = None"
  shows "live (updateProject pid u now db) pid"
proof -
  obtain svc where svc: "row_of p_id pid (projects db) \<noteq> None" "getDeployableForProject db pid = Some svc"
    "s_status svc \<in> {Some Running, Some Building}"
    using assms(2) by (auto simp: live_def)
  have "s_status (svcSetValues u now svc) = s_status svc" using assms(3) by (simp add: svcSetValues_def)
  with updateProject_service [OF assms(1) svc(2), of u now] svc show ?thesis
    by (simp add: live_def updateProject_keeps_project)
qed

lemma credential_service:
  assumes "getDeployableForProject db pid = Some svc"
  shows "\<exists>g' t'. getDeployableForProject (set_git_credential sid g now db) pid =
     Some (svc\<lparr>s_git_credential_id := g', s_updated_at := t'\<rparr>)"
proof (cases "s_id svc = sid")
  case True
  with assms show ?thesis
    by (auto simp: getDeployableForProject_def getService_def set_git_credential_def row_of_sql_update)
next
  case False
  with assms have "getDeployableForProject (set_git_credential sid g now db) pid = Some svc"
    by (auto simp: getDeployableForProject_def getService_def set_git_credential_def row_of_sql_update)
  moreover have "svc = svc\<lparr>s_git_credential_id := s_git_credential_id svc, s_updated_at := s_updated_at svc\<rparr>" by simp
  ultimately show ?thesis by metis
qed

lemma credential_live: "live db pid \<Longrightarrow> live (set_git_credential sid g now db) pid"
  using credential_service [of db pid _ sid g now] by (fastforce simp: live_def set_git_credential_def)

section \<open>The invariants\<close>

text \<open>While blue is known, the project is running or building.\<close>

definition blue_live :: "bg_ctx \<Rightarrow> bg_state \<Rightarrow> bool" where
  "blue_live c st \<longleftrightarrow> (plain_id (c_projectId c) \<longrightarrow> l_blue st \<noteq> None \<longrightarrow> live (bg_db st) (c_projectId c))"

lemma blue_live_move:
  "blue_live c st \<Longrightarrow> t \<in> {Running, Building} \<Longrightarrow>
     blue_live c (st\<lparr>bg_db := snd (snd (transition (c_projectId c) t r False now (bg_db st)))\<rparr>)"
  using transition_live [of "c_projectId c" "bg_db st" t r now] by (fastforce simp: blue_live_def live_def)

interpretation lv: bg_invariant "blue_live c" c "\<lambda>_. True" for c
  by unfold_locales (simp_all add: blue_live_move, simp_all add: blue_live_def update_live credential_live)

text \<open>What happened stays known.\<close>

definition happened :: "(bg_event \<Rightarrow> bool) \<Rightarrow> bg_state \<Rightarrow> bool" where
  "happened p st \<longleftrightarrow> list_ex p (bg_hist st)"

interpretation hp: bg_trace_invariant "happened p" c "\<lambda>_. True" for p c
  by unfold_locales (auto simp: happened_def)

text \<open>
  The cutover. Before the container \<open>b\<close> is stopped green was found healthy, stable and routed; before it
  is removed the route was found working with \<open>b\<close> stopped.
\<close>

fun healthy_probe :: "bg_event \<Rightarrow> bool" where
  "healthy_probe (Probed w) = pr_healthy (hw_result w)"
| "healthy_probe _ = False"

fun stable_watch :: "bg_event \<Rightarrow> bool" where
  "stable_watch (Watched (Stable n el)) = True"
| "stable_watch _ = False"

fun working_route :: "bg_event \<Rightarrow> bool" where
  "working_route (Routed (Route_ok s n el)) = True"
| "working_route _ = False"

definition ready :: "bg_event list \<Rightarrow> bool" where
  "ready h \<longleftrightarrow> list_ex healthy_probe h \<and> list_ex stable_watch h \<and> list_ex working_route h"

definition replaced :: "string \<Rightarrow> bg_event list \<Rightarrow> bool" where
  "replaced b h \<longleftrightarrow> (\<exists>h1 h2. h = h1 @ Did (StopContainer b) # h2 \<and> ready h1 \<and> list_ex working_route h2)"

definition cutover_safe :: "string \<Rightarrow> bg_event list \<Rightarrow> bool" where
  "cutover_safe b h \<longleftrightarrow> (\<forall>i<length h.
     (h ! i = Did (StopContainer b) \<longrightarrow> ready (take i h)) \<and> (h ! i = Did (RemoveContainer b) \<longrightarrow> replaced b (take i h)))"

lemma cutover_safe_Nil: "cutover_safe b []"
  by (simp add: cutover_safe_def)

lemma cutover_safe_snoc:
  "cutover_safe b (h @ [e]) \<longleftrightarrow> cutover_safe b h \<and>
     (e = Did (StopContainer b) \<longrightarrow> ready h) \<and> (e = Did (RemoveContainer b) \<longrightarrow> replaced b h)"
  unfolding cutover_safe_def by (simp add: less_Suc_eq nth_append all_conj_distrib imp_conjR conj_commute disj_imp) blast

definition tracks :: "blue_state \<Rightarrow> bg_state \<Rightarrow> bool" where
  "tracks bl st \<longleftrightarrow> l_blue st = Some bl \<and> cutover_safe (bs_containerId bl) (bg_hist st)"

interpretation tr: bg_trace_invariant "tracks bl" c
    "\<lambda>ev. ev \<noteq> Did (StopContainer (bs_containerId bl)) \<and> ev \<noteq> Did (RemoveContainer (bs_containerId bl))" for bl c
  by unfold_locales (simp_all add: tracks_def cutover_safe_snoc)

text \<open>Before blue is chosen nothing has been stopped.\<close>

definition fresh :: "bg_state \<Rightarrow> bool" where
  "fresh st \<longleftrightarrow> l_blue st = None \<and> (\<forall>b. cutover_safe b (bg_hist st))"

interpretation fr: bg_trace_invariant fresh c "\<lambda>ev. \<forall>b. ev \<noteq> Did (StopContainer b) \<and> ev \<noteq> Did (RemoveContainer b)" for c
  by unfold_locales (simp_all add: fresh_def cutover_safe_snoc)

section \<open>Choosing blue\<close>

lemma supported_live:
  assumes "plain_id pid" and "el_supported (getBlueGreenEligibility db m pid ov)"
  shows "live db pid"
proof -
  obtain p d where p: "getProject db pid = Some p" and d: "getDeployableForProject db pid = Some d"
    and st: "v_status (serviceViewFromRows p (Some d)) = Status Running"
    using assms(2) getProject_id [of db pid]
    by (auto simp: el_supported_def getBlueGreenEligibility_def Let_def loadServiceViewRecord_def split: option.splits if_splits)
  have row: "row_of p_id pid (projects db) \<noteq> None" using p by (auto simp: getProject_def)
  have "p_status p = s_status d" using status_of_service [OF assms(1) row d] p by simp
  with st have "s_status d = Some Running" by (auto simp: v_status_from_rows coalesce_def split: option.splits)
  with row d show ?thesis by (simp add: live_def)
qed

lemma keeps_with_state: "(\<And>s. I s \<Longrightarrow> I (snd (f s s))) \<Longrightarrow> keeps I (bg_with f)"
  by (simp add: keeps_def bg_with_def)

lemma live_pick_blue: "keeps (blue_live c) (bg_pick_blue c)"
  unfolding bg_pick_blue_def
  by (rule keeps_with_state) (auto simp: bg_return_def bg_set_def blue_live_def Let_def supported_live)

lemma live_choose_blue: "keeps (blue_live c) (bg_choose_blue c)"
  unfolding bg_choose_blue_def
  by (intro keeps_Cons keeps_Nil lv.keeps_call live_pick_blue keeps_with lv.keeps_stale) simp_all

lemma choose_blue_tracks:
  "hoare fresh (bg_choose_blue c) (\<lambda>st. \<exists>bl. tracks bl st) (\<lambda>_ st. fresh st \<or> (\<exists>bl. tracks bl st))"
proof -
  have one: "hoare fresh (bg_do c (Read ''getBlueGreenEligibility'')) fresh (\<lambda>_ st. fresh st \<or> (\<exists>bl. tracks bl st))"
    by (rule hoare_post [OF hoare_keeps [OF fr.keeps_call [where c = c]]]) auto
  have two: "hoare fresh (bg_pick_blue c) (\<lambda>st. \<exists>bl. tracks bl st) (\<lambda>_ st. fresh st \<or> (\<exists>bl. tracks bl st))"
    by (rule hoareI) (auto simp: bg_pick_blue_def bg_with_def bg_return_def bg_set_def fresh_def tracks_def Let_def split: if_splits)
  have three: "hoare (\<lambda>st. \<exists>bl. tracks bl st) (bg_with (\<lambda>st. cleanupStaleGreenContainers c (l_projectName st) (bs_containerId (the (l_blue st)))))
      (\<lambda>st. \<exists>bl. tracks bl st) (\<lambda>_ st. fresh st \<or> (\<exists>bl. tracks bl st))"
  proof (rule hoareI)
    fix st r st' assume ex: "\<exists>bl. tracks bl st"
      and run: "bg_with (\<lambda>st. cleanupStaleGreenContainers c (l_projectName st) (bs_containerId (the (l_blue st)))) st = (r, st')"
    from ex obtain bl where bl: "tracks bl st" by blast
    have "keeps (tracks bl) (cleanupStaleGreenContainers c (l_projectName st) (bs_containerId bl))"
      by (rule tr.keeps_stale) (auto simp: stale_greens_def)
    moreover have "cleanupStaleGreenContainers c (l_projectName st) (bs_containerId bl) st = (r, st')"
      using run bl by (simp add: bg_with_def tracks_def)
    ultimately have "tracks bl st'" using bl by (blast dest: keepsD)
    then show "case r of None \<Rightarrow> \<exists>bl. tracks bl st' | Some x \<Rightarrow> fresh st' \<or> (\<exists>bl. tracks bl st')"
      by (auto split: option.splits)
  qed
  show ?thesis unfolding bg_choose_blue_def
    by (rule hoare_Cons [OF one hoare_Cons [OF two hoare_Cons [OF three hoare_Nil]]])
qed

section \<open>The rest of the body\<close>

text \<open>Only loading and choosing return early.\<close>

definition throws_only :: "bg_action \<Rightarrow> bool" where
  "throws_only a \<longleftrightarrow> (\<forall>st res st'. a st \<noteq> (Some (Returns res), st'))"

lemma throws_only_basic:
  "throws_only (bg_set f)" "throws_only (bg_note ev)" "throws_only (bg_throw m)" "throws_only (bg_do c x)" "throws_only (bg_run [])"
  by (auto simp: throws_only_def bg_set_def bg_note_def bg_throw_def bg_do_def split: option.splits)

lemma throws_only_Cons: "throws_only a \<Longrightarrow> throws_only (bg_run as) \<Longrightarrow> throws_only (bg_run (a # as))"
  by (auto simp: throws_only_def split: prod.splits option.splits)

lemma throws_only_append: "throws_only (bg_run as) \<Longrightarrow> throws_only (bg_run bs) \<Longrightarrow> throws_only (bg_run (as @ bs))"
  by (auto simp: throws_only_def run_append split: prod.splits option.splits)

lemma throws_only_if: "throws_only (bg_run as) \<Longrightarrow> throws_only (bg_run bs) \<Longrightarrow> throws_only (bg_if b as bs)"
  by (auto simp: throws_only_def bg_if_def)

lemma throws_only_try: "throws_only (bg_run as) \<Longrightarrow> (\<And>e. throws_only (bg_run (h e))) \<Longrightarrow> throws_only (bg_try as h)"
  by (auto simp: throws_only_def bg_try_def split: prod.splits option.splits bg_abrupt.splits)

lemma throws_only_with: "(\<And>s. throws_only (f s)) \<Longrightarrow> throws_only (bg_with f)"
  by (auto simp: throws_only_def bg_with_def)

lemma throws_only_cases:
  "throws_only a \<Longrightarrow> (\<And>x. throws_only (b x)) \<Longrightarrow> throws_only (case v of None \<Rightarrow> a | Some x \<Rightarrow> b x)"
  "(\<And>x. throws_only (f x)) \<Longrightarrow> (\<And>y. throws_only (g y)) \<Longrightarrow> throws_only (case w of Inl x \<Rightarrow> f x | Inr y \<Rightarrow> g y)"
  "throws_only d \<Longrightarrow> throws_only e \<Longrightarrow> throws_only (if q then d else e)"
  "(\<And>n l. throws_only (h n l)) \<Longrightarrow> (\<And>n l m. throws_only (k n l m)) \<Longrightarrow> throws_only (case r of Stable n l \<Rightarrow> h n l | Unstable n l m \<Rightarrow> k n l m)"
  "(\<And>n l m. throws_only (u n l m)) \<Longrightarrow> (\<And>n l m s. throws_only (v' n l m s)) \<Longrightarrow>
     throws_only (case t of Route_ok n l m \<Rightarrow> u n l m | Route_failed n l m s \<Rightarrow> v' n l m s)"
  "throws_only (bg_run xs) \<Longrightarrow> throws_only (bg_run ys) \<Longrightarrow> throws_only (bg_run (if q then xs else ys))"
  by (auto split: option.splits sum.splits stability_result.splits route_verification.splits)

lemmas throws_only_rules = throws_only_basic throws_only_Cons throws_only_append throws_only_if throws_only_try
  throws_only_with throws_only_cases

lemma throws_only_writes:
  "throws_only (transitionProjectState c t r u)" "throws_only (write_environment c eid eu)"
  unfolding transitionProjectState_def write_environment_def by (rule throws_only_rules)+

lemma throws_only_restore: "throws_only (restoreBlueState c eo blue)"
  unfolding restoreBlueState_def by (rule throws_only_rules throws_only_writes)+

lemma throws_only_steps:
  "throws_only (bg_begin c)" "throws_only (bg_image c)" "throws_only (bg_start_green c)" "throws_only (bg_probe_green c)"
  "throws_only (bg_watch_green c)" "throws_only (bg_promote c)" "throws_only (bg_verify_route c)" "throws_only (bg_stop_blue c)"
  "throws_only (bg_verify_again c)" "throws_only (bg_finish c)"
  unfolding bg_begin_def bg_image_def bg_start_green_def bg_probe_green_def bg_watch_green_def bg_promote_def
    bg_verify_route_def bg_stop_blue_def bg_verify_again_def bg_finish_def Let_def
  by (rule throws_only_rules throws_only_writes throws_only_restore)+

lemma throws_only_recover: "throws_only (bg_recover c b)" "throws_only (bg_settle c t r es)"
  unfolding bg_recover_def bg_settle_def by (rule throws_only_rules throws_only_writes throws_only_restore)+

text \<open>What the normal end of a check shows.\<close>

lemma probe_green_None: "bg_probe_green c st = (None, st') \<Longrightarrow> \<exists>w. st' = st\<lparr>bg_hist := bg_hist st @ [Probed w]\<rparr> \<and> pr_healthy (hw_result w)"
  by (auto simp: bg_probe_green_def bg_with_def bg_note_def bg_throw_def split: sum.splits if_splits)

lemma watch_green_None: "bg_watch_green c st = (None, st') \<Longrightarrow> \<exists>n el. st' = st\<lparr>bg_hist := bg_hist st @ [Watched (Stable n el)]\<rparr>"
  by (auto simp: bg_watch_green_def bg_with_def bg_note_def bg_throw_def bg_set_def Let_def split: stability_result.splits)

lemma verify_route_None:
  "bg_verify_route c st = (None, st') \<Longrightarrow> \<exists>s n el. st' = st\<lparr>bg_hist := bg_hist st @ [Routed (Route_ok s n el)]\<rparr>"
  by (auto simp: bg_verify_route_def bg_with_def bg_note_def bg_throw_def bg_set_def Let_def
      split: route_verification.splits prod.splits option.splits)

lemma stop_blue_cases:
  "bg_stop_blue c st = (r, st') \<Longrightarrow>
     (r = None \<and> st' = st\<lparr>bg_hist := bg_hist st @ [Did (StopContainer (bs_containerId (the (l_blue st))))]\<rparr>) \<or>
     (r \<noteq> None \<and> (\<exists>e. st' = st\<lparr>bg_hist := bg_hist st @ [Threw (StopContainer (bs_containerId (the (l_blue st)))) e]\<rparr>))"
  by (auto simp: bg_stop_blue_def bg_try_def bg_with_def bg_do_def bg_throw_def split: option.splits)

lemma verify_again_None:
  "bg_verify_again c st = (None, st') \<Longrightarrow> \<exists>s n el. st' = st\<lparr>bg_hist := bg_hist st @ [Routed (Route_ok s n el)],
     l_routeSwitched := True, l_shouldCleanupGreen := False\<rparr>"
  by (auto simp: bg_verify_again_def bg_with_def bg_note_def bg_throw_def bg_set_def Let_def split: route_verification.splits)

lemma hoare_conj:
  "hoare P a Q E \<Longrightarrow> (\<And>st st'. P st \<Longrightarrow> P' st \<Longrightarrow> a st = (None, st') \<Longrightarrow> Q' st') \<Longrightarrow>
   hoare (\<lambda>st. P st \<and> P' st) a (\<lambda>st. Q st \<and> Q' st) E"
  by (rule hoareI) (auto dest: hoareD split: option.splits)

abbreviation chosen :: "bg_state \<Rightarrow> bool" where
  "chosen st \<equiv> \<exists>bl. tracks bl st"

abbreviation fresh_or_chosen :: "bg_abrupt \<Rightarrow> bg_state \<Rightarrow> bool" where
  "fresh_or_chosen x st \<equiv> fresh st \<or> chosen st"

lemma hoare_chosen: "(\<And>bl. keeps (tracks bl) a) \<Longrightarrow> hoare chosen a chosen fresh_or_chosen"
  unfolding keeps_def by (rule hoareI) (force split: option.splits)

definition ready_before :: "bg_state \<Rightarrow> bool" where
  "ready_before st \<longleftrightarrow> happened healthy_probe st \<and> happened stable_watch st"

lemma keeps_ready_before: "(\<And>p. keeps (happened p) a) \<Longrightarrow> keeps ready_before a"
  unfolding keeps_def ready_before_def by blast

lemma before_promotion_chosen:
  "hoare fresh (bg_run (bg_before_promotion c)) (\<lambda>st. chosen st \<and> ready_before st) fresh_or_chosen"
proof -
  have load: "hoare fresh (bg_load c) fresh fresh_or_chosen"
    by (rule hoare_post [OF hoare_keeps [OF fr.keeps_load]]) auto
  have mid: "hoare chosen a chosen fresh_or_chosen" if "a \<in> {bg_begin c, bg_image c, bg_start_green c}" for a
    using that by (intro hoare_chosen) (auto intro: tr.keeps_begin tr.keeps_image tr.keeps_start_green)
  have probe: "hoare chosen (bg_probe_green c) (\<lambda>st. chosen st \<and> happened healthy_probe st) fresh_or_chosen"
    by (rule hoare_post [OF hoare_conj [OF hoare_chosen [OF tr.keeps_probe_green], of "\<lambda>_. True"]])
       (auto simp: happened_def dest: probe_green_None)
  have watch: "hoare (\<lambda>st. chosen st \<and> happened healthy_probe st) (bg_watch_green c)
      (\<lambda>st. chosen st \<and> ready_before st) fresh_or_chosen"
    by (rule hoare_conj [OF hoare_chosen [OF tr.keeps_watch_green]])
       (auto simp: happened_def ready_before_def dest: watch_green_None)
  show ?thesis unfolding bg_before_promotion_def
    by (rule hoare_Cons [OF load hoare_Cons [OF choose_blue_tracks hoare_Cons [OF mid hoare_Cons [OF mid hoare_Cons [OF mid
        hoare_Cons [OF probe hoare_Cons [OF watch hoare_Nil]]]]]]]) auto
qed

lemma finish_tracks:
  "hoare (\<lambda>st. tracks bl st \<and> replaced (bs_containerId bl) (bg_hist st)) (bg_finish c) (tracks bl) (\<lambda>_. tracks bl)"
proof -
  define body where "body = [bg_do c (WriteDeployLog Log_success),
      bg_if (\<lambda>st. truthy (dc_gitCredentialId (the (l_config st))))
        [bg_do c DoUpdateService,
         bg_set (\<lambda>st. st\<lparr>bg_db := set_git_credential
             (case dc_serviceId (the (l_config st)) of Some sid \<Rightarrow> sid | None \<Rightarrow> s_id (the (vr_service (the (l_record st)))))
             (the (dc_gitCredentialId (the (l_config st)))) (bg_now c st) (bg_db st)\<rparr>)] [],
      bg_note (Phase ''done''), bg_note (Emitted ''deploy:success'')]"
  have cred: "keeps (tracks bl) (bg_set (\<lambda>st. st\<lparr>bg_db := d st\<rparr>))" for d
    by (rule keeps_set) (simp add: tracks_def)
  have rest: "hoare (tracks bl) (bg_run body) (tracks bl) (\<lambda>_. tracks bl)"
    unfolding body_def by (rule hoare_keeps) (rule cred tr.structural | simp)+
  have remove: "hoare (\<lambda>st. tracks bl st \<and> replaced (bs_containerId bl) (bg_hist st))
      (bg_try [bg_with (\<lambda>st. bg_do c (RemoveContainer (bs_containerId (the (l_blue st)))))]
        (\<lambda>e. [bg_set (\<lambda>st. st\<lparr>l_warnings := l_warnings st @
             [''Blue cleanup warning: failed to remove previous container: '' @ be_message e]\<rparr>)])) (tracks bl) (\<lambda>_. tracks bl)"
    by (rule hoareI) (auto simp: bg_try_def bg_with_def bg_do_def bg_set_def tracks_def cutover_safe_snoc split: option.splits)
  from hoare_Cons [OF remove rest] show ?thesis by (simp add: bg_finish_def body_def)
qed

lemma promotion_tracks:
  "hoare (\<lambda>st. tracks bl st \<and> ready_before st) (bg_run (bg_promotion c)) (tracks bl) (\<lambda>_. tracks bl)"
proof -
  have promote: "hoare (\<lambda>st. tracks bl st \<and> ready_before st) (bg_promote c) (\<lambda>st. tracks bl st \<and> ready_before st) (\<lambda>_. tracks bl)"
    by (rule hoare_conj [OF hoare_keeps [OF tr.keeps_promote]])
       (blast intro: keepsD keeps_ready_before hp.keeps_promote)
  have route: "hoare (\<lambda>st. tracks bl st \<and> ready_before st) (bg_verify_route c) (\<lambda>st. tracks bl st \<and> ready (bg_hist st)) (\<lambda>_. tracks bl)"
    by (rule hoare_conj [OF hoare_keeps [OF tr.keeps_verify_route]])
       (auto simp: ready_before_def happened_def ready_def dest: verify_route_None)
  have stop: "hoare (\<lambda>st. tracks bl st \<and> ready (bg_hist st)) (bg_stop_blue c)
      (\<lambda>st. tracks bl st \<and> (\<exists>h. ready h \<and> bg_hist st = h @ [Did (StopContainer (bs_containerId bl))])) (\<lambda>_. tracks bl)"
    by (rule hoareI) (auto simp: tracks_def cutover_safe_snoc split: option.splits dest!: stop_blue_cases)
  have again: "hoare (\<lambda>st. tracks bl st \<and> (\<exists>h. ready h \<and> bg_hist st = h @ [Did (StopContainer (bs_containerId bl))]))
      (bg_verify_again c) (\<lambda>st. tracks bl st \<and> replaced (bs_containerId bl) (bg_hist st)) (\<lambda>_. tracks bl)"
    by (rule hoare_conj [OF hoare_keeps [OF tr.keeps_verify_again]])
       (fastforce simp: replaced_def dest: verify_again_None)
  show ?thesis unfolding bg_promotion_def
    by (rule hoare_Cons [OF promote hoare_Cons [OF route hoare_Cons [OF stop hoare_Cons [OF again hoare_Cons [OF finish_tracks hoare_Nil]]]]])
qed

section \<open>Whole runs\<close>

abbreviation bg_body :: "bg_ctx \<Rightarrow> bg_action" where
  "bg_body c \<equiv> bg_run (bg_before_promotion c @ bg_promotion c @ [bg_return (success_result c)])"

lemma body_fresh_or_chosen:
  assumes "fresh st0" and "bg_body c st0 = (r, st)"
  shows "fresh st \<or> chosen st"
proof -
  have promotion: "hoare (\<lambda>st. chosen st \<and> ready_before st) (bg_run (bg_promotion c)) chosen fresh_or_chosen"
    using promotion_tracks unfolding hoare_def by (fastforce split: option.splits)
  have last: "hoare chosen (bg_run [bg_return (success_result c)]) chosen fresh_or_chosen"
    by (rule hoareI) (auto simp: bg_return_def)
  from hoareD [OF hoare_append [OF before_promotion_chosen hoare_append [OF promotion last]] assms]
  show ?thesis by (auto split: option.splits)
qed

lemma cleanup_shape:
  "\<exists>a b. cleanupGreenContainer c g st = (None, st\<lparr>bg_hist := bg_hist st @ [a, b]\<rparr>) \<and>
     (a = Did (StopContainer g) \<or> (\<exists>e. a = Threw (StopContainer g) e)) \<and>
     (b = Did (RemoveContainer g) \<or> (\<exists>e. b = Threw (RemoveContainer g) e))"
  by (auto simp: cleanupGreenContainer_def bg_try_def bg_do_def split: option.splits)

lemma finally_shape:
  "\<exists>h. bg_finally c st = st\<lparr>l_cloned := False, bg_hist := bg_hist st @ h\<rparr> \<and>
     (\<forall>b. l_green st \<noteq> Some b \<longrightarrow> Did (StopContainer b) \<notin> set h \<and> Did (RemoveContainer b) \<notin> set h) \<and>
     (\<not> l_shouldCleanupGreen st \<longrightarrow> h = []) \<and>
     (\<forall>g. l_green st = Some g \<and> g \<noteq> [] \<and> l_shouldCleanupGreen st \<longrightarrow>
        Did (StopContainer g) \<in> set h \<or> (\<exists>e. Threw (StopContainer g) e \<in> set h))"
proof (cases "\<exists>g. l_green st = Some g \<and> g \<noteq> [] \<and> l_shouldCleanupGreen st")
  case True
  then obtain g where g: "l_green st = Some g" "g \<noteq> []" "l_shouldCleanupGreen st" by blast
  obtain a b where "cleanupGreenContainer c g st = (None, st\<lparr>bg_hist := bg_hist st @ [a, b]\<rparr>)"
    "a = Did (StopContainer g) \<or> (\<exists>e. a = Threw (StopContainer g) e)"
    "b = Did (RemoveContainer g) \<or> (\<exists>e. b = Threw (RemoveContainer g) e)"
    using cleanup_shape [of c g st] by blast
  with g show ?thesis by (intro exI [of _ "[a, b]"]) (auto simp: bg_finally_def)
next
  case False
  then show ?thesis by (intro exI [of _ "[]"]) (auto simp: bg_finally_def split: option.splits)
qed

lemma cutover_safe_append:
  "cutover_safe b h \<Longrightarrow> Did (StopContainer b) \<notin> set h' \<Longrightarrow> Did (RemoveContainer b) \<notin> set h' \<Longrightarrow> cutover_safe b (h @ h')"
  by (induction h' rule: rev_induct) (auto simp: cutover_safe_snoc append_assoc [symmetric] simp del: append_assoc)

text \<open>The ways a run ends: in the body, or in the handler behind an exception of the body.\<close>

lemma inner_cases:
  assumes "blueGreenRedeployInner c st0 = (res, st)"
  obtains (body) r st1 where "bg_body c st0 = (Some (Returns r), st1)" "res = Inr r" "st = bg_finally c st1"
  | (handled) e st1 x st2 where "bg_body c st0 = (Some (Throws e), st1)" "bg_catch c e st1 = (Some x, st2)"
      "res = (case x of Returns r \<Rightarrow> Inr r | Throws e' \<Rightarrow> Inl e')" "st = bg_finally c st2"
proof -
  have last: "fst (bg_run (as @ [bg_return f]) s) \<noteq> None" for as f s
    by (simp add: run_append bg_return_def split: prod.splits option.splits)
  obtain r1 st1 where b: "bg_body c st0 = (r1, st1)" by (cases "bg_body c st0")
  have "fst (bg_body c st0) \<noteq> None"
    using last [of "bg_before_promotion c @ bg_promotion c" "success_result c" st0] by simp
  with b obtain x1 where x1: "r1 = Some x1" by auto
  show thesis
  proof (cases x1)
    case (Returns r)
    with assms b x1 show thesis by (intro body [of r st1]) (auto simp: blueGreenRedeployInner_def)
  next
    case (Throws e)
    obtain r2 st2 where k: "bg_catch c e st1 = (r2, st2)" by (cases "bg_catch c e st1")
    have "fst (bg_catch c e st1) \<noteq> None"
      using last [of "[_, _, _, _, _]"] by (simp add: bg_catch_def del: bg_run.simps)
    with k obtain x where "r2 = Some x" by auto
    with assms b x1 Throws k show thesis
      by (intro handled [of e st1 x st2]) (auto simp: blueGreenRedeployInner_def split: bg_abrupt.splits)
  qed
qed

lemma run_fresh_or_chosen:
  assumes "blueGreenRedeployInner c st0 = (res, st)" and "fresh st0"
  shows "\<exists>st'. (fresh st' \<or> chosen st') \<and> st = bg_finally c st'"
  using assms(1)
proof (cases rule: inner_cases)
  case (body r st1)
  with body_fresh_or_chosen [OF assms(2)] show ?thesis by blast
next
  case (handled e st1 x st2)
  from body_fresh_or_chosen [OF assms(2) handled(1)] have "fresh st2 \<or> chosen st2"
    using keepsD [OF fr.keeps_catch handled(2)] keepsD [OF tr.keeps_catch handled(2)] by blast
  with handled show ?thesis by blast
qed

lemma fresh_init: "fresh (bg_init db envs options)"
  by (simp add: fresh_def bg_init_def cutover_safe_Nil)

section \<open>Going back to blue\<close>

lemma transition_state_None:
  "transitionProjectState c t r u st = (None, st') \<Longrightarrow> u \<noteq> no_updates \<Longrightarrow>
     \<exists>n1 n2 h. st' = st\<lparr>bg_hist := h, bg_db := updateProject (c_projectId c) u n2 (snd (snd (transition (c_projectId c) t r False n1 (bg_db st))))\<rparr>"
  by (auto simp: transitionProjectState_def bg_do_def bg_set_def split: option.splits)

lemma write_environment_shape: "write_environment c eid eu st = (r, st') \<Longrightarrow> \<exists>h t. st' = st\<lparr>bg_hist := h, bg_envs := t\<rparr>"
  by (auto simp: write_environment_def bg_do_def bg_with_def bg_set_def bg_throw_def split: option.splits sum.splits)
     (metis bg_state.surjective bg_state.update_convs(2,3))+

lemma blue_updates_serve:
  assumes "plain_id pid" and "live db pid"
  shows "serves (updateProject pid (blue_updates bl) n2 (snd (snd (transition pid Running r False n1 db)))) pid (is_blue bl)"
proof -
  let ?db = "snd (snd (transition pid Running r False n1 db))"
  obtain svc where svc: "getDeployableForProject ?db pid = Some svc" "s_status svc = Some Running"
    using transition_live [OF assms, of Running r n1] by auto
  have "has_service_updates (blue_updates bl)"
    by (simp add: has_service_updates_def blue_updates_def no_updates_def)
  with updateProject_service [OF assms(1) svc(1), of "blue_updates bl" n2] svc(2) show ?thesis
    by (simp add: serves_def is_blue_def svcSetValues_def blue_updates_def no_updates_def set_if_def)
qed

lemma blue_updates_ne: "blue_updates bl \<noteq> no_updates"
  by (simp add: blue_updates_def no_updates_def)

lemma restore_serves:
  assumes "restoreBlueState c eo bl st = (None, st')" and "plain_id (c_projectId c)" and "live (bg_db st) (c_projectId c)"
  shows "serves (bg_db st') (c_projectId c) (is_blue bl) \<and> l_blueServing st' = l_blueServing st \<and> l_blue st' = l_blue st"
proof -
  obtain st1 where one: "transitionProjectState c Running ''deploy-running'' (blue_updates bl) st = (None, st1)"
    and two: "st' = st1 \<or> (\<exists>eid. write_environment c eid (blue_env_updates bl) st1 = (None, st'))"
    using assms(1) by (auto simp: restoreBlueState_def split: prod.splits option.splits if_splits)
  from transition_state_None [OF one blue_updates_ne] obtain n1 n2 h where
    "st1 = st\<lparr>bg_hist := h, bg_db := updateProject (c_projectId c) (blue_updates bl) n2
       (snd (snd (transition (c_projectId c) Running ''deploy-running'' False n1 (bg_db st))))\<rparr>" by blast
  with blue_updates_serve [OF assms(2,3), of bl n2 "''deploy-running''" n1]
  have "serves (bg_db st1) (c_projectId c) (is_blue bl)" "l_blueServing st1 = l_blueServing st" "l_blue st1 = l_blue st"
    by simp_all
  with two show ?thesis by (auto dest!: write_environment_shape)
qed

text \<open>Docker, or a restart that went well, is behind the flag that says blue serves.\<close>

definition seen_running :: "bg_ctx \<Rightarrow> string \<Rightarrow> bg_event list \<Rightarrow> bool" where
  "seen_running c b h \<longleftrightarrow> Did (RestartContainer b) \<in> set h \<or>
     (\<exists>h1 h2. h = h1 @ Did (InspectContainer b) # h2 \<and> c_running c (h1 @ [Did (InspectContainer b)]))"

lemma seen_running_append: "seen_running c b h \<Longrightarrow> seen_running c b (h @ h')"
  unfolding seen_running_def
proof (elim disjE exE conjE)
  fix h1 h2 assume "h = h1 @ Did (InspectContainer b) # h2" "c_running c (h1 @ [Did (InspectContainer b)])"
  then show "Did (RestartContainer b) \<in> set (h @ h') \<or>
     (\<exists>h1 h2. h @ h' = h1 @ Did (InspectContainer b) # h2 \<and> c_running c (h1 @ [Did (InspectContainer b)]))"
    by (intro disjI2 exI [of _ h1] exI [of _ "h2 @ h'"]) simp
qed simp

definition honest :: "bg_ctx \<Rightarrow> bg_state \<Rightarrow> bool" where
  "honest c st \<longleftrightarrow> (\<forall>bl. l_blueServing st \<longrightarrow> l_blue st = Some bl \<longrightarrow> seen_running c (bs_containerId bl) (bg_hist st))"

lemma seen_running_snoc:
  "seen_running c b h \<Longrightarrow> seen_running c b (h @ [ev])"
  "c_running c (h @ [Did (InspectContainer b)]) \<Longrightarrow> seen_running c b (h @ [Did (InspectContainer b)])"
  "seen_running c b (h @ [Did (RestartContainer b)])"
proof -
  show "seen_running c b h \<Longrightarrow> seen_running c b (h @ [ev])" by (rule seen_running_append)
  show "c_running c (h @ [Did (InspectContainer b)]) \<Longrightarrow> seen_running c b (h @ [Did (InspectContainer b)])"
    unfolding seen_running_def by blast
qed (simp add: seen_running_def)

lemma honest_event: "honest c st \<Longrightarrow> honest c (st\<lparr>bg_hist := bg_hist st @ [ev]\<rparr>)"
  by (simp add: honest_def seen_running_snoc)

lemma hoare_true: "hoare P a (\<lambda>_. True) (\<lambda>_ _. True)"
  by (rule hoareI) (simp split: option.splits)

lemma recover_honest: "hoare P (bg_recover c canc) (honest c) (\<lambda>_ _. True)"
proof -
  have weak: "keeps (honest c) a \<Longrightarrow> hoare (honest c) a (honest c) (\<lambda>_ _. True)" for a
    by (rule hoare_post [OF hoare_keeps]) auto
  have off: "hoare (\<lambda>_. True) (bg_set (\<lambda>st. st\<lparr>l_blueServing := False\<rparr>)) (honest c) (\<lambda>_ _. True)"
    by (rule hoareI) (auto simp: bg_set_def honest_def)
  have inspect: "keeps (honest c) (bg_if (\<lambda>st. l_blue st \<noteq> None \<and> bs_containerId (the (l_blue st)) \<noteq> [])
        [bg_try [bg_with (\<lambda>st. bg_do c (InspectContainer (bs_containerId (the (l_blue st))))),
                 bg_set (\<lambda>st. st\<lparr>l_blueServing := c_running c (bg_hist st)\<rparr>)] (\<lambda>e. [])] [])"
    by (auto simp: keeps_def bg_if_def bg_try_def bg_with_def bg_do_def bg_set_def honest_event split: option.splits)
       (auto simp: honest_def seen_running_snoc)
  have restart: "keeps (honest c) (bg_if q
        [bg_try [bg_with (\<lambda>st. bg_do c (RestartContainer (bs_containerId (the (l_blue st))))),
                 bg_set (\<lambda>st. st\<lparr>l_blueServing := True\<rparr>)] (\<lambda>e. [])] [])" for q
    by (auto simp: keeps_def bg_if_def bg_try_def bg_with_def bg_do_def bg_set_def honest_event split: option.splits)
       (auto simp: honest_def seen_running_snoc)
  show ?thesis unfolding bg_recover_def
    by (rule hoare_Cons [OF hoare_true hoare_Cons [OF off hoare_Cons [OF weak [OF inspect] hoare_Cons [OF weak [OF restart] hoare_Nil]]]])
qed

lemma hoare_both: "hoare P a Q E \<Longrightarrow> hoare P' a Q' E' \<Longrightarrow> hoare (\<lambda>st. P st \<and> P' st) a (\<lambda>st. Q st \<and> Q' st) (\<lambda>x st. E x st \<and> E' x st)"
  by (rule hoareI) (auto dest: hoareD split: option.splits)

definition back_on_blue :: "bg_ctx \<Rightarrow> bg_state \<Rightarrow> bool" where
  "back_on_blue c st \<longleftrightarrow> (\<forall>bl. l_blueServing st \<longrightarrow> l_blue st = Some bl \<longrightarrow>
     serves (bg_db st) (c_projectId c) (is_blue bl) \<and> seen_running c (bs_containerId bl) (bg_hist st))"

abbreviation idle :: "bg_state \<Rightarrow> bool" where
  "idle st \<equiv> \<not> (l_blueServing st \<and> l_blue st \<noteq> None)"

lemma keeps_idle_writes:
  "keeps idle (transitionProjectState c t r u)" "keeps idle (write_environment c eid eu)"
  unfolding transitionProjectState_def write_environment_def by (rule bg_rules | simp)+

lemma restore_hist: "keeps (\<lambda>st. seen_running c b (bg_hist st)) (restoreBlueState c eo bl)"
  unfolding restoreBlueState_def transitionProjectState_def write_environment_def
  by (rule bg_rules | simp add: seen_running_snoc)+

lemma settle_back:
  assumes "plain_id (c_projectId c)"
  shows "hoare (\<lambda>st. blue_live c st \<and> honest c st) (bg_settle c t r es) (back_on_blue c) (\<lambda>_ _. True)"
proof (rule hoareI)
  fix st x st' assume pre: "blue_live c st \<and> honest c st" and run: "bg_settle c t r es st = (x, st')"
  show "case x of None \<Rightarrow> back_on_blue c st' | Some y \<Rightarrow> True"
  proof (cases "l_blueServing st \<and> l_blue st \<noteq> None")
    case True
    then obtain bl where bl: "l_blue st = Some bl" by blast
    with True run have rest: "restoreBlueState c (l_environmentId st) bl st = (x, st')"
      by (simp add: bg_settle_def bg_if_def bg_with_def run_single split: prod.splits option.splits)
    have live: "live (bg_db st) (c_projectId c)" using pre assms bl by (simp add: blue_live_def)
    have seen: "seen_running c (bs_containerId bl) (bg_hist st')"
      using keepsD [OF restore_hist rest] pre True bl by (simp add: honest_def)
    show ?thesis
    proof (cases x)
      case None
      with restore_serves [OF _ assms live] rest bl seen show ?thesis by (auto simp: back_on_blue_def)
    qed simp
  next
    case False
    have "keeps idle (bg_run [transitionProjectState c t r no_updates,
      bg_if (\<lambda>st. truthy (l_environmentId st))
        [bg_do c (Read ''getEnvironment''),
         bg_if (\<lambda>st. getEnvironment (the (l_environmentId st)) (bg_envs st) \<noteq> None)
           [bg_with (\<lambda>st. write_environment c (the (l_environmentId st)) (environment_status es))] []] []])"
      by (rule bg_rules keeps_idle_writes | simp)+
    moreover have "bg_run [transitionProjectState c t r no_updates,
      bg_if (\<lambda>st. truthy (l_environmentId st))
        [bg_do c (Read ''getEnvironment''),
         bg_if (\<lambda>st. getEnvironment (the (l_environmentId st)) (bg_envs st) \<noteq> None)
           [bg_with (\<lambda>st. write_environment c (the (l_environmentId st)) (environment_status es))] []] []] st = (x, st')"
      using run unfolding bg_settle_def bg_if_def [of "\<lambda>st. l_blueServing st \<and> l_blue st \<noteq> None"] if_not_P [OF False] .
    ultimately have "idle st'" using False by (blast dest: keepsD)
    then show ?thesis by (auto simp: back_on_blue_def split: option.splits)
  qed
qed

lemma catch_back:
  assumes "plain_id (c_projectId c)"
  shows "hoare (blue_live c) (bg_catch c e) (\<lambda>_. True)
     (\<lambda>x st. \<forall>res. x = Returns res \<longrightarrow> back_on_blue c st \<and> dr_previous_version_still_serving res = l_blueServing st)"
proof -
  let ?E = "\<lambda>x st. \<forall>res. x = Returns res \<longrightarrow> back_on_blue c st \<and> dr_previous_version_still_serving res = l_blueServing st"
  have throws: "hoare P a Q E \<Longrightarrow> throws_only a \<Longrightarrow> hoare P a Q ?E" for P a Q E
    by (rule hoareI) (auto simp: throws_only_def dest: hoareD split: option.splits)
  have recover: "hoare (blue_live c) (bg_recover c b) (\<lambda>st. blue_live c st \<and> honest c st) ?E" for b
    by (rule throws [OF hoare_post [OF hoare_both [OF hoare_keeps [OF lv.keeps_recover] recover_honest]] throws_only_recover(1)]) auto
  have settle: "hoare (\<lambda>st. blue_live c st \<and> honest c st) (bg_settle c t r es) (back_on_blue c) ?E" for t r es
    by (rule throws [OF settle_back [OF assms] throws_only_recover(2)])
  have log: "hoare (back_on_blue c) (bg_do c x) (back_on_blue c) ?E" for x
    by (rule throws [OF hoare_keeps throws_only_basic(4)], rule keeps_do) (auto simp: back_on_blue_def seen_running_snoc)
  have noted: "hoare (back_on_blue c) (bg_note ev) (back_on_blue c) ?E" for ev
    by (rule throws [OF hoare_keeps throws_only_basic(2)], rule keeps_note) (auto simp: back_on_blue_def seen_running_snoc)
  have ret: "hoare (back_on_blue c) (bg_return f) (\<lambda>_. True) ?E" if "\<And>st. dr_previous_version_still_serving (f st) = l_blueServing st" for f
    by (rule hoareI) (auto simp: bg_return_def that)
  have "hoare (blue_live c) (bg_run [bg_recover c b, bg_settle c t r es, bg_do c x, bg_note ev, bg_note ev', bg_return f]) (\<lambda>_. True) ?E"
    if "\<And>st. dr_previous_version_still_serving (f st) = l_blueServing st" for b t r es x ev ev' f
    by (rule hoare_Cons [OF recover hoare_Cons [OF settle hoare_Cons [OF log hoare_Cons [OF noted hoare_Cons [OF noted
          hoare_Cons [OF ret [OF that] hoare_Nil]]]]]]) simp_all
  then show ?thesis by (auto simp: bg_catch_def cancelled_result_def failure_result_def simp del: bg_run.simps)
qed

section \<open>How the body ends\<close>

abbreviation refused :: "bg_abrupt \<Rightarrow> bg_state \<Rightarrow> bool" where
  "refused x st \<equiv> (\<forall>res. x = Returns res \<longrightarrow> l_blue st = None \<and> \<not> dr_success res)"

lemma load_returns: "hoare (\<lambda>_. True) (bg_load c) (\<lambda>_. True) (\<lambda>x _. \<forall>res. x = Returns res \<longrightarrow> \<not> dr_success res)"
  by (rule hoareI) (auto simp: bg_load_def bg_do_def bg_with_def bg_return_def bg_set_def bg_if_def bg_throw_def no_result_def
      split: option.splits if_splits)

lemma before_promotion_returns: "hoare fresh (bg_run (bg_before_promotion c)) (\<lambda>_. True) refused"
proof -
  have throws: "hoare (\<lambda>_. True) a (\<lambda>_. True) refused" if "throws_only a" for a
    using that by (intro hoareI) (auto simp: throws_only_def split: option.splits)
  have load: "hoare fresh (bg_load c) fresh refused"
    by (rule hoare_post [OF hoare_both [OF hoare_keeps [OF fr.keeps_load] load_returns]]) (auto simp: fresh_def)
  have pick: "hoare fresh (bg_pick_blue c) (\<lambda>_. True) refused"
    by (rule hoareI) (auto simp: bg_pick_blue_def bg_with_def bg_return_def bg_set_def fresh_def Let_def
        buildBlueGreenUnsupportedResult_def no_result_def split: if_splits)
  have read: "hoare fresh (bg_do c (Read q)) fresh refused" for q
    by (rule hoare_post [OF hoare_both [OF hoare_keeps [OF fr.keeps_call [where c = c]] throws [OF throws_only_basic(4)]]]) (auto simp: fresh_def)
  have stale: "throws_only (bg_with (\<lambda>st. cleanupStaleGreenContainers c (l_projectName st) (bs_containerId (the (l_blue st)))))"
  proof -
    have "throws_only (cleanupGreenContainer c g)" for g
      unfolding cleanupGreenContainer_def by (rule throws_only_rules)+
    then have "throws_only (bg_run (map (\<lambda>mc. cleanupGreenContainer c (mc_id mc)) xs))" for xs
      by (induction xs) (auto intro: throws_only_rules simp del: bg_run.simps)
    then show ?thesis unfolding cleanupStaleGreenContainers_def by (intro throws_only_rules)
  qed
  have choose: "hoare fresh (bg_choose_blue c) (\<lambda>_. True) refused"
    unfolding bg_choose_blue_def
    by (rule hoare_Cons [OF read hoare_Cons [OF pick hoare_Cons [OF throws [OF stale] hoare_Nil]]]) simp
  show ?thesis
    unfolding bg_before_promotion_def
    by (rule hoare_Cons [OF load hoare_Cons [OF choose]] hoare_Cons throws throws_only_steps hoare_Nil | simp)+
qed

lemma promotion_throws: "throws_only (bg_run (bg_promotion c))"
  unfolding bg_promotion_def by (rule throws_only_rules throws_only_steps)+

text \<open>A \<open>return\<close> of the body is a refusal before blue is known, or the success behind all steps.\<close>

lemma body_returns:
  assumes "bg_body c st0 = (Some (Returns res), st)" and "fresh st0"
  shows "(l_blue st = None \<and> \<not> dr_success res) \<or>
    (\<exists>st1. bg_run (bg_before_promotion c) st0 = (None, st1) \<and> bg_run (bg_promotion c) st1 = (None, st) \<and> res = success_result c st)"
proof (cases "bg_run (bg_before_promotion c) st0")
  case (Pair r1 st1)
  show ?thesis
  proof (cases r1)
    case None
    obtain r2 st2 where two: "bg_run (bg_promotion c) st1 = (r2, st2)" by (cases "bg_run (bg_promotion c) st1")
    with assms(1) Pair None show ?thesis
      using promotion_throws [of c] by (auto simp: run_append bg_return_def throws_only_def split: option.splits)
  next
    case (Some x)
    with assms(1) Pair have "x = Returns res" "st1 = st" by (auto simp: run_append)
    with hoareD [OF before_promotion_returns assms(2) Pair] Some show ?thesis by simp
  qed
qed

lemma live_body: "keeps (blue_live c) (bg_body c)"
  unfolding bg_before_promotion_def bg_promotion_def
  by (intro keeps_append keeps_Cons keeps_Nil lv.keeps_load live_choose_blue lv.keeps_begin lv.keeps_image lv.keeps_start_green
      lv.keeps_probe_green lv.keeps_watch_green lv.keeps_promote lv.keeps_verify_route lv.keeps_stop_blue lv.keeps_verify_again
      lv.keeps_finish keeps_return) simp_all

lemma live_before: "keeps (blue_live c) (bg_run (bg_before_promotion c))"
  unfolding bg_before_promotion_def
  by (intro keeps_Cons keeps_Nil lv.keeps_load live_choose_blue lv.keeps_begin lv.keeps_image lv.keeps_start_green
      lv.keeps_probe_green lv.keeps_watch_green)

lemma catch_fails:
  assumes "bg_catch c e st = (Some (Returns res), st')"
  shows "\<not> dr_success res"
proof -
  have "throws_only a \<Longrightarrow> hoare (\<lambda>_. True) a (\<lambda>_. True) (\<lambda>x _. \<forall>res. x = Returns res \<longrightarrow> \<not> dr_success res)" for a
    by (rule hoareI) (auto simp: throws_only_def split: option.splits)
  note throws = this
  have ret: "hoare (\<lambda>_. True) (bg_return f) (\<lambda>_. True) (\<lambda>x _. \<forall>res. x = Returns res \<longrightarrow> \<not> dr_success res)"
    if "\<And>st. \<not> dr_success (f st)" for f
    by (rule hoareI) (auto simp: bg_return_def that)
  have "hoare (\<lambda>_. True) (bg_run [bg_recover c b, bg_settle c t r es, bg_do c x, bg_note ev, bg_note ev', bg_return f]) (\<lambda>_. True)
      (\<lambda>x _. \<forall>res. x = Returns res \<longrightarrow> \<not> dr_success res)"
    if "\<And>st. \<not> dr_success (f st)" for b t r es x ev ev' f
    by (rule hoare_Cons [OF throws [OF throws_only_recover(1)] hoare_Cons [OF throws [OF throws_only_recover(2)]
          hoare_Cons [OF throws [OF throws_only_basic(4)] hoare_Cons [OF throws [OF throws_only_basic(2)]
          hoare_Cons [OF throws [OF throws_only_basic(2)] hoare_Cons [OF ret [OF that] hoare_Nil]]]]]]) simp_all
  then have "hoare (\<lambda>_. True) (bg_catch c e) (\<lambda>_. True) (\<lambda>x _. \<forall>res. x = Returns res \<longrightarrow> \<not> dr_success res)"
    by (auto simp: bg_catch_def cancelled_result_def failure_result_def no_result_def simp del: bg_run.simps)
  from hoareD [OF this _ assms] show ?thesis by simp
qed

lemma live_init: "blue_live c (bg_init db envs options)"
  by (simp add: blue_live_def bg_init_def)

lemma serves_finally: "bg_db (bg_finally c st) = bg_db st \<and> l_blue (bg_finally c st) = l_blue st"
  using finally_shape [of c st] by auto

section \<open>A deploy that succeeds\<close>

definition is_green :: "bg_ctx \<Rightarrow> bg_state \<Rightarrow> service_row \<Rightarrow> bool" where
  "is_green c st svc \<longleftrightarrow> s_container_id svc = Some (c_greenId c) \<and> s_container_name svc = Some (green_name c st) \<and>
     s_assigned_port svc = l_newPort st \<and> s_container_port svc = l_containerPort st \<and> s_image_tag svc = l_imageTag st \<and>
     s_previous_image_tag svc = bs_imageTag (the (l_blue st))"

definition on_green :: "bg_ctx \<Rightarrow> bg_state \<Rightarrow> bool" where
  "on_green c st \<longleftrightarrow> serves (bg_db st) (c_projectId c) (is_green c st)"

definition done_with_blue :: "bg_ctx \<Rightarrow> bg_state \<Rightarrow> bool" where
  "done_with_blue c st \<longleftrightarrow> on_green c st \<and> replaced (bs_containerId (the (l_blue st))) (bg_hist st) \<and> \<not> l_shouldCleanupGreen st"

lemma is_green_updates [simp]:
  "is_green c (st\<lparr>bg_hist := h\<rparr>) = is_green c st" "is_green c (st\<lparr>bg_db := d\<rparr>) = is_green c st"
  "is_green c (st\<lparr>bg_envs := t\<rparr>) = is_green c st" "is_green c (st\<lparr>l_warnings := w\<rparr>) = is_green c st"
  "is_green c (st\<lparr>l_routeTargetUpdated := b\<rparr>) = is_green c st" "is_green c (st\<lparr>l_routeSwitched := b\<rparr>) = is_green c st"
  "is_green c (st\<lparr>l_shouldCleanupGreen := b\<rparr>) = is_green c st" "is_green c (st\<lparr>l_cloned := b\<rparr>) = is_green c st"
  by (rule ext, simp add: is_green_def green_name_def)+

lemma promote_None:
  assumes "bg_promote c st = (None, st')" and "plain_id (c_projectId c)" and "live (bg_db st) (c_projectId c)"
  shows "on_green c st' \<and> l_blue st' = l_blue st"
proof -
  let ?st = "st\<lparr>bg_hist := bg_hist st @ [Did (Disconnect (c_greenId c)), Did (Connect (c_greenId c))]\<rparr>"
  obtain st1 where one: "transitionProjectState c Running ''deploy-success'' (green_updates c ?st) ?st = (None, st1)"
    and two: "st' = st1\<lparr>l_routeTargetUpdated := True\<rparr> \<or>
       (\<exists>eid u st2. write_environment c eid u st1 = (None, st2) \<and> st' = st2\<lparr>l_routeTargetUpdated := True\<rparr>)"
    using assms(1) by (auto simp: bg_promote_def bg_do_def bg_with_def bg_set_def split: prod.splits option.splits)
  have ne: "green_updates c ?st \<noteq> no_updates" by (simp add: green_updates_def no_updates_def)
  obtain n1 n2 h where st1: "st1 = ?st\<lparr>bg_hist := h, bg_db := updateProject (c_projectId c) (green_updates c ?st) n2
       (snd (snd (transition (c_projectId c) Running ''deploy-success'' False n1 (bg_db ?st))))\<rparr>"
    using transition_state_None [OF one ne] by blast
  have "serves (bg_db st1) (c_projectId c) (is_green c st1)"
  proof -
    let ?db = "snd (snd (transition (c_projectId c) Running ''deploy-success'' False n1 (bg_db st)))"
    obtain svc where svc: "getDeployableForProject ?db (c_projectId c) = Some svc" "s_status svc = Some Running"
      using transition_live [OF assms(2,3), of Running "''deploy-success''" n1] by auto
    have "has_service_updates (green_updates c ?st)"
      by (simp add: has_service_updates_def green_updates_def no_updates_def)
    with updateProject_service [OF assms(2) svc(1), of "green_updates c ?st" n2] svc(2) show ?thesis
      by (simp add: st1 serves_def is_green_def svcSetValues_def green_updates_def no_updates_def set_if_def green_name_def)
  qed
  moreover have "l_blue st1 = l_blue st" by (simp add: st1)
  ultimately show ?thesis using two by (auto simp: on_green_def dest!: write_environment_shape)
qed

lemma on_green_hist: "on_green c (st\<lparr>bg_hist := h\<rparr>) = on_green c st"
  by (simp add: on_green_def)

lemma replaced_append: "replaced b h \<Longrightarrow> replaced b (h @ h')"
  unfolding replaced_def
proof (elim exE conjE)
  fix h1 h2 assume "h = h1 @ Did (StopContainer b) # h2" "ready h1" "list_ex working_route h2"
  then show "\<exists>h1 h2. h @ h' = h1 @ Did (StopContainer b) # h2 \<and> ready h1 \<and> list_ex working_route h2"
    by (intro exI [of _ h1] exI [of _ "h2 @ h'"]) simp
qed

lemma finish_done: "keeps (done_with_blue c) (bg_finish c)"
proof -
  have event: "done_with_blue c (st\<lparr>bg_hist := bg_hist st @ [ev]\<rparr>)" if "done_with_blue c st" for st ev
    using that by (simp add: done_with_blue_def on_green_hist replaced_append)
  have warn: "keeps (done_with_blue c) (bg_set (\<lambda>st. st\<lparr>l_warnings := w st\<rparr>))" for w
    by (rule keeps_set) (simp add: done_with_blue_def on_green_def)
  have cred: "keeps (done_with_blue c) (bg_set (\<lambda>st. st\<lparr>bg_db := set_git_credential (sid st) (g st) (n st) (bg_db st)\<rparr>))" for sid g n
  proof (rule keeps_set)
    fix st assume d: "done_with_blue c st"
    then obtain svc where "getDeployableForProject (bg_db st) (c_projectId c) = Some svc" "s_status svc = Some Running" "is_green c st svc"
      by (auto simp: done_with_blue_def on_green_def serves_def)
    with credential_service [of "bg_db st" "c_projectId c" svc "sid st" "g st" "n st"]
    have "on_green c (st\<lparr>bg_db := set_git_credential (sid st) (g st) (n st) (bg_db st)\<rparr>)"
      by (auto simp: on_green_def serves_def) (simp add: is_green_def)
    with d show "done_with_blue c (st\<lparr>bg_db := set_git_credential (sid st) (g st) (n st) (bg_db st)\<rparr>)"
      by (simp add: done_with_blue_def)
  qed
  show ?thesis unfolding bg_finish_def by (rule warn cred bg_rules event | assumption)+
qed

lemma promotion_done:
  assumes "plain_id (c_projectId c)"
  shows "hoare (\<lambda>st. blue_live c st \<and> chosen st \<and> ready_before st) (bg_run (bg_promotion c)) (done_with_blue c) (\<lambda>_ _. True)"
proof -
  let ?on = "\<lambda>st. on_green c st \<and> chosen st"
  have weak: "hoare P a Q E \<Longrightarrow> hoare P a Q (\<lambda>_ _. True)" for P a Q E
    by (erule hoare_post) auto
  have promote: "hoare (\<lambda>st. blue_live c st \<and> chosen st \<and> ready_before st) (bg_promote c) (\<lambda>st. ?on st \<and> ready_before st) (\<lambda>_ _. True)"
  proof (rule hoareI)
    fix st r st' assume pre: "blue_live c st \<and> chosen st \<and> ready_before st" and run: "bg_promote c st = (r, st')"
    have "chosen st'" using pre keepsD [OF tr.keeps_promote run] by blast
    moreover have "ready_before st'" using pre keepsD [OF keeps_ready_before [OF hp.keeps_promote] run] by blast
    moreover have "live (bg_db st) (c_projectId c)" using pre assms by (auto simp: blue_live_def tracks_def)
    ultimately show "case r of None \<Rightarrow> ?on st' \<and> ready_before st' | Some x \<Rightarrow> True"
      using promote_None [of c st st'] run assms by (auto split: option.splits)
  qed
  have route: "hoare (\<lambda>st. ?on st \<and> ready_before st) (bg_verify_route c) (\<lambda>st. ?on st \<and> ready (bg_hist st)) (\<lambda>_ _. True)"
  proof (rule hoareI)
    fix st r st' assume pre: "?on st \<and> ready_before st" and run: "bg_verify_route c st = (r, st')"
    have "chosen st'" using pre keepsD [OF tr.keeps_verify_route run] by blast
    then show "case r of None \<Rightarrow> ?on st' \<and> ready (bg_hist st') | Some x \<Rightarrow> True"
      using pre run by (auto simp: on_green_hist ready_def ready_before_def happened_def dest!: verify_route_None split: option.splits)
  qed
  have stop: "hoare (\<lambda>st. ?on st \<and> ready (bg_hist st)) (bg_stop_blue c)
      (\<lambda>st. on_green c st \<and> (\<exists>h. ready h \<and> bg_hist st = h @ [Did (StopContainer (bs_containerId (the (l_blue st))))])) (\<lambda>_ _. True)"
    by (rule hoareI) (auto simp: on_green_hist split: option.splits dest!: stop_blue_cases)
  have again: "hoare (\<lambda>st. on_green c st \<and> (\<exists>h. ready h \<and> bg_hist st = h @ [Did (StopContainer (bs_containerId (the (l_blue st))))]))
      (bg_verify_again c) (done_with_blue c) (\<lambda>_ _. True)"
    by (rule hoareI) (fastforce simp: done_with_blue_def on_green_def replaced_def split: option.splits dest!: verify_again_None)
  show ?thesis unfolding bg_promotion_def
    by (rule hoare_Cons [OF promote hoare_Cons [OF route hoare_Cons [OF stop hoare_Cons [OF again
          hoare_Cons [OF weak [OF hoare_keeps [OF finish_done]] hoare_Nil]]]]]) simp
qed

lemma body_success:
  assumes "plain_id (c_projectId c)" and "fresh st0" and "blue_live c st0"
    and "bg_body c st0 = (Some (Returns res), st)" and "dr_success res"
  shows "done_with_blue c st \<and> res = success_result c st"
proof -
  obtain st1 where one: "bg_run (bg_before_promotion c) st0 = (None, st1)"
    and two: "bg_run (bg_promotion c) st1 = (None, st)" and res: "res = success_result c st"
    using body_returns [OF assms(4,2)] assms(5) by blast
  have "chosen st1" "ready_before st1" using hoareD [OF before_promotion_chosen assms(2) one] by simp_all
  moreover have "blue_live c st1" using keepsD [OF live_before one assms(3)] .
  ultimately show ?thesis using hoareD [OF promotion_done [OF assms(1)] _ two] res by simp
qed

section \<open>Properties\<close>

text \<open>
  C3. The cutover is safe. In every run, whatever fails and whenever, the container that served
  before is stopped only after green passed its health check and its stability watch and the route
  to it was found working, and it is removed only after the route was found working once more
  with the old container stopped (or it is left running).
\<close>

theorem blue_green_cutover_safe:
  assumes "blueGreenRedeployInner c (bg_init db envs (c_options c)) = (res, st)"
    and "l_blue st = Some blue" and "l_green st \<noteq> Some (bs_containerId blue)"
  shows "cutover_safe (bs_containerId blue) (bg_hist st)"
proof -
  obtain st' where st': "fresh st' \<or> chosen st'" "st = bg_finally c st'"
    using run_fresh_or_chosen [OF assms(1) fresh_init] by blast
  from finally_shape [of c st'] obtain h where h: "st = st'\<lparr>l_cloned := False, bg_hist := bg_hist st' @ h\<rparr>"
    "\<forall>b. l_green st' \<noteq> Some b \<longrightarrow> Did (StopContainer b) \<notin> set h \<and> Did (RemoveContainer b) \<notin> set h"
    unfolding st'(2) by blast
  with assms(2) st'(1) have "cutover_safe (bs_containerId blue) (bg_hist st')" by (auto simp: fresh_def tracks_def)
  with h assms(3) show ?thesis by (auto intro: cutover_safe_append)
qed

text \<open>
  C4. A failed deploy goes back to blue. When a deploy returns a failure that says the previous version
  still serves, the service row is running on exactly the old container, port, image and previous
  image again, wherever the deploy failed, and Docker reported the old container running or its restart succeeded.
\<close>

theorem failed_deploy_serves_blue:
  assumes "plain_id (c_projectId c)" and "blueGreenRedeployInner c (bg_init db envs (c_options c)) = (Inr res, st)"
    and "\<not> dr_success res" and "dr_previous_version_still_serving res" and "l_blue st = Some blue"
  shows "serves (bg_db st) (c_projectId c) (is_blue blue) \<and>
    seen_running c (bs_containerId blue) (bg_hist st)"
  using assms(2)
proof (cases rule: inner_cases)
  case (body r st1)
  with body_returns [OF body(1) fresh_init] assms(3,5) show ?thesis
    by (auto simp: success_result_def serves_finally)
next
  case (handled e st1 x st2)
  then obtain r where x: "x = Returns r" "r = res" by (cases x) auto
  have "blue_live c st1" using keepsD [OF live_body handled(1) live_init] .
  from hoareD [OF catch_back [OF assms(1)] this handled(2)] x
  have "back_on_blue c st2" "l_blueServing st2" using assms(4) by simp_all
  moreover have "l_blue st2 = Some blue" using assms(5) handled(4) by (simp add: serves_finally)
  ultimately show ?thesis using handled(4) finally_shape [of c st2] by (auto simp: back_on_blue_def seen_running_append)
qed

text \<open>
  C5. A successful deploy serves green. When a deploy reports success, the service row is running on the
  green container with the port of the result, the old image is its previous image, and the
  run has the whole evidence: green was healthy, stable and routed, blue was stopped then and
  the route worked without it; green is not cleaned up.
\<close>

theorem successful_deploy_serves_green:
  assumes "plain_id (c_projectId c)" and "blueGreenRedeployInner c (bg_init db envs (c_options c)) = (Inr res, st)"
    and "dr_success res"
  shows "serves (bg_db st) (c_projectId c) (\<lambda>svc. s_container_id svc = Some (c_greenId c) \<and>
      s_assigned_port svc = dr_port res \<and> s_previous_image_tag svc = dr_previousImageTag res) \<and>
    replaced (bs_containerId (the (l_blue st))) (bg_hist st) \<and> \<not> l_shouldCleanupGreen st"
  using assms(2)
proof (cases rule: inner_cases)
  case (body r st1)
  with body_success [OF assms(1) fresh_init live_init body(1)] assms(3)
  have d: "done_with_blue c st1" "res = success_result c st1" by auto
  obtain h where "bg_finally c st1 = st1\<lparr>l_cloned := False, bg_hist := bg_hist st1 @ h\<rparr>"
    using finally_shape [of c st1] by blast
  with d body(3) show ?thesis
    by (auto simp: done_with_blue_def on_green_def serves_def is_green_def success_result_def no_result_def replaced_append)
next
  case (handled e st1 x st2)
  then have "x = Returns res" by (cases x) auto
  with catch_fails [of c e st1 res st2] handled(2) assms(3) show ?thesis by simp
qed

end
