(* ===== verification/Blue_Green_Liveness.thy ===== *)
theory Blue_Green_Liveness
  imports Blue_Green_Props
begin

text \<open>
  A blue-green deploy that nothing disturbs succeeds: when no call throws, the project is eligible, every
  inspection finds green running and healthy and every route probe gets a 2xx answer, the run
  returns success. \<open>goes P a Q\<close> is the total-correctness counterpart of \<open>hoare\<close>. The runs that
  the properties of \<open>Blue_Green_Props\<close> are tried on, and the runs behind the findings, are here too.
\<close>

section \<open>Steps that end normally\<close>

definition goes :: "(bg_state \<Rightarrow> bool) \<Rightarrow> bg_action \<Rightarrow> (bg_state \<Rightarrow> bool) \<Rightarrow> bool" where
  "goes P a Q \<longleftrightarrow> (\<forall>st. P st \<longrightarrow> (\<exists>st'. a st = (None, st') \<and> Q st'))"

lemma goesI: "(\<And>st. P st \<Longrightarrow> \<exists>st'. a st = (None, st') \<and> Q st') \<Longrightarrow> goes P a Q"
  by (simp add: goes_def)

lemma goes_Cons: "goes P a R \<Longrightarrow> goes R (bg_run as) Q \<Longrightarrow> goes P (bg_run (a # as)) Q"
  by (fastforce simp: goes_def)

lemma goes_Nil: "goes P (bg_run []) P"
  by (simp add: goes_def)

lemma goes_append: "goes P (bg_run as) R \<Longrightarrow> goes R (bg_run bs) Q \<Longrightarrow> goes P (bg_run (as @ bs)) Q"
  by (fastforce simp: goes_def run_append)

lemma goes_weaken: "goes P a Q \<Longrightarrow> (\<And>st. P' st \<Longrightarrow> P st) \<Longrightarrow> (\<And>st. Q st \<Longrightarrow> Q' st) \<Longrightarrow> goes P' a Q'"
  by (fastforce simp: goes_def)

lemma goes_set: "(\<And>st. P st \<Longrightarrow> Q (f st)) \<Longrightarrow> goes P (bg_set f) Q"
  by (simp add: goes_def bg_set_def)

lemma goes_note: "(\<And>st. P st \<Longrightarrow> Q (st\<lparr>bg_hist := bg_hist st @ [ev]\<rparr>)) \<Longrightarrow> goes P (bg_note ev) Q"
  by (simp add: goes_def bg_note_def)

lemma goes_if: "goes (\<lambda>st. P st \<and> b st) (bg_run as) Q \<Longrightarrow> goes (\<lambda>st. P st \<and> \<not> b st) (bg_run bs) Q \<Longrightarrow> goes P (bg_if b as bs) Q"
  by (simp add: goes_def bg_if_def)

lemma goes_with: "(\<And>s. P s \<Longrightarrow> goes (\<lambda>st. st = s) (f s) Q) \<Longrightarrow> goes P (bg_with f) Q"
  by (simp add: goes_def bg_with_def)

lemma goes_try: "goes P (bg_run as) Q \<Longrightarrow> goes P (bg_try as h) Q"
  by (fastforce simp: goes_def bg_try_def)

definition calm :: "bg_ctx \<Rightarrow> bool" where
  "calm c \<longleftrightarrow> (\<forall>h x. c_fails c h x = None)"

lemma goes_do: "calm c \<Longrightarrow> (\<And>st. P st \<Longrightarrow> Q (st\<lparr>bg_hist := bg_hist st @ [Did x]\<rparr>)) \<Longrightarrow> goes P (bg_do c x) Q"
  by (simp add: goes_def bg_do_def calm_def)

text \<open>What the steps behind the choice of blue need to know.\<close>

definition ports_free :: "bg_ctx \<Rightarrow> environment_row list \<Rightarrow> bool" where
  "ports_free c envs \<longleftrightarrow> (\<forall>e \<in> set envs. ev_assigned_port e \<noteq> Some (c_port c))"

definition under_way :: "bg_ctx \<Rightarrow> service_view_record \<Rightarrow> deploy_config \<Rightarrow> bg_state \<Rightarrow> bool" where
  "under_way c record cfg st \<longleftrightarrow> l_record st = Some record \<and> ports_free c (bg_envs st) \<and>
     (\<exists>g. l_config st = Some (cfg\<lparr>dc_gitCredentialId := g\<rparr>))"

lemma transition_goes:
  assumes "calm c" and "\<And>st h d. P st \<Longrightarrow> P (st\<lparr>bg_hist := h, bg_db := d\<rparr>)"
  shows "goes P (transitionProjectState c t r u) P"
proof -
  have hist: "P st \<Longrightarrow> P (st\<lparr>bg_hist := h\<rparr>)" for st h using assms(2) [of st "bg_db st" h] by simp
  have db: "P st \<Longrightarrow> P (st\<lparr>bg_db := d\<rparr>)" for st d using assms(2) [of st d "bg_hist st"] by simp
  have "goes P (bg_run (if u = no_updates then []
       else [bg_do c DoUpdateProject,
             bg_set (\<lambda>st. st\<lparr>bg_db := updateProject (c_projectId c) u (bg_now c st) (bg_db st)\<rparr>)])) P"
    by (auto intro!: goes_Cons [where R = P] goes_do goes_set goes_Nil hist db simp: assms(1) simp del: bg_run.simps)
  then show ?thesis unfolding transitionProjectState_def
    by (intro goes_append [where R = P] goes_Cons [where R = P] goes_do goes_set goes_Nil hist db assms(1))
qed

lemma write_environment_goes:
  assumes "calm c" and "eu_assignedPort u \<in> {None, Some (Some (c_port c))}"
    and "\<And>st h t. P st \<Longrightarrow> updateEnvironment eid u (bg_now c (st\<lparr>bg_hist := h\<rparr>)) (bg_envs st) = Inr t \<Longrightarrow> Q (st\<lparr>bg_hist := h, bg_envs := t\<rparr>)"
    and "\<And>st. P st \<Longrightarrow> ports_free c (bg_envs st)"
  shows "goes P (write_environment c eid u) Q"
proof (rule goesI)
  fix st assume st: "P st"
  let ?st = "st\<lparr>bg_hist := bg_hist st @ [Did DoUpdateEnvironment]\<rparr>"
  have "\<not> env_port_taken eid u (bg_envs st)"
    using assms(2) assms(4) [OF st] by (auto simp: env_port_taken_def ports_free_def list_ex_iff)
  then obtain t where t: "updateEnvironment eid u (bg_now c ?st) (bg_envs st) = Inr t"
    by (cases "u = no_env_updates") (auto simp: updateEnvironment_def)
  with assms(1) assms(3) [OF st t] show "\<exists>st'. write_environment c eid u st = (None, st') \<and> Q st'"
    by (simp add: write_environment_def bg_do_def calm_def bg_with_def bg_set_def)
qed

lemma status_write_keeps_ports:
  "updateEnvironment eid (environment_status s) now envs = Inr t \<Longrightarrow> ports_free c envs \<Longrightarrow> ports_free c t"
  by (auto simp: updateEnvironment_def environment_status_def no_env_updates_def sql_update_def ports_free_def env_set_values_def
      set_if_def split: if_splits)

lemma status_write_port [simp]: "eu_assignedPort (environment_status s) = None"
  by (simp add: environment_status_def no_env_updates_def)

section \<open>A calm run\<close>

definition good_inspection :: "inspection \<Rightarrow> bool" where
  "good_inspection i \<longleftrightarrow> in_running i \<and> \<not> in_restarting i \<and> in_health i = Some ''healthy'' \<and> in_restartCount i = Some 0"

definition good_route :: "route_answer \<Rightarrow> bool" where
  "good_route a \<longleftrightarrow> (\<exists>s. ra_outcome a = Responded s \<and> 200 \<le> s \<and> s < 300)"

definition all_well :: "bg_ctx \<Rightarrow> bool" where
  "all_well c \<longleftrightarrow> calm c \<and> c_greenId c \<noteq> [] \<and>
     (\<forall>k. \<exists>i. pa_inspect (ha_probe (c_health c k) 0) = Inr i \<and> good_inspection i) \<and>
     (\<forall>k. \<exists>i. sa_inspect (c_watch c k) = Inr i \<and> good_inspection i) \<and>
     (\<forall>k. good_route (c_route c k)) \<and> (\<forall>k. good_route (c_routeAgain c k))"

lemma observe_loop_well:
  assumes "\<forall>k. \<exists>i. sa_inspect (ans k) = Inr i \<and> good_inspection i" and "b = None \<or> b = Some 0"
  shows "\<exists>n el. observe_loop d i ans s k b f now = Stable n el"
  using assms
proof (induction d i ans s k b f now rule: observe_loop.induct)
  case (1 d i ans s k b f now)
  obtain x :: inspection where x: "sa_inspect (ans k) = Inr x" "good_inspection x" using 1(2) by blast
  have poll: "stability_poll (sa_inspect (ans k)) b f = Inr (Some 0, 0)"
    using x 1(3) by (auto simp: stability_poll_def good_inspection_def summarizeGreenStability_def restart_count_def Let_def)
  show ?case
  proof (cases "d - (now + int (sa_took (ans k))) \<le> 0")
    case False
    from 1(1) [OF refl refl refl poll refl False 1(2)] show ?thesis
      using poll False by (simp add: observe_loop.simps [of d i ans s k b f now] Let_def)
  qed (simp add: observe_loop.simps [of d i ans s k b f now] Let_def poll)
qed

lemma watch_well:
  assumes "all_well c"
  shows "\<exists>n el. observeBlueGreenStability o1 o2 (c_watch c) s = Stable n el"
  unfolding observeBlueGreenStability_def
  by (rule observe_loop_well) (use assms in \<open>auto simp: all_well_def\<close>)

lemma health_well:
  assumes "all_well c" and "hc_dockerHealthPolicy cfg = Prefer"
  shows "\<exists>w. waitForBlueGreenHealth penv cfg (c_greenId c) port m i (c_health c) s = Inr w \<and> pr_healthy (hw_result w)"
proof -
  obtain x :: inspection where x: "pa_inspect (ha_probe (c_health c 0) 0) = Inr x" "good_inspection x"
    using assms(1) unfolding all_well_def by blast
  have "c_greenId c \<noteq> []" using assms(1) by (simp add: all_well_def)
  with x assms(2) have "\<exists>r. runProbe penv (cfg\<lparr>hc_failureThreshold := 1\<rparr>) (c_greenId c) port (ha_probe (c_health c 0)) = Inr r \<and> pr_healthy r"
    by (simp add: runProbe_once runSingleProbe_def good_inspection_def containerStateProbeResult_def Let_def)
  then show ?thesis
    by (auto simp: waitForBlueGreenHealth_def health_loop.simps Let_def)
qed

lemma route_well:
  assumes "\<And>k. good_route (ans k)" and "minimum_age p \<le> max 0 (rp_maxWaitMs p)" and "rp_statusPolicy p = None"
  shows "\<exists>s n el. waitForManagedTraefikRoute p ans t = Route_ok s n el"
proof (cases "waitForManagedTraefikRoute p ans t")
  case (Route_failed e n el st)
  have "probeManagedTraefikRoute p (ra_outcome (ans (n - 1))) = Inl (e, st) \<or> el < minimum_age p" "route_deadline p t \<le> t + el"
    using wait_route_failed [of p ans t 0 t e n el st] Route_failed by (simp_all add: waitForManagedTraefikRoute_def)
  moreover have "\<exists>s. probeManagedTraefikRoute p (ra_outcome (ans (n - 1))) = Inr s"
    using assms(1) [of "n - 1"] assms(3) by (auto simp: good_route_def probeManagedTraefikRoute_def accepted_status_def)
  ultimately show ?thesis using assms(2) by (auto simp: route_deadline_def)
qed simp

lemma profile_prefers: "hc_dockerHealthPolicy (mp_health (resolveMonitoringProfile p s)) = Prefer"
  by (simp add: resolveMonitoringProfile_def default_health_def Let_def)

lemma green_probe_prefers: "hc_dockerHealthPolicy (green_probe_config c st) = Prefer"
  by (simp add: green_probe_config_def profile_prefers Let_def split: option.splits)

section \<open>The steps of a calm run\<close>

text \<open>The project is eligible, its configuration complete and its owner known.\<close>

definition eligible :: "bg_ctx \<Rightarrow> store \<Rightarrow> service_view_record \<Rightarrow> deploy_config \<Rightarrow> bool" where
  "eligible c db record cfg \<longleftrightarrow>
     (\<exists>p svc. getProject db (c_projectId c) = Some p \<and> valid_project_name (p_name p) \<and>
        record = loadServiceViewRecord db p \<and> vr_service record = Some svc \<and> getProject db (s_project_id svc) \<noteq> None) \<and>
     el_supported (getBlueGreenEligibility db (c_traefikManaged c) (c_projectId c) (o_healthCheckPath (c_options c))) \<and>
     buildDeployConfig (vr_project record) (vr_service record) (vr_view record) = Inr cfg"

lemma eligible_container:
  assumes "eligible c db record cfg"
  shows "truthy (v_containerId (vr_view record))"
  using assms
  by (auto simp: eligible_def el_supported_def getBlueGreenEligibility_def Let_def loadServiceViewRecord_def split: option.splits if_splits)

lemma load_goes:
  assumes "calm c" and "eligible c db record cfg"
  shows "goes (\<lambda>st. bg_db st = db \<and> ports_free c (bg_envs st)) (bg_load c)
     (\<lambda>st. bg_db st = db \<and> ports_free c (bg_envs st) \<and> l_record st = Some record)"
proof (rule goesI)
  fix st :: bg_state assume st: "bg_db st = db \<and> ports_free c (bg_envs st)"
  obtain p svc where p: "getProject db (c_projectId c) = Some p" "valid_project_name (p_name p)"
    "record = loadServiceViewRecord db p" "vr_service record = Some svc" "\<exists>q. getProject db (s_project_id svc) = Some q"
    using assms(2) by (auto simp: eligible_def)
  have call: "bg_do c x s = (None, s\<lparr>bg_hist := bg_hist s @ [Did x]\<rparr>)" for x s
    using assms(1) by (simp add: bg_do_def calm_def)
  show "\<exists>st'. bg_load c st = (None, st') \<and> bg_db st' = db \<and> ports_free c (bg_envs st') \<and> l_record st' = Some record"
    using st p by (auto simp: bg_load_def call bg_with_def bg_set_def bg_if_def)
qed

lemma choose_goes:
  assumes "calm c" and "eligible c db record cfg"
  shows "goes (\<lambda>st. bg_db st = db \<and> ports_free c (bg_envs st) \<and> l_record st = Some record) (bg_choose_blue c)
     (\<lambda>st. ports_free c (bg_envs st) \<and> l_record st = Some record)"
proof -
  let ?P = "\<lambda>st. ports_free c (bg_envs st) \<and> l_record st = Some record"
  have hist: "goes ?P (bg_do c x) ?P" for x by (rule goes_do [OF assms(1)]) simp
  have green: "goes ?P (cleanupGreenContainer c g) ?P" for g
    unfolding cleanupGreenContainer_def
    by (rule goes_Cons [OF goes_try [OF goes_Cons [OF hist goes_Nil]] goes_Cons [OF goes_try [OF goes_Cons [OF hist goes_Nil]] goes_Nil]])
  have all: "goes ?P (bg_run (map (\<lambda>mc. cleanupGreenContainer c (mc_id mc)) xs)) ?P" for xs
    by (induction xs) (auto intro: goes_Nil goes_Cons green simp del: bg_run.simps)
  have stale: "goes ?P (cleanupStaleGreenContainers c n b) ?P" for n b
    unfolding cleanupStaleGreenContainers_def by (rule goes_try [OF goes_Cons [OF hist all]])
  have pick: "goes (\<lambda>st. bg_db st = db \<and> ?P st) (bg_pick_blue c) ?P"
    using assms(2) eligible_container [OF assms(2)]
    by (auto simp: goes_def bg_pick_blue_def bg_with_def bg_set_def eligible_def Let_def)
  have read: "goes (\<lambda>st. bg_db st = db \<and> ports_free c (bg_envs st) \<and> l_record st = Some record) (bg_do c (Read q)) (\<lambda>st. bg_db st = db \<and> ?P st)" for q
    by (rule goes_do [OF assms(1)]) simp
  show ?thesis unfolding bg_choose_blue_def
    by (rule goes_Cons [OF read goes_Cons [OF pick goes_Cons [OF goes_with goes_Nil]]])
       (rule goes_weaken [OF stale], auto)
qed

lemma begin_goes:
  assumes "calm c" and "eligible c db record cfg"
  shows "goes (\<lambda>st. ports_free c (bg_envs st) \<and> l_record st = Some record) (bg_begin c) (under_way c record cfg)"
proof -
  let ?P = "\<lambda>st. ports_free c (bg_envs st) \<and> l_record st = Some record"
  let ?U = "under_way c record cfg"
  have cfg: "goes ?P (bg_with (\<lambda>st. case buildDeployConfig (vr_project (the (l_record st))) (vr_service (the (l_record st)))
                          (vr_view (the (l_record st))) of
                Inl message \<Rightarrow> bg_throw message
              | Inr cfg \<Rightarrow> bg_set (\<lambda>st. st\<lparr>l_config := Some cfg\<rparr>))) ?U"
  proof (rule goes_with)
    fix s :: bg_state assume "?P s"
    moreover have "\<exists>g. cfg = cfg\<lparr>dc_gitCredentialId := g\<rparr>" by (rule exI [of _ "dc_gitCredentialId cfg"]) simp
    ultimately show "goes (\<lambda>st. st = s) (case buildDeployConfig (vr_project (the (l_record s))) (vr_service (the (l_record s)))
                          (vr_view (the (l_record s))) of
                Inl message \<Rightarrow> bg_throw message
              | Inr cfg \<Rightarrow> bg_set (\<lambda>st. st\<lparr>l_config := Some cfg\<rparr>)) ?U"
      using assms(2) by (auto simp: eligible_def under_way_def intro!: goes_set)
  qed
  have P: "goes ?P (bg_do c x) ?P" for x by (rule goes_do [OF assms(1)]) simp
  have set: "goes ?P (bg_set (\<lambda>st. let prodEnv = find (\<lambda>e. ev_type e = Production_env) (getEnvironmentsByProject (c_projectId c) (bg_envs st))
         in st\<lparr>l_prodEnv := prodEnv, l_environmentId := map_option ev_id prodEnv\<rparr>)) ?P"
    by (rule goes_set) (simp add: Let_def)
  have phase: "goes ?U (bg_note ev) ?U" for ev by (rule goes_note) (simp add: under_way_def)
  have trans: "goes ?U (transitionProjectState c Building ''deploy-started'' no_updates) ?U"
    by (rule transition_goes [OF assms(1)]) (simp add: under_way_def)
  have env: "goes ?U (write_environment c eid (environment_status EBuilding)) ?U" for eid
    by (rule write_environment_goes [OF assms(1)]) (auto simp: under_way_def dest: status_write_keeps_ports)
  have last: "goes ?U (bg_with (\<lambda>st. case l_prodEnv st of
             None \<Rightarrow> bg_run [] | Some e \<Rightarrow> write_environment c (ev_id e) (environment_status EBuilding))) ?U"
    by (rule goes_with) (auto split: option.splits simp del: bg_run.simps intro: goes_weaken [OF env] goes_weaken [OF goes_Nil])
  show ?thesis unfolding bg_begin_def
    by (rule goes_Cons [OF P goes_Cons [OF set goes_Cons [OF P goes_Cons [OF cfg goes_Cons [OF phase goes_Cons [OF trans goes_Cons [OF last goes_Nil]]]]]]])
qed

text \<open>The calls of a part of the run that leaves a condition on the local variables alone.\<close>

definition prepared :: "bg_ctx \<Rightarrow> bg_state \<Rightarrow> bool" where
  "prepared c st \<longleftrightarrow> ports_free c (bg_envs st) \<and> l_newPort st = Some (c_port c)"

lemma js_trim_Nil [simp]: "js_trim [] = []"
  by (simp add: js_trim_def)

lemma config_source:
  assumes "buildDeployConfig p d v = Inr cfg"
  shows "dc_source cfg = v_source v \<and> dc_imageUrl cfg = v_imageUrl v \<and>
     (v_source v = Some ''image'' \<longrightarrow> truthy (dc_imageUrl cfg))"
proof -
  have none: "getRedeploySourceMissingError i (Some (case v_source v of Some src \<Rightarrow> src | None \<Rightarrow> ''git'')) r (v_imageUrl v) = None \<Longrightarrow> v_source v = Some ''image'' \<Longrightarrow> truthy (v_imageUrl v)" for i r
    by (auto simp: getRedeploySourceMissingError_def hasText_def truthy_def split: option.splits if_splits)
  show ?thesis using assms none
    by (auto simp: buildDeployConfig_def Let_def split: option.splits)
qed

lemma image_goes:
  assumes "calm c" and "eligible c db record cfg"
  shows "goes (under_way c record cfg) (bg_image c) (\<lambda>st. ports_free c (bg_envs st))"
proof -
  let ?U = "under_way c record cfg"
  let ?F = "\<lambda>st. ports_free c (bg_envs st)"
  have src: "v_source (vr_view record) = Some ''image'' \<Longrightarrow> truthy (dc_imageUrl cfg)" "dc_source cfg = v_source (vr_view record)"
    using assms(2) config_source [of "vr_project record" "vr_service record" "vr_view record" cfg] by (auto simp: eligible_def)
  have flag: "goes ?U (bg_set (\<lambda>st. st\<lparr>l_fromImage := (dc_source (the (l_config st)) = Some ''image'' \<or>
          v_source (vr_view (the (l_record st))) = Some ''image'')\<rparr>))
      (\<lambda>st. ?U st \<and> (l_fromImage st \<longrightarrow> truthy (dc_imageUrl (the (l_config st)))))"
    by (rule goes_set) (use src in \<open>auto simp: under_way_def\<close>)
  have keep: "goes (\<lambda>st. ?U st \<and> (l_fromImage st \<longrightarrow> truthy (dc_imageUrl (the (l_config st))))) (bg_do c x)
      (\<lambda>st. ?U st \<and> (l_fromImage st \<longrightarrow> truthy (dc_imageUrl (the (l_config st)))))" for x
    by (rule goes_do [OF assms(1)]) (auto simp: under_way_def)
  have noted: "goes (\<lambda>st. ?U st \<and> (l_fromImage st \<longrightarrow> truthy (dc_imageUrl (the (l_config st))))) (bg_note ev)
      (\<lambda>st. ?U st \<and> (l_fromImage st \<longrightarrow> truthy (dc_imageUrl (the (l_config st)))))" for ev
    by (rule goes_note) (auto simp: under_way_def)
  have call: "goes ?F (bg_do c x) ?F" and ev: "goes ?F (bg_note y) ?F" for x y
    by (rule goes_do [OF assms(1)], simp) (rule goes_note, simp)
  have set: "goes ?F (bg_set f) ?F" if "\<And>st. bg_envs (f st) = bg_envs st" for f
    by (rule goes_set) (simp add: that)
  have pull: "goes (\<lambda>st. ?F st) (bg_run [bg_note (Phase ''building''), bg_try [bg_do c (PullImage u)] (\<lambda>e. [bg_throw (mapPullError (be_message e))]),
                        bg_set (\<lambda>st. st\<lparr>l_imageTag := v\<rparr>)]) ?F" for u v
    by (rule goes_Cons [OF ev goes_Cons [OF goes_try [OF goes_Cons [OF call goes_Nil]] goes_Cons [OF set goes_Nil]]]) simp
  show ?thesis unfolding bg_image_def
    apply (rule goes_Cons [OF flag goes_Cons [OF keep goes_Cons [OF noted goes_Cons [OF goes_if goes_Cons [OF ev goes_Nil]]]]])
     apply (rule goes_Cons [OF goes_with goes_Nil])
     apply (simp add: coalesce_def truthy_def Let_def split: option.splits del: bg_run.simps)
     apply (auto intro: goes_weaken [OF pull] simp: under_way_def simp del: bg_run.simps)[1]
    apply (rule goes_weaken [where P = ?F and Q = ?F])
      apply (rule goes_Cons [OF ev goes_Cons [OF call goes_Cons [OF set goes_Cons [OF ev goes_Cons [OF set goes_Cons [OF call goes_Cons [OF call goes_Nil]]]]]]])
       apply (auto simp: under_way_def)
    done
qed

lemma start_goes:
  assumes "calm c"
  shows "goes (\<lambda>st. ports_free c (bg_envs st)) (bg_start_green c) (prepared c)"
proof -
  let ?F = "\<lambda>st. ports_free c (bg_envs st)"
  let ?P = "prepared c"
  have call: "goes ?F (bg_do c x) ?F" and ev: "goes ?F (bg_note y) ?F" for x y
    by (rule goes_do [OF assms(1)], simp) (rule goes_note, simp)
  have port: "goes ?F (bg_set (\<lambda>st. st\<lparr>l_newPort := Some (c_port c)\<rparr>)) ?P"
    by (rule goes_set) (simp add: prepared_def)
  have call2: "goes ?P (bg_do c x) ?P" and ev2: "goes ?P (bg_note y) ?P" for x y
    by (rule goes_do [OF assms(1)], simp add: prepared_def) (rule goes_note, simp add: prepared_def)
  have set: "goes ?P (bg_set (\<lambda>st. st\<lparr>l_containerPort := f st\<rparr>)) ?P"
    "goes ?P (bg_set (\<lambda>st. st\<lparr>l_green := Some (c_greenId c), l_shouldCleanupGreen := True\<rparr>)) ?P" for f
    by (rule goes_set, simp add: prepared_def)+
  have start: "goes ?P (bg_with (\<lambda>st. bg_do c (RunContainer (green_name c st)))) ?P"
    by (rule goes_with) (rule goes_weaken [OF call2], simp_all)
  show ?thesis unfolding bg_start_green_def
    by (rule goes_Cons [OF ev goes_Cons [OF call goes_Cons [OF port goes_Cons [OF call2 goes_Cons [OF set(1)
          goes_Cons [OF call2 goes_Cons [OF call2 goes_Cons [OF call2 goes_Cons [OF call2 goes_Cons [OF call2
          goes_Cons [OF start goes_Cons [OF set(2) goes_Cons [OF ev2 goes_Nil]]]]]]]]]]]]])
qed

lemma probe_goes:
  assumes "all_well c"
  shows "goes (prepared c) (bg_probe_green c) (prepared c)"
proof (rule goesI)
  fix st assume st: "prepared c st"
  obtain w where w: "waitForBlueGreenHealth (c_penv c) (green_probe_config c st) (c_greenId c) (l_newPort st)
            (option_ms (o_healthCheckRetries (c_options c)) 30) (option_ms (o_healthCheckIntervalMs (c_options c)) 2000)
            (c_health c) (bg_now c st) = Inr w" "pr_healthy (hw_result w)"
    using health_well [OF assms green_probe_prefers] by blast
  with st show "\<exists>st'. bg_probe_green c st = (None, st') \<and> prepared c st'"
    by (simp add: bg_probe_green_def bg_with_def bg_note_def prepared_def)
qed

lemma watch_goes:
  assumes "all_well c"
  shows "goes (prepared c) (bg_watch_green c) (prepared c)"
proof (rule goesI)
  fix st assume st: "prepared c st"
  obtain n el where w: "observeBlueGreenStability (option_ms (o_postSwitchStabilityMs (c_options c)) 30000)
            (option_ms (o_postSwitchStabilityPollIntervalMs (c_options c)) 2000) (c_watch c) (bg_now c st) = Stable n el"
    using watch_well [OF assms] by blast
  with st show "\<exists>st'. bg_watch_green c st = (None, st') \<and> prepared c st'"
    by (simp add: bg_watch_green_def bg_with_def bg_note_def prepared_def)
qed

lemma promote_goes:
  assumes "calm c"
  shows "goes (prepared c) (bg_promote c) (\<lambda>_. True)"
proof -
  let ?P = "prepared c"
  have call: "goes ?P (bg_do c x) ?P" for x by (rule goes_do [OF assms(1)]) (simp add: prepared_def)
  have trans: "goes ?P (bg_with (\<lambda>st. transitionProjectState c Running r (green_updates c st))) ?P" for r
    by (rule goes_with) (rule goes_weaken [OF transition_goes [where P = ?P, OF assms]], auto simp: prepared_def)
  have env: "goes (\<lambda>st. st = s) (write_environment c eid (green_env_updates c e s)) (\<lambda>_. True)" if "?P s" for s eid e
    by (rule write_environment_goes [OF assms]) (use that in \<open>auto simp: prepared_def green_env_updates_def no_env_updates_def\<close>)
  have last: "goes ?P (bg_with (\<lambda>st. case l_prodEnv st of None \<Rightarrow> bg_run [] | Some e \<Rightarrow> write_environment c (ev_id e) (green_env_updates c e st))) (\<lambda>_. True)"
    by (rule goes_with) (auto split: option.splits simp del: bg_run.simps intro: env goes_weaken [OF goes_Nil])
  have flag: "goes (\<lambda>_. True) (bg_set f) (\<lambda>_. True)" for f by (rule goes_set) simp
  show ?thesis unfolding bg_promote_def
    by (rule goes_Cons [OF call goes_Cons [OF call goes_Cons [OF trans goes_Cons [OF last goes_Cons [OF flag goes_Nil]]]]])
qed

lemma cutover_goes:
  assumes "all_well c"
  shows "goes (\<lambda>_. True) (bg_run [bg_verify_route c, bg_stop_blue c, bg_verify_again c, bg_finish c]) (\<lambda>_. True)"
proof -
  let ?T = "\<lambda>_ :: bg_state. True"
  have calm: "calm c" and good: "good_route (c_route c k)" "good_route (c_routeAgain c k)" for k
    using assms by (simp_all add: all_well_def)
  have min_below: "min a d \<le> max 0 d" for a d :: int by simp
  have call: "goes ?T (bg_do c x) ?T" and ev: "goes ?T (bg_note y) ?T" and set: "goes ?T (bg_set f) ?T" for x y f
    by (rule goes_do [OF calm], simp) (rule goes_note, simp, rule goes_set, simp)
  have wait: "\<exists>s n el. waitForManagedTraefikRoute (route_params_of c m st) ans t = Route_ok s n el"
    if "\<And>k. good_route (ans k)" "m \<le> max 0 (option_ms (o_routeSwitchDelayMs (c_options c)) DEFAULT_BLUE_GREEN_ROUTE_SWITCH_TIMEOUT_MS)" for m st ans t
    by (rule route_well [OF that(1)]) (use that(2) in \<open>auto simp: minimum_age_def route_params_of_def\<close>)
  have route: "goes ?T (bg_verify_route c) ?T"
  proof (rule goesI)
    fix st :: bg_state
    let ?delay = "option_ms (o_routeSwitchDelayMs (c_options c)) DEFAULT_BLUE_GREEN_ROUTE_SWITCH_TIMEOUT_MS"
    obtain s n el where "waitForManagedTraefikRoute (route_params_of c (min TRAEFIK_HTTP_PROVIDER_POLL_INTERVAL_MS ?delay) st)
        (c_route c) (bg_now c st) = Route_ok s n el"
      using wait [of "c_route c" "min TRAEFIK_HTTP_PROVIDER_POLL_INTERVAL_MS ?delay" st "bg_now c st"] good min_below [of _ ?delay] by blast
    then show "\<exists>st'. bg_verify_route c st = (None, st') \<and> True"
      by (simp add: bg_verify_route_def bg_with_def bg_note_def Let_def)
  qed
  have again: "goes ?T (bg_verify_again c) ?T"
  proof (rule goesI)
    fix st :: bg_state
    obtain s n el where "waitForManagedTraefikRoute (route_params_of c 0 st) (c_routeAgain c) (bg_now c st) = Route_ok s n el"
      using wait [of "c_routeAgain c" 0 st "bg_now c st"] good by auto
    then show "\<exists>st'. bg_verify_again c st = (None, st') \<and> True"
      by (simp add: bg_verify_again_def bg_with_def bg_note_def bg_set_def Let_def)
  qed
  have acall: "goes ?T (bg_with (\<lambda>st. bg_do c (f st))) ?T" for f by (rule goes_with) (rule goes_weaken [OF call], simp_all)
  have stop: "goes ?T (bg_stop_blue c) ?T"
    unfolding bg_stop_blue_def by (rule goes_try [OF goes_Cons [OF acall goes_Nil]])
  have remove: "goes ?T (bg_try [bg_with (\<lambda>st. bg_do c (f st))] h) ?T" for f h by (rule goes_try [OF goes_Cons [OF acall goes_Nil]])
  have ifs: "goes ?T (bg_if b [bg_do c x, bg_set f] []) ?T" for b x f
    by (rule goes_if; rule goes_weaken [where P = ?T and Q = ?T])
       (simp_all add: goes_Cons [OF call goes_Cons [OF set goes_Nil]] goes_Nil del: bg_run.simps)
  have finish: "goes ?T (bg_finish c) ?T" unfolding bg_finish_def
    by (rule goes_Cons [OF remove goes_Cons [OF call goes_Cons [OF ifs goes_Cons [OF ev goes_Cons [OF ev goes_Nil]]]]])
  show ?thesis by (rule goes_Cons [OF route goes_Cons [OF stop goes_Cons [OF again goes_Cons [OF finish goes_Nil]]]])
qed

lemma body_goes:
  assumes "all_well c" and "eligible c db record cfg" and "ports_free c envs"
  shows "\<exists>st. bg_body c (bg_init db envs (c_options c)) = (Some (Returns (success_result c st)), st)"
proof -
  have calm: "calm c" using assms(1) by (simp add: all_well_def)
  have "goes (\<lambda>st. bg_db st = db \<and> ports_free c (bg_envs st)) (bg_run (bg_before_promotion c @ bg_promotion c)) (\<lambda>_. True)"
    unfolding bg_before_promotion_def bg_promotion_def append.simps
    by (rule goes_Cons [OF load_goes [OF calm assms(2)] goes_Cons [OF choose_goes [OF calm assms(2)]
          goes_Cons [OF begin_goes [OF calm assms(2)] goes_Cons [OF image_goes [OF calm assms(2)]
          goes_Cons [OF start_goes [OF calm] goes_Cons [OF probe_goes [OF assms(1)] goes_Cons [OF watch_goes [OF assms(1)]
          goes_Cons [OF promote_goes [OF calm] cutover_goes [OF assms(1)]]]]]]]]])
  moreover have "bg_db (bg_init db envs (c_options c)) = db" "ports_free c (bg_envs (bg_init db envs (c_options c)))"
    using assms(3) by (simp_all add: bg_init_def)
  ultimately obtain st where "bg_run (bg_before_promotion c @ bg_promotion c) (bg_init db envs (c_options c)) = (None, st)"
    by (auto simp: goes_def)
  then show ?thesis unfolding append_assoc [symmetric] by (subst run_append) (simp add: bg_return_def)
qed

section \<open>An undisturbed deploy succeeds\<close>

lemma inner_goes:
  assumes "all_well c" and "eligible c db record cfg" and "ports_free c envs"
  shows "\<exists>res st. blueGreenRedeployInner c (bg_init db envs (c_options c)) = (Inr res, st) \<and> dr_success res"
  using body_goes [OF assms] by (auto simp: blueGreenRedeployInner_def success_result_def)

text \<open>
  C6. A deploy that nothing disturbs succeeds. When the project is eligible, no call throws, no environment
  holds the port that was allocated, every inspection finds green running and healthy without
  restarts and every route probe is answered with a 2xx, then the run returns success, whatever
  waits, intervals and timeouts were asked for: every wait ends with a success, and nothing of
  the bookkeeping around them fails.
\<close>

theorem undisturbed_deploy_succeeds:
  assumes "all_well c" and "eligible c db record cfg" and "ports_free c envs"
  shows "\<exists>res st. blueGreenRedeployInner c (bg_init db envs (c_options c)) = (Inr res, st) \<and> dr_success res \<and>
    dr_route_switched res"
  using body_goes [OF assms] by (auto simp: blueGreenRedeployInner_def success_result_def)

section \<open>Runs on which the properties are tried\<close>

definition eg_options :: bg_options where
  "eg_options = \<lparr>o_healthCheckPath = Some ''/health'', o_healthCheckRetries = Some 1, o_healthCheckIntervalMs = Some 10,
     o_routeSwitchDelayMs = Some 0, o_routeProbeIntervalMs = Some 10, o_routeProbeTimeoutMs = None, o_routeProbePath = None,
     o_postSwitchStabilityMs = Some 0, o_postSwitchStabilityPollIntervalMs = None\<rparr>"

text \<open>A context in which everything answers well; \<open>fails\<close> says which calls throw.\<close>


definition eg_up :: inspection where
  "eg_up = \<lparr>in_running = True, in_restarting = False, in_exitCode = None, in_health = Some ''healthy'', in_restartCount = Some 0\<rparr>"

definition eg_ctx :: "(bg_event list \<Rightarrow> bg_call \<Rightarrow> bg_error option) \<Rightarrow> bg_ctx" where
  "eg_ctx fails = \<lparr>c_projectId = ''p'', c_options = eg_options, c_traefikManaged = True, c_penv = (\<lambda>_. None),
     c_hostname = (\<lambda>n. n @ ''.local''), c_fails = fails, c_clock = int, c_containers = [], c_cloned = (''abc'', None),
     c_builtTag = ''img'', c_port = 3001, c_exposedPort = None, c_suffix = ''x1'', c_greenId = ''green'',
     c_health = (\<lambda>_. \<lparr>ha_probe = (\<lambda>_. \<lparr>pa_inspect = Inr eg_up, pa_fetch = (\<lambda>_. Inr (True, 200)),
        pa_connect = (\<lambda>_ _. Connected), pa_exec = (\<lambda>_. Inr 0), pa_ms = 1\<rparr>), ha_took = 1, ha_late = 0\<rparr>),
     c_watch = (\<lambda>_. \<lparr>sa_inspect = Inr eg_up, sa_took = 1, sa_late = 0\<rparr>),
     c_route = (\<lambda>_. \<lparr>ra_outcome = Responded 200, ra_took = 1, ra_late = 0\<rparr>),
     c_routeAgain = (\<lambda>_. \<lparr>ra_outcome = Responded 200, ra_took = 1, ra_late = 0\<rparr>), c_running = (\<lambda>_. True)\<rparr>"

definition eg_calm :: bg_ctx where
  "eg_calm = eg_ctx (\<lambda>_ _. None)"

text \<open>The environments cannot be read, once blue is chosen.\<close>

definition eg_broken :: bg_ctx where
  "eg_broken = eg_ctx (\<lambda>_ x. if x = Read ''getEnvironmentsByProject'' then Some \<lparr>be_message = ''db gone'', be_cancelled = False\<rparr> else None)"

definition eg_blue_db :: store where
  "eg_blue_db = \<lparr>projects = [new_project_row ''p''],
     services = [(new_service_row ''p__svc'' ''p'' KGit (Some Running))\<lparr>s_container_id := Some ''blue'',
        s_assigned_port := Some 3000, s_source := ''git'', s_repo_url := Some ''https://host/r.git''\<rparr>]\<rparr>"

definition eg_record :: service_view_record where
  "eg_record = loadServiceViewRecord eg_blue_db (the (getProject eg_blue_db ''p''))"

lemma eg_calm_well: "all_well eg_calm"
  by (simp add: all_well_def eg_calm_def eg_ctx_def calm_def good_inspection_def good_route_def eg_up_def)

lemma eg_eligible: "\<exists>cfg. eligible eg_calm eg_blue_db eg_record cfg"
proof -
  have a: "(case buildDeployConfig (vr_project eg_record) (vr_service eg_record) (vr_view eg_record) of Inl _ \<Rightarrow> False | Inr _ \<Rightarrow> True)"
    by code_simp
  have b: "el_supported (getBlueGreenEligibility eg_blue_db True ''p'' (Some ''/health''))" by code_simp
  have d: "(case getProject eg_blue_db ''p'' of None \<Rightarrow> False | Some p \<Rightarrow> valid_project_name (p_name p))"
    by code_simp
  have e: "(case vr_service eg_record of None \<Rightarrow> False | Some svc \<Rightarrow> getProject eg_blue_db (s_project_id svc) \<noteq> None)" by code_simp
  from a b d e show ?thesis
    by (auto simp: eligible_def eg_record_def eg_calm_def eg_ctx_def eg_options_def split: sum.splits option.splits)
qed

text \<open>After blue is chosen, the run has the same blue, and no green but the container it starts.\<close>

definition names :: "bg_ctx \<Rightarrow> blue_state \<Rightarrow> bg_state \<Rightarrow> bool" where
  "names c bl st \<longleftrightarrow> l_blue st = Some bl \<and> l_green st \<in> {None, Some (c_greenId c)}"

lemma names_set: "(\<And>st. l_blue (f st) = l_blue st) \<Longrightarrow> (\<And>st. l_green (f st) \<in> {l_green st, Some (c_greenId c)}) \<Longrightarrow>
    keeps (names c bl) (bg_set f)"
  by (rule keeps_set) (simp add: names_def, metis)

lemma names_event: "keeps (names c bl) (bg_note ev)" "keeps (names c bl) (bg_do c' x)"
  by (rule keeps_note, simp add: names_def) (rule keeps_do; simp add: names_def)

lemmas names_rules = keeps_throw keeps_return keeps_Nil keeps_Cons keeps_append keeps_if keeps_try keeps_with keeps_cases
  keeps_run_if names_event

lemma names_steps:
  "keeps (names c bl) (bg_begin c)" "keeps (names c bl) (bg_image c)" "keeps (names c bl) (bg_start_green c)"
  "keeps (names c bl) (bg_probe_green c)" "keeps (names c bl) (bg_watch_green c)" "keeps (names c bl) (bg_promote c)"
  "keeps (names c bl) (bg_verify_route c)" "keeps (names c bl) (bg_stop_blue c)" "keeps (names c bl) (bg_verify_again c)"
  "keeps (names c bl) (bg_finish c)"
  unfolding bg_begin_def bg_image_def bg_start_green_def bg_probe_green_def bg_watch_green_def bg_promote_def bg_verify_route_def
    bg_stop_blue_def bg_verify_again_def bg_finish_def transitionProjectState_def write_environment_def restoreBlueState_def Let_def
  by (intro names_rules names_set; simp)+

lemma eg_broken_run: "case blueGreenRedeployInner eg_broken (bg_init eg_blue_db [] eg_options) of
    (Inr res, st) \<Rightarrow> \<not> dr_success res \<and> dr_previous_version_still_serving res \<and> l_green st = None \<and>
      map_option bs_containerId (l_blue st) = Some ''blue''
  | _ \<Rightarrow> False"
  by code_simp

lemma eg_calm_run:
  "\<exists>res st. blueGreenRedeployInner eg_calm (bg_init eg_blue_db [] (c_options eg_calm)) = (Inr res, st) \<and> dr_success res"
proof -
  obtain cfg where "eligible eg_calm eg_blue_db eg_record cfg" using eg_eligible by blast
  then show ?thesis by (rule inner_goes [OF eg_calm_well]) (simp add: ports_free_def)
qed

lemma eg_calm_names:
  assumes "blueGreenRedeployInner eg_calm (bg_init eg_blue_db [] (c_options eg_calm)) = (Inr res, st)"
  shows "\<exists>bl. l_blue st = Some bl \<and> bs_containerId bl = ''blue'' \<and> l_green st \<noteq> Some ''blue''"
proof -
  let ?st0 = "bg_init eg_blue_db [] (c_options eg_calm)"
  have two: "case bg_run [bg_load eg_calm, bg_choose_blue eg_calm] ?st0 of (x, st) \<Rightarrow>
      x = None \<and> map_option bs_containerId (l_blue st) = Some ''blue'' \<and> l_green st = None" by code_simp
  then obtain s bl where s: "bg_run [bg_load eg_calm, bg_choose_blue eg_calm] ?st0 = (None, s)" "l_blue s = Some bl"
    "bs_containerId bl = ''blue''" "names eg_calm bl s" by (auto simp: names_def)
  have rest: "keeps (names eg_calm bl) (bg_run ([bg_begin eg_calm, bg_image eg_calm, bg_start_green eg_calm, bg_probe_green eg_calm,
      bg_watch_green eg_calm] @ bg_promotion eg_calm @ [bg_return (success_result eg_calm)]))"
    unfolding bg_promotion_def by (intro keeps_append keeps_Cons keeps_Nil keeps_return names_steps)
  obtain cfg where cfg: "eligible eg_calm eg_blue_db eg_record cfg" using eg_eligible by blast
  obtain st1 where st1: "bg_body eg_calm ?st0 = (Some (Returns (success_result eg_calm st1)), st1)"
    using body_goes [OF eg_calm_well cfg, of "[]"] by (auto simp: ports_free_def)
  have "bg_run ([bg_load eg_calm, bg_choose_blue eg_calm] @ [bg_begin eg_calm, bg_image eg_calm, bg_start_green eg_calm, bg_probe_green eg_calm,
      bg_watch_green eg_calm] @ bg_promotion eg_calm @ [bg_return (success_result eg_calm)]) ?st0 = (Some (Returns (success_result eg_calm st1)), st1)"
    using st1 by (simp add: bg_before_promotion_def del: bg_run.simps)
  with s(1) have "bg_run ([bg_begin eg_calm, bg_image eg_calm, bg_start_green eg_calm, bg_probe_green eg_calm,
      bg_watch_green eg_calm] @ bg_promotion eg_calm @ [bg_return (success_result eg_calm)]) s = (Some (Returns (success_result eg_calm st1)), st1)"
    by (subst (asm) run_append) (simp del: bg_run.simps)
  from keepsD [OF rest this s(4)] have "names eg_calm bl st1" .
  moreover have "st = bg_finally eg_calm st1" using assms st1 by (simp add: blueGreenRedeployInner_def)
  moreover obtain h where "bg_finally eg_calm st1 = st1\<lparr>l_cloned := False, bg_hist := bg_hist st1 @ h\<rparr>"
    using finally_shape [of eg_calm st1] by blast
  ultimately show ?thesis using s(3) by (auto simp: names_def eg_calm_def eg_ctx_def)
qed

section \<open>The properties on these runs\<close>

theorem undisturbed_deploy_succeeds_witness:
  "\<exists>res st. blueGreenRedeployInner eg_calm (bg_init eg_blue_db [] (c_options eg_calm)) = (Inr res, st) \<and> dr_success res \<and>
    dr_route_switched res"
proof -
  obtain cfg where "eligible eg_calm eg_blue_db eg_record cfg" using eg_eligible by blast
  from undisturbed_deploy_succeeds [OF eg_calm_well this, of "[]"] show ?thesis by (simp add: ports_free_def)
qed

theorem blue_green_cutover_safe_witness:
  "\<exists>res st. blueGreenRedeployInner eg_calm (bg_init eg_blue_db [] (c_options eg_calm)) = (Inr res, st) \<and> dr_success res \<and>
    cutover_safe ''blue'' (bg_hist st)"
proof -
  obtain res st where run: "blueGreenRedeployInner eg_calm (bg_init eg_blue_db [] (c_options eg_calm)) = (Inr res, st)" "dr_success res"
    using eg_calm_run by blast
  obtain bl where bl: "l_blue st = Some bl" "bs_containerId bl = ''blue''" "l_green st \<noteq> Some ''blue''"
    using eg_calm_names [OF run(1)] by blast
  have "cutover_safe (bs_containerId bl) (bg_hist st)" by (rule blue_green_cutover_safe [OF run(1) bl(1)]) (simp add: bl)
  with run bl(2) show ?thesis by auto
qed

theorem failed_deploy_serves_blue_witness:
  "\<exists>res st blue. blueGreenRedeployInner eg_broken (bg_init eg_blue_db [] (c_options eg_broken)) = (Inr res, st) \<and>
    \<not> dr_success res \<and> bs_containerId blue = ''blue'' \<and> serves (bg_db st) ''p'' (is_blue blue)"
proof -
  have o: "c_options eg_broken = eg_options" "c_projectId eg_broken = ''p''" by (simp_all add: eg_broken_def eg_ctx_def)
  from eg_broken_run obtain res st bl where run: "blueGreenRedeployInner eg_broken (bg_init eg_blue_db [] (c_options eg_broken)) = (Inr res, st)"
    "\<not> dr_success res" "dr_previous_version_still_serving res" "l_blue st = Some bl" "bs_containerId bl = ''blue''"
    unfolding o(1) by (auto split: prod.splits sum.splits)
  have "plain_id (c_projectId eg_broken)" unfolding o by code_simp
  from failed_deploy_serves_blue [OF this run(1-4)] run o show ?thesis by auto
qed

theorem successful_deploy_serves_green_witness:
  "\<exists>res st. blueGreenRedeployInner eg_calm (bg_init eg_blue_db [] (c_options eg_calm)) = (Inr res, st) \<and>
    serves (bg_db st) ''p'' (\<lambda>svc. s_container_id svc = Some ''green'' \<and> s_assigned_port svc = dr_port res) \<and>
    replaced ''blue'' (bg_hist st)"
proof -
  have o: "c_projectId eg_calm = ''p''" "c_greenId eg_calm = ''green''" by (simp_all add: eg_calm_def eg_ctx_def)
  obtain res st where run: "blueGreenRedeployInner eg_calm (bg_init eg_blue_db [] (c_options eg_calm)) = (Inr res, st)" "dr_success res"
    using eg_calm_run by blast
  obtain bl where bl: "l_blue st = Some bl" "bs_containerId bl = ''blue''" using eg_calm_names [OF run(1)] by blast
  have "plain_id (c_projectId eg_calm)" unfolding o by code_simp
  from successful_deploy_serves_green [OF this run] bl have
    "serves (bg_db st) ''p'' (\<lambda>svc. s_container_id svc = Some ''green'' \<and> s_assigned_port svc = dr_port res)" "replaced ''blue'' (bg_hist st)"
    by (auto simp: serves_def o)
  with run show ?thesis by blast
qed

end
