(* ===== verification/Blue_Green_Failure.thy ===== *)
theory Blue_Green_Failure
  imports Blue_Green_Liveness
begin

text \<open>
  What a failed deploy leaves behind when nothing serves. \<open>bg_settle\<close> asks the state machine for
  \<open>stopped\<close> or \<open>error\<close>, and \<open>transitionProjectState\<close> does not look at the answer: from the status the
  row has by then the move is refused, so the row keeps a status that says otherwise.
\<close>

section \<open>A status the moves of a failure cannot change\<close>

definition has_status :: "project_status \<Rightarrow> bg_ctx \<Rightarrow> bg_state \<Rightarrow> bool" where
  "has_status s c st \<longleftrightarrow> row_of p_id (c_projectId c) (projects (bg_db st)) \<noteq> None \<and>
     (\<exists>svc. getDeployableForProject (bg_db st) (c_projectId c) = Some svc \<and> s_status svc = Some s)"

lemma has_status_locals:
  "has_status s c (st\<lparr>bg_hist := h\<rparr>) = has_status s c st" "has_status s c (st\<lparr>bg_envs := t\<rparr>) = has_status s c st"
  "has_status s c (st\<lparr>l_routeTargetUpdated := b\<rparr>) = has_status s c st"
  "has_status s c (st\<lparr>l_blueServing := b\<rparr>) = has_status s c st"
  by (simp_all add: has_status_def)

lemma has_status_refused:
  assumes "plain_id (c_projectId c)" and "has_status s c st" and "t = s \<or> t \<notin> set (VALID_TRANSITIONS s)"
  shows "has_status s c (st\<lparr>bg_db := snd (snd (transition (c_projectId c) t r False now (bg_db st)))\<rparr>)"
proof -
  obtain svc where svc: "row_of p_id (c_projectId c) (projects (bg_db st)) \<noteq> None"
    "getDeployableForProject (bg_db st) (c_projectId c) = Some svc" "s_status svc = Some s"
    using assms(2) by (auto simp: has_status_def)
  have "Option.bind (getProject (bg_db st) (c_projectId c)) p_status = Some s"
    using status_of_service [OF assms(1) svc(1,2)] svc(3) by simp
  then have "snd (snd (transition (c_projectId c) t r False now (bg_db st))) = bg_db st"
    using assms(3) by (auto simp: transition_def transition_allowed_def)
  with assms(2) show ?thesis by (simp add: has_status_def)
qed

lemma has_status_write:
  assumes "plain_id (c_projectId c)" and "has_status s c st" and "u_status u = None"
  shows "has_status s c (st\<lparr>bg_db := updateProject (c_projectId c) u now (bg_db st)\<rparr>)"
  using assms updateProject_service [OF assms(1), of "bg_db st" _ u now]
  by (auto simp: has_status_def updateProject_keeps_project svcSetValues_def)

lemma keeps_status_transition:
  assumes "plain_id (c_projectId c)" and "t = s \<or> t \<notin> set (VALID_TRANSITIONS s)" and "u_status u = None"
  shows "keeps (has_status s c) (transitionProjectState c t r u)"
  unfolding transitionProjectState_def
  by (rule bg_rules has_status_refused [OF assms(1) _ assms(2)] has_status_write [OF assms(1) _ assms(3)] | assumption
      | simp add: has_status_locals)+

lemma keeps_status_environment: "keeps (has_status s c) (write_environment c eid u)"
  unfolding write_environment_def by (rule bg_rules | simp add: has_status_locals)+

lemma keeps_status_restore:
  assumes "plain_id (c_projectId c)"
  shows "keeps (has_status Running c) (restoreBlueState c eo blue)"
  unfolding restoreBlueState_def
  by (rule bg_rules keeps_status_environment keeps_status_transition [OF assms] | simp add: blue_updates_def no_updates_def)+

lemma keeps_status_recover:
  assumes "plain_id (c_projectId c)"
  shows "keeps (has_status Running c) (bg_recover c canc)"
  unfolding bg_recover_def
  by (rule bg_rules keeps_status_restore [OF assms] | simp add: has_status_locals)+

lemma keeps_status_settle:
  assumes "plain_id (c_projectId c)"
  shows "keeps (has_status Running c) (bg_settle c Failed r es)"
  unfolding bg_settle_def
  by (rule bg_rules keeps_status_restore [OF assms] keeps_status_environment keeps_status_transition [OF assms]
      | simp add: no_updates_def has_status_locals)+

text \<open>
  C25. A failure after the promotion is never recorded. Once the row says running, the handler of an
  error that is no cancellation leaves it running, whatever it finds and whatever fails in it: the
  state machine has no move from running to error, so the status stays even where neither the
  old nor the new container serves.
\<close>

theorem failure_stays_running:
  assumes "plain_id (c_projectId c)" and "has_status Running c st" and "\<not> be_cancelled e"
    and "bg_catch c e st = (r, st')"
  shows "has_status Running c (bg_finally c st')"
proof -
  have "keeps (has_status Running c) (bg_catch c e)"
    unfolding bg_catch_def if_not_P [OF assms(3)]
    by (rule bg_rules keeps_status_recover [OF assms(1)] keeps_status_settle [OF assms(1)] | simp add: has_status_locals)+
  from keepsD [OF this assms(4,2)] show ?thesis by (simp add: has_status_def serves_finally)
qed

text \<open>Blue does not run and cannot be restarted.\<close>

definition eg_down :: bg_ctx where
  "eg_down = (eg_ctx (\<lambda>_ x. if x = RestartContainer ''blue'' then Some \<lparr>be_message = ''gone'', be_cancelled = False\<rparr> else None))\<lparr>c_running := \<lambda>_. False\<rparr>"

definition eg_failing :: "project_status \<Rightarrow> bg_state" where
  "eg_failing s = (bg_init (eg_blue_db\<lparr>services := map (\<lambda>r. r\<lparr>s_status := Some s\<rparr>) (services eg_blue_db)\<rparr>) [] eg_options)
     \<lparr>l_blue := Some \<lparr>bs_containerId = ''blue'', bs_containerName = None, bs_assignedPort = Some 3000, bs_containerPort = None,
        bs_imageTag = None, bs_previousImageTag = None\<rparr>\<rparr>"

definition eg_error :: "bool \<Rightarrow> bg_error" where
  "eg_error cancelled = \<lparr>be_message = ''route lost'', be_cancelled = cancelled\<rparr>"

lemma eg_failing_status: "has_status s eg_down (eg_failing s)"
proof -
  have "row_of p_id ''p'' (projects (bg_db (eg_failing s))) \<noteq> None"
    "map_option s_status (getDeployableForProject (bg_db (eg_failing s)) ''p'') = Some (Some s)"
    by (code_simp, code_simp)
  then show ?thesis by (auto simp: has_status_def eg_down_def eg_ctx_def)
qed

lemma eg_plain: "plain_id (c_projectId eg_down)"
  by code_simp

lemma eg_down_catch: "case bg_catch eg_down (eg_error False) (eg_failing Running) of
     (Some (Returns res), st) \<Rightarrow> \<not> dr_success res \<and> \<not> dr_previous_version_still_serving res | _ \<Rightarrow> False"
  by code_simp

theorem failure_stays_running_witness:
  "\<exists>res st. bg_catch eg_down (eg_error False) (eg_failing Running) = (Some (Returns res), st) \<and>
    \<not> dr_success res \<and> \<not> dr_previous_version_still_serving res \<and> has_status Running eg_down (bg_finally eg_down st)"
proof -
  obtain res st where run: "bg_catch eg_down (eg_error False) (eg_failing Running) = (Some (Returns res), st)"
    "\<not> dr_success res" "\<not> dr_previous_version_still_serving res"
    using eg_down_catch by (auto split: prod.splits option.splits bg_abrupt.splits)
  have "has_status Running eg_down (bg_finally eg_down st)"
    by (rule failure_stays_running [OF eg_plain eg_failing_status _ run(1)]) (simp add: eg_error_def)
  with run show ?thesis by blast
qed

section \<open>A cancelled build\<close>

lemma keeps_building_recover:
  "keeps (\<lambda>st. has_status Building c st \<and> \<not> l_routeTargetUpdated st) (bg_recover c canc)"
proof -
  let ?I = "\<lambda>st. has_status Building c st \<and> \<not> l_routeTargetUpdated st"
  have restore: "keeps ?I (bg_if (\<lambda>st. l_routeTargetUpdated st \<and> \<not> l_routeSwitched st \<and> l_blue st \<noteq> None) as [])" for as
    by (simp add: keeps_def bg_if_def)
  show ?thesis unfolding bg_recover_def by (rule keeps_Cons restore | rule bg_rules | simp add: has_status_locals)+
qed

text \<open>
  A build that is cancelled while the old container is down: the row should become stopped, but there
  is no move from building to stopped, so the project stays building.
\<close>

lemma cancelled_build_stays_building:
  assumes "plain_id (c_projectId c)" and "has_status Building c st" and "\<not> l_routeTargetUpdated st" and "be_cancelled e"
    and "bg_catch c e st = (Some (Returns res), st')" and "\<not> dr_previous_version_still_serving res"
  shows "has_status Building c st'"
proof -
  obtain s1 where s1: "bg_recover c True st = (None, s1)" "has_status Building c s1"
    and rest: "bg_run [bg_settle c Stopped ''deploy-cancelled'' EStopped, bg_do c (WriteDeployLog Log_cancelled),
      bg_note (Phase ''failed''), bg_note (Emitted ''deploy:failed''), bg_return cancelled_result] s1 = (Some (Returns res), st')"
  proof -
    obtain x s1 where x: "bg_recover c True st = (x, s1)" by (cases "bg_recover c True st")
    have "has_status Building c s1" using keepsD [OF keeps_building_recover x] assms(2,3) by blast
    moreover have "x = None" using assms(4,5) x throws_only_recover(1) [of c True]
      by (cases x) (auto simp: bg_catch_def throws_only_def)
    ultimately show thesis using that assms(4,5) x by (simp add: bg_catch_def)
  qed
  let ?settle = "bg_settle c Stopped ''deploy-cancelled'' EStopped"
  have same: "keeps (\<lambda>st. l_blueServing st = v) (bg_run [?settle, bg_do c (WriteDeployLog Log_cancelled),
      bg_note (Phase ''failed''), bg_note (Emitted ''deploy:failed''), bg_return cancelled_result])" for v
    unfolding bg_settle_def restoreBlueState_def transitionProjectState_def write_environment_def by (rule bg_rules | simp)+
  have "l_blueServing st' = l_blueServing s1" using keepsD [OF same rest] by simp
  moreover have "res = cancelled_result st'" using rest throws_only_recover(2)
    by (auto simp: throws_only_def bg_return_def bg_note_def bg_do_def split: prod.splits option.splits)
  ultimately have down: "\<not> l_blueServing s1" using assms(6) by (simp add: cancelled_result_def no_result_def)
  have keep: "keeps (has_status Building c) (bg_run
     [transitionProjectState c Stopped ''deploy-cancelled'' no_updates,
      bg_if (\<lambda>st. truthy (l_environmentId st))
        [bg_do c (Read ''getEnvironment''),
         bg_if (\<lambda>st. getEnvironment (the (l_environmentId st)) (bg_envs st) \<noteq> None)
           [bg_with (\<lambda>st. write_environment c (the (l_environmentId st)) (environment_status EStopped))] []] []])"
    by (rule bg_rules keeps_status_environment keeps_status_transition [OF assms(1)]
        | simp add: no_updates_def has_status_locals)+
  have "keeps (has_status Building c) (bg_run [bg_do c (WriteDeployLog Log_cancelled),
      bg_note (Phase ''failed''), bg_note (Emitted ''deploy:failed''), bg_return cancelled_result])"
    by (rule bg_rules | simp add: has_status_locals)+
  moreover obtain x s2 where s2: "?settle s1 = (x, s2)" by (cases "?settle s1")
  moreover have "has_status Building c s2"
  proof (rule keepsD [OF keep _ s1(2)])
    have n: "\<not> (l_blueServing s1 \<and> l_blue s1 \<noteq> None)" using down by simp
    show "bg_run [transitionProjectState c Stopped ''deploy-cancelled'' no_updates,
      bg_if (\<lambda>st. truthy (l_environmentId st))
        [bg_do c (Read ''getEnvironment''),
         bg_if (\<lambda>st. getEnvironment (the (l_environmentId st)) (bg_envs st) \<noteq> None)
           [bg_with (\<lambda>st. write_environment c (the (l_environmentId st)) (environment_status EStopped))] []] []] s1 = (x, s2)"
      using s2 unfolding bg_settle_def bg_if_def [of "\<lambda>st. l_blueServing st \<and> l_blue st \<noteq> None"] if_not_P [OF n] .
  qed
  ultimately show ?thesis using rest by (cases x) (auto dest: keepsD simp del: bg_run.simps(2) simp: bg_run.simps(2) [of ?settle])
qed

end
