(* ===== verification/Decimal.thy ===== *)
theory Decimal
  imports Prelude
begin

text \<open>
  Decimal numbers in texts: what \<open>Number\<close> makes of the digits that \<open>String\<close> writes, and the digits
  without a leading zero, \<open>/^(0|[1-9]\d*)$/\<close>, that versions and addresses are made of.
\<close>

definition all_digits :: "string \<Rightarrow> bool" where
  "all_digits s \<longleftrightarrow> s \<noteq> [] \<and> list_all is_digit s"

definition canonical_number :: "string \<Rightarrow> bool" where
  "canonical_number s \<longleftrightarrow> all_digits s \<and> (s = ''0'' \<or> hd s \<noteq> CHR ''0'')"

text \<open>The parts around the first \<open>c\<close>.\<close>

definition cut :: "char \<Rightarrow> string \<Rightarrow> string \<times> string option" where
  "cut c s = (let front = takeWhile (\<lambda>x. x \<noteq> c) s; rest = dropWhile (\<lambda>x. x \<noteq> c) s
              in (front, if rest = [] then None else Some (tl rest)))"

section \<open>Lemmas\<close>

lemma digit_char:
  assumes "d < 10"
  shows "is_digit (''0123456789'' ! d) \<and> of_char (''0123456789'' ! d) = (48 + d :: nat) \<and> (''0123456789'' ! d = CHR ''0'' \<longleftrightarrow> d = 0)"
proof -
  have "d \<in> {0, 1, 2, 3, 4, 5, 6, 7, 8, 9}" using assms by auto
  then show ?thesis by (auto simp: is_digit_def)
qed

lemma read_nat_snoc: "read_nat (s @ [c]) = 10 * read_nat s + (of_char c - 48)"
  by (simp add: read_nat_def)

lemma read_show_nat [simp]: "read_nat (show_nat n) = n"
proof (induction n rule: show_nat.induct)
  case (1 n)
  show ?case
  proof (cases "n < 10")
    case True
    then show ?thesis by (subst show_nat.simps) (simp add: read_nat_def digit_char)
  next
    case False
    have "n mod 10 < 10" by simp
    with False 1 show ?thesis by (subst show_nat.simps) (simp add: read_nat_snoc digit_char)
  qed
qed

lemma show_nat_digits: "canonical_number (show_nat n) \<and> (show_nat n = ''0'' \<longleftrightarrow> n = 0)"
proof (induction n rule: show_nat.induct)
  case (1 n)
  show ?case
  proof (cases "n < 10")
    case True
    have "''0123456789'' ! n = CHR ''0'' \<longleftrightarrow> n = 0" using digit_char [OF True] by blast
    with True digit_char [OF True] show ?thesis
      by (subst (1 2) show_nat.simps) (auto simp: canonical_number_def all_digits_def)
  next
    case False
    then have IH: "canonical_number (show_nat (n div 10))" "show_nat (n div 10) \<noteq> ''0''" using 1 by auto
    have d: "is_digit (''0123456789'' ! (n mod 10))" using digit_char [of "n mod 10"] by simp
    have "show_nat n = show_nat (n div 10) @ [''0123456789'' ! (n mod 10)]" using False by (subst show_nat.simps) simp
    with IH d False show ?thesis by (auto simp: canonical_number_def all_digits_def)
  qed
qed

lemma show_nat_canonical [simp]: "canonical_number (show_nat n)" "all_digits (show_nat n)" "show_nat n \<noteq> []"
  using show_nat_digits [of n] by (auto simp: canonical_number_def all_digits_def)

lemma show_nat_no_char: "\<not> is_digit c \<Longrightarrow> c \<notin> set (show_nat n)"
  using show_nat_canonical(2) [of n] by (auto simp: all_digits_def list_all_iff)

lemma cut_append: "c \<notin> set s \<Longrightarrow> cut c (s @ c # t) = (s, Some t)"
  by (simp add: cut_def takeWhile_append2 dropWhile_append2 split: if_splits) (auto simp: takeWhile_tail takeWhile_append dropWhile_append)

lemma cut_none: "c \<notin> set s \<Longrightarrow> cut c s = (s, None)"
  by (auto simp: cut_def takeWhile_eq_all_conv dropWhile_eq_Nil_conv)

lemma js_trim_plain: "(\<And>c. c \<in> set s \<Longrightarrow> \<not> is_space c) \<Longrightarrow> js_trim s = s"
proof -
  assume plain: "\<And>c. c \<in> set s \<Longrightarrow> \<not> is_space c"
  have drop: "dropWhile is_space t = t" if "\<And>c. c \<in> set t \<Longrightarrow> \<not> is_space c" for t
    using that by (cases t) auto
  show ?thesis using drop [of s] drop [of "rev s"] plain by (simp add: js_trim_def)
qed

lemma js_split_join:
  assumes "ws \<noteq> []" and "\<And>w. w \<in> set ws \<Longrightarrow> c \<notin> set w"
  shows "js_split c (js_join [c] ws) = ws"
proof -
  have one: "c \<notin> set w \<Longrightarrow> js_split c w = [w]" for w by (induction w) auto
  have more: "c \<notin> set w \<Longrightarrow> js_split c (w @ c # s) = w # js_split c s" for w s by (induction w) auto
  show ?thesis using assms
  proof (induction ws rule: list_nonempty_induct)
    case (cons w ws)
    then show ?case by (cases ws) (simp_all add: more)
  qed (simp add: one)
qed

end
