(* ===== verification/Semver.thy ===== *)
theory Semver
  imports Decimal "HOL-Library.List_Lexorder" "HOL-Library.Char_ord" "HOL-Library.Product_Lexorder"
begin

text \<open>
  Versions of the platform (\<open>src/src/update/semver.ts\<close>): parsing, precedence and the release channels.
  The pattern of the source is read from left to right: a version has no \<open>+\<close> before its build part
  and no \<open>-\<close> before its prerelease part. Numbers are below \<open>2 ^ 53\<close>, where \<open>Number\<close> is exact.

  The precedence is shown to be a linear order: \<open>prerelease_id\<close> is an instance of \<open>linorder\<close>
  (numbers before words), and \<open>compareSemVer\<close> compares the keys that the order is made of.
\<close>

section \<open>Parsing\<close>

datatype prerelease_id = Numeric nat | Word string

record semver =
  sv_raw :: string
  sv_major :: nat
  sv_minor :: nat
  sv_patch :: nat
  sv_prerelease :: "prerelease_id list"

definition ident_char :: "char \<Rightarrow> bool" where
  "ident_char c \<longleftrightarrow> is_digit c \<or> is_upper c \<or> is_lower c \<or> c = CHR ''-''"

text \<open>\<open>[0-9A-Za-z-]+(?:\.[0-9A-Za-z-]+)*\<close>.\<close>

definition dotted_idents :: "string \<Rightarrow> bool" where
  "dotted_idents s \<longleftrightarrow> list_all (\<lambda>p. p \<noteq> [] \<and> list_all ident_char p) (js_split CHR ''.'' s)"

definition prerelease_part :: "string \<Rightarrow> prerelease_id" where
  "prerelease_part part = (if canonical_number part then Numeric (read_nat part) else Word part)"

definition parseSemVer :: "string \<Rightarrow> semver option" where
  "parseSemVer value =
     (let trimmed = js_trim value;
          body = (if starts_with ''v'' trimmed then tl trimmed else trimmed);
          (version, build) = cut CHR ''+'' body;
          (core, prerelease) = cut CHR ''-'' version;
          prereleaseParts = (case prerelease of None \<Rightarrow> [] | Some p \<Rightarrow> js_split CHR ''.'' p)
      in case js_split CHR ''.'' core of
           [major, minor, patch] \<Rightarrow>
             if canonical_number major \<and> canonical_number minor \<and> canonical_number patch \<and>
                (case prerelease of None \<Rightarrow> True | Some p \<Rightarrow> dotted_idents p) \<and>
                (case build of None \<Rightarrow> True | Some b \<Rightarrow> dotted_idents b)
             then if list_ex (\<lambda>part. all_digits part \<and> \<not> canonical_number part) prereleaseParts then None
                  else Some \<lparr>sv_raw = body, sv_major = read_nat major, sv_minor = read_nat minor, sv_patch = read_nat patch,
                         sv_prerelease = map prerelease_part prereleaseParts\<rparr>
             else None
         | _ \<Rightarrow> None)"

section \<open>Precedence\<close>

fun compare_parts :: "prerelease_id list \<Rightarrow> prerelease_id list \<Rightarrow> int" where
  "compare_parts [] [] = 0"
| "compare_parts [] (r # rs) = -1"
| "compare_parts (l # ls) [] = 1"
| "compare_parts (l # ls) (r # rs) =
     (if l = r then compare_parts ls rs
      else (case (l, r) of
              (Numeric a, Numeric b) \<Rightarrow> if a > b then 1 else -1
            | (Numeric a, Word b) \<Rightarrow> -1
            | (Word a, Numeric b) \<Rightarrow> 1
            | (Word a, Word b) \<Rightarrow> if a > b then 1 else -1))"

definition compareSemVer :: "semver \<Rightarrow> semver \<Rightarrow> int" where
  "compareSemVer left right =
     (if sv_major left \<noteq> sv_major right then (if sv_major left > sv_major right then 1 else -1)
      else if sv_minor left \<noteq> sv_minor right then (if sv_minor left > sv_minor right then 1 else -1)
      else if sv_patch left \<noteq> sv_patch right then (if sv_patch left > sv_patch right then 1 else -1)
      else if sv_prerelease left = [] \<and> sv_prerelease right = [] then 0
      else if sv_prerelease left = [] then 1
      else if sv_prerelease right = [] then -1
      else compare_parts (sv_prerelease left) (sv_prerelease right))"

definition isVersionAtLeast :: "string \<Rightarrow> string \<Rightarrow> bool" where
  "isVersionAtLeast version minimumVersion =
     (case (parseSemVer version, parseSemVer minimumVersion) of
        (Some v, Some m) \<Rightarrow> compareSemVer v m \<ge> 0 | _ \<Rightarrow> False)"

section \<open>Channels\<close>

datatype release_channel = Stable_channel | Rc_channel | Development_channel

definition is_rc :: "semver \<Rightarrow> bool" where
  "is_rc v \<longleftrightarrow> (case sv_prerelease v of p # _ \<Rightarrow> p = Word ''rc'' | [] \<Rightarrow> False)"

definition inferReleaseChannel :: "string \<Rightarrow> release_channel" where
  "inferReleaseChannel version =
     (case parseSemVer version of
        None \<Rightarrow> Development_channel
      | Some v \<Rightarrow> if sv_prerelease v = [] then Stable_channel else if is_rc v then Rc_channel else Development_channel)"

definition isReleaseAllowedForChannel :: "string \<Rightarrow> release_channel \<Rightarrow> bool" where
  "isReleaseAllowedForChannel version channel =
     (case parseSemVer version of
        None \<Rightarrow> False
      | Some v \<Rightarrow>
          if channel = Development_channel then False
          else if channel = Stable_channel then sv_prerelease v = []
          else if sv_prerelease v = [] then True else is_rc v)"

section \<open>The order of precedence\<close>

text \<open>Numbers come before words; numbers are ordered by value, words as texts.\<close>

instantiation prerelease_id :: linorder
begin

fun less_eq_prerelease_id :: "prerelease_id \<Rightarrow> prerelease_id \<Rightarrow> bool" where
  "less_eq_prerelease_id (Numeric a) (Numeric b) \<longleftrightarrow> a \<le> b"
| "less_eq_prerelease_id (Numeric a) (Word b) \<longleftrightarrow> True"
| "less_eq_prerelease_id (Word a) (Numeric b) \<longleftrightarrow> False"
| "less_eq_prerelease_id (Word a) (Word b) \<longleftrightarrow> a \<le> b"

definition less_prerelease_id :: "prerelease_id \<Rightarrow> prerelease_id \<Rightarrow> bool" where
  "less_prerelease_id x y \<longleftrightarrow> x \<le> y \<and> \<not> y \<le> x"

instance
proof
  fix x y z :: prerelease_id
  show "x < y \<longleftrightarrow> x \<le> y \<and> \<not> y \<le> x" by (rule less_prerelease_id_def)
  show "x \<le> x" by (cases x) auto
  show "x \<le> y \<Longrightarrow> y \<le> z \<Longrightarrow> x \<le> z" by (cases x; cases y; cases z) auto
  show "x \<le> y \<Longrightarrow> y \<le> x \<Longrightarrow> x = y" by (cases x; cases y) auto
  show "x \<le> y \<or> y \<le> x" by (cases x; cases y) auto
qed

end

lemma less_prerelease_simps [simp]:
  "Numeric a < Numeric b \<longleftrightarrow> a < b" "Numeric a < Word t" "\<not> Word s < Numeric b" "Word s < Word t \<longleftrightarrow> s < t"
  by (auto simp: less_prerelease_id_def not_le)

text \<open>A release comes after its prereleases.\<close>

definition precedence :: "semver \<Rightarrow> nat \<times> nat \<times> nat \<times> bool \<times> prerelease_id list" where
  "precedence v = (sv_major v, sv_minor v, sv_patch v, sv_prerelease v = [], sv_prerelease v)"

definition three_way :: "'a::linorder \<Rightarrow> 'a \<Rightarrow> int" where
  "three_way x y = (if x < y then -1 else if y < x then 1 else 0)"

lemma compare_parts_order: "compare_parts ls rs = three_way ls rs"
proof (induction ls rs rule: compare_parts.induct)
  case (4 l ls r rs)
  show ?case
  proof (cases "l = r")
    case True
    with 4 show ?thesis by (simp add: three_way_def)
  next
    case False
    then show ?thesis
      by (cases l; cases r) (auto simp: three_way_def not_less)
  qed
qed (simp_all add: three_way_def)

section \<open>Writing a version\<close>

definition show_id :: "prerelease_id \<Rightarrow> string" where
  "show_id p = (case p of Numeric n \<Rightarrow> show_nat n | Word s \<Rightarrow> s)"

definition format_semver :: "semver \<Rightarrow> string" where
  "format_semver v = js_join ''.'' [show_nat (sv_major v), show_nat (sv_minor v), show_nat (sv_patch v)] @
     (if sv_prerelease v = [] then [] else ''-'' @ js_join ''.'' (map show_id (sv_prerelease v)))"

definition id_ok :: "prerelease_id \<Rightarrow> bool" where
  "id_ok p \<longleftrightarrow> (case p of Numeric n \<Rightarrow> True | Word s \<Rightarrow> s \<noteq> [] \<and> list_all ident_char s \<and> \<not> all_digits s)"

definition semver_ok :: "semver \<Rightarrow> bool" where
  "semver_ok v \<longleftrightarrow> list_all id_ok (sv_prerelease v)"

lemma digit_ident: "is_digit c \<Longrightarrow> ident_char c"
  by (simp add: ident_char_def)

lemma ident_chars: "ident_char c \<Longrightarrow> c \<noteq> CHR ''.'' \<and> c \<noteq> CHR ''+'' \<and> \<not> is_space c"
  by (auto simp: ident_char_def is_digit_def is_upper_def is_lower_def is_space_def)

lemma digit_chars: "is_digit c \<Longrightarrow> c \<noteq> CHR ''-'' \<and> c \<noteq> CHR ''v''"
  by (auto simp: is_digit_def)

lemma show_nat_chars: "c \<in> set (show_nat n) \<Longrightarrow> is_digit c"
  using show_nat_canonical(2) [of n] by (auto simp: all_digits_def list_all_iff)

lemma show_id_ok:
  assumes "id_ok p"
  shows "show_id p \<noteq> []" "list_all ident_char (show_id p)" "prerelease_part (show_id p) = p"
    "\<not> (all_digits (show_id p) \<and> \<not> canonical_number (show_id p))"
proof -
  have "show_id p \<noteq> [] \<and> list_all ident_char (show_id p) \<and> prerelease_part (show_id p) = p \<and>
    \<not> (all_digits (show_id p) \<and> \<not> canonical_number (show_id p))"
  proof (cases p)
    case (Numeric n)
    then show ?thesis by (auto simp: show_id_def prerelease_part_def list_all_iff dest: show_nat_chars digit_ident)
  next
    case (Word w)
    with assms show ?thesis by (auto simp: id_ok_def show_id_def prerelease_part_def canonical_number_def)
  qed
  then show "show_id p \<noteq> []" "list_all ident_char (show_id p)" "prerelease_part (show_id p) = p"
    "\<not> (all_digits (show_id p) \<and> \<not> canonical_number (show_id p))" by blast+
qed

lemma prerelease_part_ok:
  assumes "w \<noteq> []" and "list_all ident_char w" and "\<not> (all_digits w \<and> \<not> canonical_number w)"
  shows "id_ok (prerelease_part w)"
  using assms by (auto simp: id_ok_def prerelease_part_def)

lemma join_chars: "c \<in> set (js_join sep ws) \<Longrightarrow> c \<in> set sep \<or> (\<exists>w \<in> set ws. c \<in> set w)"
  by (induction sep ws rule: js_join.induct) auto

lemma parse_format:
  assumes "semver_ok v"
  shows "parseSemVer (format_semver v) = Some (v\<lparr>sv_raw := format_semver v\<rparr>)"
proof -
  let ?core = "js_join ''.'' [show_nat (sv_major v), show_nat (sv_minor v), show_nat (sv_patch v)]"
  let ?pre = "js_join ''.'' (map show_id (sv_prerelease v))"
  have ids: "\<And>p. p \<in> set (sv_prerelease v) \<Longrightarrow> id_ok p" using assms by (simp add: semver_ok_def list_all_iff)
  have core_chars: "is_digit c \<or> c = CHR ''.''" if "c \<in> set ?core" for c
    using join_chars [OF that] by (auto dest: show_nat_chars)
  have pre_chars: "ident_char c \<or> c = CHR ''.''" if "c \<in> set ?pre" for c
    using join_chars [OF that] show_id_ok(2) ids by (auto simp: list_all_iff)
  have chars: "ident_char c \<or> c = CHR ''.''" if "c \<in> set (format_semver v)" for c
  proof -
    have "ident_char CHR ''-''" by (simp add: ident_char_def)
    with that core_chars [of c] pre_chars [of c] show ?thesis
      unfolding format_semver_def by (auto simp del: js_join.simps dest: digit_ident split: if_splits)
  qed
  have trim: "js_trim (format_semver v) = format_semver v"
    by (rule js_trim_plain) (use chars ident_chars in \<open>auto simp: is_space_def\<close>)
  have head: "\<not> starts_with ''v'' (format_semver v)"
  proof
    assume "starts_with ''v'' (format_semver v)"
    then obtain t where t: "format_semver v = CHR ''v'' # t" by (auto simp: starts_with_iff)
    obtain d ds where d: "show_nat (sv_major v) = d # ds" by (cases "show_nat (sv_major v)") auto
    with t have "d = CHR ''v''" by (simp add: format_semver_def)
    with d show_nat_chars [of d "sv_major v"] show False by (simp add: is_digit_def)
  qed
  have plus: "cut CHR ''+'' (format_semver v) = (format_semver v, None)"
    by (rule cut_none) (use chars ident_chars in auto)
  have minus: "cut CHR ''-'' (format_semver v) = (?core, if sv_prerelease v = [] then None else Some ?pre)"
  proof -
    have "CHR ''-'' \<notin> set ?core" using core_chars digit_chars by fastforce
    from cut_none [OF this] cut_append [OF this] show ?thesis by (simp add: format_semver_def del: js_join.simps)
  qed
  have core: "js_split CHR ''.'' ?core = [show_nat (sv_major v), show_nat (sv_minor v), show_nat (sv_patch v)]"
    by (rule js_split_join) (auto dest: show_nat_chars simp: is_digit_def)
  have pre: "js_split CHR ''.'' ?pre = map show_id (sv_prerelease v)" if "sv_prerelease v \<noteq> []"
    by (rule js_split_join) (use that show_id_ok(2) ids ident_chars in \<open>fastforce simp: list_all_iff\<close>)+
  have dotted: "dotted_idents ?pre" if "sv_prerelease v \<noteq> []"
    using pre [OF that] show_id_ok(1,2) ids by (auto simp: dotted_idents_def list_all_iff)
  have parts: "map prerelease_part (map show_id (sv_prerelease v)) = sv_prerelease v"
    using show_id_ok(3) ids by (simp add: map_idI)
  have no_zero: "\<not> list_ex (\<lambda>part. all_digits part \<and> \<not> canonical_number part) (map show_id (sv_prerelease v))"
    using show_id_ok(4) ids by (auto simp: list_ex_iff)
  show ?thesis
  proof (cases "sv_prerelease v = []")
    case True
    with trim head plus minus core show ?thesis by (simp add: parseSemVer_def Let_def)
  next
    case False
    with trim head plus minus core pre dotted parts no_zero show ?thesis by (simp add: parseSemVer_def Let_def del: list.map_comp)
  qed
qed

lemma three_parts:
  assumes "(case ws of [a, b, c] \<Rightarrow> f a b c | _ \<Rightarrow> None) = Some v"
  obtains a b c where "f a b c = Some v"
  using assms by (auto split: list.splits)

lemma parse_ok:
  assumes "parseSemVer s = Some v"
  shows "semver_ok v"
proof -
  define body where "body = (if starts_with ''v'' (js_trim s) then tl (js_trim s) else js_trim s)"
  obtain version build where c1: "cut CHR ''+'' body = (version, build)" by (cases "cut CHR ''+'' body")
  obtain core pre where c2: "cut CHR ''-'' version = (core, pre)" by (cases "cut CHR ''-'' version")
  let ?parts = "case pre of None \<Rightarrow> [] | Some p \<Rightarrow> js_split CHR ''.'' p"
  obtain a b c where *: "(if canonical_number a \<and> canonical_number b \<and> canonical_number c \<and>
        (case pre of None \<Rightarrow> True | Some p \<Rightarrow> dotted_idents p) \<and> (case build of None \<Rightarrow> True | Some b \<Rightarrow> dotted_idents b)
      then if list_ex (\<lambda>part. all_digits part \<and> \<not> canonical_number part) ?parts then None
           else Some \<lparr>sv_raw = body, sv_major = read_nat a, sv_minor = read_nat b, sv_patch = read_nat c, sv_prerelease = map prerelease_part ?parts\<rparr>
      else None) = Some v"
    by (rule three_parts [OF assms [unfolded parseSemVer_def Let_def body_def [symmetric] c1 prod.case c2]])
  have pre: "case pre of None \<Rightarrow> True | Some p \<Rightarrow> dotted_idents p"
    using * by (meson option.distinct(1))
  have zero: "\<not> list_ex (\<lambda>part. all_digits part \<and> \<not> canonical_number part) ?parts"
    using * by (meson option.distinct(1))
  have v: "sv_prerelease v = map prerelease_part ?parts"
    using * by (auto simp only: split: if_split_asm) (auto simp only: option.inject semver.select_convs option.distinct)
  have "id_ok (prerelease_part part)" if "part \<in> set ?parts" for part
    using that pre zero by (intro prerelease_part_ok) (auto simp: dotted_idents_def list_all_iff list_ex_iff split: option.splits)
  then show ?thesis unfolding semver_ok_def v by (simp add: list_all_iff)
qed

section \<open>Properties\<close>

lemma three_way_pair:
  "three_way (a, b) (c, d) = (if a \<noteq> c then (if a > c then 1 else -1) else three_way b d)"
  by (auto simp: three_way_def less_prod_def')

lemma three_way_release:
  "three_way (ls = [], ls) (rs = [], rs) =
     (if ls = [] \<and> rs = [] then 0 else if ls = [] then 1 else if rs = [] then -1 else three_way ls rs)"
  unfolding three_way_pair by (auto simp: three_way_def)

text \<open>
  C33. The comparison of versions is the order of precedence: \<open>compareSemVer\<close> answers with the sign of the comparison of
  major, minor and patch, then a release after its prereleases, then the prerelease identifiers, in
  the linear order of these. So it is total, transitive and antisymmetric on what it looks at.
\<close>

theorem compareSemVer_is_precedence:
  "compareSemVer left right = three_way (precedence left) (precedence right)"
  unfolding compareSemVer_def precedence_def compare_parts_order
  by (simp only: three_way_pair [of "_ :: nat"] three_way_release split: if_split)

text \<open>
  C39. A parsed version can be written and read again. Whatever text \<open>parseSemVer\<close> accepts, with or without the
  \<open>v\<close>, white space and a build part, its identifiers are well formed, and the text that
  \<open>format_semver\<close> makes of it is read as the same version; so are all versions of well-formed identifiers.
\<close>

theorem semver_roundtrip:
  assumes "parseSemVer s = Some v"
  shows "semver_ok v \<and> parseSemVer (format_semver v) = Some (v\<lparr>sv_raw := format_semver v\<rparr>)"
  using parse_ok [OF assms] parse_format by blast

theorem semver_roundtrip_witness:
  "(case parseSemVer '' v1.20.3-rc.7+build.5 '' of None \<Rightarrow> False
    | Some v \<Rightarrow> format_semver v = ''1.20.3-rc.7'' \<and> parseSemVer ''1.20.3-rc.7'' = Some (v\<lparr>sv_raw := ''1.20.3-rc.7''\<rparr>))"
proof -
  let ?v = "\<lparr>sv_raw = ''1.20.3-rc.7+build.5'', sv_major = 1, sv_minor = 20, sv_patch = 3, sv_prerelease = [Word ''rc'', Numeric 7]\<rparr>"
  have p: "parseSemVer '' v1.20.3-rc.7+build.5 '' = Some ?v" by code_simp
  have f: "format_semver ?v = ''1.20.3-rc.7''" by code_simp
  from semver_roundtrip [OF p] show ?thesis unfolding p option.case f by simp
qed

end
