(* ===== verification/Steps.thy ===== *)
theory Steps
  imports Prelude
begin

text \<open>
  Steps of an asynchronous function over a state: a step ends normally or with an error, and the state is what it is at that
  point. A list of steps runs until one fails; \<open>attempt\<close> is \<open>try\<close> with a handler. \<open>outcome P a Q E\<close> says what holds
  after a step that starts in \<open>P\<close>: \<open>Q\<close> when it ends, \<open>E\<close> with the error when it throws.
\<close>

type_synonym ('s, 'e) step = "'s \<Rightarrow> 'e option \<times> 's"

fun steps :: "('s, 'e) step list \<Rightarrow> ('s, 'e) step" where
  "steps [] st = (None, st)"
| "steps (a # as) st = (case a st of (None, st') \<Rightarrow> steps as st' | (Some e, st') \<Rightarrow> (Some e, st'))"

definition attempt :: "('s, 'e) step \<Rightarrow> ('e \<Rightarrow> ('s, 'e) step) \<Rightarrow> ('s, 'e) step" where
  "attempt a handler st = (case a st of (None, st') \<Rightarrow> (None, st') | (Some e, st') \<Rightarrow> handler e st')"

definition reading :: "('s \<Rightarrow> ('s, 'e) step) \<Rightarrow> ('s, 'e) step" where
  "reading f st = f st st"

definition assign :: "('s \<Rightarrow> 's) \<Rightarrow> ('s, 'e) step" where
  "assign f st = (None, f st)"

definition throws :: "'e \<Rightarrow> ('s, 'e) step" where
  "throws e st = (Some e, st)"

definition outcome :: "('s \<Rightarrow> bool) \<Rightarrow> ('s, 'e) step \<Rightarrow> ('s \<Rightarrow> bool) \<Rightarrow> ('e \<Rightarrow> 's \<Rightarrow> bool) \<Rightarrow> bool" where
  "outcome P a Q E \<longleftrightarrow> (\<forall>st. P st \<longrightarrow> (case a st of (None, st') \<Rightarrow> Q st' | (Some e, st') \<Rightarrow> E e st'))"

named_theorems outcome_rules

lemma outcomeI: "(\<And>st st'. P st \<Longrightarrow> a st = (None, st') \<Longrightarrow> Q st') \<Longrightarrow> (\<And>st e st'. P st \<Longrightarrow> a st = (Some e, st') \<Longrightarrow> E e st') \<Longrightarrow> outcome P a Q E"
  unfolding outcome_def by (auto split: prod.splits option.splits)

lemma outcome_done: "outcome P a Q E \<Longrightarrow> P st \<Longrightarrow> a st = (None, st') \<Longrightarrow> Q st'"
  unfolding outcome_def by fastforce

lemma outcome_failed: "outcome P a Q E \<Longrightarrow> P st \<Longrightarrow> a st = (Some e, st') \<Longrightarrow> E e st'"
  unfolding outcome_def by fastforce

lemma outcome_Nil: "(\<And>st. P st \<Longrightarrow> Q st) \<Longrightarrow> outcome P (steps []) Q E"
  by (rule outcomeI) auto

lemma outcome_Cons:
  assumes "outcome P a R E" and "outcome R (steps as) Q E"
  shows "outcome P (steps (a # as)) Q E"
  unfolding outcome_def
proof (intro allI impI)
  fix st assume "P st"
  show "case steps (a # as) st of (None, st') \<Rightarrow> Q st' | (Some e, st') \<Rightarrow> E e st'"
  proof (cases "a st")
    case (Pair r st1)
    show ?thesis
    proof (cases r)
      case None
      with Pair outcome_done [OF assms(1) \<open>P st\<close>] have "R st1" by simp
      with assms(2) None Pair show ?thesis unfolding outcome_def by simp
    next
      case (Some e)
      with Pair outcome_failed [OF assms(1) \<open>P st\<close>] show ?thesis by simp
    qed
  qed
qed

lemma outcome_attempt:
  assumes "outcome P a Q R" and "\<And>e. outcome (R e) (handler e) Q E"
  shows "outcome P (attempt a handler) Q E"
proof (rule outcomeI)
  fix st st' assume "P st" "attempt a handler st = (None, st')"
  then show "Q st'"
    using outcome_done [OF assms(1) \<open>P st\<close>] outcome_failed [OF assms(1) \<open>P st\<close>] outcome_done [OF assms(2)]
    by (fastforce simp: attempt_def split: prod.splits option.splits)
next
  fix st e st' assume "P st" "attempt a handler st = (Some e, st')"
  then show "E e st'"
    using outcome_failed [OF assms(1) \<open>P st\<close>] outcome_failed [OF assms(2)]
    by (fastforce simp: attempt_def split: prod.splits option.splits)
qed

lemma outcome_reading: "(\<And>s. P s \<Longrightarrow> outcome (\<lambda>st. P st \<and> st = s) (f s) Q E) \<Longrightarrow> outcome P (reading f) Q E"
  unfolding outcome_def reading_def by auto

lemma outcome_reading': "(\<And>s. outcome P (f s) Q E) \<Longrightarrow> outcome P (reading f) Q E"
  unfolding outcome_def reading_def by auto

lemma outcome_assign: "(\<And>st. P st \<Longrightarrow> Q (f st)) \<Longrightarrow> outcome P (assign f) Q E"
  by (auto simp: outcome_def assign_def)

lemma outcome_throws: "(\<And>st. P st \<Longrightarrow> E e st) \<Longrightarrow> outcome P (throws e) Q E"
  by (auto simp: outcome_def throws_def)

lemma outcome_weaken:
  "outcome P a Q E \<Longrightarrow> (\<And>st. P' st \<Longrightarrow> P st) \<Longrightarrow> (\<And>st. Q st \<Longrightarrow> Q' st) \<Longrightarrow> (\<And>e st. E e st \<Longrightarrow> E' e st) \<Longrightarrow> outcome P' a Q' E'"
  unfolding outcome_def by (fastforce split: prod.splits option.splits)

lemma outcome_conj:
  "outcome P a Q E \<Longrightarrow> outcome P' a Q' E' \<Longrightarrow> outcome (\<lambda>st. P st \<and> P' st) a (\<lambda>st. Q st \<and> Q' st) (\<lambda>e st. E e st \<and> E' e st)"
  unfolding outcome_def by (fastforce split: prod.splits option.splits)

text \<open>A step preserves \<open>I\<close> however it ends.\<close>

definition preserves :: "('s \<Rightarrow> bool) \<Rightarrow> ('s, 'e) step \<Rightarrow> bool" where
  "preserves I a \<longleftrightarrow> (\<forall>st. I st \<longrightarrow> I (snd (a st)))"

named_theorems preserves_rules

lemma preserves_outcome: "preserves I a \<Longrightarrow> outcome I a I (\<lambda>_. I)"
  unfolding preserves_def by (rule outcomeI) (metis snd_conv)+

lemma outcome_preserves: "outcome I a I (\<lambda>_. I) \<Longrightarrow> preserves I a"
  unfolding preserves_def outcome_def by (fastforce split: prod.splits option.splits)

lemma preserves_steps [preserves_rules]: "list_all (preserves I) as \<Longrightarrow> preserves I (steps as)"
proof (induction as)
  case (Cons a as)
  then have "outcome I (steps (a # as)) I (\<lambda>_. I)"
    by (intro outcome_Cons [of I a I]) (auto intro: preserves_outcome)
  then show ?case by (rule outcome_preserves)
qed (simp add: preserves_def)

lemma preserves_attempt [preserves_rules]: "preserves I a \<Longrightarrow> (\<And>e. preserves I (h e)) \<Longrightarrow> preserves I (attempt a h)"
  unfolding preserves_def attempt_def by (fastforce split: prod.splits option.splits)

lemma preserves_reading [preserves_rules]: "(\<And>s. preserves I (f s)) \<Longrightarrow> preserves I (reading f)"
  unfolding preserves_def reading_def by simp

lemma preserves_assign: "(\<And>st. I st \<Longrightarrow> I (f st)) \<Longrightarrow> preserves I (assign f)"
  unfolding preserves_def assign_def by simp

lemma preserves_throws [preserves_rules]: "preserves I (throws e)"
  unfolding preserves_def throws_def by simp

end
