(* ===== verification/Update_Env.thy ===== *)
theory Update_Env
  imports Prelude
begin

text \<open>
  The \<open>.env\<close> file that a platform update rewrites (\<open>src/src/update/runner.ts\<close>): one entry is replaced or added,
  everything else is kept, with the line ends the file has. The text is shown to implement
  a list of lines: \<open>set_entry\<close> on the lines of the file is what \<open>updateComposeEnvironmentEntry\<close> does to its text.
\<close>

section \<open>The code\<close>

definition env_safe_char :: "char \<Rightarrow> bool" where
  "env_safe_char c \<longleftrightarrow> is_upper c \<or> is_lower c \<or> is_digit c \<or> c \<in> set ''_./:@%+=,-''"

definition LF :: char where "LF = CHR 0x0A"
definition CR :: char where "CR = CHR 0x0D"

definition formatComposeEnvironmentValue :: "string \<Rightarrow> string + string" where
  "formatComposeEnvironmentValue value =
     (if value = [] then Inr [CHR 0x22, CHR 0x22]
      else if list_all env_safe_char value then Inr value
      else Inl ''A Compose environment value cannot be persisted safely for the platform update.'')"

text \<open>\<open>s.split(/\r?\n/)\<close>.\<close>

definition strip_cr :: "string \<Rightarrow> string" where
  "strip_cr l = (if l \<noteq> [] \<and> last l = CR then butlast l else l)"

definition split_lines :: "string \<Rightarrow> string list" where
  "split_lines s = (let ps = js_split LF s in map strip_cr (butlast ps) @ [last ps])"

definition updateComposeEnvironmentEntry :: "string \<Rightarrow> string \<Rightarrow> string \<Rightarrow> bool \<Rightarrow> string + string" where
  "updateComposeEnvironmentEntry content key value replaceExisting =
     (let lineEnding = (if js_includes [CR, LF] content then [CR, LF] else [LF])
      in rbind (formatComposeEnvironmentValue value) (\<lambda>formattedValue.
        let entry = key @ ''='' @ formattedValue
        in if content = [] then Inr (entry @ lineEnding)
           else (let endedWithNewline = (last content = LF);
                     lines = split_lines content;
                     matchingIndexes = filter (\<lambda>i. starts_with (key @ ''='') (lines ! i)) [0..<length lines]
                 in if length matchingIndexes > 1
                    then Inl (''The Compose .env file contains multiple '' @ key @ '' entries.'')
                    else (let lines' = (if length matchingIndexes = 1 \<and> replaceExisting then lines[hd matchingIndexes := entry]
                                else if matchingIndexes = [] then
                                  (let i = (if endedWithNewline then length lines - 1 else length lines)
                                   in take i lines @ [entry] @ drop i lines)
                                else lines);
                              updated = js_join lineEnding lines'
                          in Inr (if endedWithNewline then updated else updated @ lineEnding)))))"

definition replaceOpenLanderImage :: "string \<Rightarrow> string \<Rightarrow> string + string" where
  "replaceOpenLanderImage content img = updateComposeEnvironmentEntry content ''OPENLANDER_IMAGE'' img True"

definition COMPOSE_ENVIRONMENT_KEYS :: "string list" where
  "COMPOSE_ENVIRONMENT_KEYS = [''OPENLANDER_POSTGRES_PASSWORD'', ''OPENLANDER_PORT'', ''OPENLANDER_PUBLIC_HOST'',
     ''OPENLANDER_PROTECTED_SHARE_TLS_MODE'', ''OPENLANDER_DATA_VOLUME'']"

type_synonym update_environment = "string \<Rightarrow> string"

fun update_entries :: "string \<Rightarrow> (string \<times> string) list \<Rightarrow> string + string" where
  "update_entries content [] = Inr content"
| "update_entries content ((k, v) # es) = rbind (updateComposeEnvironmentEntry content k v True) (\<lambda>c. update_entries c es)"

definition persistOpenLanderComposeEnvironment :: "string \<Rightarrow> string \<Rightarrow> update_environment \<Rightarrow> string + string" where
  "persistOpenLanderComposeEnvironment content img env =
     rbind (replaceOpenLanderImage content img) (\<lambda>updated. update_entries updated (map (\<lambda>k. (k, env k)) COMPOSE_ENVIRONMENT_KEYS))"

text \<open>The environment of the runner process: \<open>Inl\<close> when a value is missing or not safe.\<close>

definition readComposeEnvironment :: "(string \<Rightarrow> string option) \<Rightarrow> string + update_environment" where
  "readComposeEnvironment environment =
     (case find (\<lambda>k. environment k = None \<or> (case formatComposeEnvironmentValue (the (environment k)) of Inl _ \<Rightarrow> True | Inr _ \<Rightarrow> False)) COMPOSE_ENVIRONMENT_KEYS of
        Some k \<Rightarrow> (case environment k of
            None \<Rightarrow> Inl ''The current Compose environment cannot be preserved for the platform update.''
          | Some v \<Rightarrow> Inl ''A Compose environment value cannot be persisted safely for the platform update.'')
      | None \<Rightarrow> Inr (\<lambda>k. case environment k of Some v \<Rightarrow> v | None \<Rightarrow> []))"

section \<open>The file as a list of lines\<close>

text \<open>The lines of a file; one final line end makes no further line.\<close>

definition env_lines :: "string \<Rightarrow> string list" where
  "env_lines content = (let ls = split_lines content in if last ls = [] then butlast ls else ls)"

definition set_entry :: "string \<Rightarrow> string \<Rightarrow> string list \<Rightarrow> string list" where
  "set_entry key entry ls =
     (if \<exists>l \<in> set ls. starts_with (key @ ''='') l
      then map (\<lambda>l. if starts_with (key @ ''='') l then entry else l) ls else ls @ [entry])"

lemma js_split_no: "c \<notin> set w \<Longrightarrow> js_split c w = [w]"
  by (induction w) auto

lemma js_split_append: "c \<notin> set w \<Longrightarrow> js_split c (w @ c # s) = w # js_split c s"
  by (induction w) auto

lemma js_split_parts: "w \<in> set (js_split c s) \<Longrightarrow> c \<notin> set w"
  by (induction c s arbitrary: w rule: js_split.induct) (auto split: if_splits list.splits)

lemma js_join_split: "js_join [c] (js_split c s) = s"
proof (induction c s rule: js_split.induct)
  case (2 c x xs)
  obtain w ws where w: "js_split c xs = w # ws" by (cases "js_split c xs") auto
  with 2 show ?case by (cases ws) (auto split: if_splits)
qed simp

lemma js_join_Cons: "ws \<noteq> [] \<Longrightarrow> js_join sep (w # ws) = w @ sep @ js_join sep ws"
  by (cases ws) auto

lemma strip_cr_no_LF: "LF \<notin> set l \<Longrightarrow> LF \<notin> set (strip_cr l)"
  by (auto simp: strip_cr_def dest: in_set_butlastD)

lemma split_lines_no_LF:
  assumes "l \<in> set (split_lines s)"
  shows "LF \<notin> set l"
proof -
  from assms consider w where "w \<in> set (butlast (js_split LF s))" "l = strip_cr w" | "l = last (js_split LF s)"
    by (auto simp: split_lines_def Let_def)
  then show ?thesis
  proof cases
    case 1
    with js_split_parts [OF in_set_butlastD] show ?thesis using strip_cr_no_LF by blast
  next
    case 2
    have "l \<in> set (js_split LF s)" unfolding 2 by (rule last_in_set) (rule js_split_ne)
    then show ?thesis by (rule js_split_parts)
  qed
qed

lemma split_lines_ne [simp]: "split_lines s \<noteq> []"
  by (simp add: split_lines_def Let_def)

lemma split_lines_Cons: "LF \<notin> set w \<Longrightarrow> split_lines (w @ LF # s) = strip_cr w # split_lines s"
  by (simp add: split_lines_def js_split_append Let_def)

definition plain_line :: "string \<Rightarrow> bool" where
  "plain_line l \<longleftrightarrow> \<not> (l \<noteq> [] \<and> last l = CR)"

lemma strip_plain: "plain_line l \<Longrightarrow> strip_cr l = l"
  by (auto simp: plain_line_def strip_cr_def)

lemma split_lines_join:
  assumes "ls \<noteq> []" and "\<And>l. l \<in> set ls \<Longrightarrow> LF \<notin> set l"
    and "le = [CR, LF] \<or> le = [LF] \<and> (\<forall>l \<in> set (butlast ls). plain_line l)"
  shows "split_lines (js_join le ls) = ls"
  using assms
proof (induction ls rule: list_nonempty_induct)
  case (single w)
  then show ?case by (simp add: split_lines_def js_split_no Let_def)
next
  case (cons w ws)
  have IH: "split_lines (js_join le ws) = ws" using cons by auto
  have "LF \<notin> set (w @ [CR])" using cons.prems(1) [of w] by (simp add: LF_def CR_def)
  from split_lines_Cons [OF this] IH have crlf: "split_lines ((w @ [CR]) @ LF # js_join le ws) = w # ws"
    by (simp add: strip_cr_def)
  have "LF \<notin> set w" using cons.prems(1) [of w] by simp
  from split_lines_Cons [OF this] IH strip_plain have lf: "plain_line w \<Longrightarrow> split_lines (w @ LF # js_join le ws) = w # ws"
    by simp
  from cons.prems(2) show ?case
  proof
    assume "le = [CR, LF]" then show ?thesis using crlf cons.hyps(1) by (simp add: js_join_Cons)
  next
    assume "le = [LF] \<and> (\<forall>l \<in> set (butlast (w # ws)). plain_line l)"
    then show ?thesis using lf cons.hyps(1) by (simp add: js_join_Cons)
  qed
qed

lemma js_includes_iff: "js_includes p s \<longleftrightarrow> (\<exists>a b. s = a @ p @ b)"
proof (induction s)
  case (Cons x xs)
  show ?case
  proof
    assume "js_includes p (x # xs)"
    then show "\<exists>a b. x # xs = a @ p @ b"
      using Cons by (auto simp: starts_with_iff) (metis append_Cons append_Nil)+
  next
    assume "\<exists>a b. x # xs = a @ p @ b"
    then obtain a b where ab: "x # xs = a @ p @ b" by blast
    show "js_includes p (x # xs)"
    proof (cases a)
      case Nil
      with ab have "starts_with p (x # xs)" by (simp add: starts_with_iff)
      then show ?thesis by simp
    next
      case (Cons y ys)
      with ab have "xs = ys @ p @ b" by simp
      with Cons.IH show ?thesis by auto
    qed
  qed
qed simp

lemma join_middle: "w \<in> set (butlast ws) \<Longrightarrow> \<exists>a b. js_join [c] ws = a @ w @ c # b"
proof (induction ws)
  case (Cons v vs)
  then have ne: "vs \<noteq> []" by auto
  then have j: "js_join [c] (v # vs) = v @ c # js_join [c] vs" by (simp add: js_join_Cons)
  from Cons.prems ne have "w = v \<or> w \<in> set (butlast vs)" by (auto split: if_splits)
  then show ?case
  proof
    assume "w = v" then show ?thesis using j by (metis append_Nil)
  next
    assume "w \<in> set (butlast vs)"
    with Cons.IH obtain a b where "js_join [c] vs = a @ w @ c # b" by blast
    then show ?thesis using j by (metis append_Cons append_assoc)
  qed
qed simp

lemma plain_pieces:
  assumes "\<not> js_includes [CR, LF] s" and "w \<in> set (butlast (js_split LF s))"
  shows "plain_line w"
proof (rule ccontr)
  assume "\<not> plain_line w"
  then obtain v where v: "w = v @ [CR]" by (metis append_butlast_last_id plain_line_def)
  from join_middle [OF assms(2), of LF] obtain a b where "s = a @ w @ LF # b" by (auto simp: js_join_split)
  then have "s = (a @ v) @ [CR, LF] @ b" by (simp add: v)
  with assms(1) show False by (metis js_includes_iff)
qed

lemma last_piece: "s \<noteq> [] \<Longrightarrow> last (js_split c s) = [] \<longleftrightarrow> last s = c"
proof (induction c s rule: js_split.induct)
  case (2 c x xs)
  obtain w ws where w: "js_split c xs = w # ws" by (cases "js_split c xs") auto
  have "js_join [c] (w # ws) = xs" using js_join_split [of c xs] w by simp
  then have "xs \<noteq> [] \<Longrightarrow> w = [] \<Longrightarrow> ws \<noteq> []" by auto
  then show ?case using 2 w by (cases "xs = []") (auto split: if_splits)
qed simp

lemma last_line: "s \<noteq> [] \<Longrightarrow> last (split_lines s) = [] \<longleftrightarrow> last s = LF"
  by (simp add: split_lines_def Let_def last_piece)

lemma join_ended: "ws \<noteq> [] \<Longrightarrow> js_join le (ws @ [[]]) = js_join le ws @ le"
  by (induction ws rule: list_nonempty_induct) (auto simp: js_join_Cons)

text \<open>The index search of the code, against a map over the lines.\<close>

lemma match_none: "filter (\<lambda>i. P (ls ! i)) [0..<length ls] = [] \<longleftrightarrow> (\<forall>l \<in> set ls. \<not> P l)"
  by (auto simp: filter_empty_conv all_set_conv_all_nth atLeast0LessThan)

lemma match_one:
  assumes "filter (\<lambda>i. P (ls ! i)) [0..<length ls] = [i]"
  shows "ls[i := e] = map (\<lambda>l. if P l then e else l) ls" and "\<exists>l \<in> set ls. P l" and "i < length ls"
proof -
  have at: "j < length ls \<and> P (ls ! j) \<longleftrightarrow> j = i" for j
    using arg_cong [OF assms, of set] by auto
  from at [of i] show "i < length ls" by simp
  from at [of i] show "\<exists>l \<in> set ls. P l" by (intro bexI [of _ "ls ! i"]) simp_all
  show "ls[i := e] = map (\<lambda>l. if P l then e else l) ls"
  proof (rule nth_equalityI)
    fix j assume "j < length (ls[i := e])"
    then show "ls[i := e] ! j = map (\<lambda>l. if P l then e else l) ls ! j"
      using at [of j] by (cases "j = i") simp_all
  qed simp
qed

lemma match_count: "length (filter (\<lambda>i. P (ls ! i)) [0..<length ls]) = length (filter P ls)"
proof -
  have "filter P ls = map ((!) ls) (filter (\<lambda>i. P (ls ! i)) [0..<length ls])"
    using filter_map [of P "(!) ls" "[0..<length ls]"] by (simp add: map_nth comp_def)
  then show ?thesis by simp
qed

lemma match_snoc: "\<not> P x \<Longrightarrow> filter (\<lambda>i. P ((ls @ [x]) ! i)) [0..<length (ls @ [x])] = filter (\<lambda>i. P (ls ! i)) [0..<length ls]"
  by (auto simp: nth_append intro!: filter_cong)

definition line_end :: "string \<Rightarrow> string" where
  "line_end content = (if js_includes [CR, LF] content then [CR, LF] else [LF])"

lemma split_env_lines: "s \<noteq> [] \<Longrightarrow> split_lines s = env_lines s @ (if last s = LF then [[]] else [])"
  using last_line [of s] append_butlast_last_id [OF split_lines_ne, of s]
  by (cases "last s = LF") (simp_all add: env_lines_def Let_def)

lemma env_lines_ne: "s \<noteq> [] \<Longrightarrow> last s \<noteq> LF \<Longrightarrow> env_lines s \<noteq> []"
  using split_env_lines [of s] split_lines_ne [of s] by simp

text \<open>The text of a successful update is the updated lines, each ended by the file's line end.\<close>

lemma update_text:
  assumes "updateComposeEnvironmentEntry content key value True = Inr out"
  obtains v where "formatComposeEnvironmentValue value = Inr v"
    and "length (filter (starts_with (key @ ''='')) (env_lines content)) \<le> 1"
    and "out = js_join (line_end content) (set_entry key (key @ ''='' @ v) (env_lines content) @ [[]])"
proof (cases "formatComposeEnvironmentValue value")
  case (Inl e)
  with assms show ?thesis by (simp add: updateComposeEnvironmentEntry_def)
next
  case (Inr v)
  let ?P = "starts_with (key @ ''='')" and ?e = "key @ ''='' @ v" and ?le = "line_end content"
  let ?B = "env_lines content"
  have no: "\<not> ?P []" by (simp add: starts_with_iff)
  show ?thesis
  proof (cases "content = []")
    case True
    then have "out = ?e @ ?le" and "?B = []"
      using assms Inr by (auto simp: updateComposeEnvironmentEntry_def line_end_def env_lines_def split_lines_def Let_def)
    then show ?thesis using that Inr by (simp add: set_entry_def)
  next
    case False
    let ?T = "if last content = LF then [[]] else []"
    let ?idx = "filter (\<lambda>i. ?P (?B ! i)) [0..<length ?B]"
    note spl = split_env_lines [OF False]
    have idx: "filter (\<lambda>i. ?P (split_lines content ! i)) [0..<length (split_lines content)] = ?idx"
      unfolding spl using match_snoc [of ?P, OF no, of ?B] by simp
    have few: "length ?idx \<le> 1"
      using assms Inr False unfolding updateComposeEnvironmentEntry_def Let_def idx
      by (simp split: if_splits)
    have ends: "(if last content = LF then js_join ?le (b @ ?T) else js_join ?le (b @ ?T) @ ?le) = js_join ?le (b @ [[]])"
      if "b \<noteq> []" for b
      using that by (simp add: join_ended)
    have fin: "b \<noteq> [] \<Longrightarrow> b = set_entry key ?e ?B \<Longrightarrow>
        (if last content = LF then out = js_join ?le (b @ ?T) else out = js_join ?le (b @ ?T) @ ?le) \<Longrightarrow> ?thesis" for b
      using that [OF Inr] few ends [of b] by (simp add: match_count split: if_splits)
    consider "?idx = []" | i where "?idx = [i]"
      using few by (cases ?idx) auto
    then show ?thesis
    proof cases
      case 1
      show ?thesis
      proof (rule fin [of "?B @ [?e]"])
        show "?B @ [?e] = set_entry key ?e ?B"
          using 1 match_none [of ?P ?B] by (auto simp: set_entry_def)
        show "if last content = LF then out = js_join ?le ((?B @ [?e]) @ ?T) else out = js_join ?le ((?B @ [?e]) @ ?T) @ ?le"
          using assms Inr False 1 unfolding updateComposeEnvironmentEntry_def Let_def idx
          by (auto simp: spl line_end_def split: if_splits)
      qed simp
    next
      case 2
      note m = match_one [OF 2]
      show ?thesis
      proof (rule fin [of "?B[i := ?e]"])
        show "?B[i := ?e] = set_entry key ?e ?B"
          using m by (auto simp: set_entry_def)
        show "?B[i := ?e] \<noteq> []" using m(3) by auto
        show "if last content = LF then out = js_join ?le (?B[i := ?e] @ ?T) else out = js_join ?le (?B[i := ?e] @ ?T) @ ?le"
          using assms Inr False 2 m(3) unfolding updateComposeEnvironmentEntry_def Let_def idx
          by (auto simp: spl line_end_def list_update_append split: if_splits)
      qed
    qed
  qed
qed

definition stored_value :: "string \<Rightarrow> string" where
  "stored_value value = (if value = [] then [CHR 0x22, CHR 0x22] else value)"

definition storable :: "string \<Rightarrow> bool" where
  "storable value \<longleftrightarrow> value = [] \<or> list_all env_safe_char value"

lemma format_value:
  "formatComposeEnvironmentValue value = Inr v \<longleftrightarrow> storable value \<and> v = stored_value value"
  by (auto simp: formatComposeEnvironmentValue_def storable_def stored_value_def)

lemma format_value_fails: "formatComposeEnvironmentValue value = Inl e \<Longrightarrow> \<not> storable value"
  by (auto simp: formatComposeEnvironmentValue_def storable_def split: if_splits)

lemma unsafe_ends: "\<not> env_safe_char LF" "\<not> env_safe_char CR"
  by (simp_all add: env_safe_char_def LF_def CR_def is_upper_def is_lower_def is_digit_def)

lemma stored_clean: "storable v \<Longrightarrow> LF \<notin> set (stored_value v)" "storable v \<Longrightarrow> CR \<notin> set (stored_value v)"
  using unsafe_ends by (auto simp: storable_def stored_value_def list_all_iff LF_def CR_def)

lemma entry_plain: "storable v \<Longrightarrow> plain_line (key @ ''='' @ stored_value v)"
proof (cases "v = []")
  case True
  then show ?thesis by (simp add: plain_line_def stored_value_def CR_def)
next
  case False
  assume "storable v"
  with stored_clean(2) [of v] False have "CR \<notin> set v" by (simp add: stored_value_def)
  with last_in_set [OF False] have "last v \<noteq> CR" by metis
  with False show ?thesis by (simp add: plain_line_def stored_value_def)
qed

lemma body_no_LF: "l \<in> set (env_lines s) \<Longrightarrow> LF \<notin> set l"
  using split_lines_no_LF by (auto simp: env_lines_def Let_def split: if_splits dest: in_set_butlastD)

lemma strip_pieces:
  assumes "\<not> js_includes [CR, LF] s"
  shows "split_lines s = js_split LF s"
proof -
  have "map strip_cr (butlast (js_split LF s)) = butlast (js_split LF s)"
    by (rule map_idI) (use plain_pieces [OF assms] strip_plain in blast)
  then show ?thesis by (simp add: split_lines_def Let_def)
qed

lemma last_of_last_piece: "last (js_split c s) \<noteq> [] \<Longrightarrow> last (last (js_split c s)) = last s"
proof (induction c s rule: js_split.induct)
  case (2 c x xs)
  obtain w ws where w: "js_split c xs = w # ws" by (cases "js_split c xs") auto
  have "js_join [c] (w # ws) = xs" using js_join_split [of c xs] w by simp
  then have "xs = [] \<Longrightarrow> w = [] \<and> ws = []" by (cases ws) auto
  moreover have "ws = [] \<Longrightarrow> xs = w" using \<open>js_join [c] (w # ws) = xs\<close> by simp
  ultimately show ?case using 2 w by (cases ws) (auto split: if_splits)
qed simp

lemma body_plain:
  assumes "\<not> js_includes [CR, LF] s" and "s \<noteq> []" and "last s \<noteq> CR" and "l \<in> set (env_lines s)"
  shows "plain_line l"
proof (cases "l \<in> set (butlast (js_split LF s))")
  case True
  then show ?thesis by (rule plain_pieces [OF assms(1)])
next
  case False
  let ?ps = "js_split LF s"
  have "set ?ps = set (butlast ?ps) \<union> {last ?ps}"
    by (metis append_butlast_last_id js_split_ne list.simps(15) set_append set_empty2 Un_insert_right sup_bot_right)
  with False assms(4) have "l = last ?ps"
    by (auto simp: env_lines_def Let_def strip_pieces [OF assms(1)] split: if_splits)
  then show ?thesis using last_of_last_piece [of LF s] assms(3) by (auto simp: plain_line_def)
qed

lemma set_entry_members: "l \<in> set (set_entry key e ls) \<Longrightarrow> l = e \<or> l \<in> set ls"
  by (auto simp: set_entry_def split: if_splits)

lemma set_entry_ne [simp]: "set_entry key e ls \<noteq> []"
  by (auto simp: set_entry_def)

text \<open>A file the update can be applied to: it does not end in the middle of a CR LF pair.\<close>

definition whole :: "string \<Rightarrow> bool" where
  "whole content \<longleftrightarrow> content = [] \<or> last content \<noteq> CR"

lemma update_lines:
  assumes "updateComposeEnvironmentEntry content key value True = Inr out" and key: "LF \<notin> set key" and "whole content"
  shows "env_lines out = set_entry key (key @ ''='' @ stored_value value) (env_lines content)"
    and "whole out" and "last out = LF" and "storable value"
proof -
  let ?S = "set_entry key (key @ ''='' @ stored_value value) (env_lines content)" and ?le = "line_end content"
  from update_text [OF assms(1)] show ok: "storable value" by (metis format_value)
  from update_text [OF assms(1)] have out: "out = js_join ?le (?S @ [[]])" by (metis format_value)
  have le: "?le = [CR, LF] \<or> ?le = [LF] \<and> \<not> js_includes [CR, LF] content"
    by (simp add: line_end_def)
  have S: "LF \<notin> set l" if "l \<in> set ?S" for l
    using set_entry_members [OF that] body_no_LF key stored_clean(1) [OF ok] by (auto simp: LF_def)
  have P: "plain_line l" if "l \<in> set ?S" "?le = [LF]" for l
  proof -
    from that(2) have no: "\<not> js_includes [CR, LF] content" by (auto simp: line_end_def split: if_splits)
    have "content \<noteq> []" if "l \<in> set (env_lines content)"
      using that by (auto simp: env_lines_def split_lines_def Let_def)
    then show ?thesis
      using set_entry_members [OF that(1)] entry_plain [OF ok] body_plain [OF no] assms(3) by (auto simp: whole_def)
  qed
  have "split_lines out = ?S @ [[]]"
    unfolding out by (rule split_lines_join) (use S P le in auto)
  then show "env_lines out = ?S" by (simp add: env_lines_def)
  have "out = js_join ?le ?S @ ?le" using out by (simp add: join_ended)
  then show "last out = LF" using le by auto
  then show "whole out" by (simp add: whole_def LF_def CR_def)
qed

lemma update_fails:
  assumes "updateComposeEnvironmentEntry content key value True = Inl e"
  shows "\<not> storable value \<or> 2 \<le> length (filter (starts_with (key @ ''='')) (env_lines content))"
proof (cases "formatComposeEnvironmentValue value")
  case (Inl f)
  then show ?thesis by (simp add: format_value_fails)
next
  case (Inr v)
  let ?P = "starts_with (key @ ''='')"
  have no: "\<not> ?P []" by (simp add: starts_with_iff)
  from assms Inr have ne: "content \<noteq> []" by (auto simp: updateComposeEnvironmentEntry_def Let_def)
  have idx: "length (filter (\<lambda>i. ?P (split_lines content ! i)) [0..<length (split_lines content)]) = length (filter ?P (env_lines content))"
    unfolding match_count using split_env_lines [OF ne] no by simp
  from assms Inr ne have "1 < length (filter (\<lambda>i. ?P (split_lines content ! i)) [0..<length (split_lines content)])"
    unfolding updateComposeEnvironmentEntry_def Let_def by (simp split: if_splits)
  then show ?thesis unfolding idx by simp
qed

section \<open>The properties\<close>

text \<open>
  C20. Replacing an entry of the environment file implements setting it in the list of the file's lines: when the
  update succeeds the lines of the new text are the lines of the old one with the entry in the place of the line that
  had the key, or at the end when there was none, and the text ends with a line end; when it fails the value
  cannot be stored or the key already has two lines. Whatever the line ends of the old text and whether it ends with one.
\<close>

theorem updateComposeEnvironmentEntry_refines:
  assumes "LF \<notin> set key" and "whole content"
  shows "case updateComposeEnvironmentEntry content key value True of
           Inr out \<Rightarrow> env_lines out = set_entry key (key @ ''='' @ stored_value value) (env_lines content) \<and> last out = LF
         | Inl e \<Rightarrow> \<not> storable value \<or> 2 \<le> length (filter (starts_with (key @ ''='')) (env_lines content))"
proof (cases "updateComposeEnvironmentEntry content key value True")
  case (Inl e)
  then show ?thesis using update_fails [OF Inl] by simp
next
  case (Inr out)
  then show ?thesis using update_lines(1,3) [OF Inr assms] by simp
qed

lemma updateComposeEnvironmentEntry_refines_witness:
  "env_lines (''A=1'' @ [CR, LF] @ ''B=22'') = [''A=1'', ''B=22''] \<and>
   (case updateComposeEnvironmentEntry (''A=1'' @ [CR, LF] @ ''B=22'') ''A'' ''x'' True of
      Inr out \<Rightarrow> env_lines out = [''A=x'', ''B=22''] | Inl e \<Rightarrow> False)"
proof -
  have l: "env_lines (''A=1'' @ [CR, LF] @ ''B=22'') = [''A=1'', ''B=22'']" by code_simp
  have r: "updateComposeEnvironmentEntry (''A=1'' @ [CR, LF] @ ''B=22'') ''A'' ''x'' True = Inr (''A=x'' @ [CR, LF] @ ''B=22'' @ [CR, LF])"
    by code_simp
  have e: "set_entry ''A'' (''A'' @ ''='' @ stored_value ''x'') [''A=1'', ''B=22''] = [''A=x'', ''B=22'']" by code_simp
  have k: "LF \<notin> set ''A''" and w: "whole (''A=1'' @ [CR, LF] @ ''B=22'')"
    by (simp_all add: LF_def CR_def whole_def)
  from updateComposeEnvironmentEntry_refines [OF k w, of "''x''"] show ?thesis
    unfolding r l e by simp
qed

text \<open>The entries of one update, and what it keeps.\<close>

definition managed_entries :: "string \<Rightarrow> update_environment \<Rightarrow> (string \<times> string) list" where
  "managed_entries img env = (''OPENLANDER_IMAGE'', img) # map (\<lambda>k. (k, env k)) COMPOSE_ENVIRONMENT_KEYS"

definition managed_line :: "string list \<Rightarrow> string \<Rightarrow> bool" where
  "managed_line keys l \<longleftrightarrow> list_ex (\<lambda>k. starts_with (k @ ''='') l) keys"

fun set_entries :: "(string \<times> string) list \<Rightarrow> string list \<Rightarrow> string list" where
  "set_entries [] ls = ls"
| "set_entries ((k, v) # es) ls = set_entries es (set_entry k (k @ ''='' @ stored_value v) ls)"

lemma persist_as_updates:
  "persistOpenLanderComposeEnvironment content img env = update_entries content (managed_entries img env)"
  by (simp add: persistOpenLanderComposeEnvironment_def managed_entries_def replaceOpenLanderImage_def)

lemma update_entries_lines:
  "update_entries content es = Inr out \<Longrightarrow> whole content \<Longrightarrow> \<forall>(k, v) \<in> set es. LF \<notin> set k \<Longrightarrow>
   env_lines out = set_entries es (env_lines content) \<and> whole out"
proof (induction es arbitrary: content)
  case (Cons e es)
  obtain k v where e: "e = (k, v)" by (cases e)
  from Cons.prems(1) e obtain c where c: "updateComposeEnvironmentEntry content k v True = Inr c" "update_entries c es = Inr out"
    by (auto simp: rbind_Inr_iff)
  have k: "LF \<notin> set k" using Cons.prems(3) e by auto
  note u = update_lines [OF c(1) k Cons.prems(2)]
  show ?case using Cons.IH [OF c(2) u(2)] Cons.prems(3) u(1) e by auto
qed simp

lemma keys_differ:
  assumes "CHR ''='' \<notin> set k" "CHR ''='' \<notin> set k'" "starts_with (k @ ''='') (k' @ ''='' @ v)"
  shows "k = k'"
proof -
  from assms(3) obtain b where "k @ CHR ''='' # b = k' @ CHR ''='' # v" by (auto simp: starts_with_iff)
  then have "takeWhile (\<lambda>c. c \<noteq> CHR ''='') (k @ CHR ''='' # b) = takeWhile (\<lambda>c. c \<noteq> CHR ''='') (k' @ CHR ''='' # v)" by simp
  then show ?thesis using assms(1,2) by (auto simp: takeWhile_append split: if_splits)
qed

lemma set_entry_others:
  assumes "\<And>l. P l \<Longrightarrow> \<not> starts_with (k @ ''='') l" and "\<not> P e"
  shows "filter P (set_entry k e ls) = filter P ls"
proof -
  have "filter P (map (\<lambda>l. if starts_with (k @ ''='') l then e else l) xs) = filter P xs" for xs
    by (induction xs) (use assms in auto)
  then show ?thesis using assms(2) by (auto simp: set_entry_def)
qed

lemma set_entries_others:
  assumes "\<And>k v. (k, v) \<in> set es \<Longrightarrow> (\<forall>l. P l \<longrightarrow> \<not> starts_with (k @ ''='') l) \<and> \<not> P (k @ ''='' @ stored_value v)"
  shows "filter P (set_entries es ls) = filter P ls"
  using assms
proof (induction es arbitrary: ls)
  case (Cons e es)
  obtain k v where e: "e = (k, v)" by (cases e)
  have kv: "\<And>l. P l \<Longrightarrow> \<not> starts_with (k @ ''='') l" "\<not> P (k @ ''='' @ stored_value v)"
    using Cons.prems [of k v] e by auto
  have "filter P (set_entries es (set_entry k (k @ ''='' @ stored_value v) ls)) = filter P (set_entry k (k @ ''='' @ stored_value v) ls)"
    by (rule Cons.IH) (use Cons.prems in auto)
  also have "\<dots> = filter P ls" by (rule set_entry_others) (fact kv)+
  finally show ?case using e by simp
qed simp

lemma set_entry_one:
  assumes "length (filter (starts_with (k @ ''='')) ls) \<le> 1"
  shows "filter (starts_with (k @ ''='')) (set_entry k (k @ ''='' @ v) ls) = [k @ ''='' @ v]"
proof -
  let ?P = "starts_with (k @ ''='')" and ?e = "k @ ''='' @ v"
  have e: "?P ?e" by (simp add: starts_with_iff)
  have m: "filter ?P (map (\<lambda>l. if ?P l then ?e else l) xs) = replicate (length (filter ?P xs)) ?e" for xs
    using e by (induction xs) auto
  show ?thesis
  proof (cases "\<exists>l \<in> set ls. ?P l")
    case True
    then have "length (filter ?P ls) \<noteq> 0" by (auto simp: filter_empty_conv)
    with assms have "length (filter ?P ls) = 1" by linarith
    then show ?thesis using True m [of ls] by (simp only: set_entry_def if_True One_nat_def replicate_Suc replicate_0)
  next
    case False
    then have "filter ?P ls = []" by (auto simp: filter_empty_conv)
    then show ?thesis using False e by (auto simp: set_entry_def)
  qed
qed

lemma keys_both:
  assumes "CHR ''='' \<notin> set k" "CHR ''='' \<notin> set k'" "starts_with (k @ ''='') l" "starts_with (k' @ ''='') l"
  shows "k = k'"
proof -
  from assms(4) obtain v where "l = k' @ ''='' @ v" by (auto simp: starts_with_iff)
  with keys_differ [OF assms(1,2)] assms(3) show ?thesis by simp
qed

lemma update_entries_each:
  "update_entries content es = Inr out \<Longrightarrow> whole content \<Longrightarrow> \<forall>(k, v) \<in> set es. LF \<notin> set k \<and> CHR ''='' \<notin> set k \<Longrightarrow>
   distinct (map fst es) \<Longrightarrow> (k, v) \<in> set es \<Longrightarrow>
   filter (starts_with (k @ ''='')) (env_lines out) = [k @ ''='' @ stored_value v]"
proof (induction es arbitrary: content)
  case (Cons e es)
  obtain k0 v0 where e: "e = (k0, v0)" by (cases e)
  from Cons.prems(1) e obtain c where c: "updateComposeEnvironmentEntry content k0 v0 True = Inr c" "update_entries c es = Inr out"
    by (auto simp: rbind_Inr_iff)
  have k0: "LF \<notin> set k0" using Cons.prems(3) e by auto
  note u = update_lines [OF c(1) k0 Cons.prems(2)]
  show ?case
  proof (cases "(k, v) \<in> set es")
    case True
    then show ?thesis using Cons.IH [OF c(2) u(2)] Cons.prems(3,4) by auto
  next
    case False
    with Cons.prems(5) e have kv: "k = k0" "v = v0" by auto
    let ?P = "starts_with (k @ ''='')" and ?e = "k @ ''='' @ stored_value v"
    have "length (filter ?P (env_lines content)) \<le> 1"
      using update_text [OF c(1)] kv by blast
    then have one: "filter ?P (env_lines c) = [?e]"
      unfolding u(1) kv by (rule set_entry_one)
    have "env_lines out = set_entries es (env_lines c)"
      using update_entries_lines [OF c(2) u(2)] Cons.prems(3) by auto
    moreover have "filter ?P (set_entries es (env_lines c)) = filter ?P (env_lines c)"
    proof (rule set_entries_others)
      fix k' v' assume in_es: "(k', v') \<in> set es"
      then have "k' \<noteq> k" using Cons.prems(4) e kv by force
      moreover have "CHR ''='' \<notin> set k" "CHR ''='' \<notin> set k'" using Cons.prems(3) e kv in_es by auto
      ultimately show "(\<forall>l. ?P l \<longrightarrow> \<not> starts_with (k' @ ''='') l) \<and> \<not> ?P (k' @ ''='' @ stored_value v')"
        using keys_both [of k k'] keys_differ [of k k'] by blast
    qed
    ultimately show ?thesis using one by simp
  qed
qed simp

lemma update_entries_rest:
  assumes "update_entries content es = Inr out" "whole content" "\<forall>(k, v) \<in> set es. LF \<notin> set k"
  shows "filter (\<lambda>l. \<not> managed_line (map fst es) l) (env_lines out) = filter (\<lambda>l. \<not> managed_line (map fst es) l) (env_lines content)"
proof -
  have "filter (\<lambda>l. \<not> managed_line (map fst es) l) (set_entries es ls) = filter (\<lambda>l. \<not> managed_line (map fst es) l) ls" for ls
    by (rule set_entries_others) (force simp: managed_line_def list_ex_iff starts_with_iff)
  then show ?thesis using update_entries_lines [OF assms] by simp
qed

lemma managed_keys: "map fst (managed_entries img env) = ''OPENLANDER_IMAGE'' # COMPOSE_ENVIRONMENT_KEYS"
  by (simp add: managed_entries_def comp_def)

lemma managed_keys_ok:
  "distinct (''OPENLANDER_IMAGE'' # COMPOSE_ENVIRONMENT_KEYS)"
  "\<forall>(k, v) \<in> set (managed_entries img env). LF \<notin> set k \<and> CHR ''='' \<notin> set k"
  by (simp_all add: managed_entries_def COMPOSE_ENVIRONMENT_KEYS_def LF_def)

text \<open>
  C34. What a platform update writes to the Compose environment file: when it succeeds, the image and each of the five
  preserved settings has exactly one line in the file, with its value, and every other line is kept with its order.
\<close>

theorem persist_sets_the_settings:
  assumes "persistOpenLanderComposeEnvironment content img env = Inr out" and "whole content"
  shows "(\<forall>(k, v) \<in> set (managed_entries img env). filter (starts_with (k @ ''='')) (env_lines out) = [k @ ''='' @ stored_value v])
    \<and> filter (\<lambda>l. \<not> managed_line (''OPENLANDER_IMAGE'' # COMPOSE_ENVIRONMENT_KEYS) l) (env_lines out)
      = filter (\<lambda>l. \<not> managed_line (''OPENLANDER_IMAGE'' # COMPOSE_ENVIRONMENT_KEYS) l) (env_lines content)"
proof -
  let ?out = "filter (\<lambda>l. \<not> managed_line (''OPENLANDER_IMAGE'' # COMPOSE_ENVIRONMENT_KEYS) l)"
  note up = assms(1) [unfolded persist_as_updates]
  have rest: "?out (env_lines out) = ?out (env_lines content)"
    using update_entries_rest [OF up assms(2)] managed_keys_ok(2) [of img env] unfolding managed_keys by auto
  have "filter (starts_with (k @ ''='')) (env_lines out) = [k @ ''='' @ stored_value v]"
    if "(k, v) \<in> set (managed_entries img env)" for k v
    by (rule update_entries_each [OF up assms(2) managed_keys_ok(2) _ that]) (unfold managed_keys, rule managed_keys_ok(1))
  with rest show ?thesis by blast
qed

lemma persist_sets_the_settings_witness:
  "\<exists>out. persistOpenLanderComposeEnvironment (''X=1'' @ [LF] @ ''OPENLANDER_PORT=80'') ''img:2'' (\<lambda>k. ''v'') = Inr out
     \<and> filter (starts_with ''OPENLANDER_PORT='') (env_lines out) = [''OPENLANDER_PORT=v'']
     \<and> env_lines out ! 0 = ''X=1''"
proof -
  let ?in = "''X=1'' @ [LF] @ ''OPENLANDER_PORT=80''"
  let ?out = "''X=1'' @ [LF] @ ''OPENLANDER_PORT=v'' @ [LF] @ ''OPENLANDER_IMAGE=img:2'' @ [LF] @ ''OPENLANDER_POSTGRES_PASSWORD=v'' @ [LF] @
     ''OPENLANDER_PUBLIC_HOST=v'' @ [LF] @ ''OPENLANDER_PROTECTED_SHARE_TLS_MODE=v'' @ [LF] @ ''OPENLANDER_DATA_VOLUME=v'' @ [LF]"
  have r: "persistOpenLanderComposeEnvironment ?in ''img:2'' (\<lambda>k. ''v'') = Inr ?out" by code_simp
  have w: "whole ?in" by (simp add: whole_def CR_def)
  have first: "env_lines ?out ! 0 = ''X=1''" by code_simp
  have key: "''OPENLANDER_PORT'' @ ''='' = ''OPENLANDER_PORT=''" "''OPENLANDER_PORT'' @ ''='' @ stored_value ''v'' = ''OPENLANDER_PORT=v''"
    by (simp_all add: stored_value_def)
  have mem: "(''OPENLANDER_PORT'', ''v'') \<in> set (managed_entries ''img:2'' (\<lambda>k. ''v''))"
    by (simp add: managed_entries_def COMPOSE_ENVIRONMENT_KEYS_def)
  from bspec [OF conjunct1 [OF persist_sets_the_settings [OF r w]] mem]
  have "filter (starts_with ''OPENLANDER_PORT='') (env_lines ?out) = [''OPENLANDER_PORT=v'']" unfolding prod.case key .
  with r first show ?thesis by blast
qed

end
