(* ===== verification/Update_Runner.thy ===== *)
theory Update_Runner
  imports Steps Update_Env
begin

text \<open>
  The runner of a platform update (\<open>src/src/update/runner.ts\<close>) with the state it shares with the server
  (\<open>src/src/update/state-store.ts\<close>): the file \<open>status.json\<close> with the operation, the startup validation that the restarted
  process records, the installed \<open>.env\<close> and Compose file, and their backups. Every awaited call lets the others act
  (\<open>x_others\<close>), takes time (\<open>x_takes\<close>) and may throw (\<open>x_throws\<close>), all given by the context from the history so far.

  A valid runner input names exactly one Compose file, beside \<open>.env\<close> in the working directory, so the installation is
  one \<open>.env\<close> and one Compose file. \<open>writeFileAtomic\<close> renames a finished file: it either throws or the file is there.
\<close>

section \<open>Data\<close>

datatype update_phase = Preparing | Backing_up | Pulling | Restarting | Verifying | Completed | Rolling_back | Rolled_back | Update_failed

record update_operation =
  uo_id :: string
  uo_sourceVersion :: string
  uo_targetVersion :: string
  uo_phase :: update_phase
  uo_startedAt :: int
  uo_updatedAt :: int
  uo_message :: "string option"
  uo_errorCode :: "string option"
  uo_runnerContainerId :: "string option"

record startup_validation =
  sval_version :: string
  sval_ok :: bool
  sval_checkedAt :: int
  sval_message :: string

record runner_input =
  ri_operationId :: string
  ri_sourceVersion :: string
  ri_targetVersion :: string
  ri_targetImage :: string
  ri_targetDigest :: string
  ri_targetComposeSha256 :: string
  ri_sourceImage :: string

datatype update_error = Validation_error | Execution_error | Other_error

datatype update_call =
    Read_input | Read_status | Write_status | Fetch_compose | Make_backup_dir | Stat_env | Copy_env | Copy_compose
  | Dump_database | Write_metadata | Pull_image | Inspect_image | Read_env | Write_env | Write_compose
  | Compose_config | Compose_up | Fetch_health | Read_validation | Sleep_poll | Prune_backups
  | Read_backup_env | Read_backup_compose

text \<open>What happened: the calls, the phases written to \<open>status.json\<close>, the restarts of the service with the files they
  use, and the health checks that were passed.\<close>

datatype update_event =
    Call update_call
  | Phase update_phase
  | Pulled string
  | Restart update_phase "string option" "string option"
  | Restarted update_phase
  | Healthy string
  | Pruned "string list"

text \<open>What the server and the restarted process do in the meantime.\<close>

datatype other_action =
    Startup_recorded string bool string
  | Status_written update_operation

datatype health_answer = Health_unavailable | Health_version "string option"

record update_state =
  us_status :: "update_operation option"
  us_validation :: "string \<Rightarrow> startup_validation option"
  us_env :: "string option"
  us_compose :: "string option"
  us_backup_env :: "string option"
  us_backup_compose :: "string option"
  us_operation :: update_operation
  us_backupComplete :: bool
  us_environmentExisted :: bool
  us_filesChanged :: bool
  us_composeEnvironment :: "update_environment option"
  us_targetCompose :: string
  us_now :: int
  us_trace :: "update_event list"

record update_context =
  x_operationId :: string
  x_input :: "runner_input option"
  x_environment :: "string \<Rightarrow> string option"
  x_healthTimeoutMs :: int
  x_sha256 :: "string \<Rightarrow> string"
  x_targetCompose :: "string option"
  x_repoDigests :: "string list"
  x_others :: "update_event list \<Rightarrow> other_action list"
  x_throws :: "update_event list \<Rightarrow> update_call \<Rightarrow> bool"
  x_takes :: "update_event list \<Rightarrow> update_call \<Rightarrow> nat"
  x_exitCode :: "update_event list \<Rightarrow> update_call \<Rightarrow> int"
  x_health :: "update_event list \<Rightarrow> health_answer"
  x_backups :: "update_event list \<Rightarrow> (string \<times> int) list"

type_synonym update_step = "(update_state, update_error) step"

definition POLL_MS :: int where "POLL_MS = 2000"

section \<open>The others\<close>

text \<open>The process that starts up records its validation for the operation in \<open>status.json\<close>, if that is an update to its
  own version that is being restarted, verified or rolled back.\<close>

definition recordPlatformUpdateStartupValidation :: "string \<Rightarrow> bool \<Rightarrow> string \<Rightarrow> update_state \<Rightarrow> update_state \<times> bool" where
  "recordPlatformUpdateStartupValidation version ok message st =
     (case us_status st of
        None \<Rightarrow> (st, False)
      | Some operation \<Rightarrow>
          if uo_targetVersion operation \<noteq> version then (st, False)
          else if uo_phase operation \<notin> {Restarting, Verifying, Rolling_back} then (st, False)
          else (st\<lparr>us_validation := (us_validation st)(uo_id operation \<mapsto>
                  \<lparr>sval_version = version, sval_ok = ok, sval_checkedAt = us_now st, sval_message = message\<rparr>)\<rparr>, True))"

fun act :: "other_action \<Rightarrow> update_state \<Rightarrow> update_state" where
  "act (Startup_recorded version ok message) st = fst (recordPlatformUpdateStartupValidation version ok message st)"
| "act (Status_written operation) st = st\<lparr>us_status := Some operation\<rparr>"

definition await :: "update_context \<Rightarrow> update_call \<Rightarrow> update_step" where
  "await c k st =
     (let st' = fold act (x_others c (us_trace st)) st
      in (if x_throws c (us_trace st) k then Some Other_error else None,
          st'\<lparr>us_now := us_now st' + int (x_takes c (us_trace st) k), us_trace := us_trace st' @ [Call k]\<rparr>))"

section \<open>Phases\<close>

definition transition_to :: "update_context \<Rightarrow> update_phase \<Rightarrow> string option \<Rightarrow> string option \<Rightarrow> update_step" where
  "transition_to c ph message errorCode = steps
     [await c Read_status,
      assign (\<lambda>st. st\<lparr>us_operation :=
        (case us_status st of
           Some latestOperation \<Rightarrow> if uo_id latestOperation = x_operationId c then latestOperation else us_operation st
         | None \<Rightarrow> us_operation st)
        \<lparr>uo_phase := ph, uo_updatedAt := us_now st, uo_message := message, uo_errorCode := errorCode\<rparr>\<rparr>),
      await c Write_status,
      assign (\<lambda>st. st\<lparr>us_status := Some (us_operation st), us_trace := us_trace st @ [Phase ph]\<rparr>)]"

definition publicFailureCode :: "update_error \<Rightarrow> string" where
  "publicFailureCode error = (case error of
       Validation_error \<Rightarrow> ''UPDATE_VERIFICATION_FAILED''
     | Execution_error \<Rightarrow> ''UPDATE_COMMAND_FAILED''
     | Other_error \<Rightarrow> ''UPDATE_FAILED'')"

section \<open>The parts of an update\<close>

definition runCompose :: "update_context \<Rightarrow> update_call \<Rightarrow> update_step" where
  "runCompose c args = steps
     [reading (\<lambda>st. steps
        [await c args,
         if x_exitCode c (us_trace st) args \<noteq> 0 then throws Execution_error else steps []])]"

text \<open>\<open>docker compose up\<close> reads the installed files; it may change the running service even when it fails.\<close>

definition restartService :: "update_context \<Rightarrow> update_step" where
  "restartService c = steps
     [assign (\<lambda>st. st\<lparr>us_trace := us_trace st @ [Restart (uo_phase (us_operation st)) (us_env st) (us_compose st)]\<rparr>),
      runCompose c Compose_up,
      assign (\<lambda>st. st\<lparr>us_trace := us_trace st @ [Restarted (uo_phase (us_operation st))]\<rparr>)]"

definition downloadTargetCompose :: "update_context \<Rightarrow> runner_input \<Rightarrow> update_step" where
  "downloadTargetCompose c input = steps
     [await c Fetch_compose,
      (case x_targetCompose c of
         None \<Rightarrow> throws Validation_error
       | Some content \<Rightarrow>
           if x_sha256 c content \<noteq> ri_targetComposeSha256 input then throws Validation_error
           else assign (\<lambda>st. st\<lparr>us_targetCompose := content\<rparr>))]"

datatype poll_result = Poll_ready | Poll_failed | Poll_again

definition poll_health :: "update_context \<Rightarrow> string \<Rightarrow> bool \<Rightarrow> update_state \<Rightarrow> poll_result \<times> update_state" where
  "poll_health c expectedVersion requireStartupValidation st =
     (case await c Fetch_health st of
        (Some _, st1) \<Rightarrow> (Poll_again, st1)
      | (None, st1) \<Rightarrow>
          (case x_health c (us_trace st) of
             Health_unavailable \<Rightarrow> (Poll_again, st1)
           | Health_version v \<Rightarrow>
               if v \<noteq> Some expectedVersion then (Poll_again, st1)
               else if \<not> requireStartupValidation then (Poll_ready, st1)
               else (case await c Read_validation st1 of
                       (Some _, st2) \<Rightarrow> (Poll_again, st2)
                     | (None, st2) \<Rightarrow>
                         (case us_validation st2 (x_operationId c) of
                            None \<Rightarrow> (Poll_again, st2)
                          | Some validation \<Rightarrow>
                              if sval_version validation = expectedVersion \<and> sval_ok validation then (Poll_ready, st2)
                              else if sval_version validation = expectedVersion then (Poll_failed, st2)
                              else (Poll_again, st2)))))"

text \<open>\<open>sleep(POLL_MS)\<close>: a timer does not fire early and does not throw.\<close>

definition poll_pause :: "update_context \<Rightarrow> update_state \<Rightarrow> update_state" where
  "poll_pause c st = (let st' = snd (await c Sleep_poll st) in st'\<lparr>us_now := us_now st' + POLL_MS\<rparr>)"

lemma recorded_fixes:
  "us_now (fst (recordPlatformUpdateStartupValidation v k m st)) = us_now st"
  "us_trace (fst (recordPlatformUpdateStartupValidation v k m st)) = us_trace st"
  by (simp_all add: recordPlatformUpdateStartupValidation_def split: option.splits)

lemma act_fixes: "us_now (act a st) = us_now st" "us_trace (act a st) = us_trace st"
  by (cases a; simp add: recorded_fixes)+

lemma acts_fix: "us_now (fold act as st) = us_now st \<and> us_trace (fold act as st) = us_trace st"
  by (induction as arbitrary: st) (auto simp: act_fixes)

lemma await_now: "us_now st \<le> us_now (snd (await c k st))"
  by (simp add: await_def Let_def acts_fix)

lemma poll_now: "us_now st \<le> us_now (snd (poll_health c v r st))"
proof -
  have "us_now st \<le> us_now (snd (await c Read_validation (snd (await c Fetch_health st))))"
    using await_now [of st c Fetch_health] await_now [of "snd (await c Fetch_health st)" c Read_validation] by linarith
  then show ?thesis using await_now [of st c Fetch_health]
    by (auto simp: poll_health_def split: prod.splits option.splits health_answer.splits)
qed

function wait_for_version :: "update_context \<Rightarrow> string \<Rightarrow> bool \<Rightarrow> int \<Rightarrow> update_state \<Rightarrow> update_error option \<times> update_state" where
  "wait_for_version c expectedVersion requireStartupValidation deadline st =
     (if us_now st < deadline
      then (case poll_health c expectedVersion requireStartupValidation st of
              (Poll_ready, st') \<Rightarrow> (None, st'\<lparr>us_trace := us_trace st' @ [Healthy expectedVersion]\<rparr>)
            | (Poll_failed, st') \<Rightarrow> (Some Validation_error, st')
            | (Poll_again, st') \<Rightarrow> wait_for_version c expectedVersion requireStartupValidation deadline (poll_pause c st'))
      else (Some Validation_error, st))"
  by auto
termination
proof (relation "measure (\<lambda>(c, v, r, d, st). nat (d - us_now st))", goal_cases)
  case (2 c v r d st pr st')
  then have "us_now st \<le> us_now st'" using poll_now [of st c v r] by (metis snd_conv)
  then have "us_now st < us_now (poll_pause c st')"
    using await_now [of st' c Sleep_poll] by (simp add: poll_pause_def Let_def POLL_MS_def)
  with 2 show ?case by simp
qed simp

declare wait_for_version.simps [simp del]

definition waitForVersion :: "update_context \<Rightarrow> string \<Rightarrow> bool \<Rightarrow> update_step" where
  "waitForVersion c expectedVersion requireStartupValidation st =
     wait_for_version c expectedVersion requireStartupValidation (us_now st + x_healthTimeoutMs c) st"

definition backupInstallation :: "update_context \<Rightarrow> update_step" where
  "backupInstallation c = steps
     [await c Make_backup_dir, await c Stat_env,
      reading (\<lambda>st. let environmentExisted = us_env st \<noteq> None in steps
        [if environmentExisted then steps [await c Copy_env, assign (\<lambda>st. st\<lparr>us_backup_env := us_env st\<rparr>)] else steps [],
         await c Copy_compose,
         (case us_compose st of None \<Rightarrow> throws Other_error | Some content \<Rightarrow> assign (\<lambda>st. st\<lparr>us_backup_compose := Some content\<rparr>)),
         await c Dump_database, await c Write_metadata,
         assign (\<lambda>st. st\<lparr>us_backupComplete := True, us_environmentExisted := environmentExisted\<rparr>)])]"

definition writeEnvironment :: "update_context \<Rightarrow> string \<Rightarrow> string \<Rightarrow> update_environment \<Rightarrow> update_step" where
  "writeEnvironment c content img composeEnvironment =
     (case persistOpenLanderComposeEnvironment content img composeEnvironment of
        Inl _ \<Rightarrow> throws Validation_error
      | Inr updated \<Rightarrow> steps [await c Write_env, assign (\<lambda>st. st\<lparr>us_env := Some updated\<rparr>)])"

definition restoreInstallation :: "update_context \<Rightarrow> runner_input \<Rightarrow> update_environment \<Rightarrow> update_step" where
  "restoreInstallation c input composeEnvironment = reading (\<lambda>st. steps
     [if us_environmentExisted st
      then steps [await c Read_backup_env,
             (case us_backup_env st of None \<Rightarrow> throws Other_error | Some content \<Rightarrow> writeEnvironment c content (ri_sourceImage input) composeEnvironment)]
      else writeEnvironment c [] (ri_sourceImage input) composeEnvironment,
      await c Read_backup_compose,
      (case us_backup_compose st of
         None \<Rightarrow> throws Other_error
       | Some content \<Rightarrow> steps [await c Write_compose, assign (\<lambda>st. st\<lparr>us_compose := Some content\<rparr>)])])"

definition pruneOldBackups :: "(string \<times> int) list \<Rightarrow> string list" where
  "pruneOldBackups candidates = map fst (drop 3 (sort_key (\<lambda>(name, modifiedAt). - modifiedAt) candidates))"

definition RETENTION_WARNING :: string where
  "RETENTION_WARNING = ''The update finished, but older backup directories could not be pruned.''"

text \<open>\<open>pruneOldBackupsForTerminalState\<close>, followed by the transition that gets its warning.\<close>

definition finishPhase :: "update_context \<Rightarrow> update_phase \<Rightarrow> (string option \<Rightarrow> string option) \<Rightarrow> string option \<Rightarrow> update_step" where
  "finishPhase c ph message errorCode st =
     (case steps [await c Prune_backups, assign (\<lambda>st'. st'\<lparr>us_trace := us_trace st' @ [Pruned (pruneOldBackups (x_backups c (us_trace st)))]\<rparr>)] st of
        (None, st') \<Rightarrow> transition_to c ph (message None) errorCode st'
      | (Some _, st') \<Rightarrow> transition_to c ph (message (Some RETENTION_WARNING)) errorCode st')"

section \<open>The update\<close>

definition target_reference :: "runner_input \<Rightarrow> string" where
  "target_reference input = ri_targetImage input @ ''@'' @ ri_targetDigest input"

definition update_prepare :: "update_context \<Rightarrow> runner_input \<Rightarrow> update_step" where
  "update_prepare c input = steps
     [transition_to c Preparing None None,
      (case readComposeEnvironment (x_environment c) of
         Inl _ \<Rightarrow> throws Validation_error
       | Inr env \<Rightarrow> assign (\<lambda>st. st\<lparr>us_composeEnvironment := Some env\<rparr>)),
      downloadTargetCompose c input,
      transition_to c Backing_up None None,
      backupInstallation c]"

definition update_pull :: "update_context \<Rightarrow> runner_input \<Rightarrow> update_step" where
  "update_pull c input = steps
     [transition_to c Pulling None None,
      await c Pull_image, await c Inspect_image,
      if list_ex (\<lambda>digest. ends_with (''@'' @ ri_targetDigest input) digest) (x_repoDigests c)
      then assign (\<lambda>st. st\<lparr>us_trace := us_trace st @ [Pulled (target_reference input)]\<rparr>)
      else throws Validation_error]"

definition update_install :: "update_context \<Rightarrow> runner_input \<Rightarrow> update_step" where
  "update_install c input = steps
     [reading (\<lambda>st.
        if us_environmentExisted st
        then steps [await c Read_env,
               (case us_env st of None \<Rightarrow> throws Other_error
                | Some content \<Rightarrow> writeEnvironment c content (target_reference input) (the (us_composeEnvironment st)))]
        else writeEnvironment c [] (target_reference input) (the (us_composeEnvironment st))),
      assign (\<lambda>st. st\<lparr>us_filesChanged := True\<rparr>),
      await c Write_compose,
      assign (\<lambda>st. st\<lparr>us_compose := Some (us_targetCompose st)\<rparr>),
      runCompose c Compose_config]"

definition update_restart :: "update_context \<Rightarrow> runner_input \<Rightarrow> update_step" where
  "update_restart c input = steps
     [transition_to c Restarting None None,
      restartService c,
      transition_to c Verifying None None,
      waitForVersion c (ri_targetVersion input) True,
      finishPhase c Completed (\<lambda>warning. warning) None]"

definition ROLLBACK_MESSAGE :: string where
  "ROLLBACK_MESSAGE = ''The previous version was restored. Review the update error before retrying.''"

definition update_rollback :: "update_context \<Rightarrow> runner_input \<Rightarrow> string \<Rightarrow> update_step" where
  "update_rollback c input failureCode = steps
     [transition_to c Rolling_back (Some ''Update verification failed; restoring the previous version.'') (Some failureCode),
      reading (\<lambda>st. case us_composeEnvironment st of
         None \<Rightarrow> throws Validation_error
       | Some env \<Rightarrow> restoreInstallation c input env),
      runCompose c Compose_config,
      restartService c,
      waitForVersion c (ri_sourceVersion input) True,
      finishPhase c Rolled_back
        (\<lambda>warning. Some (case warning of None \<Rightarrow> ROLLBACK_MESSAGE | Some w \<Rightarrow> ROLLBACK_MESSAGE @ '' '' @ w)) (Some failureCode)]"

definition update_recover :: "update_context \<Rightarrow> runner_input \<Rightarrow> update_error \<Rightarrow> update_step" where
  "update_recover c input error = reading (\<lambda>st.
     if us_backupComplete st \<and> us_filesChanged st
     then attempt (update_rollback c input (publicFailureCode error))
            (\<lambda>_. transition_to c Update_failed
               (Some ''The update and automatic rollback both failed. Manual recovery is required.'') (Some ''UPDATE_ROLLBACK_FAILED''))
     else transition_to c Update_failed (Some ''The update stopped before OpenLander was replaced.'') (Some (publicFailureCode error)))"

definition update_start :: "update_context \<Rightarrow> update_step" where
  "update_start c = steps
     [await c Read_input,
      if x_input c = None then throws Validation_error else steps [],
      await c Read_status,
      reading (\<lambda>st. case us_status st of
         None \<Rightarrow> throws Validation_error
       | Some stored \<Rightarrow> if uo_id stored \<noteq> x_operationId c then throws Validation_error
           else assign (\<lambda>st. st\<lparr>us_operation := stored, us_backupComplete := False, us_environmentExisted := False,
                  us_filesChanged := False, us_composeEnvironment := None\<rparr>))]"

definition update_try :: "update_context \<Rightarrow> runner_input \<Rightarrow> update_step" where
  "update_try c input = attempt (steps [update_prepare c input, update_pull c input, update_install c input, update_restart c input])
     (update_recover c input)"

definition runPlatformUpdate :: "update_context \<Rightarrow> update_step" where
  "runPlatformUpdate c = steps [update_start c, update_try c (the (x_input c))]"

end
