(* ===== verification/Update_Runner_Props.thy ===== *)
theory Update_Runner_Props
  imports Update_Runner
begin

text \<open>
  What a platform update leaves behind, however its calls fail and whatever the server and the restarted process write meanwhile.
  The facts about files and backups pass every awaited call (\<open>calm\<close>); the stages of an update are predicates
  from \<open>untouched\<close> to \<open>completed\<close> and \<open>restored\<close>.
\<close>

section \<open>What no awaited call changes\<close>

definition calm :: "(update_state \<Rightarrow> bool) \<Rightarrow> bool" where
  "calm P \<longleftrightarrow> (\<forall>st a. P st \<longrightarrow> P (act a st)) \<and> (\<forall>st n k. P st \<longrightarrow> P (st\<lparr>us_now := n, us_trace := us_trace st @ [Call k]\<rparr>))
     \<and> (\<forall>st n. P st \<longrightarrow> P (st\<lparr>us_now := n\<rparr>))"

text \<open>The same for a transition, whose phase is one of a set.\<close>

definition calm_for :: "update_phase set \<Rightarrow> (update_state \<Rightarrow> bool) \<Rightarrow> bool" where
  "calm_for phs P \<longleftrightarrow> calm P \<and> (\<forall>st x. P st \<longrightarrow> P (st\<lparr>us_operation := x\<rparr>))
     \<and> (\<forall>st x ph. ph \<in> phs \<longrightarrow> P st \<longrightarrow> P (st\<lparr>us_status := x, us_trace := us_trace st @ [Phase ph]\<rparr>))"

lemma recorded_keeps:
  "us_env (fst (recordPlatformUpdateStartupValidation v k m st)) = us_env st"
  "us_compose (fst (recordPlatformUpdateStartupValidation v k m st)) = us_compose st"
  "us_backup_env (fst (recordPlatformUpdateStartupValidation v k m st)) = us_backup_env st"
  "us_backup_compose (fst (recordPlatformUpdateStartupValidation v k m st)) = us_backup_compose st"
  "us_operation (fst (recordPlatformUpdateStartupValidation v k m st)) = us_operation st"
  "us_backupComplete (fst (recordPlatformUpdateStartupValidation v k m st)) = us_backupComplete st"
  "us_environmentExisted (fst (recordPlatformUpdateStartupValidation v k m st)) = us_environmentExisted st"
  "us_filesChanged (fst (recordPlatformUpdateStartupValidation v k m st)) = us_filesChanged st"
  "us_composeEnvironment (fst (recordPlatformUpdateStartupValidation v k m st)) = us_composeEnvironment st"
  "us_targetCompose (fst (recordPlatformUpdateStartupValidation v k m st)) = us_targetCompose st"
  "us_status (fst (recordPlatformUpdateStartupValidation v k m st)) = us_status st"
  by (simp_all add: recordPlatformUpdateStartupValidation_def split: option.splits)

lemma act_keeps [simp]:
  "us_env (act a st) = us_env st" "us_compose (act a st) = us_compose st"
  "us_backup_env (act a st) = us_backup_env st" "us_backup_compose (act a st) = us_backup_compose st"
  "us_operation (act a st) = us_operation st" "us_backupComplete (act a st) = us_backupComplete st"
  "us_environmentExisted (act a st) = us_environmentExisted st" "us_filesChanged (act a st) = us_filesChanged st"
  "us_composeEnvironment (act a st) = us_composeEnvironment st" "us_targetCompose (act a st) = us_targetCompose st"
  "us_trace (act a st) = us_trace st"
  by (cases a; simp add: recorded_keeps recorded_fixes)+

lemma calm_acts: "calm P \<Longrightarrow> P st \<Longrightarrow> P (fold act as st)"
  by (induction as arbitrary: st) (auto simp: calm_def)

lemma calm_await_state: "calm P \<Longrightarrow> P st \<Longrightarrow> P (snd (await c k st))"
  using calm_acts [of P st] unfolding calm_def by (simp add: await_def Let_def)

lemma preserves_await: "calm P \<Longrightarrow> preserves P (await c k)"
  unfolding preserves_def by (blast intro: calm_await_state)

lemma outcome_await: "calm P \<Longrightarrow> outcome P (await c k) P (\<lambda>_. P)"
  by (rule preserves_outcome) (rule preserves_await)

lemma preserves_transition: "calm_for phs P \<Longrightarrow> ph \<in> phs \<Longrightarrow> preserves P (transition_to c ph m e)"
  unfolding transition_to_def
  by (rule preserves_steps) (auto simp: calm_for_def intro!: preserves_await preserves_assign)

lemma preserves_compose: "calm P \<Longrightarrow> preserves P (runCompose c k)"
  unfolding runCompose_def
  by (intro preserves_steps) (auto intro!: preserves_reading preserves_steps preserves_await preserves_throws)

lemma calm_pause: "calm P \<Longrightarrow> P st \<Longrightarrow> P (poll_pause c st)"
  using calm_await_state [of P st c Sleep_poll] unfolding poll_pause_def Let_def calm_def by blast

lemma calm_poll: "calm P \<Longrightarrow> P st \<Longrightarrow> poll_health c v r st = (res, st') \<Longrightarrow> P st'"
proof -
  assume P: "calm P" "P st" and r: "poll_health c v r st = (res, st')"
  obtain e1 st1 where a1: "await c Fetch_health st = (e1, st1)" by (cases "await c Fetch_health st")
  obtain e2 st2 where a2: "await c Read_validation st1 = (e2, st2)" by (cases "await c Read_validation st1")
  have P1: "P st1" using calm_await_state [OF P, of c Fetch_health] a1 by simp
  have P2: "P st2" using calm_await_state [OF P(1) P1, of c Read_validation] a2 by simp
  have "st' = st1 \<or> st' = st2"
    using r a1 a2 by (auto simp: poll_health_def split: option.splits health_answer.splits if_splits)
  then show "P st'" using P1 P2 by blast
qed

text \<open>The wait keeps what is calm, and ends well only with an event that says so.\<close>

lemma outcome_wait:
  assumes P: "calm P"
  shows "outcome P (waitForVersion c v r) (\<lambda>st. \<exists>st0. P st0 \<and> st = st0\<lparr>us_trace := us_trace st0 @ [Healthy v]\<rparr>) (\<lambda>_. P)"
proof -
  have "P st \<Longrightarrow> (case wait_for_version c v r d st of
      (None, st') \<Rightarrow> \<exists>st0. P st0 \<and> st' = st0\<lparr>us_trace := us_trace st0 @ [Healthy v]\<rparr> | (Some e, st') \<Rightarrow> P st')" for d st
  proof (induction c v r d st rule: wait_for_version.induct)
    case (1 c v r d st)
    show ?case
    proof (cases "us_now st < d")
      case True
      obtain res st' where p: "poll_health c v r st = (res, st')" by (cases "poll_health c v r st")
      have P': "P st'" by (rule calm_poll [OF P 1(2) p])
      show ?thesis
      proof (cases res)
        case Poll_again
        with 1(1) True p calm_pause [OF P P'] show ?thesis
          by (subst wait_for_version.simps) simp
      next
        case Poll_ready
        then have "wait_for_version c v r d st = (None, st'\<lparr>us_trace := us_trace st' @ [Healthy v]\<rparr>)"
          using True p by (subst wait_for_version.simps) simp
        then show ?thesis using P' by auto
      next
        case Poll_failed
        then have "wait_for_version c v r d st = (Some Validation_error, st')"
          using True p by (subst wait_for_version.simps) simp
        then show ?thesis using P' by simp
      qed
    next
      case False
      then show ?thesis using 1(2) by (subst wait_for_version.simps) simp
    qed
  qed
  then show ?thesis by (simp add: outcome_def waitForVersion_def)
qed

section \<open>The stages\<close>

definition base_text :: "string option \<Rightarrow> string" where
  "base_text e0 = (case e0 of None \<Rightarrow> [] | Some s \<Rightarrow> s)"

text \<open>The files of the target release, and the files that go back to the source release.\<close>

definition target_files :: "update_context \<Rightarrow> runner_input \<Rightarrow> string option \<Rightarrow> string option \<Rightarrow> string option \<Rightarrow> bool" where
  "target_files c i e0 env cf \<longleftrightarrow>
     (\<exists>v t content. readComposeEnvironment (x_environment c) = Inr v
        \<and> persistOpenLanderComposeEnvironment (base_text e0) (target_reference i) v = Inr t \<and> env = Some t
        \<and> x_targetCompose c = Some content \<and> x_sha256 c content = ri_targetComposeSha256 i \<and> cf = Some content)"

definition source_files :: "update_context \<Rightarrow> runner_input \<Rightarrow> string option \<Rightarrow> string option \<Rightarrow> string option \<Rightarrow> string option \<Rightarrow> bool" where
  "source_files c i e0 k0 env cf \<longleftrightarrow>
     (\<exists>v t. readComposeEnvironment (x_environment c) = Inr v
        \<and> persistOpenLanderComposeEnvironment (base_text e0) (ri_sourceImage i) v = Inr t \<and> env = Some t
        \<and> cf = k0 \<and> k0 \<noteq> None)"

definition restarts_ok :: "update_context \<Rightarrow> runner_input \<Rightarrow> string option \<Rightarrow> string option \<Rightarrow> update_event list \<Rightarrow> bool" where
  "restarts_ok c i e0 k0 tr \<longleftrightarrow>
     (\<forall>p e k. Restart p e k \<in> set tr \<longrightarrow>
        p = Restarting \<and> target_files c i e0 e k \<or> p = Rolling_back \<and> source_files c i e0 k0 e k)"

definition no_restart :: "update_event list \<Rightarrow> bool" where
  "no_restart tr \<longleftrightarrow> (\<forall>p e k. Restart p e k \<notin> set tr)"

lemma restarts_snoc:
  "restarts_ok c i e0 k0 (tr @ [Call x])  = restarts_ok c i e0 k0 tr" "restarts_ok c i e0 k0 (tr @ [Phase ph]) = restarts_ok c i e0 k0 tr"
  "restarts_ok c i e0 k0 (tr @ [Pulled y]) = restarts_ok c i e0 k0 tr" "restarts_ok c i e0 k0 (tr @ [Restarted ph]) = restarts_ok c i e0 k0 tr"
  "restarts_ok c i e0 k0 (tr @ [Healthy y]) = restarts_ok c i e0 k0 tr" "restarts_ok c i e0 k0 (tr @ [Pruned z]) = restarts_ok c i e0 k0 tr"
  "no_restart (tr @ [Call x]) = no_restart tr" "no_restart (tr @ [Phase ph]) = no_restart tr" "no_restart (tr @ [Pulled y]) = no_restart tr"
  "no_restart (tr @ [Pruned z]) = no_restart tr" "no_restart (tr @ [Healthy y]) = no_restart tr" "no_restart (tr @ [Restarted ph]) = no_restart tr"
  by (auto simp: restarts_ok_def no_restart_def)

lemma restarts_restart:
  "restarts_ok c i e0 k0 (tr @ [Restart p e k]) \<longleftrightarrow> restarts_ok c i e0 k0 tr \<and>
     (p = Restarting \<and> target_files c i e0 e k \<or> p = Rolling_back \<and> source_files c i e0 k0 e k)"
  by (auto simp: restarts_ok_def)

lemma no_restart_ok: "no_restart tr \<Longrightarrow> restarts_ok c i e0 k0 tr"
  by (simp add: no_restart_def restarts_ok_def)

definition untouched :: "update_context \<Rightarrow> string option \<Rightarrow> string option \<Rightarrow> update_state \<Rightarrow> bool" where
  "untouched c e0 k0 st \<longleftrightarrow> us_env st = e0 \<and> us_compose st = k0 \<and> \<not> us_filesChanged st \<and> no_restart (us_trace st)"

definition settings_read :: "update_context \<Rightarrow> update_state \<Rightarrow> bool" where
  "settings_read c st \<longleftrightarrow> (\<exists>v. readComposeEnvironment (x_environment c) = Inr v \<and> us_composeEnvironment st = Some v)"

definition compose_fetched :: "update_context \<Rightarrow> runner_input \<Rightarrow> update_state \<Rightarrow> bool" where
  "compose_fetched c i st \<longleftrightarrow> x_targetCompose c = Some (us_targetCompose st) \<and> x_sha256 c (us_targetCompose st) = ri_targetComposeSha256 i"

definition backed_up :: "string option \<Rightarrow> string option \<Rightarrow> update_state \<Rightarrow> bool" where
  "backed_up e0 k0 st \<longleftrightarrow> us_backupComplete st \<and> us_environmentExisted st = (e0 \<noteq> None)
     \<and> (e0 \<noteq> None \<longrightarrow> us_backup_env st = e0) \<and> us_backup_compose st = k0 \<and> k0 \<noteq> None"

definition changed :: "update_context \<Rightarrow> runner_input \<Rightarrow> string option \<Rightarrow> string option \<Rightarrow> update_state \<Rightarrow> bool" where
  "changed c i e0 k0 st \<longleftrightarrow> settings_read c st \<and> backed_up e0 k0 st \<and> us_filesChanged st \<and> restarts_ok c i e0 k0 (us_trace st)"

definition installed :: "update_context \<Rightarrow> runner_input \<Rightarrow> string option \<Rightarrow> string option \<Rightarrow> update_state \<Rightarrow> bool" where
  "installed c i e0 k0 st \<longleftrightarrow> target_files c i e0 (us_env st) (us_compose st) \<and> Pulled (target_reference i) \<in> set (us_trace st)"

definition restored :: "update_context \<Rightarrow> runner_input \<Rightarrow> string option \<Rightarrow> string option \<Rightarrow> update_state \<Rightarrow> bool" where
  "restored c i e0 k0 st \<longleftrightarrow> source_files c i e0 k0 (us_env st) (us_compose st)"

lemmas stage_defs = untouched_def settings_read_def compose_fetched_def backed_up_def changed_def installed_def restored_def

text \<open>Being in a phase is calm: the others write \<open>status.json\<close>, not the runner's variable.\<close>

definition in_phase :: "update_phase \<Rightarrow> update_state \<Rightarrow> bool" where
  "in_phase ph st \<longleftrightarrow> uo_phase (us_operation st) = ph"

lemma calm_stages:
  "calm_for UNIV (untouched c e0 k0)" "calm_for UNIV (settings_read c)" "calm_for UNIV (compose_fetched c i)" "calm_for UNIV (backed_up e0 k0)"
  "calm_for UNIV (changed c i e0 k0)" "calm_for UNIV (installed c i e0 k0)" "calm_for UNIV (restored c i e0 k0)" "calm (in_phase ph)"
  "calm_for UNIV (\<lambda>st. Restarted ph \<in> set (us_trace st))" "calm_for UNIV (\<lambda>st. Healthy v \<in> set (us_trace st))"
  "calm_for UNIV (\<lambda>st. restarts_ok c i e0 k0 (us_trace st))"
  by (auto simp: calm_for_def calm_def stage_defs in_phase_def restarts_snoc)

lemma calm_conj: "calm P \<Longrightarrow> calm Q \<Longrightarrow> calm (\<lambda>st. P st \<and> Q st)"
  by (simp add: calm_def)

lemma calm_for_conj: "calm_for A P \<Longrightarrow> calm_for A Q \<Longrightarrow> calm_for A (\<lambda>st. P st \<and> Q st)"
  by (simp add: calm_for_def calm_def)

lemma calm_for_calm: "calm_for A P \<Longrightarrow> calm P"
  by (simp add: calm_for_def)

text \<open>What \<open>status.json\<close> says right after a transition.\<close>

definition reports :: "update_phase \<Rightarrow> string option \<Rightarrow> update_state \<Rightarrow> bool" where
  "reports ph e st \<longleftrightarrow> (\<exists>op. us_status st = Some op \<and> uo_phase op = ph \<and> uo_errorCode op = e) \<and> us_trace st \<noteq> [] \<and> last (us_trace st) = Phase ph"

definition marked :: "update_phase \<Rightarrow> string option \<Rightarrow> update_state \<Rightarrow> bool" where
  "marked ph e st \<longleftrightarrow> uo_phase (us_operation st) = ph \<and> uo_errorCode (us_operation st) = e"

lemma calm_marked: "calm (marked ph e)"
  by (auto simp: calm_def marked_def)

lemma outcome_transition:
  assumes P: "calm_for UNIV P"
  shows "outcome P (transition_to c ph m e) (\<lambda>st. P st \<and> in_phase ph st \<and> reports ph e st) (\<lambda>_. P)"
proof -
  have calm: "calm P" using P by (rule calm_for_calm)
  have reading_ok: "P (st\<lparr>us_operation := x\<rparr>)" if "P st" for st x using P that by (simp add: calm_for_def)
  have written: "P (st\<lparr>us_status := x, us_trace := us_trace st @ [Phase ph]\<rparr>)" if "P st" for st x using P that by (simp add: calm_for_def)
  have two: "calm (\<lambda>st. P st \<and> marked ph e st)" by (rule calm_conj [OF calm calm_marked])
  show ?thesis
    unfolding transition_to_def
    apply (rule outcome_Cons [OF outcome_await [OF calm]])
    apply (rule outcome_Cons [of _ _ "\<lambda>st. P st \<and> marked ph e st"])
     apply (rule outcome_assign) subgoal using reading_ok by (auto simp: marked_def)
    apply (rule outcome_Cons)
     apply (rule outcome_weaken [OF outcome_await [OF two]]) apply assumption apply assumption apply blast
    apply (rule outcome_Cons [of _ _ "\<lambda>st. P st \<and> in_phase ph st \<and> reports ph e st"])
     apply (rule outcome_assign) subgoal using written by (auto simp: in_phase_def marked_def reports_def)
    apply (rule outcome_Nil) apply assumption
    done
qed

lemma await_then: "calm P \<Longrightarrow> (\<And>st. P st \<Longrightarrow> U st) \<Longrightarrow> outcome P (await c k) P (\<lambda>_. U)"
  by (rule outcome_weaken [OF outcome_await [of P]]) auto

lemma transition_then: "calm_for UNIV P \<Longrightarrow> (\<And>st. P st \<Longrightarrow> U st) \<Longrightarrow> outcome P (transition_to c ph m e) P (\<lambda>_. U)"
  by (rule outcome_weaken [OF outcome_transition [of P]]) auto

lemma compose_then: "calm P \<Longrightarrow> (\<And>st. P st \<Longrightarrow> U st) \<Longrightarrow> outcome P (runCompose c k) P (\<lambda>_. U)"
  by (rule outcome_weaken [OF preserves_outcome [OF preserves_compose [of P]]]) auto

lemma skip_then: "(\<And>st. P st \<Longrightarrow> Q st) \<Longrightarrow> outcome P (steps []) Q E"
  by (rule outcome_Nil)

lemma calm_untouched [simp]: "calm (untouched c e0 k0)" "calm (\<lambda>st. untouched c e0 k0 st \<and> settings_read c st)"
  "calm (\<lambda>st. untouched c e0 k0 st \<and> settings_read c st \<and> compose_fetched c i st)"
  "calm_for UNIV (\<lambda>st. untouched c e0 k0 st \<and> settings_read c st \<and> compose_fetched c i st)"
  by (intro calm_conj calm_for_conj calm_for_calm [OF calm_stages(1)] calm_for_calm [OF calm_stages(2)]
      calm_for_calm [OF calm_stages(3)] calm_stages)+

lemma outcome_download:
  "outcome (\<lambda>st. untouched c e0 k0 st \<and> settings_read c st) (downloadTargetCompose c i)
     (\<lambda>st. untouched c e0 k0 st \<and> settings_read c st \<and> compose_fetched c i st) (\<lambda>_. untouched c e0 k0)"
  unfolding downloadTargetCompose_def
  apply (rule outcome_Cons [OF await_then]) apply simp apply blast
  apply (rule outcome_Cons) prefer 2 apply (rule outcome_Nil) apply assumption
  by (cases "x_targetCompose c") (auto intro!: outcome_throws outcome_assign simp: stage_defs)

lemma outcome_backup:
  "outcome (\<lambda>st. untouched c e0 k0 st \<and> settings_read c st \<and> compose_fetched c i st) (backupInstallation c)
     (\<lambda>st. (untouched c e0 k0 st \<and> settings_read c st \<and> compose_fetched c i st) \<and> backed_up e0 k0 st) (\<lambda>_. untouched c e0 k0)"
proof -
  let ?P = "\<lambda>st. untouched c e0 k0 st \<and> settings_read c st \<and> compose_fetched c i st"
  let ?E = "\<lambda>st. e0 \<noteq> None \<longrightarrow> us_backup_env st = e0" and ?K = "\<lambda>st. us_backup_compose st = k0 \<and> k0 \<noteq> None"
  have c1: "calm (\<lambda>st. ?P st \<and> ?E st)" and c2: "calm (\<lambda>st. (?P st \<and> ?E st) \<and> ?K st)"
    by (auto simp: calm_def stage_defs restarts_snoc)
  have env: "outcome ?P (if us_env s \<noteq> None then steps [await c Copy_env, assign (\<lambda>st. st\<lparr>us_backup_env := us_env st\<rparr>)] else steps [])
     (\<lambda>st. ?P st \<and> ?E st) (\<lambda>_. untouched c e0 k0)" if s: "?P s" for s
  proof (cases "us_env s")
    case None
    with s have "e0 = None" by (simp add: untouched_def)
    with None show ?thesis by (auto intro!: outcome_Nil)
  next
    case (Some y)
    have "outcome ?P (steps [await c Copy_env, assign (\<lambda>st. st\<lparr>us_backup_env := us_env st\<rparr>)]) (\<lambda>st. ?P st \<and> ?E st) (\<lambda>_. untouched c e0 k0)"
      apply (rule outcome_Cons [OF await_then]) apply simp apply blast
      apply (rule outcome_Cons [OF outcome_assign]) prefer 2 apply (rule outcome_Nil) apply assumption
      by (auto simp: stage_defs)
    with Some show ?thesis by simp
  qed
  have copy: "outcome (\<lambda>st. ?P st \<and> ?E st)
      (case us_compose s of None \<Rightarrow> throws Other_error | Some content \<Rightarrow> assign (\<lambda>st. st\<lparr>us_backup_compose := Some content\<rparr>))
      (\<lambda>st. (?P st \<and> ?E st) \<and> ?K st) (\<lambda>_. untouched c e0 k0)" if s: "?P s" for s
  proof -
    from s have k: "us_compose s = k0" by (simp add: untouched_def)
    show ?thesis unfolding k
      by (cases k0) (auto intro!: outcome_throws outcome_assign simp: stage_defs)
  qed
  have rest: "outcome ?P (steps
        [if us_env s \<noteq> None then steps [await c Copy_env, assign (\<lambda>st. st\<lparr>us_backup_env := us_env st\<rparr>)] else steps [],
         await c Copy_compose,
         (case us_compose s of None \<Rightarrow> throws Other_error | Some content \<Rightarrow> assign (\<lambda>st. st\<lparr>us_backup_compose := Some content\<rparr>)),
         await c Dump_database, await c Write_metadata,
         assign (\<lambda>st. st\<lparr>us_backupComplete := True, us_environmentExisted := us_env s \<noteq> None\<rparr>)])
      (\<lambda>st. ?P st \<and> backed_up e0 k0 st) (\<lambda>_. untouched c e0 k0)" if s: "?P s" for s
    apply (rule outcome_Cons [OF env [OF s]])
    apply (rule outcome_Cons [OF await_then [OF c1]]) apply blast
    apply (rule outcome_Cons [OF copy [OF s]])
    apply (rule outcome_Cons [OF await_then [OF c2]]) apply blast
    apply (rule outcome_Cons [OF await_then [OF c2]]) apply blast
    apply (rule outcome_Cons [OF outcome_assign]) prefer 2 apply (rule outcome_Nil) apply assumption
    using s by (auto simp: stage_defs)
  show ?thesis
    unfolding backupInstallation_def Let_def
    apply (rule outcome_Cons [OF await_then]) apply simp apply blast
    apply (rule outcome_Cons [OF await_then]) apply simp apply blast
    apply (rule outcome_Cons [OF outcome_reading]) prefer 2 apply (rule outcome_Nil) apply assumption
    subgoal for s by (rule outcome_weaken [OF rest [of s]]) auto
    done
qed

lemma outcome_settings:
  "outcome (untouched c e0 k0)
     (case readComposeEnvironment (x_environment c) of
        Inl _ \<Rightarrow> throws Validation_error | Inr env \<Rightarrow> assign (\<lambda>st. st\<lparr>us_composeEnvironment := Some env\<rparr>))
     (\<lambda>st. untouched c e0 k0 st \<and> settings_read c st) (\<lambda>_. untouched c e0 k0)"
  by (cases "readComposeEnvironment (x_environment c)") (auto intro!: outcome_throws outcome_assign simp: stage_defs)

lemma outcome_prepare:
  "outcome (untouched c e0 k0) (update_prepare c i)
     (\<lambda>st. (untouched c e0 k0 st \<and> settings_read c st \<and> compose_fetched c i st) \<and> backed_up e0 k0 st) (\<lambda>_. untouched c e0 k0)"
  unfolding update_prepare_def
  apply (rule outcome_Cons [OF transition_then [OF calm_stages(1)]]) apply assumption
  apply (rule outcome_Cons [OF outcome_settings])
  apply (rule outcome_Cons [OF outcome_download])
  apply (rule outcome_Cons [OF transition_then]) apply simp apply blast
  apply (rule outcome_Cons [OF outcome_backup])
  apply (rule outcome_Nil) apply assumption
  done

definition prepared :: "update_context \<Rightarrow> runner_input \<Rightarrow> string option \<Rightarrow> string option \<Rightarrow> update_state \<Rightarrow> bool" where
  "prepared c i e0 k0 st \<longleftrightarrow> (untouched c e0 k0 st \<and> settings_read c st \<and> compose_fetched c i st) \<and> backed_up e0 k0 st"

definition pulled :: "update_context \<Rightarrow> runner_input \<Rightarrow> string option \<Rightarrow> string option \<Rightarrow> update_state \<Rightarrow> bool" where
  "pulled c i e0 k0 st \<longleftrightarrow> prepared c i e0 k0 st \<and> Pulled (target_reference i) \<in> set (us_trace st)"

lemma calm_prepared: "calm_for UNIV (prepared c i e0 k0)" "calm_for UNIV (pulled c i e0 k0)"
  by (auto simp: calm_for_def calm_def stage_defs prepared_def pulled_def restarts_snoc)

lemma prepared_untouched: "prepared c i e0 k0 st \<Longrightarrow> untouched c e0 k0 st"
  by (simp add: prepared_def)

lemma pulled_untouched: "pulled c i e0 k0 st \<Longrightarrow> untouched c e0 k0 st"
  by (simp add: pulled_def prepared_def)

lemma outcome_pull: "outcome (prepared c i e0 k0) (update_pull c i) (pulled c i e0 k0) (\<lambda>_. untouched c e0 k0)"
  unfolding update_pull_def
  apply (rule outcome_Cons [OF transition_then [OF calm_prepared(1) prepared_untouched]]) apply assumption
  apply (rule outcome_Cons [OF await_then [OF calm_for_calm [OF calm_prepared(1)] prepared_untouched]]) apply assumption
  apply (rule outcome_Cons [OF await_then [OF calm_for_calm [OF calm_prepared(1)] prepared_untouched]]) apply assumption
  apply (rule outcome_Cons) prefer 2 apply (rule outcome_Nil) apply assumption
  by (auto intro!: outcome_throws outcome_assign simp: pulled_def prepared_def stage_defs restarts_snoc)

text \<open>Between the writing of \<open>.env\<close> and the flag that says so nothing can fail.\<close>

definition env_written :: "update_context \<Rightarrow> runner_input \<Rightarrow> string option \<Rightarrow> string option \<Rightarrow> update_state \<Rightarrow> bool" where
  "env_written c i e0 k0 st \<longleftrightarrow> settings_read c st \<and> compose_fetched c i st \<and> backed_up e0 k0 st \<and> no_restart (us_trace st)
     \<and> Pulled (target_reference i) \<in> set (us_trace st)
     \<and> (\<exists>v t. readComposeEnvironment (x_environment c) = Inr v
          \<and> persistOpenLanderComposeEnvironment (base_text e0) (target_reference i) v = Inr t \<and> us_env st = Some t)"

definition failed_safe :: "update_context \<Rightarrow> runner_input \<Rightarrow> string option \<Rightarrow> string option \<Rightarrow> update_state \<Rightarrow> bool" where
  "failed_safe c i e0 k0 st \<longleftrightarrow> untouched c e0 k0 st \<or> changed c i e0 k0 st"

lemma failed_safeI: "untouched c e0 k0 st \<Longrightarrow> failed_safe c i e0 k0 st" "changed c i e0 k0 st \<Longrightarrow> failed_safe c i e0 k0 st"
  by (simp_all add: failed_safe_def)

lemma outcome_write_target:
  assumes "content = base_text e0" and "readComposeEnvironment (x_environment c) = Inr v"
  shows "outcome (pulled c i e0 k0) (writeEnvironment c content (target_reference i) v) (env_written c i e0 k0) (\<lambda>_. failed_safe c i e0 k0)"
proof (cases "persistOpenLanderComposeEnvironment content (target_reference i) v")
  case (Inl e)
  then show ?thesis by (auto simp: writeEnvironment_def intro!: outcome_throws failed_safeI(1) pulled_untouched)
next
  case (Inr t)
  have "outcome (pulled c i e0 k0) (steps [await c Write_env, assign (\<lambda>st. st\<lparr>us_env := Some t\<rparr>)]) (env_written c i e0 k0) (\<lambda>_. failed_safe c i e0 k0)"
    apply (rule outcome_Cons [OF await_then [OF calm_for_calm [OF calm_prepared(2)]]])
     apply (rule failed_safeI(1), erule pulled_untouched)
    apply (rule outcome_Cons [OF outcome_assign]) prefer 2 apply (rule outcome_Nil) apply assumption
    using assms Inr by (auto simp: pulled_def prepared_def env_written_def stage_defs)
  with Inr show ?thesis by (simp add: writeEnvironment_def)
qed

lemma outcome_env:
  "outcome (pulled c i e0 k0)
     (reading (\<lambda>st.
        if us_environmentExisted st
        then steps [await c Read_env,
               (case us_env st of None \<Rightarrow> throws Other_error
                | Some content \<Rightarrow> writeEnvironment c content (target_reference i) (the (us_composeEnvironment st)))]
        else writeEnvironment c [] (target_reference i) (the (us_composeEnvironment st))))
     (env_written c i e0 k0) (\<lambda>_. failed_safe c i e0 k0)"
proof (rule outcome_reading)
  fix s assume s: "pulled c i e0 k0 s"
  then obtain v where v: "readComposeEnvironment (x_environment c) = Inr v" "us_composeEnvironment s = Some v"
    by (auto simp: pulled_def prepared_def settings_read_def)
  from s have e: "us_env s = e0" "us_environmentExisted s = (e0 \<noteq> None)"
    by (auto simp: pulled_def prepared_def stage_defs)
  have "outcome (pulled c i e0 k0) (if us_environmentExisted s
        then steps [await c Read_env,
               (case us_env s of None \<Rightarrow> throws Other_error
                | Some content \<Rightarrow> writeEnvironment c content (target_reference i) (the (us_composeEnvironment s)))]
        else writeEnvironment c [] (target_reference i) (the (us_composeEnvironment s))) (env_written c i e0 k0) (\<lambda>_. failed_safe c i e0 k0)"
  proof (cases e0)
    case None
    then show ?thesis using e v outcome_write_target [of "[]" e0 c v i k0] by (simp add: base_text_def)
  next
    case (Some y)
    have "outcome (pulled c i e0 k0) (steps [await c Read_env, writeEnvironment c y (target_reference i) v]) (env_written c i e0 k0) (\<lambda>_. failed_safe c i e0 k0)"
      apply (rule outcome_Cons [OF await_then [OF calm_for_calm [OF calm_prepared(2)]]])
       apply (rule failed_safeI(1), erule pulled_untouched)
      apply (rule outcome_Cons [OF outcome_write_target outcome_Nil]) using Some v by (auto simp: base_text_def)
    then show ?thesis using Some e v by simp
  qed
  then show "outcome (\<lambda>st. pulled c i e0 k0 st \<and> st = s) (if us_environmentExisted s
        then steps [await c Read_env,
               (case us_env s of None \<Rightarrow> throws Other_error
                | Some content \<Rightarrow> writeEnvironment c content (target_reference i) (the (us_composeEnvironment s)))]
        else writeEnvironment c [] (target_reference i) (the (us_composeEnvironment s))) (env_written c i e0 k0) (\<lambda>_. failed_safe c i e0 k0)"
    by (rule outcome_weaken) auto
qed

definition env_changed :: "update_context \<Rightarrow> runner_input \<Rightarrow> string option \<Rightarrow> string option \<Rightarrow> update_state \<Rightarrow> bool" where
  "env_changed c i e0 k0 st \<longleftrightarrow> env_written c i e0 k0 st \<and> us_filesChanged st"

lemma env_changed_changed: "env_changed c i e0 k0 st \<Longrightarrow> changed c i e0 k0 st"
  by (auto simp: env_changed_def env_written_def changed_def no_restart_ok)

lemma calm_env_changed: "calm_for UNIV (env_changed c i e0 k0)"
  by (auto simp: calm_for_def calm_def stage_defs env_changed_def env_written_def restarts_snoc)

definition in_place :: "update_context \<Rightarrow> runner_input \<Rightarrow> string option \<Rightarrow> string option \<Rightarrow> update_state \<Rightarrow> bool" where
  "in_place c i e0 k0 st \<longleftrightarrow> changed c i e0 k0 st \<and> installed c i e0 k0 st"

lemma calm_in_place: "calm_for UNIV (in_place c i e0 k0)"
  unfolding in_place_def by (intro calm_for_conj calm_stages)

lemma in_place_changed: "in_place c i e0 k0 st \<Longrightarrow> changed c i e0 k0 st"
  by (simp add: in_place_def)

lemma outcome_install: "outcome (pulled c i e0 k0) (update_install c i) (in_place c i e0 k0) (\<lambda>_. failed_safe c i e0 k0)"
  unfolding update_install_def
  apply (rule outcome_Cons [OF outcome_env])
  apply (rule outcome_Cons [of _ _ "env_changed c i e0 k0"])
   apply (rule outcome_assign) subgoal by (auto simp: env_changed_def env_written_def stage_defs)
  apply (rule outcome_Cons [OF await_then [OF calm_for_calm [OF calm_env_changed]]])
   apply (rule failed_safeI(2), erule env_changed_changed)
  apply (rule outcome_Cons [of _ _ "in_place c i e0 k0"])
   apply (rule outcome_assign)
  subgoal using env_changed_changed [of c i e0 k0]
    by (auto simp: in_place_def env_changed_def env_written_def stage_defs target_files_def)
  apply (rule outcome_Cons [OF compose_then [OF calm_for_calm [OF calm_in_place]]])
   apply (rule failed_safeI(2), erule in_place_changed)
  apply (rule outcome_Nil) apply assumption
  done

text \<open>A restart in a phase: the files are those the phase is for.\<close>

lemma outcome_restart:
  assumes P: "calm_for UNIV P"
    and changed: "\<And>st. P st \<Longrightarrow> changed c i e0 k0 st"
    and files: "\<And>st. P st \<Longrightarrow> in_phase ph st \<Longrightarrow>
          ph = Restarting \<and> target_files c i e0 (us_env st) (us_compose st) \<or> ph = Rolling_back \<and> source_files c i e0 k0 (us_env st) (us_compose st)"
    and restart: "\<And>st. P st \<Longrightarrow> in_phase ph st \<Longrightarrow>
          P (st\<lparr>us_trace := us_trace st @ [Restart ph (us_env st) (us_compose st)]\<rparr>) \<and> P (st\<lparr>us_trace := us_trace st @ [Restarted ph]\<rparr>)"
  shows "outcome (\<lambda>st. P st \<and> in_phase ph st) (restartService c) (\<lambda>st. P st \<and> in_phase ph st \<and> Restarted ph \<in> set (us_trace st)) (\<lambda>_. P)"
  unfolding restartService_def
  apply (rule outcome_Cons [of _ _ "\<lambda>st. P st \<and> in_phase ph st"])
   apply (rule outcome_assign) subgoal using restart by (auto simp: in_phase_def)
  apply (rule outcome_Cons [OF compose_then [OF calm_conj [OF calm_for_calm [OF P] calm_stages(8)]]]) apply blast
  apply (rule outcome_Cons) prefer 2 apply (rule outcome_Nil) apply assumption
  apply (rule outcome_assign) subgoal using restart by (auto simp: in_phase_def)
  done

definition restarting_files :: "update_phase \<Rightarrow> update_context \<Rightarrow> runner_input \<Rightarrow> string option \<Rightarrow> string option \<Rightarrow> update_state \<Rightarrow> bool" where
  "restarting_files ph c i e0 k0 st \<longleftrightarrow> changed c i e0 k0 st \<and>
     (ph = Restarting \<and> installed c i e0 k0 st \<or> ph = Rolling_back \<and> restored c i e0 k0 st)"

lemma calm_restarting: "calm_for UNIV (restarting_files ph c i e0 k0)"
  by (auto simp: calm_for_def calm_def stage_defs restarting_files_def restarts_snoc)

lemma outcome_restart_files:
  "outcome (\<lambda>st. restarting_files ph c i e0 k0 st \<and> in_phase ph st) (restartService c)
     (\<lambda>st. restarting_files ph c i e0 k0 st \<and> in_phase ph st \<and> Restarted ph \<in> set (us_trace st)) (\<lambda>_. changed c i e0 k0)"
proof (rule outcome_weaken [OF outcome_restart [OF calm_restarting, of ph c i e0 k0 c i e0 k0 ph]], goal_cases)
  case (3 st)
  have p: "restarts_ok c i e0 k0 (us_trace st @ [Restart ph (us_env st) (us_compose st)])" "restarts_ok c i e0 k0 (us_trace st @ [Restarted ph])"
    using 3 by (auto simp: restarting_files_def changed_def installed_def restored_def restarts_restart restarts_snoc)
  then show ?case using 3 by (auto simp: restarting_files_def stage_defs)
qed (auto simp: restarting_files_def installed_def restored_def)

text \<open>The last steps of both directions: wait for the version, prune, report.\<close>

definition verified :: "update_phase \<Rightarrow> string \<Rightarrow> update_context \<Rightarrow> runner_input \<Rightarrow> string option \<Rightarrow> string option \<Rightarrow> update_state \<Rightarrow> bool" where
  "verified ph v c i e0 k0 st \<longleftrightarrow> restarting_files ph c i e0 k0 st \<and> Restarted ph \<in> set (us_trace st) \<and> Healthy v \<in> set (us_trace st)"

lemma calm_verified: "calm_for UNIV (verified ph v c i e0 k0)"
  unfolding verified_def by (intro calm_for_conj calm_restarting calm_stages)

lemma outcome_finish:
  "outcome (verified ph v c i e0 k0) (finishPhase c fin m e) (\<lambda>st. verified ph v c i e0 k0 st \<and> reports fin e st) (\<lambda>_. changed c i e0 k0)"
proof -
  let ?V = "verified ph v c i e0 k0"
  have t: "outcome ?V (transition_to c fin m' e) (\<lambda>st. ?V st \<and> reports fin e st) (\<lambda>_. changed c i e0 k0)" for m'
    by (rule outcome_weaken [OF outcome_transition [OF calm_verified, of ph v c i e0 k0]]) (auto simp: verified_def restarting_files_def)
  have prune: "outcome ?V (steps [await c Prune_backups, assign (\<lambda>st'. st'\<lparr>us_trace := us_trace st' @ [Pruned (pruneOldBackups (x_backups c (us_trace st)))]\<rparr>)]) ?V (\<lambda>_. ?V)" for st
    apply (rule outcome_Cons [OF outcome_await [OF calm_for_calm [OF calm_verified]]])
    apply (rule outcome_Cons) prefer 2 apply (rule outcome_Nil) apply assumption
    by (rule outcome_assign) (auto simp: verified_def restarting_files_def stage_defs restarts_snoc)
  show ?thesis
    unfolding outcome_def
  proof (intro allI impI)
    fix st assume V: "?V st"
    let ?p = "steps [await c Prune_backups, assign (\<lambda>st'. st'\<lparr>us_trace := us_trace st' @ [Pruned (pruneOldBackups (x_backups c (us_trace st)))]\<rparr>)] st"
    obtain r st' where p: "?p = (r, st')" by (cases ?p)
    have V': "?V st'" using outcome_done [OF prune V, of st st'] outcome_failed [OF prune V, of st _ st'] p by (cases r) auto
    from p show "case finishPhase c fin m e st of (None, st') \<Rightarrow> ?V st' \<and> reports fin e st' | (Some _, st') \<Rightarrow> changed c i e0 k0 st'"
      using t [of "m None"] t [of "m (Some RETENTION_WARNING)"] V' unfolding outcome_def finishPhase_def
      by (cases r) (simp_all del: steps.simps)
  qed
qed

lemma outcome_verify:
  "outcome (\<lambda>st. restarting_files ph c i e0 k0 st \<and> Restarted ph \<in> set (us_trace st)) (waitForVersion c v r) (verified ph v c i e0 k0) (\<lambda>_. changed c i e0 k0)"
proof -
  have calm: "calm (\<lambda>st. restarting_files ph c i e0 k0 st \<and> Restarted ph \<in> set (us_trace st))"
    by (intro calm_conj calm_for_calm [OF calm_restarting] calm_for_calm [OF calm_stages(9)])
  show ?thesis
    by (rule outcome_weaken [OF outcome_wait [OF calm]])
       (auto simp: verified_def restarting_files_def stage_defs restarts_snoc)
qed

lemma outcome_cutover:
  "outcome (in_place c i e0 k0) (update_restart c i) (\<lambda>st. verified Restarting (ri_targetVersion i) c i e0 k0 st \<and> reports Completed None st) (\<lambda>_. changed c i e0 k0)"
proof -
  let ?R = "\<lambda>st. restarting_files Restarting c i e0 k0 st \<and> Restarted Restarting \<in> set (us_trace st)"
  have first: "outcome (in_place c i e0 k0) (transition_to c Restarting None None) (\<lambda>st. restarting_files Restarting c i e0 k0 st \<and> in_phase Restarting st) (\<lambda>_. changed c i e0 k0)"
    by (rule outcome_weaken [OF outcome_transition [OF calm_restarting, of Restarting c i e0 k0]]) (auto simp: in_place_def restarting_files_def)
  have calm: "calm_for UNIV ?R" by (intro calm_for_conj calm_restarting calm_stages)
  show ?thesis
    unfolding update_restart_def
    apply (rule outcome_Cons [OF first])
    apply (rule outcome_Cons [OF outcome_weaken [OF outcome_restart_files], where R = ?R]) apply (assumption | blast)+
    apply (rule outcome_Cons [OF transition_then [OF calm]]) apply (simp add: restarting_files_def)
    apply (rule outcome_Cons [OF outcome_verify])
    apply (rule outcome_Cons [OF outcome_finish outcome_Nil]) apply assumption
    done
qed

section \<open>The way back\<close>

definition env_restored :: "update_context \<Rightarrow> runner_input \<Rightarrow> string option \<Rightarrow> string option \<Rightarrow> update_state \<Rightarrow> bool" where
  "env_restored c i e0 k0 st \<longleftrightarrow> changed c i e0 k0 st \<and>
     (\<exists>v t. readComposeEnvironment (x_environment c) = Inr v
        \<and> persistOpenLanderComposeEnvironment (base_text e0) (ri_sourceImage i) v = Inr t \<and> us_env st = Some t)"

lemma calm_back: "calm_for UNIV (env_restored c i e0 k0)" "calm_for UNIV (\<lambda>st. changed c i e0 k0 st \<and> restored c i e0 k0 st)"
  by (auto simp: calm_for_def calm_def stage_defs env_restored_def restarts_snoc)

lemma outcome_write_source:
  assumes "content = base_text e0" and "readComposeEnvironment (x_environment c) = Inr v"
  shows "outcome (changed c i e0 k0) (writeEnvironment c content (ri_sourceImage i) v) (env_restored c i e0 k0) (\<lambda>_. changed c i e0 k0)"
proof (cases "persistOpenLanderComposeEnvironment content (ri_sourceImage i) v")
  case (Inl e)
  then show ?thesis by (auto simp: writeEnvironment_def intro!: outcome_throws)
next
  case (Inr t)
  have "outcome (changed c i e0 k0) (steps [await c Write_env, assign (\<lambda>st. st\<lparr>us_env := Some t\<rparr>)]) (env_restored c i e0 k0) (\<lambda>_. changed c i e0 k0)"
    apply (rule outcome_Cons [OF outcome_await [OF calm_for_calm [OF calm_stages(5)]]])
    apply (rule outcome_Cons [OF outcome_assign]) prefer 2 apply (rule outcome_Nil) apply assumption
    using assms Inr by (auto simp: env_restored_def stage_defs)
  with Inr show ?thesis by (simp add: writeEnvironment_def)
qed

lemma outcome_restore_env:
  assumes s: "changed c i e0 k0 s" and v: "readComposeEnvironment (x_environment c) = Inr v"
  shows "outcome (changed c i e0 k0)
      (if us_environmentExisted s
       then steps [await c Read_backup_env,
             (case us_backup_env s of None \<Rightarrow> throws Other_error | Some content \<Rightarrow> writeEnvironment c content (ri_sourceImage i) v)]
       else writeEnvironment c [] (ri_sourceImage i) v) (env_restored c i e0 k0) (\<lambda>_. changed c i e0 k0)"
proof (cases e0)
  case None
  with s have "\<not> us_environmentExisted s" by (simp add: stage_defs)
  then show ?thesis using outcome_write_source [of "[]" e0 c v] v None by (simp add: base_text_def)
next
  case (Some y)
  with s have e: "us_environmentExisted s" "us_backup_env s = Some y" by (auto simp: stage_defs)
  have "outcome (changed c i e0 k0) (steps [await c Read_backup_env, writeEnvironment c y (ri_sourceImage i) v]) (env_restored c i e0 k0) (\<lambda>_. changed c i e0 k0)"
    apply (rule outcome_Cons [OF outcome_await [OF calm_for_calm [OF calm_stages(5)]]])
    apply (rule outcome_Cons [OF outcome_write_source outcome_Nil]) using Some v by (auto simp: base_text_def)
  then show ?thesis using e by simp
qed

lemma outcome_restore:
  assumes v: "readComposeEnvironment (x_environment c) = Inr v"
  shows "outcome (changed c i e0 k0) (restoreInstallation c i v) (\<lambda>st. changed c i e0 k0 st \<and> restored c i e0 k0 st) (\<lambda>_. changed c i e0 k0)"
  unfolding restoreInstallation_def
proof (rule outcome_reading)
  fix s assume s: "changed c i e0 k0 s"
  then obtain content where k: "us_backup_compose s = Some content" "k0 = Some content" by (auto simp: stage_defs)
  have kback: "outcome (env_restored c i e0 k0) (steps [await c Write_compose, assign (\<lambda>st. st\<lparr>us_compose := Some content\<rparr>)])
     (\<lambda>st. changed c i e0 k0 st \<and> restored c i e0 k0 st) (\<lambda>_. changed c i e0 k0)"
    apply (rule outcome_Cons [OF await_then [OF calm_for_calm [OF calm_back(1)]]]) apply (simp add: env_restored_def)
    apply (rule outcome_Cons [OF outcome_assign]) prefer 2 apply (rule outcome_Nil) apply assumption
    using k by (auto simp: env_restored_def stage_defs source_files_def)
  show "outcome (\<lambda>st. changed c i e0 k0 st \<and> st = s) (steps
     [if us_environmentExisted s
      then steps [await c Read_backup_env,
             (case us_backup_env s of None \<Rightarrow> throws Other_error | Some content \<Rightarrow> writeEnvironment c content (ri_sourceImage i) v)]
      else writeEnvironment c [] (ri_sourceImage i) v,
      await c Read_backup_compose,
      (case us_backup_compose s of
         None \<Rightarrow> throws Other_error
       | Some content \<Rightarrow> steps [await c Write_compose, assign (\<lambda>st. st\<lparr>us_compose := Some content\<rparr>)])])
     (\<lambda>st. changed c i e0 k0 st \<and> restored c i e0 k0 st) (\<lambda>_. changed c i e0 k0)"
    unfolding k(1) option.case
    apply (rule outcome_Cons [OF outcome_weaken [OF outcome_restore_env [OF s v]]]) apply (blast | assumption)+
    apply (rule outcome_Cons [OF await_then [OF calm_for_calm [OF calm_back(1)]]]) apply (simp add: env_restored_def)
    apply (rule outcome_Cons [OF kback outcome_Nil]) apply assumption
    done
qed

lemma outcome_rollback:
  "outcome (changed c i e0 k0) (update_rollback c i code)
     (\<lambda>st. verified Rolling_back (ri_sourceVersion i) c i e0 k0 st \<and> reports Rolled_back (Some code) st) (\<lambda>_. changed c i e0 k0)"
proof -
  let ?C = "\<lambda>st. changed c i e0 k0 st \<and> in_phase Rolling_back st"
  let ?R = "\<lambda>st. restarting_files Rolling_back c i e0 k0 st \<and> in_phase Rolling_back st"
  have phase: "preserves (in_phase Rolling_back) (restoreInstallation c i v)" for v :: update_environment
    unfolding restoreInstallation_def writeEnvironment_def
    by (rule preserves_reading, rule preserves_steps)
       (auto intro!: preserves_steps preserves_await preserves_throws preserves_assign calm_stages(8) simp: in_phase_def split: option.splits sum.splits)
  have restore: "outcome ?C (reading (\<lambda>st. case us_composeEnvironment st of None \<Rightarrow> throws Validation_error | Some env \<Rightarrow> restoreInstallation c i env)) ?R (\<lambda>_. changed c i e0 k0)"
  proof (rule outcome_reading)
    fix s assume s: "?C s"
    then obtain v where v: "readComposeEnvironment (x_environment c) = Inr v" "us_composeEnvironment s = Some v" by (auto simp: stage_defs)
    show "outcome (\<lambda>st. ?C st \<and> st = s) (case us_composeEnvironment s of None \<Rightarrow> throws Validation_error | Some env \<Rightarrow> restoreInstallation c i env) ?R (\<lambda>_. changed c i e0 k0)"
      unfolding v(2) option.case
      by (rule outcome_weaken [OF outcome_conj [OF outcome_restore [OF v(1)] preserves_outcome [OF phase]]]) (auto simp: restarting_files_def)
  qed
  have calm: "calm ?R" by (intro calm_conj calm_for_calm [OF calm_restarting] calm_stages(8))
  show ?thesis
    unfolding update_rollback_def
    apply (rule outcome_Cons [OF outcome_weaken [OF outcome_transition [OF calm_stages(5)]], where R = ?C]) apply (assumption | blast)+
    apply (rule outcome_Cons [OF restore])
    apply (rule outcome_Cons [OF compose_then [OF calm]]) apply (simp add: restarting_files_def)
    apply (rule outcome_Cons [OF outcome_restart_files])
    apply (rule outcome_Cons [OF outcome_weaken [OF outcome_verify]]) apply (assumption | blast)+
    apply (rule outcome_Cons [OF outcome_finish outcome_Nil]) apply assumption
    done
qed

section \<open>What an update ends in\<close>

text \<open>What \<open>status.json\<close> promises about the installation.\<close>

definition settled :: "update_context \<Rightarrow> runner_input \<Rightarrow> string option \<Rightarrow> string option \<Rightarrow> update_state \<Rightarrow> bool" where
  "settled c i e0 k0 st \<longleftrightarrow>
     (\<exists>op. us_status st = Some op \<and> us_trace st \<noteq> [] \<and> last (us_trace st) = Phase (uo_phase op) \<and>
       (case uo_phase op of
          Completed \<Rightarrow> target_files c i e0 (us_env st) (us_compose st) \<and> Pulled (target_reference i) \<in> set (us_trace st)
            \<and> Restarted Restarting \<in> set (us_trace st) \<and> Healthy (ri_targetVersion i) \<in> set (us_trace st)
        | Rolled_back \<Rightarrow> source_files c i e0 k0 (us_env st) (us_compose st)
            \<and> Restarted Rolling_back \<in> set (us_trace st) \<and> Healthy (ri_sourceVersion i) \<in> set (us_trace st)
        | Update_failed \<Rightarrow> uo_errorCode op = Some ''UPDATE_ROLLBACK_FAILED'' \<or>
            us_env st = e0 \<and> us_compose st = k0 \<and> no_restart (us_trace st)
        | _ \<Rightarrow> False))"

definition ended :: "update_context \<Rightarrow> runner_input \<Rightarrow> string option \<Rightarrow> string option \<Rightarrow> update_state \<Rightarrow> bool" where
  "ended c i e0 k0 st \<longleftrightarrow> restarts_ok c i e0 k0 (us_trace st) \<and> settled c i e0 k0 st"

lemma ended_completed: "verified Restarting (ri_targetVersion i) c i e0 k0 st \<Longrightarrow> reports Completed None st \<Longrightarrow> ended c i e0 k0 st"
  by (auto simp: verified_def restarting_files_def reports_def ended_def settled_def stage_defs)

lemma ended_rolled_back: "verified Rolling_back (ri_sourceVersion i) c i e0 k0 st \<Longrightarrow> reports Rolled_back e st \<Longrightarrow> ended c i e0 k0 st"
  by (auto simp: verified_def restarting_files_def reports_def ended_def settled_def stage_defs)

lemma ended_failed:
  "changed c i e0 k0 st \<Longrightarrow> reports Update_failed (Some ''UPDATE_ROLLBACK_FAILED'') st \<Longrightarrow> ended c i e0 k0 st"
  "untouched c e0 k0 st \<Longrightarrow> reports Update_failed e st \<Longrightarrow> ended c i e0 k0 st"
  by (auto simp: reports_def ended_def settled_def stage_defs no_restart_ok)

abbreviation restarts_fine :: "update_context \<Rightarrow> runner_input \<Rightarrow> string option \<Rightarrow> string option \<Rightarrow> update_state \<Rightarrow> bool" where
  "restarts_fine c i e0 k0 st \<equiv> restarts_ok c i e0 k0 (us_trace st)"

lemma outcome_recover:
  "outcome (failed_safe c i e0 k0) (update_recover c i err) (ended c i e0 k0) (\<lambda>_. restarts_fine c i e0 k0)"
  unfolding update_recover_def
proof (rule outcome_reading)
  fix s assume s: "failed_safe c i e0 k0 s"
  let ?fail = "transition_to c Update_failed (Some ''The update and automatic rollback both failed. Manual recovery is required.'') (Some ''UPDATE_ROLLBACK_FAILED'')"
  have both: "outcome (changed c i e0 k0) (attempt (update_rollback c i (publicFailureCode err)) (\<lambda>_. ?fail)) (ended c i e0 k0) (\<lambda>_. restarts_fine c i e0 k0)"
  proof (rule outcome_attempt)
    show "outcome (changed c i e0 k0) (update_rollback c i (publicFailureCode err)) (ended c i e0 k0) (\<lambda>_. changed c i e0 k0)"
      by (rule outcome_weaken [OF outcome_rollback]) (auto intro: ended_rolled_back)
    show "outcome (changed c i e0 k0) ?fail (ended c i e0 k0) (\<lambda>_. restarts_fine c i e0 k0)"
      by (rule outcome_weaken [OF outcome_transition [OF calm_stages(5)]]) (auto intro: ended_failed(1) simp: changed_def)
  qed
  have early: "outcome (untouched c e0 k0) (transition_to c Update_failed m e) (ended c i e0 k0) (\<lambda>_. restarts_fine c i e0 k0)" for m e
    by (rule outcome_weaken [OF outcome_transition [OF calm_stages(1)]]) (auto intro: ended_failed(2) simp: untouched_def no_restart_ok)
  show "outcome (\<lambda>st. failed_safe c i e0 k0 st \<and> st = s)
     (if us_backupComplete s \<and> us_filesChanged s
      then attempt (update_rollback c i (publicFailureCode err)) (\<lambda>_. ?fail)
      else transition_to c Update_failed (Some ''The update stopped before OpenLander was replaced.'') (Some (publicFailureCode err)))
     (ended c i e0 k0) (\<lambda>_. restarts_fine c i e0 k0)"
  proof (cases "us_backupComplete s \<and> us_filesChanged s")
    case True
    with s have "changed c i e0 k0 s" by (auto simp: failed_safe_def untouched_def)
    then show ?thesis using True by (simp only: if_True simp_thms) (rule outcome_weaken [OF both], auto)
  next
    case False
    with s have "untouched c e0 k0 s" by (auto simp: failed_safe_def changed_def backed_up_def)
    then show ?thesis using False by (simp only: if_False) (rule outcome_weaken [OF early], auto)
  qed
qed

lemma outcome_try:
  "outcome (untouched c e0 k0) (update_try c i) (ended c i e0 k0) (\<lambda>_. restarts_fine c i e0 k0)"
  unfolding update_try_def
proof (rule outcome_attempt [OF _ outcome_recover])
  show "outcome (untouched c e0 k0) (steps [update_prepare c i, update_pull c i, update_install c i, update_restart c i])
     (ended c i e0 k0) (\<lambda>_. failed_safe c i e0 k0)"
    apply (rule outcome_Cons [OF outcome_weaken [OF outcome_prepare], where R = "prepared c i e0 k0"])
    apply assumption apply (simp add: prepared_def) apply (erule failed_safeI)
    apply (rule outcome_Cons [OF outcome_weaken [OF outcome_pull]]) apply assumption apply assumption apply (erule failed_safeI)
    apply (rule outcome_Cons [OF outcome_install])
    apply (rule outcome_Cons [OF outcome_weaken [OF outcome_cutover] outcome_Nil])
    apply assumption prefer 2 apply (erule failed_safeI)
    prefer 2 apply assumption
    by (auto intro: ended_completed)
qed

definition fresh_files :: "string option \<Rightarrow> string option \<Rightarrow> update_state \<Rightarrow> bool" where
  "fresh_files e0 k0 st \<longleftrightarrow> us_env st = e0 \<and> us_compose st = k0 \<and> no_restart (us_trace st)"

lemma calm_fresh: "calm (fresh_files e0 k0)"
  by (auto simp: calm_def fresh_files_def restarts_snoc)

lemma outcome_start: "outcome (fresh_files e0 k0) (update_start c) (untouched c e0 k0) (\<lambda>_. restarts_fine c i e0 k0)"
proof -
  have fine: "restarts_fine c i e0 k0 st" if "fresh_files e0 k0 st" for st
    using that by (simp add: fresh_files_def no_restart_ok)
  show ?thesis
    unfolding update_start_def
    apply (rule outcome_Cons [OF await_then [OF calm_fresh fine]]) apply assumption
    apply (rule outcome_Cons [of _ _ "fresh_files e0 k0"])
     subgoal by (auto intro!: outcome_throws outcome_Nil fine)
    apply (rule outcome_Cons [OF await_then [OF calm_fresh fine]]) apply assumption
    apply (rule outcome_Cons) prefer 2 apply (rule outcome_Nil) apply assumption
    apply (rule outcome_reading')
    subgoal for s by (cases "us_status s") (auto intro!: outcome_throws outcome_assign fine simp: fresh_files_def untouched_def)
    done
qed

lemma outcome_run:
  assumes "x_input c = Some i"
  shows "outcome (fresh_files e0 k0) (runPlatformUpdate c) (ended c i e0 k0) (\<lambda>_. restarts_fine c i e0 k0)"
  unfolding runPlatformUpdate_def assms option.sel
  by (rule outcome_Cons [OF outcome_start]) (rule outcome_Cons [OF outcome_try outcome_Nil])

text \<open>
  C7. However the calls of a platform update fail and whatever the server and the restarted process write meanwhile, the
  service is restarted only with files that belong together (the target Compose file with the checksum of the release and
  an environment file with the target image, or after a failure the old Compose file and an environment file
  with the source image); and when the runner returns, the phase in \<open>status.json\<close> is a final one and true: completed means
  target files, the pulled digest, a restart that worked and a healthy, validated target version; rolled back means the
  source files, a restart that worked and a healthy source version; failed means that nothing was touched or restarted,
  unless its code says that the rollback failed.
\<close>

theorem platform_update_settles:
  assumes "x_input c = Some i" and "no_restart (us_trace st)" and "runPlatformUpdate c st = (r, st')"
  shows "restarts_ok c i (us_env st) (us_compose st) (us_trace st') \<and> (r = None \<longrightarrow> settled c i (us_env st) (us_compose st) st')"
proof -
  have start: "fresh_files (us_env st) (us_compose st) st" using assms(2) by (simp add: fresh_files_def)
  note run = outcome_run [OF assms(1), of "us_env st" "us_compose st"]
  show ?thesis
  proof (cases r)
    case None
    with outcome_done [OF run start] assms(3) show ?thesis by (simp add: ended_def)
  next
    case (Some e)
    with outcome_failed [OF run start] assms(3) show ?thesis by simp
  qed
qed

end
