(* ===== verification/Update_Runner_Live.thy ===== *)
theory Update_Runner_Live
  imports Update_Runner_Props
begin

text \<open>
  That a platform update ends, and how a rollback ends: it waits for a startup validation of the source version, which
  the process that starts up never records, since \<open>recordPlatformUpdateStartupValidation\<close> takes only the target version.
\<close>

section \<open>Every run reports\<close>

definition status_works :: "update_context \<Rightarrow> bool" where
  "status_works c \<longleftrightarrow> (\<forall>tr. \<not> x_throws c tr Read_input \<and> \<not> x_throws c tr Read_status \<and> \<not> x_throws c tr Write_status)"

lemma transition_returns: "status_works c \<Longrightarrow> fst (transition_to c ph m e st) = None"
  by (simp add: transition_to_def status_works_def await_def assign_def Let_def)

lemma transition_ends: "status_works c \<Longrightarrow> \<exists>st'. transition_to c ph m e st = (None, st')"
  using transition_returns [of c ph m e st] by (cases "transition_to c ph m e st") simp

lemma recover_returns: "status_works c \<Longrightarrow> fst (update_recover c i err st) = None"
  by (auto simp: update_recover_def reading_def attempt_def transition_returns split: prod.splits option.splits)

lemma try_returns: "status_works c \<Longrightarrow> fst (update_try c i st) = None"
  using recover_returns by (auto simp: update_try_def attempt_def simp del: steps.simps split: prod.splits option.splits)

text \<open>The server writes \<open>status.json\<close> for this operation only.\<close>

definition others_keep_operation :: "update_context \<Rightarrow> string \<Rightarrow> bool" where
  "others_keep_operation c target \<longleftrightarrow>
     (\<forall>tr op. Status_written op \<in> set (x_others c tr) \<longrightarrow> uo_id op = x_operationId c \<and> uo_targetVersion op = target)"

definition own_status :: "update_context \<Rightarrow> string \<Rightarrow> update_state \<Rightarrow> bool" where
  "own_status c target st \<longleftrightarrow> (\<exists>op. us_status st = Some op \<and> uo_id op = x_operationId c \<and> uo_targetVersion op = target)"

lemma own_status_act: "others_keep_operation c t \<Longrightarrow> a \<in> set (x_others c tr) \<Longrightarrow> own_status c t st \<Longrightarrow> own_status c t (act a st)"
  by (cases a) (auto simp: own_status_def others_keep_operation_def recorded_keeps)

lemma own_status_acts: "others_keep_operation c t \<Longrightarrow> set as \<subseteq> set (x_others c tr) \<Longrightarrow> own_status c t st \<Longrightarrow> own_status c t (fold act as st)"
  by (induction as arbitrary: st) (auto intro: own_status_act)

lemma own_status_await: "others_keep_operation c t \<Longrightarrow> own_status c t st \<Longrightarrow> own_status c t (snd (await c k st))"
  using own_status_acts [of c t "x_others c (us_trace st)" "us_trace st" st] by (simp add: await_def Let_def own_status_def)

lemma start_returns:
  assumes "status_works c" "others_keep_operation c t" "x_input c = Some i" "own_status c t st"
  shows "fst (update_start c st) = None"
proof -
  have r: "await c k st' = (None, snd (await c k st'))" if "k \<in> {Read_input, Read_status}" for k st'
    using assms(1) that by (auto simp: status_works_def await_def Let_def)
  have "own_status c t (snd (await c Read_status (snd (await c Read_input st))))"
    by (intro own_status_await assms)
  then show ?thesis
    using assms(3) r [of Read_input st] r [of Read_status "snd (await c Read_input st)"]
    by (auto simp: update_start_def reading_def assign_def own_status_def split: prod.splits)
qed

text \<open>
  C23. A platform update always returns with a final phase in its status file, whatever download, pull, backup, command,
  health check or file write fails, provided the status file itself can be read and written: the
  waits end at their deadlines and every error is turned into a rollback or a failure.
\<close>

theorem platform_update_reports:
  assumes "status_works c" and "others_keep_operation c t" and "x_input c = Some i" and "own_status c t st"
    and "no_restart (us_trace st)"
  shows "\<exists>st'. runPlatformUpdate c st = (None, st') \<and> settled c i (us_env st) (us_compose st) st'"
proof -
  obtain st1 where s: "update_start c st = (None, st1)"
    using start_returns [OF assms(1-4)] by (cases "update_start c st") simp
  obtain st2 where t: "update_try c i st1 = (None, st2)"
    using try_returns [OF assms(1), of i st1] by (cases "update_try c i st1") simp
  have run: "runPlatformUpdate c st = (None, st2)" using s t assms(3) by (simp add: runPlatformUpdate_def)
  have "fresh_files (us_env st) (us_compose st) st" using assms(5) by (simp add: fresh_files_def)
  from outcome_done [OF outcome_run [OF assms(3)] this run] show ?thesis using run by (simp add: ended_def)
qed

section \<open>How a rollback ends\<close>

definition target_only :: "update_context \<Rightarrow> string \<Rightarrow> update_state \<Rightarrow> bool" where
  "target_only c t st \<longleftrightarrow>
     (\<forall>val. us_validation st (x_operationId c) = Some val \<longrightarrow> sval_version val = t)
     \<and> (\<forall>op. us_status st = Some op \<longrightarrow> uo_id op = x_operationId c \<longrightarrow> uo_targetVersion op = t)
     \<and> (uo_id (us_operation st) = x_operationId c \<longrightarrow> uo_targetVersion (us_operation st) = t)
     \<and> Phase Rolled_back \<notin> set (us_trace st)"

lemma target_only_act:
  assumes "others_keep_operation c t" "a \<in> set (x_others c tr)" "target_only c t st"
  shows "target_only c t (act a st)"
proof (cases a)
  case (Startup_recorded v ok m)
  with assms(3) show ?thesis
    by (auto simp: target_only_def recordPlatformUpdateStartupValidation_def split: option.splits if_splits)
next
  case (Status_written op)
  with assms show ?thesis by (auto simp: target_only_def others_keep_operation_def)
qed

lemma target_only_acts:
  "others_keep_operation c t \<Longrightarrow> set as \<subseteq> set (x_others c tr) \<Longrightarrow> target_only c t st \<Longrightarrow> target_only c t (fold act as st)"
  by (induction as arbitrary: st) (auto intro: target_only_act)

lemma target_only_await: "others_keep_operation c t \<Longrightarrow> preserves (target_only c t) (await c k)"
  unfolding preserves_def
proof (intro allI impI)
  fix st assume o: "others_keep_operation c t" and J: "target_only c t st"
  have "target_only c t (fold act (x_others c (us_trace st)) st)" by (rule target_only_acts [OF o _ J]) blast
  then show "target_only c t (snd (await c k st))" by (simp add: await_def Let_def target_only_def)
qed

text \<open>Assignments that leave the shared files of the update alone.\<close>

lemma target_only_assigns:
  "preserves (target_only c t) (assign (\<lambda>st. st\<lparr>us_env := e st\<rparr>))" "preserves (target_only c t) (assign (\<lambda>st. st\<lparr>us_compose := e st\<rparr>))"
  "preserves (target_only c t) (assign (\<lambda>st. st\<lparr>us_backup_env := e st\<rparr>))" "preserves (target_only c t) (assign (\<lambda>st. st\<lparr>us_backup_compose := e st\<rparr>))"
  "preserves (target_only c t) (assign (\<lambda>st. st\<lparr>us_filesChanged := True\<rparr>))" "preserves (target_only c t) (assign (\<lambda>st. st\<lparr>us_composeEnvironment := x\<rparr>))"
  "preserves (target_only c t) (assign (\<lambda>st. st\<lparr>us_targetCompose := y\<rparr>))"
  "preserves (target_only c t) (assign (\<lambda>st. st\<lparr>us_backupComplete := True, us_environmentExisted := b\<rparr>))"
  "preserves (target_only c t) (assign (\<lambda>st. st\<lparr>us_trace := us_trace st @ [Pulled r]\<rparr>))"
  "preserves (target_only c t) (assign (\<lambda>st. st\<lparr>us_trace := us_trace st @ [Restart (uo_phase (us_operation st)) (us_env st) (us_compose st)]\<rparr>))"
  "preserves (target_only c t) (assign (\<lambda>st. st\<lparr>us_trace := us_trace st @ [Restarted (uo_phase (us_operation st))]\<rparr>))"
  "preserves (target_only c t) (assign (\<lambda>st. st\<lparr>us_trace := us_trace st @ [Pruned z]\<rparr>))"
  by (auto intro!: preserves_assign simp: target_only_def)

lemma target_only_transition:
  assumes "others_keep_operation c t" and "ph \<noteq> Rolled_back"
  shows "preserves (target_only c t) (transition_to c ph m e)"
proof -
  have one: "preserves (target_only c t) (assign (\<lambda>st. st\<lparr>us_operation :=
        (case us_status st of
           Some latestOperation \<Rightarrow> if uo_id latestOperation = x_operationId c then latestOperation else us_operation st
         | None \<Rightarrow> us_operation st)
        \<lparr>uo_phase := ph, uo_updatedAt := us_now st, uo_message := m, uo_errorCode := e\<rparr>\<rparr>))"
    by (rule preserves_assign) (auto simp: target_only_def split: option.splits)
  have two: "preserves (target_only c t) (assign (\<lambda>st. st\<lparr>us_status := Some (us_operation st), us_trace := us_trace st @ [Phase ph]\<rparr>))"
    by (rule preserves_assign) (use assms(2) in \<open>auto simp: target_only_def\<close>)
  show ?thesis
    unfolding transition_to_def by (rule preserves_steps) (simp add: one two target_only_await [OF assms(1)])
qed

lemma target_only_nil: "preserves (target_only c t) (steps [])"
  by (simp add: preserves_def)

lemma target_only_parts:
  assumes "others_keep_operation c t"
  shows "preserves (target_only c t) (runCompose c k)" "preserves (target_only c t) (restartService c)"
    "preserves (target_only c t) (writeEnvironment c content img v)" "preserves (target_only c t) (restoreInstallation c i v)"
    "preserves (target_only c t) (downloadTargetCompose c i)" "preserves (target_only c t) (backupInstallation c)"
proof -
  note a = target_only_await [OF assms] target_only_assigns preserves_throws target_only_nil
  show rc: "preserves (target_only c t) (runCompose c k)" for k
    unfolding runCompose_def by (auto intro!: preserves_steps preserves_reading simp: a)
  show "preserves (target_only c t) (restartService c)"
    unfolding restartService_def by (rule preserves_steps) (simp add: a rc)
  show w: "preserves (target_only c t) (writeEnvironment c content img v)" for content img v
    unfolding writeEnvironment_def by (auto intro!: preserves_steps simp: a split: sum.splits)
  show "preserves (target_only c t) (restoreInstallation c i v)"
    unfolding restoreInstallation_def by (auto intro!: preserves_reading preserves_steps simp: a w split: option.splits)
  show "preserves (target_only c t) (downloadTargetCompose c i)"
    unfolding downloadTargetCompose_def by (auto intro!: preserves_steps simp: a split: option.splits)
  show "preserves (target_only c t) (backupInstallation c)"
    unfolding backupInstallation_def Let_def by (auto intro!: preserves_steps preserves_reading simp: a split: option.splits)
qed

lemma target_only_poll:
  assumes "others_keep_operation c t" and "target_only c t st" and "poll_health c v r st = (res, st')"
  shows "target_only c t st' \<and> (res = Poll_ready \<longrightarrow> r \<longrightarrow> v = t)"
proof -
  have a: "target_only c t st' \<Longrightarrow> target_only c t (snd (await c k st'))" for k st'
    using target_only_await [OF assms(1)] unfolding preserves_def by blast
  obtain e1 st1 where a1: "await c Fetch_health st = (e1, st1)" by (cases "await c Fetch_health st")
  obtain e2 st2 where a2: "await c Read_validation st1 = (e2, st2)" by (cases "await c Read_validation st1")
  have J1: "target_only c t st1" using a [OF assms(2), of Fetch_health] a1 by simp
  have J2: "target_only c t st2" using a [OF J1, of Read_validation] a2 by simp
  have val: "us_validation st2 (x_operationId c) = Some val \<Longrightarrow> sval_version val = t" for val
    using J2 by (simp add: target_only_def)
  have "st' = st1 \<or> st' = st2"
    using assms(3) a1 a2 by (auto simp: poll_health_def split: option.splits health_answer.splits if_splits)
  moreover have "res = Poll_ready \<Longrightarrow> r \<Longrightarrow> v = t"
    using assms(3) a1 a2 val by (auto simp: poll_health_def split: option.splits health_answer.splits if_splits)
  ultimately show ?thesis using J1 J2 by blast
qed

lemma target_only_wait:
  assumes o: "others_keep_operation c t"
  shows "outcome (target_only c t) (waitForVersion c v True) (\<lambda>st. target_only c t st \<and> v = t) (\<lambda>_. target_only c t)"
proof -
  have "others_keep_operation c t \<Longrightarrow> target_only c t st \<Longrightarrow> r \<Longrightarrow> (case wait_for_version c v r d st of
      (None, st') \<Rightarrow> target_only c t st' \<and> v = t | (Some e, st') \<Rightarrow> target_only c t st')" for r d st
  proof (induction c v r d st rule: wait_for_version.induct)
    case (1 c v r d st)
    show ?case
    proof (cases "us_now st < d")
      case True
      obtain res st' where p: "poll_health c v r st = (res, st')" by (cases "poll_health c v r st")
      note P' = target_only_poll [OF 1(2,3) p]
      show ?thesis
      proof (cases res)
        case Poll_again
        have "target_only c t (snd (await c Sleep_poll st'))"
          using target_only_await [OF 1(2), of Sleep_poll] P' unfolding preserves_def by blast
        then have "target_only c t (poll_pause c st')" by (simp add: poll_pause_def Let_def target_only_def)
        note 1(1) [OF True p [symmetric] Poll_again 1(2) this 1(4)]
        moreover have "wait_for_version c v r d st = wait_for_version c v r d (poll_pause c st')"
          using True p Poll_again by (subst wait_for_version.simps) simp
        ultimately show ?thesis by (simp only:)
      next
        case Poll_ready
        then have "wait_for_version c v r d st = (None, st'\<lparr>us_trace := us_trace st' @ [Healthy v]\<rparr>)"
          using True p by (subst wait_for_version.simps) simp
        then show ?thesis using P' Poll_ready 1(4) by (auto simp: target_only_def)
      next
        case Poll_failed
        then have "wait_for_version c v r d st = (Some Validation_error, st')"
          using True p by (subst wait_for_version.simps) simp
        then show ?thesis using P' by simp
      qed
    next
      case False
      then show ?thesis using 1(3) by (subst wait_for_version.simps) simp
    qed
  qed
  then show ?thesis using o by (simp add: outcome_def waitForVersion_def)
qed

lemma target_only_then:
  "preserves (target_only c t) a \<Longrightarrow> outcome (target_only c t) (steps as) Q (\<lambda>_. target_only c t) \<Longrightarrow>
   outcome (target_only c t) (steps (a # as)) Q (\<lambda>_. target_only c t)"
  by (rule outcome_Cons [OF preserves_outcome])

lemma target_only_rollback:
  assumes o: "others_keep_operation c t" and "ri_sourceVersion i \<noteq> t"
  shows "outcome (target_only c t) (update_rollback c i code) (\<lambda>_. False) (\<lambda>_. target_only c t)"
  unfolding update_rollback_def
  apply (rule target_only_then [OF target_only_transition [OF o]]) apply simp
  apply (rule target_only_then)
   apply (rule preserves_reading) subgoal by (auto split: option.split simp: target_only_parts [OF o] preserves_throws)
  apply (rule target_only_then [OF target_only_parts(1) [OF o]])
  apply (rule target_only_then [OF target_only_parts(2) [OF o]])
  apply (rule outcome_Cons [OF outcome_weaken [OF target_only_wait [OF o]], where R = "\<lambda>_. False"])
     apply assumption
  using assms(2) apply simp
   apply assumption
  apply (simp add: outcome_def)
  done

lemma target_only_finish:
  assumes o: "others_keep_operation c t" and "fin \<noteq> Rolled_back"
  shows "preserves (target_only c t) (finishPhase c fin m e)"
proof -
  have t: "preserves (target_only c t) (transition_to c fin m' e)" for m' by (rule target_only_transition [OF assms])
  have p: "preserves (target_only c t) (steps [await c Prune_backups, assign (\<lambda>st'. st'\<lparr>us_trace := us_trace st' @ [Pruned z]\<rparr>)])" for z
    by (rule preserves_steps) (simp add: target_only_await [OF o] target_only_assigns)
  show ?thesis
    unfolding preserves_def
  proof (intro allI impI)
    fix st assume J: "target_only c t st"
    let ?prune = "steps [await c Prune_backups, assign (\<lambda>st'. st'\<lparr>us_trace := us_trace st' @ [Pruned (pruneOldBackups (x_backups c (us_trace st)))]\<rparr>)] st"
    obtain r st' where q: "?prune = (r, st')" by (cases ?prune)
    have "target_only c t (snd ?prune)" using p J unfolding preserves_def by blast
    then have "target_only c t st'" by (simp only: q snd_conv)
    then have "target_only c t (snd (transition_to c fin m' e st'))" for m'
      using t unfolding preserves_def by blast
    then show "target_only c t (snd (finishPhase c fin m e st))"
      by (cases r) (simp_all only: finishPhase_def q prod.case option.case)
  qed
qed

lemma target_only_try:
  assumes o: "others_keep_operation c t" and src: "ri_sourceVersion i \<noteq> t"
  shows "preserves (target_only c t) (update_try c i)"
proof -
  note a = target_only_await [OF o] target_only_assigns preserves_throws target_only_nil target_only_transition [OF o] target_only_parts [OF o] target_only_finish [OF o]
  have wait: "preserves (target_only c t) (waitForVersion c v True)" for v
    by (rule outcome_preserves [OF outcome_weaken [OF target_only_wait [OF o]]]) auto
  have "preserves (target_only c t) (update_prepare c i)"
    unfolding update_prepare_def by (auto intro!: preserves_steps simp: a split: sum.splits)
  moreover have "preserves (target_only c t) (update_pull c i)"
    unfolding update_pull_def by (auto intro!: preserves_steps simp: a)
  moreover have "preserves (target_only c t) (update_install c i)"
    unfolding update_install_def by (auto intro!: preserves_steps preserves_reading simp: a split: option.splits)
  moreover have "preserves (target_only c t) (update_restart c i)"
    unfolding update_restart_def by (rule preserves_steps) (simp add: a wait)
  moreover have "preserves (target_only c t) (update_recover c i err)" for err
  proof -
    have "preserves (target_only c t) (update_rollback c i (publicFailureCode err))"
      by (rule outcome_preserves [OF outcome_weaken [OF target_only_rollback [OF assms]]]) auto
    then show ?thesis
      unfolding update_recover_def by (intro preserves_reading) (auto intro!: preserves_attempt simp: a)
  qed
  ultimately show ?thesis
    unfolding update_try_def by (intro preserves_attempt preserves_steps) simp_all
qed

lemma target_only_start:
  assumes "others_keep_operation c t"
  shows "preserves (target_only c t) (update_start c)"
proof -
  note a = target_only_await [OF assms] preserves_throws target_only_nil
  have "preserves (target_only c t) (reading (\<lambda>st. case us_status st of
         None \<Rightarrow> throws Validation_error
       | Some stored \<Rightarrow> if uo_id stored \<noteq> x_operationId c then throws Validation_error
           else assign (\<lambda>st. st\<lparr>us_operation := stored, us_backupComplete := False, us_environmentExisted := False,
                  us_filesChanged := False, us_composeEnvironment := None\<rparr>)))"
    by (auto simp: preserves_def reading_def throws_def assign_def target_only_def split: option.split)
  then show ?thesis
    unfolding update_start_def by (intro preserves_steps) (simp add: a)
qed

lemma settled_phases:
  assumes "settled c i e0 k0 st"
  obtains op where "us_status st = Some op" "us_trace st \<noteq> []" "last (us_trace st) = Phase (uo_phase op)"
    "uo_phase op = Completed \<or> uo_phase op = Rolled_back \<or>
      uo_phase op = Update_failed \<and> (no_restart (us_trace st) \<or> uo_errorCode op = Some ''UPDATE_ROLLBACK_FAILED'')"
proof -
  from assms obtain op where op: "us_status st = Some op" "us_trace st \<noteq> []" "last (us_trace st) = Phase (uo_phase op)"
    and s: "settled c i e0 k0 st" unfolding settled_def by blast
  have "uo_phase op = Completed \<or> uo_phase op = Rolled_back \<or>
      uo_phase op = Update_failed \<and> (no_restart (us_trace st) \<or> uo_errorCode op = Some ''UPDATE_ROLLBACK_FAILED'')"
    using s op(1) by (cases "uo_phase op") (auto simp: settled_def)
  with op show ?thesis by (rule that)
qed

text \<open>
  C24. A rollback is never recorded as one. With a target version other than the source version, and no validation of another version at
  the start, the runner never writes that the update was rolled back, even when the source version is back and healthy: it waits for a
  startup validation of the source version, and what the restarted process records is accepted for the target version only. When it
  returns, the update is completed or failed, and after a restart it is completed or failed with the code for a failed rollback.
\<close>

theorem rollback_never_recorded:
  assumes "others_keep_operation c (ri_targetVersion i)" and "x_input c = Some i" and "ri_sourceVersion i \<noteq> ri_targetVersion i"
    and "target_only c (ri_targetVersion i) st" and "no_restart (us_trace st)" and "runPlatformUpdate c st = (r, st')"
  shows "Phase Rolled_back \<notin> set (us_trace st')
    \<and> (r = None \<longrightarrow> (\<exists>op. us_status st' = Some op \<and> (uo_phase op = Completed \<or>
         uo_phase op = Update_failed \<and> (no_restart (us_trace st') \<or> uo_errorCode op = Some ''UPDATE_ROLLBACK_FAILED''))))"
proof -
  have "preserves (target_only c (ri_targetVersion i)) (runPlatformUpdate c)"
    unfolding runPlatformUpdate_def assms(2) option.sel
    by (rule preserves_steps) (simp add: target_only_start [OF assms(1)] target_only_try [OF assms(1,3)])
  with assms(4,6) have J: "target_only c (ri_targetVersion i) st'" unfolding preserves_def by (metis snd_conv)
  then have never: "Phase Rolled_back \<notin> set (us_trace st')" by (simp add: target_only_def)
  have "\<exists>op. us_status st' = Some op \<and> (uo_phase op = Completed \<or>
         uo_phase op = Update_failed \<and> (no_restart (us_trace st') \<or> uo_errorCode op = Some ''UPDATE_ROLLBACK_FAILED''))" if "r = None"
  proof -
    have "ended c i (us_env st) (us_compose st) st'"
      using outcome_done [OF outcome_run [OF assms(2)], of "us_env st" "us_compose st" st st'] assms(5,6) that by (simp add: fresh_files_def)
    then obtain op where op: "us_status st' = Some op" "us_trace st' \<noteq> []" "last (us_trace st') = Phase (uo_phase op)"
      "uo_phase op = Completed \<or> uo_phase op = Rolled_back \<or>
        uo_phase op = Update_failed \<and> (no_restart (us_trace st') \<or> uo_errorCode op = Some ''UPDATE_ROLLBACK_FAILED'')"
      unfolding ended_def by (metis settled_phases)
    have "Phase (uo_phase op) \<in> set (us_trace st')" using last_in_set [OF op(2)] op(3) by simp
    with never have "uo_phase op \<noteq> Rolled_back" by metis
    with op show ?thesis by blast
  qed
  with never show ?thesis by blast
qed

section \<open>An example\<close>

definition example_input :: runner_input where
  "example_input = \<lparr>ri_operationId = ''op'', ri_sourceVersion = ''1.0.0'', ri_targetVersion = ''2.0.0'', ri_targetImage = ''img:2'',
     ri_targetDigest = ''sha256:d'', ri_targetComposeSha256 = ''new'', ri_sourceImage = ''img:1''\<rparr>"

definition example_operation :: update_operation where
  "example_operation = \<lparr>uo_id = ''op'', uo_sourceVersion = ''1.0.0'', uo_targetVersion = ''2.0.0'', uo_phase = Preparing, uo_startedAt = 0,
     uo_updatedAt = 0, uo_message = None, uo_errorCode = None, uo_runnerContainerId = None\<rparr>"

definition example_state :: update_state where
  "example_state = \<lparr>us_status = Some example_operation, us_validation = (\<lambda>_. None), us_env = Some ''A=1'', us_compose = Some ''old'',
     us_backup_env = None, us_backup_compose = None, us_operation = example_operation, us_backupComplete = False,
     us_environmentExisted = False, us_filesChanged = False, us_composeEnvironment = None, us_targetCompose = [], us_now = 0, us_trace = []\<rparr>"

text \<open>The restarted process validates itself; \<open>works\<close> says whether the target does. After a rollback the source is healthy and
  says so.\<close>

definition example_context :: "bool \<Rightarrow> (update_call \<Rightarrow> bool) \<Rightarrow> update_context" where
  "example_context works fails = \<lparr>x_operationId = ''op'', x_input = Some example_input, x_environment = (\<lambda>_. Some ''v''), x_healthTimeoutMs = 3000,
     x_sha256 = (\<lambda>s. s), x_targetCompose = Some ''new'', x_repoDigests = [''img@sha256:d''],
     x_others = (\<lambda>tr. if tr = [] then [] else if last tr = Phase Verifying then [Startup_recorded ''2.0.0'' works ''checked'']
       else if last tr = Restarted Rolling_back then [Startup_recorded ''1.0.0'' True ''checked''] else []),
     x_throws = (\<lambda>tr k. fails k), x_takes = (\<lambda>tr k. 0), x_exitCode = (\<lambda>tr k. 0),
     x_health = (\<lambda>tr. Health_version (Some (if Restarted Rolling_back \<in> set tr then ''1.0.0'' else ''2.0.0''))), x_backups = (\<lambda>tr. [])\<rparr>"

lemma example_facts:
  "x_input (example_context works fails) = Some example_input" "no_restart (us_trace example_state)"
  "others_keep_operation (example_context works fails) ''2.0.0''" "own_status (example_context works fails) ''2.0.0'' example_state"
  "target_only (example_context works fails) ''2.0.0'' example_state"
  "(\<And>k. \<not> fails k) \<Longrightarrow> status_works (example_context works fails)"
  "ri_targetVersion example_input = ''2.0.0''" "ri_sourceVersion example_input = ''1.0.0''"
  by (auto simp: example_context_def example_state_def example_operation_def example_input_def no_restart_def others_keep_operation_def
      own_status_def target_only_def status_works_def split: if_splits)

lemma platform_update_settles_witness:
  "\<exists>r st'. runPlatformUpdate (example_context True (\<lambda>_. False)) example_state = (r, st') \<and>
     restarts_ok (example_context True (\<lambda>_. False)) example_input (us_env example_state) (us_compose example_state) (us_trace st')"
proof -
  obtain r st' where run: "runPlatformUpdate (example_context True (\<lambda>_. False)) example_state = (r, st')"
    by (cases "runPlatformUpdate (example_context True (\<lambda>_. False)) example_state")
  from platform_update_settles [OF example_facts(1,2) run] run show ?thesis by blast
qed

lemma platform_update_reports_witness:
  "\<exists>st'. runPlatformUpdate (example_context False (\<lambda>_. False)) example_state = (None, st') \<and>
     settled (example_context False (\<lambda>_. False)) example_input (us_env example_state) (us_compose example_state) st'"
  by (rule platform_update_reports [OF example_facts(6) example_facts(3) example_facts(1,4,2)]) simp

lemma rollback_never_recorded_witness:
  "Phase Rolled_back \<notin> set (us_trace (snd (runPlatformUpdate (example_context False (\<lambda>_. False)) example_state)))"
proof -
  obtain r st' where run: "runPlatformUpdate (example_context False (\<lambda>_. False)) example_state = (r, st')"
    by (cases "runPlatformUpdate (example_context False (\<lambda>_. False)) example_state")
  have o: "others_keep_operation (example_context False (\<lambda>_. False)) (ri_targetVersion example_input)"
    and t: "target_only (example_context False (\<lambda>_. False)) (ri_targetVersion example_input) example_state"
    and n: "ri_sourceVersion example_input \<noteq> ri_targetVersion example_input"
    by (simp_all add: example_facts)
  from rollback_never_recorded [OF o example_facts(1) n t example_facts(2) run] run show ?thesis by simp
qed

end
