(* ===== verification/Network_Pool.thy ===== *)
theory Network_Pool
  imports Decimal
begin

text \<open>
  The address pool of project networks and the removal of networks (\<open>src/src/pipeline/docker/network.ts\<close>): IPv4 ranges and
  their texts, the first free \<open>/24\<close> of the pool, the creation of a network with its attempts, and the
  conditions under which a network may be removed. What Docker lists, inspects and answers is an argument.
\<close>

section \<open>Addresses and ranges\<close>

record cidr_range =
  cr_start :: nat
  cr_end :: nat
  cr_prefix :: nat
  cr_cidr :: string

text \<open>\<open>/^(0|[1-9]\d{0,2})$/\<close> and at most 255.\<close>

definition octet :: "string \<Rightarrow> nat option" where
  "octet part = (if canonical_number part \<and> length part \<le> 3 \<and> read_nat part \<le> 255 then Some (read_nat part) else None)"

fun read_octets :: "nat \<Rightarrow> string list \<Rightarrow> nat option" where
  "read_octets result [] = Some result"
| "read_octets result (part # parts) =
     (case octet part of None \<Rightarrow> None | Some n \<Rightarrow> read_octets (result * 256 + n) parts)"

definition parseIpv4Address :: "string \<Rightarrow> nat option" where
  "parseIpv4Address value =
     (let parts = js_split CHR ''.'' value in if length parts \<noteq> 4 then None else read_octets 0 parts)"

definition formatIpv4Address :: "nat \<Rightarrow> string" where
  "formatIpv4Address value = js_join ''.''
     [show_nat (value div 2 ^ 24), show_nat (value div 2 ^ 16 mod 256), show_nat (value div 2 ^ 8 mod 256), show_nat (value mod 256)]"

definition show_cidr :: "nat \<Rightarrow> nat \<Rightarrow> string" where
  "show_cidr start prefix = formatIpv4Address start @ ''/'' @ show_nat prefix"

definition parseIpv4Cidr :: "string \<Rightarrow> cidr_range option" where
  "parseIpv4Cidr value =
     (case js_split CHR ''/'' (js_trim value) of
        [a, p] \<Rightarrow>
          if a = [] \<or> \<not> all_digits p \<or> length p > 2 then None
          else (case parseIpv4Address a of
                  None \<Rightarrow> None
                | Some address \<Rightarrow>
                    (let prefix = read_nat p; size = 2 ^ (32 - prefix); start = address div size * size
                     in if prefix > 32 then None
                        else Some \<lparr>cr_start = start, cr_end = start + size - 1, cr_prefix = prefix, cr_cidr = show_cidr start prefix\<rparr>))
      | _ \<Rightarrow> None)"

definition rangesOverlap :: "cidr_range \<Rightarrow> cidr_range \<Rightarrow> bool" where
  "rangesOverlap left right \<longleftrightarrow> cr_start left \<le> cr_end right \<and> cr_start right \<le> cr_end left"

section \<open>The pool\<close>

definition PROJECT_NETWORK_SUBNET_PREFIX :: nat where "PROJECT_NETWORK_SUBNET_PREFIX = 24"
definition NETWORK_CREATE_ATTEMPTS :: nat where "NETWORK_CREATE_ATTEMPTS = 8"

record network_info =
  ni_Id :: string
  ni_Name :: string
  ni_Driver :: string
  ni_Scope :: string
  ni_Subnets :: "string option list"
  ni_Labels :: "string \<Rightarrow> string option"
  ni_Containers :: "string list"

datatype network_error =
    Service_config_error string
  | Pool_exhausted string string
  | Network_not_found string
  | Cleanup_blocked string string
  | Docker_error string

definition projectNetworkPool :: "string \<Rightarrow> network_error + cidr_range" where
  "projectNetworkPool projectNetworkPoolCidr =
     (let configured = js_trim projectNetworkPoolCidr
      in case parseIpv4Cidr configured of
           None \<Rightarrow> Inl (Service_config_error configured)
         | Some pool \<Rightarrow>
             if cr_cidr pool \<noteq> configured \<or> cr_prefix pool < 12 \<or> cr_prefix pool > PROJECT_NETWORK_SUBNET_PREFIX
             then Inl (Service_config_error configured) else Inr pool)"

definition occupiedIpv4Ranges :: "string option list list \<Rightarrow> string list \<Rightarrow> cidr_range list" where
  "occupiedIpv4Ranges networks additionalCidrs =
     List.map_filter (\<lambda>config. case config of None \<Rightarrow> None | Some subnet \<Rightarrow> parseIpv4Cidr subnet) (concat networks) @
     List.map_filter parseIpv4Cidr additionalCidrs"

definition subnet_at :: "cidr_range \<Rightarrow> nat \<Rightarrow> cidr_range" where
  "subnet_at pool index =
     (let subnetSize = 2 ^ (32 - PROJECT_NETWORK_SUBNET_PREFIX); start = cr_start pool + index * subnetSize
      in \<lparr>cr_start = start, cr_end = start + subnetSize - 1, cr_prefix = PROJECT_NETWORK_SUBNET_PREFIX,
          cr_cidr = show_cidr start PROJECT_NETWORK_SUBNET_PREFIX\<rparr>)"

definition total_subnets :: "cidr_range \<Rightarrow> nat" where
  "total_subnets pool = 2 ^ (PROJECT_NETWORK_SUBNET_PREFIX - cr_prefix pool)"

definition taken :: "cidr_range list \<Rightarrow> cidr_range \<Rightarrow> bool" where
  "taken occupied candidate \<longleftrightarrow> list_ex (rangesOverlap candidate) occupied"

definition availableProjectSubnet :: "string \<Rightarrow> string option list list \<Rightarrow> string list \<Rightarrow> network_error + string option" where
  "availableProjectSubnet configured networks additionalCidrs =
     rbind (projectNetworkPool configured) (\<lambda>pool.
       let occupied = occupiedIpv4Ranges networks additionalCidrs
       in Inr (map_option cr_cidr (find (\<lambda>candidate. \<not> taken occupied candidate) (map (subnet_at pool) [0..<total_subnets pool]))))"

datatype pressure = Pressure_ok | Pressure_low | Pressure_exhausted

record pool_status =
  pst_cidr :: string
  pst_subnetPrefix :: nat
  pst_totalSubnets :: nat
  pst_unavailableSubnets :: nat
  pst_availableSubnets :: nat
  pst_pressure :: pressure

text \<open>\<open>Math.ceil(totalSubnets * 0.05)\<close> for a power of two, whose twentieth is no integer.\<close>

definition getProjectNetworkPoolStatus :: "string \<Rightarrow> string list list \<Rightarrow> network_error + pool_status" where
  "getProjectNetworkPoolStatus configured subnets =
     rbind (projectNetworkPool configured) (\<lambda>pool.
       let occupied = occupiedIpv4Ranges (map (map Some) subnets) [];
           totalSubnets = total_subnets pool;
           unavailableSubnets = length (filter (\<lambda>index. taken occupied (subnet_at pool index)) [0..<totalSubnets]);
           availableSubnets = totalSubnets - unavailableSubnets
       in Inr \<lparr>pst_cidr = cr_cidr pool, pst_subnetPrefix = PROJECT_NETWORK_SUBNET_PREFIX, pst_totalSubnets = totalSubnets,
             pst_unavailableSubnets = unavailableSubnets, pst_availableSubnets = availableSubnets,
             pst_pressure = (if availableSubnets = 0 then Pressure_exhausted
               else if availableSubnets \<le> max 4 ((totalSubnets + 19) div 20) then Pressure_low else Pressure_ok)\<rparr>)"

section \<open>Creating a network\<close>

datatype create_answer = Network_created | Create_failed string

definition isAddressPoolCollision :: "string \<Rightarrow> bool" where
  "isAddressPoolCollision message \<longleftrightarrow> js_includes ''pool overlaps'' (lower message)"

definition isAddressPoolExhausted :: "string \<Rightarrow> bool" where
  "isAddressPoolExhausted message \<longleftrightarrow>
     js_includes ''all predefined address pools have been fully subnetted'' (lower message) \<or>
     js_includes ''could not find an available, non-overlapping ipv4 address pool'' (lower message)"

record network_context =
  nx_projectNetworkPoolCidr :: string
  nx_instanceId :: "string option"
  nx_list :: "nat \<Rightarrow> string + network_info list"
  nx_create :: "nat \<Rightarrow> string \<Rightarrow> create_answer"
  nx_exists :: "string \<Rightarrow> string + bool"

text \<open>The attempts that are left, the rejected subnets and the outcome with the subnets Docker was asked for.\<close>

fun create_attempts :: "network_context \<Rightarrow> string \<Rightarrow> nat \<Rightarrow> string list \<Rightarrow> string list \<times> (network_error + string)" where
  "create_attempts c name 0 rejectedSubnets =
     ([], rbind (projectNetworkPool (nx_projectNetworkPoolCidr c)) (\<lambda>pool. Inl (Pool_exhausted name (cr_cidr pool))))"
| "create_attempts c name (Suc left) rejectedSubnets =
     (let attempt = NETWORK_CREATE_ATTEMPTS - Suc left
      in case nx_list c attempt of
           Inl e \<Rightarrow> ([], Inl (Docker_error e))
         | Inr networks \<Rightarrow>
             (case availableProjectSubnet (nx_projectNetworkPoolCidr c) (map ni_Subnets networks) rejectedSubnets of
                Inl e \<Rightarrow> ([], Inl e)
              | Inr None \<Rightarrow> ([], rbind (projectNetworkPool (nx_projectNetworkPoolCidr c)) (\<lambda>pool. Inl (Pool_exhausted name (cr_cidr pool))))
              | Inr (Some subnet) \<Rightarrow>
                  (case nx_create c attempt subnet of
                     Network_created \<Rightarrow> ([subnet], Inr name)
                   | Create_failed message \<Rightarrow>
                       if js_includes ''already exists'' message then ([subnet], Inr name)
                       else if isAddressPoolCollision message then
                         (case create_attempts c name left (rejectedSubnets @ [subnet]) of (asked, r) \<Rightarrow> (subnet # asked, r))
                       else if isAddressPoolExhausted message then
                         ([subnet], rbind (projectNetworkPool (nx_projectNetworkPoolCidr c)) (\<lambda>pool. Inl (Pool_exhausted name (cr_cidr pool))))
                       else ([subnet], Inl (Docker_error message)))))"

definition createManagedBridgeNetwork :: "network_context \<Rightarrow> string \<Rightarrow> string list \<times> (network_error + string)" where
  "createManagedBridgeNetwork c name =
     (case projectNetworkPool (nx_projectNetworkPoolCidr c) of
        Inl e \<Rightarrow> ([], Inl e)
      | Inr _ \<Rightarrow> create_attempts c name NETWORK_CREATE_ATTEMPTS [])"

definition ensureNetwork :: "network_context \<Rightarrow> string \<Rightarrow> string list \<times> (network_error + string)" where
  "ensureNetwork c name =
     (case nx_exists c name of
        Inl e \<Rightarrow> ([], Inl (Docker_error e))
      | Inr True \<Rightarrow> ([], Inr name)
      | Inr False \<Rightarrow> createManagedBridgeNetwork c name)"

definition ensureProjectNetwork :: "network_context \<Rightarrow> string \<Rightarrow> string list \<times> (network_error + string)" where
  "ensureProjectNetwork c projectName = ensureNetwork c (''ol-'' @ projectName)"

definition preflightProjectNetwork :: "network_context \<Rightarrow> string \<Rightarrow> network_error + unit" where
  "preflightProjectNetwork c projectName =
     (let networkName = ''ol-'' @ projectName
      in case nx_exists c networkName of
           Inl e \<Rightarrow> Inl (Docker_error e)
         | Inr True \<Rightarrow> Inr ()
         | Inr False \<Rightarrow>
             rbind (projectNetworkPool (nx_projectNetworkPoolCidr c)) (\<lambda>pool.
               case nx_list c 0 of
                 Inl e \<Rightarrow> Inl (Docker_error e)
               | Inr networks \<Rightarrow>
                   rbind (availableProjectSubnet (nx_projectNetworkPoolCidr c) (map ni_Subnets networks) []) (\<lambda>subnet.
                     if subnet = None then Inl (Pool_exhausted networkName (cr_cidr pool)) else Inr ())))"

section \<open>Ownership and removal\<close>

datatype ownership = Current_instance | Other_instance | Legacy_unlabeled | External | System_network

record network_summary =
  nsu_id :: string
  nsu_name :: string
  nsu_driver :: string
  nsu_scope :: string
  nsu_subnets :: "string list"
  nsu_endpointCount :: nat
  nsu_ownerInstanceId :: "string option"
  nsu_ownership :: ownership
  nsu_cleanupEligible :: bool
  nsu_cleanupBlocker :: "string option"

definition SYSTEM_NETWORK_NAMES :: "string list" where
  "SYSTEM_NETWORK_NAMES = [''bridge'', ''host'', ''none'']"

definition network_ownership :: "string option \<Rightarrow> network_info \<Rightarrow> ownership" where
  "network_ownership instanceId info =
     (let ownerInstanceId = ni_Labels info ''openlander.instance''
      in if ni_Name info \<in> set SYSTEM_NETWORK_NAMES then System_network
         else if truthy ownerInstanceId then
           (if truthy instanceId \<and> ownerInstanceId = instanceId then Current_instance else Other_instance)
         else if ni_Labels info ''openlander.managed'' = Some ''true'' \<or> starts_with ''ol-'' (ni_Name info) then Legacy_unlabeled
         else External)"

definition cleanup_blocker :: "string option \<Rightarrow> network_info \<Rightarrow> nat \<Rightarrow> string option" where
  "cleanup_blocker instanceId info endpointCount =
     (if ni_Name info \<in> set SYSTEM_NETWORK_NAMES then Some ''system_network''
      else if ni_Name info = ''openlander'' then Some ''shared_network''
      else if ni_Driver info \<noteq> ''bridge'' then Some ''unsupported_network_driver''
      else if ni_Scope info \<noteq> ''local'' then Some ''unsupported_network_scope''
      else if endpointCount > 0 then Some ''active_endpoints''
      else (case network_ownership instanceId info of
              Other_instance \<Rightarrow> Some ''different_instance''
            | Legacy_unlabeled \<Rightarrow> Some ''legacy_confirmation_required''
            | External \<Rightarrow> Some ''unmanaged_network''
            | _ \<Rightarrow> None))"

definition summarizeNetwork :: "string option \<Rightarrow> network_info \<Rightarrow> nat option \<Rightarrow> network_summary" where
  "summarizeNetwork instanceId info endpointCountOverride =
     (let endpointCount = (case endpointCountOverride of Some n \<Rightarrow> n | None \<Rightarrow> length (ni_Containers info));
          cleanupBlocker = cleanup_blocker instanceId info endpointCount
      in \<lparr>nsu_id = ni_Id info, nsu_name = ni_Name info, nsu_driver = ni_Driver info, nsu_scope = ni_Scope info,
          nsu_subnets = filter (\<lambda>s. s \<noteq> []) (List.map_filter (\<lambda>s. s) (ni_Subnets info)),
          nsu_endpointCount = endpointCount, nsu_ownerInstanceId = ni_Labels info ''openlander.instance'',
          nsu_ownership = network_ownership instanceId info, nsu_cleanupEligible = (cleanupBlocker = None), nsu_cleanupBlocker = cleanupBlocker\<rparr>)"

text \<open>The endpoints of all containers, as pairs of the network's name and its id. A network is counted under its
  id, and under its name when no endpoint has the id.\<close>

definition listed_endpoints :: "(string \<times> string option) list \<Rightarrow> network_info \<Rightarrow> nat" where
  "listed_endpoints endpoints info =
     (let by_id = length (filter (\<lambda>(name, netId). truthy netId \<and> netId = Some (ni_Id info)) endpoints)
      in if by_id > 0 then by_id else length (filter (\<lambda>(name, netId). name = ni_Name info) endpoints))"

definition listNetworks :: "string option \<Rightarrow> network_info list \<Rightarrow> (string \<times> string option) list list \<Rightarrow> network_summary list" where
  "listNetworks instanceId networks containers =
     map (\<lambda>network. summarizeNetwork instanceId network (Some (listed_endpoints (concat containers) network))) networks"

datatype inspect_answer = Inspected network_info | Inspect_missing | Inspect_error string
datatype remove_answer = Removed | Remove_missing | Remove_error string

definition remove_result :: "string \<Rightarrow> 'a \<Rightarrow> remove_answer \<Rightarrow> network_error + 'a" where
  "remove_result networkName summary removed = (case removed of
       Removed \<Rightarrow> Inr summary
     | Remove_missing \<Rightarrow> Inl (Network_not_found networkName)
     | Remove_error message \<Rightarrow>
         if js_includes ''active endpoints'' (lower message) then Inl (Cleanup_blocked networkName ''active_endpoints'')
         else Inl (Docker_error message))"

text \<open>The network that Docker is asked to remove, and the answer.\<close>

definition removeUnusedNetwork ::
    "string option \<Rightarrow> string \<Rightarrow> string \<Rightarrow> bool \<Rightarrow> inspect_answer \<Rightarrow> remove_answer \<Rightarrow> network_info option \<times> (network_error + network_summary)" where
  "removeUnusedNetwork instanceId networkName expectedNetworkId allowLegacyUnlabeled inspected removed =
     (case inspected of
        Inspect_missing \<Rightarrow> (None, Inl (Network_not_found networkName))
      | Inspect_error e \<Rightarrow> (None, Inl (Docker_error e))
      | Inspected info \<Rightarrow>
          (let summary = summarizeNetwork instanceId info None
           in if nsu_id summary \<noteq> expectedNetworkId then (None, Inl (Cleanup_blocked networkName ''network_id_changed''))
              else if nsu_endpointCount summary > 0 then (None, Inl (Cleanup_blocked networkName ''active_endpoints''))
              else if nsu_cleanupBlocker summary \<notin> {None, Some ''legacy_confirmation_required''}
                then (None, Inl (Cleanup_blocked networkName (the (nsu_cleanupBlocker summary))))
              else if nsu_ownership summary = Legacy_unlabeled \<and> \<not> allowLegacyUnlabeled
                then (None, Inl (Cleanup_blocked networkName ''legacy_confirmation_required''))
              else (Some info, remove_result networkName summary removed)))"

text \<open>The removal of the network of a project: the managed proxy is disconnected first. \<open>labels\<close> gives the labels of the
  containers Docker still knows. The calls that are made, in order.\<close>

datatype network_call = Disconnect string | Remove_network

definition owned_traefik :: "string \<Rightarrow> (string \<Rightarrow> string option) \<Rightarrow> bool" where
  "owned_traefik instanceId labels \<longleftrightarrow>
     labels ''openlander.managed'' = Some ''true'' \<and> labels ''openlander.role'' = Some ''traefik'' \<and> labels ''openlander.instance'' = Some instanceId"

definition removeProjectNetwork ::
    "string option \<Rightarrow> inspect_answer \<Rightarrow> (string \<Rightarrow> (string \<Rightarrow> string option) option) \<Rightarrow> remove_answer \<Rightarrow> network_call list \<times> (network_error + unit)" where
  "removeProjectNetwork instanceId inspected labels removed =
     (case inspected of
        Inspect_missing \<Rightarrow> ([], Inr ())
      | Inspect_error e \<Rightarrow> ([], if js_includes ''active endpoints'' e then Inr () else Inl (Docker_error e))
      | Inspected info \<Rightarrow>
          if truthy instanceId \<and> ni_Labels info ''openlander.instance'' \<noteq> instanceId then ([], Inr ())
          else (let disconnects = (if truthy instanceId
                     then map Disconnect (filter (\<lambda>containerId. case labels containerId of None \<Rightarrow> False | Some l \<Rightarrow> owned_traefik (the instanceId) l) (ni_Containers info))
                     else [])
                in (disconnects @ [Remove_network],
                    case removed of
                      Removed \<Rightarrow> Inr () | Remove_missing \<Rightarrow> Inr ()
                    | Remove_error message \<Rightarrow> if js_includes ''active endpoints'' message then Inr () else Inl (Docker_error message))))"

section \<open>Addresses: texts and numbers\<close>

lemma show_nat_length:
  "n < 10 \<Longrightarrow> length (show_nat n) = 1" "n < 100 \<Longrightarrow> length (show_nat n) \<le> 2" "n < 1000 \<Longrightarrow> length (show_nat n) \<le> 3"
proof -
  have one: "m < 10 \<Longrightarrow> length (show_nat m) = 1" for m by (subst show_nat.simps) simp
  have two: "m < 100 \<Longrightarrow> length (show_nat m) \<le> 2" for m
    using one [of "m div 10"] by (subst show_nat.simps) (auto simp: less_mult_imp_div_less)
  have "m < 1000 \<Longrightarrow> length (show_nat m) \<le> 3" for m
    using two [of "m div 10"] by (subst show_nat.simps) (auto simp: less_mult_imp_div_less)
  then show "n < 10 \<Longrightarrow> length (show_nat n) = 1" "n < 100 \<Longrightarrow> length (show_nat n) \<le> 2" "n < 1000 \<Longrightarrow> length (show_nat n) \<le> 3"
    using one two by auto
qed

lemma octet_show: "n < 256 \<Longrightarrow> octet (show_nat n) = Some n"
  using show_nat_length(3) [of n] by (simp add: octet_def)

lemma read_octets_4:
  "read_octets 0 [a, b, c, d] =
     (case (octet a, octet b, octet c, octet d) of
        (Some x, Some y, Some z, Some w) \<Rightarrow> Some (((x * 256 + y) * 256 + z) * 256 + w) | _ \<Rightarrow> None)"
  by (auto split: option.splits)

lemma split_address:
  "js_split CHR ''.'' (formatIpv4Address n) =
     [show_nat (n div 2 ^ 24), show_nat (n div 2 ^ 16 mod 256), show_nat (n div 2 ^ 8 mod 256), show_nat (n mod 256)]"
proof -
  have "CHR ''.'' \<notin> set (show_nat k)" for k by (rule show_nat_no_char) (simp add: is_digit_def)
  then show ?thesis unfolding formatIpv4Address_def by (intro js_split_join) auto
qed

lemma bytes_sum: "((n div 2 ^ 24 * 256 + n div 2 ^ 16 mod 256) * 256 + n div 2 ^ 8 mod 256) * 256 + n mod 256 = (n::nat)"
proof -
  have "n div 2 ^ 8 = (n div 2 ^ 8) div 256 * 256 + n div 2 ^ 8 mod 256" "n div 2 ^ 16 = (n div 2 ^ 16) div 256 * 256 + n div 2 ^ 16 mod 256"
    by presburger+
  moreover have "(n div 2 ^ 8) div 256 = n div 2 ^ 16" "(n div 2 ^ 16) div 256 = n div 2 ^ 24"
    by (simp_all add: div_mult2_eq [symmetric])
  moreover have "n = n div 2 ^ 8 * 256 + n mod 256" by simp
  moreover have "b = a * 256 + m16 \<Longrightarrow> e = b * 256 + m8 \<Longrightarrow> n = e * 256 + m0 \<Longrightarrow> ((a * 256 + m16) * 256 + m8) * 256 + m0 = n"
    for a b e m16 m8 m0 :: nat by simp
  ultimately show ?thesis by metis
qed

lemma parse_address_format:
  assumes "n < 2 ^ 32"
  shows "parseIpv4Address (formatIpv4Address n) = Some n"
proof -
  have "n div 2 ^ 24 < 256" using assms by (simp add: less_mult_imp_div_less)
  then show ?thesis
    unfolding parseIpv4Address_def split_address Let_def
    using bytes_sum [of n] by (simp add: octet_show)
qed

lemma octet_bound: "octet s = Some n \<Longrightarrow> n < 256"
  by (auto simp: octet_def split: if_splits)

lemma address_bound:
  assumes "parseIpv4Address s = Some n"
  shows "n < 2 ^ 32"
proof -
  from assms obtain a b d e where p: "js_split CHR ''.'' s = [a, b, d, e]" and r: "read_octets 0 [a, b, d, e] = Some n"
    by (auto simp: parseIpv4Address_def Let_def length_Suc_conv numeral_eq_Suc split: if_splits)
  from r obtain x y z w where o: "octet a = Some x" "octet b = Some y" "octet d = Some z" "octet e = Some w"
    and n: "n = ((x * 256 + y) * 256 + z) * 256 + w"
    unfolding read_octets_4 by (auto split: option.splits)
  show ?thesis using octet_bound [OF o(1)] octet_bound [OF o(2)] octet_bound [OF o(3)] octet_bound [OF o(4)] unfolding n by simp
qed

text \<open>A range of addresses: aligned, within the 32 bits.\<close>

definition range_ok :: "cidr_range \<Rightarrow> bool" where
  "range_ok r \<longleftrightarrow> cr_prefix r \<le> 32 \<and> cr_start r mod 2 ^ (32 - cr_prefix r) = 0 \<and> cr_end r = cr_start r + 2 ^ (32 - cr_prefix r) - 1
     \<and> cr_end r < 2 ^ 32 \<and> cr_cidr r = show_cidr (cr_start r) (cr_prefix r)"

definition addresses :: "cidr_range \<Rightarrow> nat set" where
  "addresses r = {cr_start r .. cr_end r}"

lemma aligned_end:
  fixes k p :: nat
  assumes "k * 2 ^ (32 - p) < 2 ^ 32" and "p \<le> 32"
  shows "k * 2 ^ (32 - p) + 2 ^ (32 - p) - 1 < 2 ^ 32"
proof -
  have e: "(2::nat) ^ 32 = 2 ^ p * 2 ^ (32 - p)" using assms(2) by (simp add: power_add [symmetric])
  with assms(1) have "k * 2 ^ (32 - p) < 2 ^ p * 2 ^ (32 - p)" by metis
  then have "k < 2 ^ p" by (metis mult_less_cancel2)
  then have "(k + 1) * 2 ^ (32 - p) \<le> (2::nat) ^ p * 2 ^ (32 - p)" by (intro mult_le_mono1) simp
  then have "k * 2 ^ (32 - p) + 2 ^ (32 - p) \<le> (2::nat) ^ p * 2 ^ (32 - p)" by (simp add: algebra_simps)
  moreover have "(1::nat) \<le> 2 ^ (32 - p)" by simp
  ultimately show ?thesis unfolding e by linarith
qed

lemma parse_range_ok:
  assumes "parseIpv4Cidr v = Some r"
  shows "range_ok r"
proof -
  from assms obtain a p where v: "js_split CHR ''/'' (js_trim v) = [a, p]" by (auto simp: parseIpv4Cidr_def split: list.splits)
  from assms v obtain n where n: "parseIpv4Address a = Some n" and p: "read_nat p \<le> 32"
    and r: "r = \<lparr>cr_start = n div 2 ^ (32 - read_nat p) * 2 ^ (32 - read_nat p),
        cr_end = n div 2 ^ (32 - read_nat p) * 2 ^ (32 - read_nat p) + 2 ^ (32 - read_nat p) - 1, cr_prefix = read_nat p,
        cr_cidr = show_cidr (n div 2 ^ (32 - read_nat p) * 2 ^ (32 - read_nat p)) (read_nat p)\<rparr>"
    by (auto simp: parseIpv4Cidr_def Let_def split: if_splits option.splits)
  have "n div 2 ^ (32 - read_nat p) * 2 ^ (32 - read_nat p) < 2 ^ 32"
    using address_bound [OF n] div_times_less_eq_dividend [of n "2 ^ (32 - read_nat p)"] by (rule le_less_trans [rotated])
  from aligned_end [OF this p] show ?thesis using p by (simp add: r range_ok_def)
qed

lemma digit_no_space: "is_digit ch \<Longrightarrow> \<not> is_space ch"
  by (auto simp: is_digit_def is_space_def)

lemma show_cidr_parts:
  "js_split CHR ''/'' (show_cidr n p) = [formatIpv4Address n, show_nat p]" "js_trim (show_cidr n p) = show_cidr n p" "formatIpv4Address n \<noteq> []"
proof -
  have d: "CHR ''/'' \<notin> set (show_nat k)" for k by (rule show_nat_no_char) (simp add: is_digit_def)
  have f: "CHR ''/'' \<notin> set (formatIpv4Address n)" by (simp add: formatIpv4Address_def d)
  have "js_split CHR ''/'' (js_join ''/'' [formatIpv4Address n, show_nat p]) = [formatIpv4Address n, show_nat p]"
    by (rule js_split_join) (use d f in auto)
  then show "js_split CHR ''/'' (show_cidr n p) = [formatIpv4Address n, show_nat p]" by (simp add: show_cidr_def)
  have dig: "\<forall>ch \<in> set (show_nat k). is_digit ch" for k using show_nat_canonical(2) [of k] by (simp add: all_digits_def list_all_iff)
  show "formatIpv4Address n \<noteq> []" by (simp add: formatIpv4Address_def)
  have "ch \<in> set (show_cidr n p) \<Longrightarrow> is_digit ch \<or> ch = CHR ''.'' \<or> ch = CHR ''/''" for ch
    using dig by (auto simp: show_cidr_def formatIpv4Address_def)
  then show "js_trim (show_cidr n p) = show_cidr n p"
    by (intro js_trim_plain) (use digit_no_space in \<open>auto simp: is_space_def\<close>)
qed

lemma parse_show_cidr:
  assumes "range_ok r"
  shows "parseIpv4Cidr (cr_cidr r) = Some r"
proof -
  have p: "cr_prefix r \<le> 32" and c: "cr_cidr r = show_cidr (cr_start r) (cr_prefix r)" and m: "cr_start r mod 2 ^ (32 - cr_prefix r) = 0"
    and e: "cr_end r = cr_start r + 2 ^ (32 - cr_prefix r) - 1" and b: "cr_end r < 2 ^ 32" using assms by (auto simp: range_ok_def)
  have len: "length (show_nat (cr_prefix r)) \<le> 2" using p show_nat_length(2) [of "cr_prefix r"] by simp
  have "(1::nat) \<le> 2 ^ (32 - cr_prefix r)" by simp
  then have "cr_start r \<le> cr_end r" unfolding e by linarith
  with b have addr: "parseIpv4Address (formatIpv4Address (cr_start r)) = Some (cr_start r)" by (intro parse_address_format) simp
  have "cr_start r div 2 ^ (32 - cr_prefix r) * 2 ^ (32 - cr_prefix r) = cr_start r" using m by (metis add.right_neutral div_mult_mod_eq)
  then show ?thesis
    unfolding c parseIpv4Cidr_def show_cidr_parts using p e c len addr show_cidr_parts(3)
    by (cases r) (simp add: Let_def)
qed

section \<open>The free subnets\<close>

lemma range_nonempty: "range_ok r \<Longrightarrow> cr_start r \<le> cr_end r"
proof -
  assume "range_ok r"
  moreover have "(1::nat) \<le> 2 ^ (32 - cr_prefix r)" by simp
  ultimately show ?thesis unfolding range_ok_def by linarith
qed

lemma overlap_iff: "range_ok l \<Longrightarrow> range_ok r \<Longrightarrow> rangesOverlap l r \<longleftrightarrow> addresses l \<inter> addresses r \<noteq> {}"
  using range_nonempty [of l] range_nonempty [of r] by (auto simp: rangesOverlap_def addresses_def)

lemma pool_ok: "projectNetworkPool configured = Inr pool \<Longrightarrow> range_ok pool \<and> 12 \<le> cr_prefix pool \<and> cr_prefix pool \<le> 24"
  by (auto simp: projectNetworkPool_def Let_def PROJECT_NETWORK_SUBNET_PREFIX_def parse_range_ok split: option.splits if_splits)

lemma pool_size: "cr_prefix pool \<le> 24 \<Longrightarrow> total_subnets pool * 256 = 2 ^ (32 - cr_prefix pool)"
proof -
  assume "cr_prefix pool \<le> 24"
  then have "32 - cr_prefix pool = (24 - cr_prefix pool) + 8" by simp
  then have "(2::nat) ^ (32 - cr_prefix pool) = 2 ^ (24 - cr_prefix pool) * 2 ^ 8" by (simp only: power_add)
  then show ?thesis by (simp only: total_subnets_def PROJECT_NETWORK_SUBNET_PREFIX_def) simp
qed

lemma pool_end: "range_ok pool \<Longrightarrow> cr_prefix pool \<le> 24 \<Longrightarrow> cr_end pool + 1 = cr_start pool + total_subnets pool * 256"
proof -
  assume p: "range_ok pool" "cr_prefix pool \<le> 24"
  have "(1::nat) \<le> 2 ^ (32 - cr_prefix pool)" by simp
  moreover have "cr_end pool = cr_start pool + 2 ^ (32 - cr_prefix pool) - 1" using p(1) unfolding range_ok_def by blast
  ultimately show ?thesis unfolding pool_size [OF p(2)] by linarith
qed

lemma subnet_ok:
  assumes "range_ok pool" and "cr_prefix pool \<le> 24" and "i < total_subnets pool"
  shows "range_ok (subnet_at pool i)" and "addresses (subnet_at pool i) \<subseteq> addresses pool" and "cr_prefix (subnet_at pool i) = 24"
proof -
  have e: "cr_end pool + 1 = cr_start pool + total_subnets pool * 256" by (rule pool_end [OF assms(1,2)])
  have "(i + 1) * 256 \<le> total_subnets pool * 256" by (rule mult_le_mono1) (use assms(3) in simp)
  then have le: "cr_start pool + i * 256 + 255 \<le> cr_end pool" using e by simp
  have "256 dvd cr_start pool"
  proof -
    have "(256::nat) dvd 2 ^ (32 - cr_prefix pool)" unfolding pool_size [OF assms(2), symmetric] by simp
    moreover have "2 ^ (32 - cr_prefix pool) dvd cr_start pool" using assms(1) by (simp add: range_ok_def mod_eq_0_iff_dvd)
    ultimately show ?thesis by (rule dvd_trans)
  qed
  then have m: "(cr_start pool + i * 256) mod 256 = 0" by (simp add: mod_eq_0_iff_dvd)
  have b: "cr_end pool < 2 ^ 32" using assms(1) by (simp add: range_ok_def)
  show "cr_prefix (subnet_at pool i) = 24" by (simp add: subnet_at_def PROJECT_NETWORK_SUBNET_PREFIX_def Let_def)
  show "range_ok (subnet_at pool i)"
    using le b m by (simp add: range_ok_def subnet_at_def PROJECT_NETWORK_SUBNET_PREFIX_def Let_def)
  show "addresses (subnet_at pool i) \<subseteq> addresses pool"
    using le by (auto simp: addresses_def subnet_at_def PROJECT_NETWORK_SUBNET_PREFIX_def Let_def)
qed

lemma subnet_every:
  assumes "range_ok pool" and "cr_prefix pool \<le> 24" and r: "range_ok r" "cr_prefix r = 24" "addresses r \<subseteq> addresses pool"
  shows "\<exists>i < total_subnets pool. r = subnet_at pool i"
proof -
  have e: "cr_end pool + 1 = cr_start pool + total_subnets pool * 256" by (rule pool_end [OF assms(1,2)])
  have "256 dvd cr_start pool"
  proof -
    have "(256::nat) dvd 2 ^ (32 - cr_prefix pool)" unfolding pool_size [OF assms(2), symmetric] by simp
    moreover have "2 ^ (32 - cr_prefix pool) dvd cr_start pool" using assms(1) by (simp add: range_ok_def mod_eq_0_iff_dvd)
    ultimately show ?thesis by (rule dvd_trans)
  qed
  then obtain a where a: "cr_start pool = 256 * a" by (elim dvdE)
  from r(1,2) have "256 dvd cr_start r" by (simp add: range_ok_def mod_eq_0_iff_dvd)
  then obtain b where b: "cr_start r = 256 * b" by (elim dvdE)
  have re: "cr_end r = cr_start r + 255" using r(1,2) by (simp add: range_ok_def)
  have in1: "cr_start pool \<le> cr_start r" "cr_end r \<le> cr_end pool"
    using r(3) range_nonempty [OF r(1)] by (auto simp: addresses_def)
  from in1(1) a b have ab: "a \<le> b" by simp
  have lt: "b - a < total_subnets pool" using in1(2) re e a b ab by simp
  have "r = subnet_at pool (b - a)"
    using r(1,2) re a b ab by (cases r) (simp add: range_ok_def subnet_at_def PROJECT_NETWORK_SUBNET_PREFIX_def Let_def diff_mult_distrib mult.commute)
  with lt show ?thesis by blast
qed

lemma occupied_ok: "o' \<in> set (occupiedIpv4Ranges ns extra) \<Longrightarrow> range_ok o'"
  by (auto simp: occupiedIpv4Ranges_def List.map_filter_def intro: parse_range_ok split: option.splits)

lemma taken_iff:
  assumes "range_ok r"
  shows "taken (occupiedIpv4Ranges ns extra) r \<longleftrightarrow> (\<exists>o' \<in> set (occupiedIpv4Ranges ns extra). addresses r \<inter> addresses o' \<noteq> {})"
  using overlap_iff [OF assms] occupied_ok by (auto simp: taken_def list_ex_iff)

lemma available_some:
  assumes "availableProjectSubnet configured networks additional = Inr (Some cidr)" and "projectNetworkPool configured = Inr pool"
  obtains r where "parseIpv4Cidr cidr = Some r" "cr_prefix r = 24" "cr_cidr r = cidr" "addresses r \<subseteq> addresses pool"
    "\<forall>o' \<in> set (occupiedIpv4Ranges networks additional). addresses r \<inter> addresses o' = {}"
proof -
  let ?occ = "occupiedIpv4Ranges networks additional"
  have pool: "range_ok pool" "cr_prefix pool \<le> 24" using pool_ok [OF assms(2)] by auto
  from assms obtain r where "find (\<lambda>candidate. \<not> taken ?occ candidate) (map (subnet_at pool) [0..<total_subnets pool]) = Some r" and c: "cidr = cr_cidr r"
    by (auto simp: availableProjectSubnet_def Let_def)
  then obtain i where i: "i < total_subnets pool" "r = subnet_at pool i" "\<not> taken ?occ r" by (auto simp: find_Some_iff)
  note ok = subnet_ok [OF pool i(1), folded i(2)]
  show ?thesis
    by (rule that [of r]) (use i(3) parse_show_cidr [OF ok(1)] ok taken_iff [OF ok(1)] c in auto)
qed

lemma available_none:
  assumes "availableProjectSubnet configured networks additional = Inr None" and "projectNetworkPool configured = Inr pool"
    and r: "range_ok r" "cr_prefix r = 24" "addresses r \<subseteq> addresses pool"
  shows "\<exists>o' \<in> set (occupiedIpv4Ranges networks additional). addresses r \<inter> addresses o' \<noteq> {}"
proof -
  let ?occ = "occupiedIpv4Ranges networks additional"
  have pool: "range_ok pool" "cr_prefix pool \<le> 24" using pool_ok [OF assms(2)] by auto
  from subnet_every [OF pool r] obtain i where "i < total_subnets pool" "r = subnet_at pool i" by blast
  with assms(1,2) have "taken ?occ r" by (auto simp: availableProjectSubnet_def Let_def find_None_iff)
  then show ?thesis unfolding taken_iff [OF r(1)] .
qed

text \<open>
  C31. The subnet that is picked for a project network is a canonical \<open>/24\<close> inside the configured pool that shares no
  address with any range Docker reported or refused; and none is picked only when every \<open>/24\<close> of the
  pool shares an address with such a range.
\<close>

theorem availableProjectSubnet_correct:
  assumes "projectNetworkPool configured = Inr pool"
  shows "case availableProjectSubnet configured networks additional of
      Inl e \<Rightarrow> False
    | Inr (Some cidr) \<Rightarrow> (\<exists>r. parseIpv4Cidr cidr = Some r \<and> cr_prefix r = 24 \<and> cr_cidr r = cidr \<and> addresses r \<subseteq> addresses pool
        \<and> (\<forall>o' \<in> set (occupiedIpv4Ranges networks additional). addresses r \<inter> addresses o' = {}))
    | Inr None \<Rightarrow> (\<forall>r. range_ok r \<longrightarrow> cr_prefix r = 24 \<longrightarrow> addresses r \<subseteq> addresses pool
        \<longrightarrow> (\<exists>o' \<in> set (occupiedIpv4Ranges networks additional). addresses r \<inter> addresses o' \<noteq> {}))"
proof -
  obtain v where v: "availableProjectSubnet configured networks additional = Inr v"
    by (simp add: availableProjectSubnet_def assms Let_def)
  show ?thesis
  proof (cases v)
    case None
    then show ?thesis using available_none [of configured networks additional pool] v assms by simp
  next
    case (Some cidr)
    with v have "availableProjectSubnet configured networks additional = Inr (Some cidr)" by simp
    then show ?thesis using available_some [OF _ assms] by (simp only: sum.case option.case) metis
  qed
qed

lemmas network_eval = parseIpv4Cidr_def parseIpv4Address_def Let_def octet_def canonical_number_def all_digits_def is_digit_def read_nat_def
  js_trim_def is_space_def show_cidr_def formatIpv4Address_def show_nat.simps

lemma example_parse:
  "parseIpv4Cidr ''10.200.0.0/23'' = Some \<lparr>cr_start = 180879360, cr_end = 180879871, cr_prefix = 23, cr_cidr = ''10.200.0.0/23''\<rparr>"
  "parseIpv4Cidr ''10.200.0.0/24'' = Some \<lparr>cr_start = 180879360, cr_end = 180879615, cr_prefix = 24, cr_cidr = ''10.200.0.0/24''\<rparr>"
  by (simp_all add: network_eval)

lemma example_pool:
  "projectNetworkPool ''10.200.0.0/23'' = Inr \<lparr>cr_start = 180879360, cr_end = 180879871, cr_prefix = 23, cr_cidr = ''10.200.0.0/23''\<rparr>"
proof -
  have "js_trim ''10.200.0.0/23'' = ''10.200.0.0/23''" by (simp add: js_trim_def is_space_def)
  then show ?thesis by (simp add: projectNetworkPool_def example_parse PROJECT_NETWORK_SUBNET_PREFIX_def)
qed

lemma example_subnets:
  "subnet_at \<lparr>cr_start = 180879360, cr_end = 180879871, cr_prefix = 23, cr_cidr = x\<rparr> 0 = \<lparr>cr_start = 180879360, cr_end = 180879615, cr_prefix = 24, cr_cidr = ''10.200.0.0/24''\<rparr>"
  "subnet_at \<lparr>cr_start = 180879360, cr_end = 180879871, cr_prefix = 23, cr_cidr = x\<rparr> 1 = \<lparr>cr_start = 180879616, cr_end = 180879871, cr_prefix = 24, cr_cidr = ''10.200.1.0/24''\<rparr>"
  by (simp_all add: subnet_at_def PROJECT_NETWORK_SUBNET_PREFIX_def Let_def show_cidr_def formatIpv4Address_def show_nat.simps)

lemma example_occupied:
  "occupiedIpv4Ranges [[Some ''10.200.0.0/24'']] [] = [\<lparr>cr_start = 180879360, cr_end = 180879615, cr_prefix = 24, cr_cidr = ''10.200.0.0/24''\<rparr>]"
  by (simp add: occupiedIpv4Ranges_def List.map_filter_def example_parse)

lemma example_available:
  "availableProjectSubnet ''10.200.0.0/23'' [[Some ''10.200.0.0/24'']] [] = Inr (Some ''10.200.1.0/24'')"
proof -
  let ?pool = "\<lparr>cr_start = 180879360, cr_end = 180879871, cr_prefix = 23, cr_cidr = ''10.200.0.0/23''\<rparr>"
  have two: "[0..<total_subnets ?pool] = [0, 1]" by (simp add: total_subnets_def PROJECT_NETWORK_SUBNET_PREFIX_def upt_rec)
  have subs: "map (subnet_at ?pool) [0, 1] = [\<lparr>cr_start = 180879360, cr_end = 180879615, cr_prefix = 24, cr_cidr = ''10.200.0.0/24''\<rparr>,
      \<lparr>cr_start = 180879616, cr_end = 180879871, cr_prefix = 24, cr_cidr = ''10.200.1.0/24''\<rparr>]"
    by (simp only: list.map example_subnets)
  show ?thesis
    unfolding availableProjectSubnet_def example_pool rbind_simps Let_def example_occupied two subs
    by (simp add: taken_def rangesOverlap_def)
qed

lemma availableProjectSubnet_correct_witness:
  "\<exists>r. parseIpv4Cidr ''10.200.1.0/24'' = Some r \<and> cr_prefix r = 24 \<and> cr_cidr r = ''10.200.1.0/24''
     \<and> addresses r \<inter> {180879360..180879615} = {}"
proof -
  from availableProjectSubnet_correct [OF example_pool, of "[[Some ''10.200.0.0/24'']]" "[]"]
  show ?thesis unfolding example_available example_occupied by (auto simp: addresses_def)
qed

text \<open>The status of the pool agrees with what can be allocated.\<close>

lemma filter_none_available:
  "n - length (filter P [0..<n]) = 0 \<longleftrightarrow> (\<forall>i < n. P i)"
proof -
  have "length (filter P [0..<n]) + length (filter (\<lambda>i. \<not> P i) [0..<n]) = n"
    using sum_length_filter_compl [of P "[0..<n]"] by simp
  then have "n - length (filter P [0..<n]) = length (filter (\<lambda>i. \<not> P i) [0..<n])" by linarith
  then show ?thesis by (auto simp: filter_empty_conv)
qed

lemma pool_status_correct:
  assumes "getProjectNetworkPoolStatus configured subnets = Inr st"
  shows "pst_unavailableSubnets st + pst_availableSubnets st = pst_totalSubnets st"
    and "pst_pressure st = Pressure_exhausted \<longleftrightarrow> availableProjectSubnet configured (map (map Some) subnets) [] = Inr None"
proof -
  from assms obtain pool where pool: "projectNetworkPool configured = Inr pool"
    by (auto simp: getProjectNetworkPoolStatus_def rbind_Inr_iff)
  let ?occ = "occupiedIpv4Ranges (map (map Some) subnets) []" and ?n = "total_subnets pool"
  let ?u = "length (filter (\<lambda>index. taken ?occ (subnet_at pool index)) [0..<?n])"
  from assms have st: "pst_unavailableSubnets st = ?u" "pst_availableSubnets st = ?n - ?u" "pst_totalSubnets st = ?n"
      "pst_pressure st = Pressure_exhausted \<longleftrightarrow> ?n - ?u = 0"
    by (auto simp: getProjectNetworkPoolStatus_def pool Let_def split: if_splits)
  have "?u \<le> ?n" using length_filter_le [of "\<lambda>index. taken ?occ (subnet_at pool index)" "[0..<?n]"] by simp
  then show "pst_unavailableSubnets st + pst_availableSubnets st = pst_totalSubnets st" by (simp add: st)
  show "pst_pressure st = Pressure_exhausted \<longleftrightarrow> availableProjectSubnet configured (map (map Some) subnets) [] = Inr None"
    unfolding st(4) filter_none_available by (auto simp: availableProjectSubnet_def pool find_None_iff)
qed

section \<open>The attempts\<close>

lemma refused_not_again:
  assumes "availableProjectSubnet configured networks refused = Inr (Some cidr)"
  shows "cidr \<notin> set refused"
proof
  assume r: "cidr \<in> set refused"
  obtain pool where pool: "projectNetworkPool configured = Inr pool"
    using assms by (cases "projectNetworkPool configured") (auto simp: availableProjectSubnet_def)
  from available_some [OF assms pool] obtain x where
    x: "parseIpv4Cidr cidr = Some x" "\<forall>o' \<in> set (occupiedIpv4Ranges networks refused). addresses x \<inter> addresses o' = {}" by metis
  have "x \<in> set (occupiedIpv4Ranges networks refused)"
    using r x(1) by (force simp: occupiedIpv4Ranges_def List.map_filter_def)
  with x(2) have "addresses x = {}" by blast
  with range_nonempty [OF parse_range_ok [OF x(1)]] show False by (simp add: addresses_def)
qed

lemma attempts_picks:
  "create_attempts c name left refused = (asked, r) \<Longrightarrow> left \<le> NETWORK_CREATE_ATTEMPTS \<Longrightarrow>
   length asked \<le> left \<and> (\<forall>j < length asked. \<exists>networks. nx_list c (NETWORK_CREATE_ATTEMPTS - left + j) = Inr networks \<and>
     availableProjectSubnet (nx_projectNetworkPoolCidr c) (map ni_Subnets networks) (refused @ take j asked) = Inr (Some (asked ! j)))"
proof (induction left arbitrary: refused asked r)
  case (Suc left)
  let ?at = "NETWORK_CREATE_ATTEMPTS - Suc left"
  show ?case
  proof (cases "asked = []")
    case False
    then obtain networks subnet where n: "nx_list c ?at = Inr networks"
      and s: "availableProjectSubnet (nx_projectNetworkPoolCidr c) (map ni_Subnets networks) refused = Inr (Some subnet)"
      using Suc.prems(1) by (auto simp: Let_def split: sum.splits option.splits)
    have "(\<exists>more r'. create_attempts c name left (refused @ [subnet]) = (more, r') \<and> asked = subnet # more) \<or> asked = [subnet]"
      using Suc.prems(1) n s by (auto simp: Let_def split: create_answer.splits prod.splits if_splits)
    then show ?thesis
    proof
      assume "asked = [subnet]"
      then show ?thesis using n s by auto
    next
      assume "\<exists>more r'. create_attempts c name left (refused @ [subnet]) = (more, r') \<and> asked = subnet # more"
      then obtain more r' where more: "create_attempts c name left (refused @ [subnet]) = (more, r')" and a: "asked = subnet # more" by blast
      have "left \<le> NETWORK_CREATE_ATTEMPTS" using Suc.prems(2) by simp
      note IH = Suc.IH [OF more this]
      have "\<exists>networks. nx_list c (?at + j) = Inr networks \<and>
          availableProjectSubnet (nx_projectNetworkPoolCidr c) (map ni_Subnets networks) (refused @ take j asked) = Inr (Some (asked ! j))"
        if j: "j < length asked" for j
      proof (cases j)
        case 0
        then show ?thesis using n s by (auto simp: a)
      next
        case (Suc k)
        have at: "?at + j = NETWORK_CREATE_ATTEMPTS - left + k" using Suc Suc.prems(2) by simp
        have "k < length more" using j Suc by (simp add: a)
        with IH obtain ns where "nx_list c (NETWORK_CREATE_ATTEMPTS - left + k) = Inr ns"
          "availableProjectSubnet (nx_projectNetworkPoolCidr c) (map ni_Subnets ns) ((refused @ [subnet]) @ take k more) = Inr (Some (more ! k))" by blast
        then show ?thesis unfolding at by (auto simp: a Suc)
      qed
      then show ?thesis using IH by (auto simp: a)
    qed
  qed simp
qed simp

text \<open>
  Creating a project network asks Docker at most eight times and never for the same subnet twice; what it asks for is, at each
  attempt, free of every range Docker had just listed and of everything it refused before.
\<close>

theorem network_attempts_bounded:
  assumes "createManagedBridgeNetwork c name = (asked, r)"
  shows "length asked \<le> 8 \<and> distinct asked \<and>
    (\<forall>j < length asked. \<exists>networks x. nx_list c j = Inr networks \<and> parseIpv4Cidr (asked ! j) = Some x \<and>
       (\<forall>o' \<in> set (occupiedIpv4Ranges (map ni_Subnets networks) (take j asked)). addresses x \<inter> addresses o' = {}))"
proof (cases "projectNetworkPool (nx_projectNetworkPoolCidr c)")
  case (Inl e)
  with assms show ?thesis by (simp add: createManagedBridgeNetwork_def)
next
  case (Inr pool)
  with assms have "create_attempts c name NETWORK_CREATE_ATTEMPTS [] = (asked, r)" by (simp add: createManagedBridgeNetwork_def)
  from attempts_picks [OF this] have len: "length asked \<le> NETWORK_CREATE_ATTEMPTS"
    and pick: "\<And>j. j < length asked \<Longrightarrow> \<exists>networks. nx_list c j = Inr networks \<and>
      availableProjectSubnet (nx_projectNetworkPoolCidr c) (map ni_Subnets networks) (take j asked) = Inr (Some (asked ! j))"
    by auto
  have new: "asked ! j \<notin> set (take j asked)" if "j < length asked" for j
    using pick [OF that] refused_not_again by blast
  have "distinct asked"
    unfolding distinct_conv_nth
  proof (intro allI impI)
    have one: "asked ! i \<noteq> asked ! j" if "i < j" "j < length asked" for i j
      using new [OF that(2)] that by (auto simp: in_set_conv_nth)
    fix i j assume "i < length asked" "j < length asked" "i \<noteq> j"
    then show "asked ! i \<noteq> asked ! j" using one [of i j] one [of j i] by (metis nat_neq_iff)
  qed
  moreover have "\<exists>networks x. nx_list c j = Inr networks \<and> parseIpv4Cidr (asked ! j) = Some x \<and>
       (\<forall>o' \<in> set (occupiedIpv4Ranges (map ni_Subnets networks) (take j asked)). addresses x \<inter> addresses o' = {})"
    if j: "j < length asked" for j
  proof -
    from pick [OF j] obtain networks where n: "nx_list c j = Inr networks"
      "availableProjectSubnet (nx_projectNetworkPoolCidr c) (map ni_Subnets networks) (take j asked) = Inr (Some (asked ! j))" by blast
    from available_some [OF n(2) Inr] n(1) show ?thesis by metis
  qed
  ultimately show ?thesis using len by (simp add: NETWORK_CREATE_ATTEMPTS_def)
qed

lemma network_attempts_bounded_witness:
  "let c = \<lparr>nx_projectNetworkPoolCidr = ''10.200.0.0/23'', nx_instanceId = None, nx_list = (\<lambda>n. Inr []),
        nx_create = (\<lambda>n s. Create_failed ''pool overlaps''), nx_exists = (\<lambda>n. Inr False)\<rparr>
   in length (fst (createManagedBridgeNetwork c ''ol-a'')) \<le> 8 \<and> distinct (fst (createManagedBridgeNetwork c ''ol-a''))"
  unfolding Let_def using network_attempts_bounded [OF prod.collapse [symmetric]] by blast

lemma removal_blocked:
  "cleanup_blocker instanceId i (length (ni_Containers i)) \<notin> {None, Some ''legacy_confirmation_required''} \<Longrightarrow>
   fst (removeUnusedNetwork instanceId networkName expectedNetworkId allowLegacy (Inspected i) removed) = None"
  unfolding removeUnusedNetwork_def summarizeNetwork_def Let_def by (cases "ni_Containers i") simp_all

text \<open>
  C32. A network is removed exactly when the inspection shows the expected id, a local bridge network without endpoints that is
  neither one of Docker's own nor the shared one, and which is labelled with this instance, or has no instance label, has the managed label or
  a name that starts with ol-, and the caller agreed to remove such networks. The documentation of the tool is narrower in
  the last case: it speaks of label-less networks named ol-*, see managed_network_of_any_name_removed below.
\<close>

theorem removeUnusedNetwork_iff:
  "fst (removeUnusedNetwork instanceId networkName expectedNetworkId allowLegacy inspected removed) = Some info \<longleftrightarrow>
     inspected = Inspected info \<and> ni_Id info = expectedNetworkId \<and> ni_Containers info = []
     \<and> ni_Driver info = ''bridge'' \<and> ni_Scope info = ''local''
     \<and> ni_Name info \<notin> {''bridge'', ''host'', ''none'', ''openlander''}
     \<and> (truthy instanceId \<and> ni_Labels info ''openlander.instance'' = instanceId
        \<or> \<not> truthy (ni_Labels info ''openlander.instance'') \<and> allowLegacy
          \<and> (ni_Labels info ''openlander.managed'' = Some ''true'' \<or> starts_with ''ol-'' (ni_Name info)))"
proof (cases inspected)
  case (Inspected i)
  consider (sys) "ni_Name i \<in> {''bridge'', ''host'', ''none'', ''openlander''}" | (drv) "ni_Driver i \<noteq> ''bridge'' \<or> ni_Scope i \<noteq> ''local''"
    | (ok) "ni_Name i \<notin> {''bridge'', ''host'', ''none'', ''openlander''}" "ni_Driver i = ''bridge''" "ni_Scope i = ''local''" by blast
  then show ?thesis
  proof cases
    case ok
    then have b: "cleanup_blocker instanceId i n =
        (if n > 0 then Some ''active_endpoints''
         else case network_ownership instanceId i of
              Other_instance \<Rightarrow> Some ''different_instance''
            | Legacy_unlabeled \<Rightarrow> Some ''legacy_confirmation_required''
            | External \<Rightarrow> Some ''unmanaged_network''
            | _ \<Rightarrow> None)" for n
      by (simp add: cleanup_blocker_def SYSTEM_NETWORK_NAMES_def)
    let ?own = "network_ownership instanceId i"
    have own: "?own = Current_instance \<longleftrightarrow> truthy instanceId \<and> ni_Labels i ''openlander.instance'' = instanceId"
        "?own = Legacy_unlabeled \<longleftrightarrow> \<not> truthy (ni_Labels i ''openlander.instance'') \<and>
           (ni_Labels i ''openlander.managed'' = Some ''true'' \<or> starts_with ''ol-'' (ni_Name i))"
        "?own \<noteq> System_network"
      using ok(1) by (auto simp: network_ownership_def SYSTEM_NETWORK_NAMES_def Let_def)
    have "fst (removeUnusedNetwork instanceId networkName expectedNetworkId allowLegacy inspected removed) =
        (if ni_Id i = expectedNetworkId \<and> ni_Containers i = [] \<and> (?own = Current_instance \<or> ?own = Legacy_unlabeled \<and> allowLegacy) then Some i else None)"
      unfolding Inspected removeUnusedNetwork_def summarizeNetwork_def Let_def
      using own(3) by (cases ?own) (simp_all add: b)
    then show ?thesis using ok Inspected own(1,2) by auto
  next
    case sys
    then have "cleanup_blocker instanceId i (length (ni_Containers i)) \<notin> {None, Some ''legacy_confirmation_required''}"
      by (auto simp: cleanup_blocker_def SYSTEM_NETWORK_NAMES_def)
    then show ?thesis using sys by (auto simp: removal_blocked Inspected)
  next
    case drv
    then have "cleanup_blocker instanceId i (length (ni_Containers i)) \<notin> {None, Some ''legacy_confirmation_required''}"
      by (auto simp: cleanup_blocker_def)
    then show ?thesis using drv by (auto simp: removal_blocked Inspected)
  qed
qed (simp_all add: removeUnusedNetwork_def)

text \<open>
  The documented condition (docs/wiki/MCP-Tools-Reference.md) for a network that is not this instance's own is that it is a
  label-less legacy network named ol-*. The code also removes a network of another name that carries the managed label.
\<close>

definition labelled_network :: network_info where
  "labelled_network = \<lparr>ni_Id = ''n1'', ni_Name = ''analytics'', ni_Driver = ''bridge'', ni_Scope = ''local'',
     ni_Subnets = [Some ''10.20.1.0/24''], ni_Labels = [''openlander.managed'' \<mapsto> ''true''], ni_Containers = []\<rparr>"

theorem managed_network_of_any_name_removed:
  "fst (removeUnusedNetwork (Some ''instance-1'') ''analytics'' ''n1'' True (Inspected labelled_network) removed) = Some labelled_network
   \<and> \<not> starts_with ''ol-'' (ni_Name labelled_network) \<and> ni_Labels labelled_network ''openlander.managed'' \<noteq> None"
  by (simp add: removeUnusedNetwork_def summarizeNetwork_def cleanup_blocker_def network_ownership_def labelled_network_def
      SYSTEM_NETWORK_NAMES_def starts_with_def Let_def)

end
