(* ===== verification/Port_Allocator.thy ===== *)
theory Port_Allocator
  imports Decimal
begin

text \<open>
  Host ports (\<open>src/src/pipeline/port.ts\<close>): reading the listening ports from the output of \<open>ss\<close>, \<open>lsof\<close> and
  \<open>/proc/net/tcp\<close>, the scan with its cache, and the allocation with the reservations that concurrent deploys see. What the commands
  print, what Docker lists and what the database holds are arguments.
\<close>

section \<open>Reading the output of commands\<close>

definition port_number :: "nat \<Rightarrow> nat option" where
  "port_number port = (if 0 < port \<and> port \<le> 65535 then Some port else None)"

text \<open>\<open>/[:[]([0-9]+)]?\s*$/\<close>: the digits that end the line, up to one bracket and spaces, after a colon or an opening bracket.\<close>

definition ss_digits :: "string \<Rightarrow> string option" where
  "ss_digits line =
     (let back = dropWhile is_space (rev line);
          back' = (case back of [] \<Rightarrow> [] | x # xs \<Rightarrow> if x = CHR '']'' then xs else x # xs);
          digits = rev (takeWhile is_digit back');
          before = dropWhile is_digit back'
      in if digits \<noteq> [] \<and> before \<noteq> [] \<and> hd before \<in> {CHR '':'', CHR ''[''} then Some digits else None)"

definition parseSSOutput :: "string \<Rightarrow> nat list" where
  "parseSSOutput output =
     List.map_filter (\<lambda>line. case ss_digits line of None \<Rightarrow> None | Some d \<Rightarrow> port_number (read_nat d)) (js_split CHR 0x0A output)"

text \<open>\<open>s.split(/\s+/)\<close>.\<close>

function split_spaces :: "string \<Rightarrow> string list" where
  "split_spaces s =
     (let word = takeWhile (\<lambda>c. \<not> is_space c) s; rest = dropWhile (\<lambda>c. \<not> is_space c) s
      in if rest = [] then [word] else word # split_spaces (dropWhile is_space rest))"
  by auto
termination
proof (relation "measure length", goal_cases)
  case (2 s w r)
  have "length (dropWhile is_space r) < length r"
  proof (cases r)
    case (Cons a x)
    with 2(2) have "is_space a" by (metis hd_dropWhile list.sel(1) list.distinct(1))
    then show ?thesis using length_dropWhile_le [of is_space x] by (simp add: Cons)
  qed (use 2 in simp)
  also have "length r \<le> length s" unfolding 2(2) by (rule length_dropWhile_le)
  finally show ?case by simp
qed simp

declare split_spaces.simps [simp del]

definition hex_digit :: "char \<Rightarrow> nat option" where
  "hex_digit c = (let n = of_char c in
     if 48 \<le> n \<and> n \<le> 57 then Some (n - 48) else if 65 \<le> n \<and> n \<le> 70 then Some (n - 55)
     else if 97 \<le> n \<and> n \<le> 102 then Some (n - 87) else None)"

fun hex_value :: "nat \<Rightarrow> string \<Rightarrow> nat" where
  "hex_value n [] = n"
| "hex_value n (c # cs) = (case hex_digit c of None \<Rightarrow> n | Some d \<Rightarrow> hex_value (16 * n + d) cs)"

text \<open>\<open>parseInt(s, 16)\<close> of a text without spaces: an optional sign and \<open>0x\<close>, and the longest run of hexadecimal digits; a
  negative number is no port, so it is \<open>None\<close> as \<open>NaN\<close> is.\<close>

definition parseHex :: "string \<Rightarrow> nat option" where
  "parseHex s =
     (let unsigned = (if starts_with ''+'' s then tl s else s);
          digits = (if starts_with ''0x'' unsigned \<or> starts_with ''0X'' unsigned then drop 2 unsigned else unsigned)
      in case digits of [] \<Rightarrow> None | c # _ \<Rightarrow> if hex_digit c = None then None else Some (hex_value 0 digits))"

definition proc_port :: "string \<Rightarrow> nat option" where
  "proc_port line =
     (let fields = split_spaces (js_trim line)
      in if length fields \<le> 3 \<or> fields ! 1 = [] \<or> fields ! 3 \<noteq> ''0A'' then None
         else (case js_split CHR '':'' (fields ! 1) of
                 _ # portHex # _ \<Rightarrow> if portHex = [] then None else (case parseHex portHex of None \<Rightarrow> None | Some port \<Rightarrow> port_number port)
               | _ \<Rightarrow> None))"

definition parseProcNetTcpOutput :: "string \<Rightarrow> nat list" where
  "parseProcNetTcpOutput output = List.map_filter proc_port (tl (js_split CHR 0x0A output))"

text \<open>\<open>/[:*]([0-9]+)\s*\(LISTEN\)?/\<close>, the first match in the line.\<close>

fun lsof_digits :: "string \<Rightarrow> string option" where
  "lsof_digits [] = None"
| "lsof_digits (c # cs) =
     (if c \<in> {CHR '':'', CHR ''*''} \<and> takeWhile is_digit cs \<noteq> []
         \<and> starts_with ''(LISTEN'' (dropWhile is_space (dropWhile is_digit cs))
      then Some (takeWhile is_digit cs) else lsof_digits cs)"

definition parseLsofOutput :: "string \<Rightarrow> nat list" where
  "parseLsofOutput output =
     List.map_filter (\<lambda>line. case lsof_digits line of None \<Rightarrow> None | Some d \<Rightarrow> port_number (read_nat d)) (js_split CHR 0x0A output)"

section \<open>The scan\<close>

text \<open>\<open>[...new Set(xs)]\<close>.\<close>

definition unique :: "'a list \<Rightarrow> 'a list" where
  "unique xs = rev (remdups (rev xs))"

datatype platform = Linux | Darwin | Other_platform

text \<open>What the commands print; \<open>Inl\<close> is the message of a command that fails, \<open>None\<close> a file that cannot be read.\<close>

record os_answers =
  oa_platform :: platform
  oa_ss :: "string + string"
  oa_lsof :: "string + string"
  oa_tcp4 :: "string option"
  oa_tcp6 :: "string option"

definition scanProcNetTcpPorts :: "os_answers \<Rightarrow> nat list" where
  "scanProcNetTcpPorts a =
     (let text = (\<lambda>f. case f of None \<Rightarrow> [] | Some t \<Rightarrow> t)
      in unique (parseProcNetTcpOutput (text (oa_tcp4 a)) @ parseProcNetTcpOutput (text (oa_tcp6 a))))"

definition scanLinuxPorts :: "os_answers \<Rightarrow> string + nat list" where
  "scanLinuxPorts a =
     (case oa_ss a of
        Inr stdout \<Rightarrow> Inr (parseSSOutput stdout)
      | Inl msg \<Rightarrow>
          if js_includes ''not found'' msg \<or> js_includes ''ENOENT'' msg \<or> js_includes ''127'' msg
          then Inr (scanProcNetTcpPorts a) else Inl msg)"

definition scanOSPorts :: "os_answers \<Rightarrow> nat list" where
  "scanOSPorts a =
     (case oa_platform a of
        Linux \<Rightarrow> (case scanLinuxPorts a of Inl _ \<Rightarrow> [] | Inr ports \<Rightarrow> ports)
      | Darwin \<Rightarrow> (case oa_lsof a of Inl _ \<Rightarrow> [] | Inr stdout \<Rightarrow> parseLsofOutput stdout)
      | Other_platform \<Rightarrow> [])"

definition OPENLANDER_DEFAULT_PORTS :: "nat list" where
  "OPENLANDER_DEFAULT_PORTS = [80, 443, 8080]"

definition PORT_SCAN_CACHE_TTL_MS :: int where "PORT_SCAN_CACHE_TTL_MS = 1000"

record port_scan_result =
  psr_db :: "nat list"
  psr_docker :: "nat list"
  psr_os :: "nat list"
  psr_all :: "nat list"
  psr_conflicts :: "nat list"

record scanned_container =
  sc_state :: string
  sc_ports :: "nat option list"

type_synonym port_scan_cache = "(port_scan_result \<times> int) option"

definition scanUsedPorts ::
    "port_scan_cache \<Rightarrow> int \<Rightarrow> nat list \<Rightarrow> string + scanned_container list \<Rightarrow> os_answers \<Rightarrow> port_scan_result \<times> port_scan_cache" where
  "scanUsedPorts portScanCache now dbPorts containers os =
     (case (case portScanCache of Some (r, timestamp) \<Rightarrow> if now - timestamp < PORT_SCAN_CACHE_TTL_MS then Some r else None | None \<Rightarrow> None) of
        Some r \<Rightarrow> (r, portScanCache)
      | None \<Rightarrow>
          (let dockerPorts = (case containers of
                 Inl _ \<Rightarrow> []
               | Inr cs \<Rightarrow> concat (map (\<lambda>ct. List.map_filter (\<lambda>p. p) (sc_ports ct)) (filter (\<lambda>ct. sc_state ct \<in> {''running'', ''restarting''}) cs)));
               osPorts = scanOSPorts os;
               allPorts = unique (dbPorts @ dockerPorts @ osPorts);
               result = \<lparr>psr_db = dbPorts, psr_docker = dockerPorts, psr_os = osPorts, psr_all = allPorts,
                         psr_conflicts = filter (\<lambda>p. p \<in> set OPENLANDER_DEFAULT_PORTS) allPorts\<rparr>
           in (result, Some (result, now))))"

section \<open>Allocation\<close>

record allocate_options =
  ao_preferredPort :: "nat option"
  ao_rangeStart :: "nat option"
  ao_rangeEnd :: "nat option"

definition policy_portRangeStart :: nat where "policy_portRangeStart = 10001"
definition policy_portRangeEnd :: nat where "policy_portRangeEnd = 10999"

text \<open>The part of \<open>allocatePort\<close> after the scan, which nothing interrupts: the port, or \<open>Inl\<close> the range that is
  exhausted, and the reservations. A preferred port 0 is falsy.\<close>

definition allocatePort :: "allocate_options \<Rightarrow> nat list \<Rightarrow> nat list \<Rightarrow> (nat \<times> nat + nat) \<times> nat list" where
  "allocatePort options usedPorts reservedPorts =
     (let rangeStart = (case ao_rangeStart options of Some n \<Rightarrow> n | None \<Rightarrow> policy_portRangeStart);
          rangeEnd = (case ao_rangeEnd options of Some n \<Rightarrow> n | None \<Rightarrow> policy_portRangeEnd);
          usedSet = usedPorts @ reservedPorts
      in case (case ao_preferredPort options of Some p \<Rightarrow> if p \<noteq> 0 \<and> p \<notin> set usedSet then Some p else None | None \<Rightarrow> None) of
           Some p \<Rightarrow> (Inr p, List.insert p reservedPorts)
         | None \<Rightarrow>
             (case find (\<lambda>port. port \<notin> set usedSet) [rangeStart..<Suc rangeEnd] of
                Some port \<Rightarrow> (Inr port, List.insert port reservedPorts)
              | None \<Rightarrow> (Inl (rangeStart, rangeEnd), reservedPorts)))"

definition releasePortReservation :: "nat \<Rightarrow> nat list \<Rightarrow> nat list" where
  "releasePortReservation port reservedPorts = removeAll port reservedPorts"

definition isPortAvailable :: "nat list \<Rightarrow> nat \<Rightarrow> bool" where
  "isPortAvailable usedPorts port \<longleftrightarrow> port \<notin> set usedPorts"

section \<open>Deploys at a time\<close>

text \<open>
  The reservations of the process and what happened so far, the newest event first: a deploy was given a port after the scan that it saw, a
  reservation was freed, the process started anew and lost all reservations. Each deploy scans and allocates when its scan is back. A
  release is not tied to a deploy or to the end of its use: the code frees the reservation right after it created the container
  (\<open>pipeline/deploy/run-step.ts\<close>, \<open>pipeline/compose.ts\<close>), and once more when it rolls back; so any port may be released at any time.
\<close>

datatype port_event =
    Given nat allocate_options "nat list" nat
  | Freed nat
  | Restarted

record port_state =
  ps_reserved :: "nat list"
  ps_log :: "port_event list"

inductive port_step :: "port_state \<Rightarrow> port_state \<Rightarrow> bool" where
  allocate: "allocatePort options usedPorts (ps_reserved s) = (Inr port, reserved) \<Longrightarrow>
     port_step s (s\<lparr>ps_reserved := reserved, ps_log := Given job options usedPorts port # ps_log s\<rparr>)"
| exhausted: "allocatePort options usedPorts (ps_reserved s) = (Inl e, reserved) \<Longrightarrow> port_step s (s\<lparr>ps_reserved := reserved\<rparr>)"
| release_port: "port_step s (s\<lparr>ps_reserved := releasePortReservation port (ps_reserved s), ps_log := Freed port # ps_log s\<rparr>)"
| restart: "port_step s (s\<lparr>ps_reserved := [], ps_log := Restarted # ps_log s\<rparr>)"

inductive port_reachable :: "port_state \<Rightarrow> bool" where
  start: "port_reachable \<lparr>ps_reserved = [], ps_log = []\<rparr>"
| step: "port_reachable s \<Longrightarrow> port_step s s' \<Longrightarrow> port_reachable s'"

lemma allocate_new:
  assumes "allocatePort options usedPorts reservedPorts = (Inr port, reserved)"
  shows "port \<notin> set usedPorts" "port \<notin> set reservedPorts" "set reserved = insert port (set reservedPorts)"
    "ao_preferredPort options = Some port \<or>
     (case ao_rangeStart options of Some n \<Rightarrow> n | None \<Rightarrow> policy_portRangeStart) \<le> port \<and>
     port \<le> (case ao_rangeEnd options of Some n \<Rightarrow> n | None \<Rightarrow> policy_portRangeEnd)"
proof -
  let ?pref = "case ao_preferredPort options of Some p \<Rightarrow> if p \<noteq> 0 \<and> p \<notin> set (usedPorts @ reservedPorts) then Some p else None | None \<Rightarrow> None"
  let ?start = "case ao_rangeStart options of Some n \<Rightarrow> n | None \<Rightarrow> policy_portRangeStart"
  let ?stop = "case ao_rangeEnd options of Some n \<Rightarrow> n | None \<Rightarrow> policy_portRangeEnd"
  consider "?pref = Some port" | "?pref = None" "find (\<lambda>p. p \<notin> set (usedPorts @ reservedPorts)) [?start..<Suc ?stop] = Some port"
    using assms by (auto simp: allocatePort_def Let_def split: option.splits)
  then have "port \<notin> set (usedPorts @ reservedPorts) \<and> (ao_preferredPort options = Some port \<or> ?start \<le> port \<and> port \<le> ?stop)"
  proof cases
    case 1
    then show ?thesis by (auto split: option.splits if_splits)
  next
    case 2
    from find_Some_iff [THEN iffD1, OF 2(2)] obtain i where
      i: "i < length [?start..<Suc ?stop]" "port \<notin> set (usedPorts @ reservedPorts)" "port = [?start..<Suc ?stop] ! i" by blast
    then have "port \<in> set [?start..<Suc ?stop]" by (metis nth_mem)
    then show ?thesis using i(2) by (auto simp del: upt_Suc)
  qed
  then show "port \<notin> set usedPorts" "port \<notin> set reservedPorts"
    "ao_preferredPort options = Some port \<or> ?start \<le> port \<and> port \<le> ?stop" by auto
  show "set reserved = insert port (set reservedPorts)"
    using assms by (auto simp: allocatePort_def Let_def split: option.splits)
qed

text \<open>The ports that were given and not freed since.\<close>

fun outstanding :: "port_event list \<Rightarrow> nat set" where
  "outstanding [] = {}"
| "outstanding (Given job options usedPorts port # l) = insert port (outstanding l)"
| "outstanding (Freed port # l) = outstanding l - {port}"
| "outstanding (Restarted # l) = {}"

lemma not_outstanding_freed:
  "port \<notin> outstanding (ys @ Given job options usedPorts port # xs) \<Longrightarrow> Freed port \<in> set ys \<or> Restarted \<in> set ys"
proof (induction ys)
  case (Cons y ys)
  then show ?case by (cases y) auto
qed simp

definition grants_separated :: "port_event list \<Rightarrow> bool" where
  "grants_separated l \<longleftrightarrow>
     (\<forall>zs j2 o2 u2 port ys j1 o1 u1 xs. l = zs @ Given j2 o2 u2 port # ys @ Given j1 o1 u1 port # xs \<longrightarrow>
        Freed port \<in> set ys \<or> Restarted \<in> set ys)"

lemma grants_separated_other:
  assumes "grants_separated l" and "\<And>j opts u p. e \<noteq> Given j opts u p"
  shows "grants_separated (e # l)"
  unfolding grants_separated_def
proof (intro allI impI)
  fix zs j2 o2 u2 port ys j1 o1 u1 xs
  assume "e # l = zs @ Given j2 o2 u2 port # ys @ Given j1 o1 u1 port # xs"
  then obtain zs' where "l = zs' @ Given j2 o2 u2 port # ys @ Given j1 o1 u1 port # xs"
    using assms(2) by (cases zs) auto
  then show "Freed port \<in> set ys \<or> Restarted \<in> set ys" using assms(1) unfolding grants_separated_def by blast
qed

lemma grants_separated_given:
  assumes "grants_separated l" and "port \<notin> outstanding l"
  shows "grants_separated (Given job options usedPorts port # l)"
  using assms not_outstanding_freed unfolding grants_separated_def by (fastforce simp: Cons_eq_append_conv)

text \<open>A port is given only outside of the scan, as the preferred one or from the range.\<close>

fun grant_ok :: "port_event \<Rightarrow> bool" where
  "grant_ok (Given job options usedPorts port) \<longleftrightarrow>
     port \<notin> set usedPorts \<and>
     (ao_preferredPort options = Some port \<or>
      (case ao_rangeStart options of Some n \<Rightarrow> n | None \<Rightarrow> policy_portRangeStart) \<le> port \<and>
      port \<le> (case ao_rangeEnd options of Some n \<Rightarrow> n | None \<Rightarrow> policy_portRangeEnd))"
| "grant_ok _ = True"

lemma port_invariant:
  "port_reachable s \<Longrightarrow>
     set (ps_reserved s) = outstanding (ps_log s) \<and> grants_separated (ps_log s) \<and> (\<forall>e\<in>set (ps_log s). grant_ok e)"
proof (induction rule: port_reachable.induct)
  case start
  show ?case by (simp add: grants_separated_def)
next
  case (step s s')
  then have r: "set (ps_reserved s) = outstanding (ps_log s)" and g: "grants_separated (ps_log s)"
    and k: "\<forall>e\<in>set (ps_log s). grant_ok e" by auto
  from step.hyps(2) show ?case
  proof cases
    case (allocate options usedPorts port reserved job)
    note new = allocate_new [OF allocate(2)]
    have "grants_separated (Given job options usedPorts port # ps_log s)"
      using grants_separated_given [OF g] new(2) r by simp
    moreover have "grant_ok (Given job options usedPorts port)" using new(1,4) by simp
    ultimately show ?thesis using k r new(3) allocate(1) by simp
  next
    case (exhausted options usedPorts e reserved)
    then have "reserved = ps_reserved s" by (auto simp: allocatePort_def Let_def split: option.splits)
    then show ?thesis using r g k exhausted(1) by simp
  next
    case (release_port port)
    then show ?thesis using r k grants_separated_other [OF g] by (auto simp: releasePortReservation_def)
  next
    case restart
    then show ?thesis using k grants_separated_other [OF g] by simp
  qed
qed

text \<open>
  C30. In every interleaving of scans, allocations, releases and restarts, and whatever the scans report (also one shared result of the cache), a
  port that was given to a deploy is given again only after its reservation was freed or the process started anew; it is given only when the
  scan of the deploy does not list it, and only as the preferred port or from the range; and the reservations are exactly the ports
  given and not freed since. A reservation may be freed while the port is in use: from then on it is the scan that protects it.
\<close>

theorem concurrent_ports_distinct:
  assumes "port_reachable s"
  shows "(\<forall>zs j2 o2 u2 port ys j1 o1 u1 xs. ps_log s = zs @ Given j2 o2 u2 port # ys @ Given j1 o1 u1 port # xs \<longrightarrow>
       Freed port \<in> set ys \<or> Restarted \<in> set ys) \<and>
    (\<forall>job options usedPorts port. Given job options usedPorts port \<in> set (ps_log s) \<longrightarrow>
       port \<notin> set usedPorts \<and>
       (ao_preferredPort options = Some port \<or>
        (case ao_rangeStart options of Some n \<Rightarrow> n | None \<Rightarrow> 10001) \<le> port \<and>
        port \<le> (case ao_rangeEnd options of Some n \<Rightarrow> n | None \<Rightarrow> 10999))) \<and>
    set (ps_reserved s) = outstanding (ps_log s)"
proof -
  note inv = port_invariant [OF assms]
  have ok: "\<forall>job options usedPorts port. Given job options usedPorts port \<in> set (ps_log s) \<longrightarrow> grant_ok (Given job options usedPorts port)"
    using inv by blast
  show ?thesis
    using inv ok unfolding grant_ok.simps policy_portRangeStart_def policy_portRangeEnd_def grants_separated_def by blast
qed

definition any_port :: allocate_options where
  "any_port = \<lparr>ao_preferredPort = None, ao_rangeStart = Some 7, ao_rangeEnd = Some 9\<rparr>"

text \<open>Port 8 is given, freed while it is in use, not given to the next deploy, whose scan lists it, and given again when the scan does not.\<close>

theorem concurrent_ports_distinct_witness:
  "\<exists>s. port_reachable s \<and> ps_log s = [Given 3 any_port [7] 8, Given 2 any_port [7, 8] 9, Freed 8, Given 1 any_port [7] 8] \<and>
     Freed 8 \<in> set [Given 2 any_port [7, 8] 9, Freed 8] \<and> set (ps_reserved s) = {8, 9}"
proof -
  let ?l1 = "[Given 1 any_port [7] 8]" and ?l2 = "[Freed 8, Given 1 any_port [7] 8]"
  let ?l3 = "[Given 2 any_port [7, 8] 9, Freed 8, Given 1 any_port [7] 8]"
  let ?l4 = "[Given 3 any_port [7] 8, Given 2 any_port [7, 8] 9, Freed 8, Given 1 any_port [7] 8]"
  have 1: "allocatePort any_port [7] [] = (Inr 8, [8])" by code_simp
  have 2: "allocatePort any_port [7, 8] [] = (Inr 9, [9])" by code_simp
  have 3: "allocatePort any_port [7] [9] = (Inr 8, [8, 9])" by code_simp
  have "port_step \<lparr>ps_reserved = [], ps_log = []\<rparr> \<lparr>ps_reserved = [8], ps_log = ?l1\<rparr>"
    using port_step.allocate [of any_port "[7]" "\<lparr>ps_reserved = [], ps_log = []\<rparr>" 8 "[8]" 1] 1 by simp
  with port_reachable.start have s1: "port_reachable \<lparr>ps_reserved = [8], ps_log = ?l1\<rparr>" by (rule port_reachable.step)
  have "port_step \<lparr>ps_reserved = [8], ps_log = ?l1\<rparr> \<lparr>ps_reserved = [], ps_log = ?l2\<rparr>"
    using port_step.release_port [of "\<lparr>ps_reserved = [8], ps_log = ?l1\<rparr>" 8] by (simp add: releasePortReservation_def)
  with s1 have s2: "port_reachable \<lparr>ps_reserved = [], ps_log = ?l2\<rparr>" by (rule port_reachable.step)
  have "port_step \<lparr>ps_reserved = [], ps_log = ?l2\<rparr> \<lparr>ps_reserved = [9], ps_log = ?l3\<rparr>"
    using port_step.allocate [of any_port "[7, 8]" "\<lparr>ps_reserved = [], ps_log = ?l2\<rparr>" 9 "[9]" 2] 2 by simp
  with s2 have s3: "port_reachable \<lparr>ps_reserved = [9], ps_log = ?l3\<rparr>" by (rule port_reachable.step)
  have "port_step \<lparr>ps_reserved = [9], ps_log = ?l3\<rparr> \<lparr>ps_reserved = [8, 9], ps_log = ?l4\<rparr>"
    using port_step.allocate [of any_port "[7]" "\<lparr>ps_reserved = [9], ps_log = ?l3\<rparr>" 8 "[8, 9]" 3] 3 by simp
  with s3 have s4: "port_reachable \<lparr>ps_reserved = [8, 9], ps_log = ?l4\<rparr>" by (rule port_reachable.step)
  have "ps_log \<lparr>ps_reserved = [8, 9], ps_log = ?l4\<rparr> = [] @ Given 3 any_port [7] 8 # [Given 2 any_port [7, 8] 9, Freed 8] @ Given 1 any_port [7] 8 # []"
    by simp
  then have "Freed 8 \<in> set [Given 2 any_port [7, 8] 9, Freed 8] \<or> Restarted \<in> set [Given 2 any_port [7, 8] 9, Freed 8]"
    using concurrent_ports_distinct [OF s4] by blast
  moreover have "set [8, 9] = {8, 9 :: nat}" by simp
  ultimately show ?thesis using s4 by (intro exI [of _ "\<lparr>ps_reserved = [8, 9], ps_log = ?l4\<rparr>"]) simp
qed

text \<open>Reservations alone use up the range: without a release, the ports of deploys that ended long ago stay reserved.\<close>

lemma find_range_None: "find (\<lambda>port. port \<notin> set xs) [a..<Suc b] = None \<longleftrightarrow> {a..b} \<subseteq> set xs"
  by (auto simp: find_None_iff atLeastLessThanSuc_atLeastAtMost simp del: upt_Suc)

lemma allocation_fails_iff:
  "(\<exists>e. fst (allocatePort \<lparr>ao_preferredPort = None, ao_rangeStart = None, ao_rangeEnd = None\<rparr> usedPorts reservedPorts) = Inl e) \<longleftrightarrow>
   {10001..10999} \<subseteq> set usedPorts \<union> set reservedPorts"
proof -
  have "(\<exists>e. fst (allocatePort \<lparr>ao_preferredPort = None, ao_rangeStart = None, ao_rangeEnd = None\<rparr> usedPorts reservedPorts) = Inl e) \<longleftrightarrow>
      find (\<lambda>port. port \<notin> set (usedPorts @ reservedPorts)) [policy_portRangeStart..<Suc policy_portRangeEnd] = None"
    unfolding allocatePort_def Let_def allocate_options.select_convs option.case by (auto split: option.split simp del: upt_Suc)
  also have "\<dots> \<longleftrightarrow> {policy_portRangeStart..policy_portRangeEnd} \<subseteq> set (usedPorts @ reservedPorts)" by (rule find_range_None)
  finally show ?thesis unfolding policy_portRangeStart_def policy_portRangeEnd_def set_append .
qed

section \<open>What the scan of \<open>ss\<close> sees\<close>

text \<open>The column of the peer ends a line of \<open>ss -tln\<close>, and for a listening socket it ends in \<open>:*\<close>; the pattern wants
  digits there.\<close>

definition ends_without_digits :: "string \<Rightarrow> bool" where
  "ends_without_digits line \<longleftrightarrow> (case dropWhile is_space (rev line) of [] \<Rightarrow> True | x # _ \<Rightarrow> \<not> is_digit x \<and> x \<noteq> CHR '']'')"

lemma ss_listing_not_read:
  assumes "list_all ends_without_digits (js_split CHR 0x0A output)"
  shows "parseSSOutput output = []"
proof -
  have "ss_digits line = None" if "ends_without_digits line" for line
  proof -
    obtain xs where xs: "dropWhile is_space (rev line) = xs" by blast
    from that show ?thesis
      unfolding ends_without_digits_def ss_digits_def Let_def xs by (cases xs) auto
  qed
  then have "\<forall>line \<in> set (js_split CHR 0x0A output). ss_digits line = None" using assms by (simp add: list_all_iff)
  then show ?thesis by (auto simp: parseSSOutput_def List.map_filter_def filter_empty_conv)
qed

lemma ss_listing_example:
  "parseSSOutput (''State   Recv-Q  Send-Q  Local Address:Port  Peer Address:Port'' @ [CHR 0x0A] @ ''LISTEN  0  128  *:80  *:*'' @ [CHR 0x0A]) = []"
  by (rule ss_listing_not_read) code_simp

end
